(* ===== verification/Prelude.thy ===== *)
theory Prelude
  imports Main "HOL-Library.Word"
begin

text \<open>
  Types, fault values and vector operations every other theory uses.

  \<^item> Machine integers are words of their width (\<open>u8\<close>, \<open>u16\<close>, \<open>u32\<close>, \<open>u64\<close>). A \<open>size_t\<close> is a
    \<^typ>\<open>nat\<close>; the places where the code subtracts or adds sizes in a way that can leave
    the 64-bit range use \<open>sz_sub\<close> and \<open>sz_add\<close>, which wrap.
  \<^item> A computation that can throw, or whose behaviour the C++ standard leaves undefined, has type
    \<open>'a result\<close>: \<open>Inl f\<close> is the fault, \<open>Inr x\<close> the value. \<open>Undefined\<close> stands for undefined
    behaviour (an out-of-range iterator, a null dereference, a division by zero).
  \<^item> \<open>vec_at\<close>, \<open>vec_erase_front\<close>, \<open>vec_erase_back\<close>, \<open>vec_slice\<close> and \<open>vec_resize\<close> are
    \<open>std::vector\<close>'s \<open>at\<close>, \<open>erase\<close>, iterator-range construction and \<open>resize\<close>.
\<close>

unbundle bit_operations_syntax

named_theorems result_simps \<open>evaluation of fault-propagating computations\<close>
named_theorems vec_simps \<open>vector operations inside their ranges\<close>

section \<open>Machine types\<close>

type_synonym u8 = "8 word"
type_synonym u16 = "16 word"
type_synonym u32 = "32 word"
type_synonym u64 = "64 word"
type_synonym bytes = "u8 list"

definition sz_sub :: "nat \<Rightarrow> nat \<Rightarrow> nat" where
  "sz_sub a b = (if b \<le> a then a - b else a + 2 ^ 64 - b)"

definition sz_add :: "nat \<Rightarrow> nat \<Rightarrow> nat" where
  "sz_add a b = (a + b) mod 2 ^ 64"

definition sz_mul :: "nat \<Rightarrow> nat \<Rightarrow> nat" where
  "sz_mul a b = (a * b) mod 2 ^ 64"

lemma sz_sub_le [simp]: "b \<le> a \<Longrightarrow> sz_sub a b = a - b"
  by (simp add: sz_sub_def)

lemma sz_add_small [simp]: "a + b < 2 ^ 64 \<Longrightarrow> sz_add a b = a + b"
  by (simp add: sz_add_def)

lemma sz_mul_small [simp]: "a * b < 2 ^ 64 \<Longrightarrow> sz_mul a b = a * b"
  by (simp add: sz_mul_def)

section \<open>Faults and results\<close>

datatype fault =
    Out_Of_Range          \<comment> \<open>\<open>std::out_of_range\<close> from \<open>at\<close>\<close>
  | Length_Error          \<comment> \<open>\<open>std::length_error\<close> from \<open>resize\<close>\<close>
  | Thrown string         \<comment> \<open>a \<open>throw\<close> statement of the code (a string literal)\<close>
  | System_Error          \<comment> \<open>\<open>boost::system::system_error\<close> from a socket or port\<close>
  | Undefined             \<comment> \<open>undefined behaviour\<close>

type_synonym 'a result = "fault + 'a"

definition bindR :: "'a result \<Rightarrow> ('a \<Rightarrow> 'b result) \<Rightarrow> 'b result" where
  "bindR m f = (case m of Inl e \<Rightarrow> Inl e | Inr x \<Rightarrow> f x)"

lemma bindR_Inr [simp, result_simps]: "bindR (Inr x) f = f x"
  by (simp add: bindR_def)

lemma bindR_Inl [simp, result_simps]: "bindR (Inl e) f = Inl e"
  by (simp add: bindR_def)

lemma bindR_eq_Inr: "bindR m f = Inr y \<longleftrightarrow> (\<exists>x. m = Inr x \<and> f x = Inr y)"
  by (cases m) auto

lemma bindR_eq_Inl: "bindR r f = Inl e \<longleftrightarrow> r = Inl e \<or> (\<exists>x. r = Inr x \<and> f x = Inl e)"
  by (cases r) auto

lemma bindR_InrE:
  assumes "bindR m f = Inr y"
  obtains x where "m = Inr x" and "f x = Inr y"
  using assms by (auto simp: bindR_eq_Inr)

lemma bindR_assoc: "bindR (bindR m f) g = bindR m (\<lambda>x. bindR (f x) g)"
  by (cases m) auto

fun option_deref :: "'a option \<Rightarrow> 'a result" where
  "option_deref None = Inl Undefined"
| "option_deref (Some x) = Inr x"

fun option_at :: "'a option \<Rightarrow> 'a result" where
  "option_at None = Inl Out_Of_Range"
| "option_at (Some x) = Inr x"

section \<open>Vectors\<close>

definition vec_at :: "'a list \<Rightarrow> nat \<Rightarrow> 'a result" where
  "vec_at xs i = (if i < length xs then Inr (xs ! i) else Inl Out_Of_Range)"

definition vec_erase_front :: "nat \<Rightarrow> 'a list \<Rightarrow> 'a list result" where
  "vec_erase_front n xs = (if n \<le> length xs then Inr (drop n xs) else Inl Undefined)"

definition vec_erase_back :: "nat \<Rightarrow> 'a list \<Rightarrow> 'a list result" where
  "vec_erase_back n xs = (if n \<le> length xs then Inr (take (length xs - n) xs) else Inl Undefined)"

definition vec_slice :: "nat \<Rightarrow> nat \<Rightarrow> 'a list \<Rightarrow> 'a list result" where
  "vec_slice i j xs = (if i \<le> j \<and> j \<le> length xs then Inr (take (j - i) (drop i xs)) else Inl Undefined)"

definition vec_max :: nat where
  "vec_max = 2 ^ 63 - 1"

definition pad_to :: "nat \<Rightarrow> bytes \<Rightarrow> bytes" where
  "pad_to n xs = take n xs @ replicate (n - length xs) 0"

definition vec_resize :: "nat \<Rightarrow> bytes \<Rightarrow> bytes result" where
  "vec_resize n xs = (if n \<le> vec_max then Inr (pad_to n xs) else Inl Length_Error)"

definition vec_set :: "nat \<Rightarrow> 'a \<Rightarrow> 'a list \<Rightarrow> 'a list result" where
  "vec_set i x xs = (if i < length xs then Inr (xs[i := x]) else Inl Out_Of_Range)"

lemma vec_at_in [simp, vec_simps]: "i < length xs \<Longrightarrow> vec_at xs i = Inr (xs ! i)"
  by (simp add: vec_at_def)

lemma vec_at_out [simp, vec_simps]: "length xs \<le> i \<Longrightarrow> vec_at xs i = Inl Out_Of_Range"
  by (simp add: vec_at_def)

lemma vec_erase_front_in [simp, vec_simps]:
  "n \<le> length xs \<Longrightarrow> vec_erase_front n xs = Inr (drop n xs)"
  by (simp add: vec_erase_front_def)

lemma vec_erase_back_in [simp, vec_simps]:
  "n \<le> length xs \<Longrightarrow> vec_erase_back n xs = Inr (take (length xs - n) xs)"
  by (simp add: vec_erase_back_def)

lemma vec_slice_in [simp, vec_simps]:
  "i \<le> j \<Longrightarrow> j \<le> length xs \<Longrightarrow> vec_slice i j xs = Inr (take (j - i) (drop i xs))"
  by (simp add: vec_slice_def)

lemma vec_resize_in [simp, vec_simps]: "n \<le> vec_max \<Longrightarrow> vec_resize n xs = Inr (pad_to n xs)"
  by (simp add: vec_resize_def)

lemma vec_set_in [simp, vec_simps]: "i < length xs \<Longrightarrow> vec_set i x xs = Inr (xs[i := x])"
  by (simp add: vec_set_def)

lemma length_pad_to [simp]: "length (pad_to n xs) = n"
  by (simp add: pad_to_def)

lemma pad_to_self [simp]: "pad_to (length xs) xs = xs"
  by (simp add: pad_to_def)

lemma pad_to_shrink: "n \<le> length xs \<Longrightarrow> pad_to n xs = take n xs"
  by (simp add: pad_to_def)

lemma pad_to_0 [simp]: "pad_to 0 xs = []"
  by (simp add: pad_to_def)

lemma vec_erase_front_append [simp]: "vec_erase_front (length h) (h @ xs) = Inr xs"
  by (simp add: vec_erase_front_def)

lemma vec_erase_back_append [simp]: "vec_erase_back (length f) (xs @ f) = Inr xs"
  by (simp add: vec_erase_back_def)

lemma vec_erase_0 [simp]: "vec_erase_front 0 xs = Inr xs" "vec_erase_back 0 xs = Inr xs"
  by (simp_all add: vec_erase_front_def vec_erase_back_def)

section \<open>Words\<close>

lemma xor_right_cancel [simp]: "a XOR c = b XOR c \<longleftrightarrow> a = b" for a :: "'a::len word"
proof
  assume "a XOR c = b XOR c"
  then have "(a XOR c) XOR c = (b XOR c) XOR c" by simp
  then show "a = b" by (simp add: xor.assoc)
qed simp

lemma xor_left_cancel [simp]: "c XOR a = c XOR b \<longleftrightarrow> a = b" for a :: "'a::len word"
  by (simp add: xor.commute [of c])

lemma xor_eq_0_iff [simp]: "a XOR b = 0 \<longleftrightarrow> a = b" for a :: "'a::len word"
  using xor_right_cancel [of a b b] by simp

lemma unat_u8_less [simp]: "unat (x :: u8) < 256"
  using unsigned_less [of x, where 'a = nat] by simp

lemma unat_u16_less [simp]: "unat (x :: u16) < 65536"
  using unsigned_less [of x, where 'a = nat] by simp

lemma unat_ucast_u8_u32 [simp]: "unat (ucast (x :: u8) :: u32) = unat x"
proof -
  have "unat x < 2 ^ 32" by (rule less_trans [OF unat_u8_less]) simp
  then have "take_bit 32 (unat x) = unat x" by (rule take_bit_nat_eq_self)
  then show ?thesis by (simp add: unsigned_ucast_eq)
qed

lemma unat_ucast_u8_u16 [simp]: "unat (ucast (x :: u8) :: u16) = unat x"
proof -
  have "unat x < 2 ^ 16" by (rule less_trans [OF unat_u8_less]) simp
  then have "take_bit 16 (unat x) = unat x" by (rule take_bit_nat_eq_self)
  then show ?thesis by (simp add: unsigned_ucast_eq)
qed

lemma unat_mult_small: "unat a * unat b < 2 ^ LENGTH('a) \<Longrightarrow> unat (a * b) = unat a * unat b"
  for a b :: "'a::len word"
  by (simp add: unat_mult_lem [THEN iffD1])

lemma unat_add_small: "unat a + unat b < 2 ^ LENGTH('a) \<Longrightarrow> unat (a + b) = unat a + unat b"
  for a b :: "'a::len word"
  by (simp add: unat_add_lem [THEN iffD1])

lemma unat_of_nat_small: "n < 2 ^ LENGTH('a) \<Longrightarrow> unat (word_of_nat n :: 'a::len word) = n"
  by (simp add: unsigned_of_nat take_bit_nat_eq_self)

section \<open>Lists cut into blocks\<close>

text \<open>\<open>blocks n xs\<close> cuts \<open>xs\<close> into pieces of \<open>n\<close> elements, the last one possibly shorter.\<close>

function blocks :: "nat \<Rightarrow> 'a list \<Rightarrow> 'a list list" where
  "blocks n xs = (if xs = [] \<or> n = 0 then [] else take n xs # blocks n (drop n xs))"
  by pat_completeness auto
termination
  by (relation "measure (\<lambda>(n, xs). length xs)") auto

declare blocks.simps [simp del]

lemma blocks_Nil [simp]: "blocks n [] = []"
  by (simp add: blocks.simps)

lemma blocks_step: "xs \<noteq> [] \<Longrightarrow> 0 < n \<Longrightarrow> blocks n xs = take n xs # blocks n (drop n xs)"
  by (simp add: blocks.simps [of n xs])

lemma concat_blocks [simp]: "0 < n \<Longrightarrow> concat (blocks n xs) = xs"
proof (induction n xs rule: blocks.induct)
  case (1 n xs)
  then show ?case
    by (cases "xs = []") (simp_all add: blocks_step)
qed

lemma blocks_bounds: "b \<in> set (blocks n xs) \<Longrightarrow> 0 < length b \<and> length b \<le> n"
proof (induction n xs rule: blocks.induct)
  case (1 n xs)
  show ?case
  proof (cases "xs = [] \<or> n = 0")
    case True
    with "1.prems" show ?thesis by (simp add: blocks.simps [of n xs])
  next
    case False
    with 1 show ?thesis by (auto simp: blocks_step)
  qed
qed

definition ceil_div :: "nat \<Rightarrow> nat \<Rightarrow> nat" where
  "ceil_div a b = a div b + (if a mod b = 0 then 0 else 1)"

lemma ceil_div_le: "a \<le> b \<Longrightarrow> 0 < a \<Longrightarrow> ceil_div a b = 1"
  by (cases "a = b") (auto simp: ceil_div_def)

lemma ceil_div_step: "0 < b \<Longrightarrow> b \<le> a \<Longrightarrow> ceil_div a b = Suc (ceil_div (a - b) b)"
  by (simp add: ceil_div_def le_div_geq le_mod_geq)

lemma ceil_div_0 [simp]: "ceil_div 0 b = 0"
  by (simp add: ceil_div_def)

lemma length_blocks: "0 < n \<Longrightarrow> length (blocks n xs) = ceil_div (length xs) n"
proof (induction n xs rule: blocks.induct)
  case (1 n xs)
  show ?case
  proof (cases "xs = []")
    case False
    show ?thesis
    proof (cases "n \<le> length xs")
      case True
      with False 1 show ?thesis by (simp add: blocks_step ceil_div_step)
    next
      case small: False
      with False 1 show ?thesis by (simp add: blocks_step ceil_div_le)
    qed
  qed simp
qed

lemma mult_ceil_div_ge: "0 < b \<Longrightarrow> a \<le> ceil_div a b * b"
proof -
  assume "0 < b"
  have "a = a div b * b + a mod b" by (simp only: div_mult_mod_eq)
  moreover have "a mod b < b" using \<open>0 < b\<close> by simp
  ultimately have "a \<le> b + a div b * b" by linarith
  then show ?thesis
    using \<open>a = a div b * b + a mod b\<close> by (cases "a mod b = 0") (simp_all add: ceil_div_def)
qed

end
