(* ===== verification/Parameters.thy ===== *)
theory Parameters
  imports Prelude
begin

text \<open>
  The enumerations and constants of \<open>include/Parameters.h\<close>: every \<open>enum class\<close> is a datatype with
  the source's enumerators and a function giving the underlying value; the two name tables of the
  ring-buffer types are association lists read with \<^const>\<open>map_of\<close>; the arithmetic operators that
  \<open>src/Utilities.cpp\<close> defines on the enumerations are functions on the underlying words.
\<close>

section \<open>Constants\<close>

definition RECV_BUFF_LEN :: nat where "RECV_BUFF_LEN = 1024"
definition SEND_BUFF_LEN :: nat where "SEND_BUFF_LEN = 1024"
definition DEBUG :: bool where "DEBUG = True"

section \<open>System error flags\<close>

datatype errors_system =
    reading_packet | reading_frame | reading_invalid | writing_invalid
  | frame_packetizing | packet_framing | commanding | uplink_forwarding
  | downlink_buffering | command_lookup | buffer_lookup | spw_vcrc | spw_length

fun err_shift :: "errors_system \<Rightarrow> nat" where
  "err_shift reading_packet = 0"
| "err_shift reading_frame = 1"
| "err_shift reading_invalid = 2"
| "err_shift writing_invalid = 3"
| "err_shift frame_packetizing = 4"
| "err_shift packet_framing = 5"
| "err_shift commanding = 6"
| "err_shift uplink_forwarding = 7"
| "err_shift downlink_buffering = 8"
| "err_shift command_lookup = 9"
| "err_shift buffer_lookup = 10"
| "err_shift spw_vcrc = 11"
| "err_shift spw_length = 12"

definition err_bits :: "errors_system \<Rightarrow> u16" where
  "err_bits e = push_bit (err_shift e) 0x01"

text \<open>The compound operators of \<open>Utilities.cpp\<close>: \<open>errors |= e\<close>, \<open>errors &= e\<close> and \<open>~e\<close>.\<close>

definition err_or :: "u16 \<Rightarrow> errors_system \<Rightarrow> u16" where
  "err_or l r = l OR err_bits r"

definition err_and :: "u16 \<Rightarrow> errors_system \<Rightarrow> u16" where
  "err_and l r = l AND err_bits r"

definition err_not :: "errors_system \<Rightarrow> u16" where
  "err_not e = NOT (err_bits e)"

definition err_set :: "u16 \<Rightarrow> errors_system \<Rightarrow> bool" where
  "err_set l e = (err_and l e \<noteq> 0)"

text \<open>The idiom \<open>errors &= ~e\<close> of the transport layer and the loop.\<close>

definition err_clear :: "u16 \<Rightarrow> errors_system \<Rightarrow> u16" where
  "err_clear l e = l AND err_not e"

lemma err_shift_less: "err_shift e < 16"
  by (cases e) simp_all

lemma err_shift_inj: "err_shift a = err_shift b \<longleftrightarrow> a = b"
  by (cases a; cases b; simp)

lemma bit_err_bits: "bit (err_bits e) n \<longleftrightarrow> n = err_shift e"
  using err_shift_less [of e] by (auto simp: err_bits_def bit_simps)

lemma err_set_bit: "err_set l e \<longleftrightarrow> bit l (err_shift e)"
proof
  assume "err_set l e"
  then obtain n where "bit (l AND err_bits e) n"
    by (auto simp: err_set_def err_and_def bit_eq_iff)
  then show "bit l (err_shift e)" by (auto simp: bit_and_iff bit_err_bits)
next
  assume "bit l (err_shift e)"
  then have "bit (l AND err_bits e) (err_shift e)" by (simp add: bit_and_iff bit_err_bits)
  then show "err_set l e" by (auto simp: err_set_def err_and_def)
qed

lemma err_set_or [simp]: "err_set (err_or l e) f \<longleftrightarrow> e = f \<or> err_set l f"
  by (auto simp: err_set_bit err_or_def bit_or_iff bit_err_bits err_shift_inj)

lemma err_set_clear [simp]: "err_set (err_clear l e) f \<longleftrightarrow> e \<noteq> f \<and> err_set l f"
  using err_shift_less [of f]
  by (auto simp: err_set_bit err_clear_def err_not_def bit_and_iff bit_not_iff bit_err_bits err_shift_inj)

lemma err_set_0 [simp]: "\<not> err_set 0 e"
  by (simp add: err_set_bit)

section \<open>Orders of the loop\<close>

text \<open>The pre-increment operators on the two loop enumerations, on the underlying
  \<open>unsigned short\<close>; the post-increment operators return the old value and leave this one.\<close>

definition SUBSYSTEM_COUNT :: u16 where "SUBSYSTEM_COUNT = 0x08"
definition STATE_COUNT :: u16 where "STATE_COUNT = 0x03"

datatype subsystem_order = HOUSEKEEPING | CDTE_1 | CMOS_1 | CDTE_2 | TIMEPIX | CDTE_3 | CMOS_5 | CDTE_4

fun subsystem_code :: "subsystem_order \<Rightarrow> u16" where
  "subsystem_code HOUSEKEEPING = 0x00"
| "subsystem_code CDTE_1 = 0x01"
| "subsystem_code CMOS_1 = 0x02"
| "subsystem_code CDTE_2 = 0x03"
| "subsystem_code TIMEPIX = 0x04"
| "subsystem_code CDTE_3 = 0x05"
| "subsystem_code CMOS_5 = 0x06"
| "subsystem_code CDTE_4 = 0x07"

definition subsystem_inc :: "u16 \<Rightarrow> u16" where
  "subsystem_inc order = (let order = order + 1 in if order = SUBSYSTEM_COUNT then 0 else order)"

definition subsystem_post_inc :: "u16 \<Rightarrow> u16 \<times> u16" where
  "subsystem_post_inc order = (order, subsystem_inc order)"

datatype state_order = CMD_SEND | DATA_RECV | IDLE

fun state_code :: "state_order \<Rightarrow> u16" where
  "state_code CMD_SEND = 0x00"
| "state_code DATA_RECV = 0x01"
| "state_code IDLE = 0x02"

definition state_inc :: "u16 \<Rightarrow> u16" where
  "state_inc order = (let order = order + 1 in if order = STATE_COUNT then 0 else order)"

definition state_post_inc :: "u16 \<Rightarrow> u16 \<times> u16" where
  "state_post_inc order = (order, state_inc order)"

lemma subsystem_inc_cycles:
  "map (\<lambda>k. (subsystem_inc ^^ k) 0) [0..<9] = [0, 1, 2, 3, 4, 5, 6, 7, 0]"
  by code_simp

lemma state_inc_cycles: "map (\<lambda>k. (state_inc ^^ k) 0) [0..<4] = [0, 1, 2, 0]"
  by code_simp

section \<open>Interface, data and end-of-packet types\<close>

datatype command_type = CMD_NONE | CMD_SPW | CMD_UART | CMD_SPI | CMD_ETHERNET

fun command_type_code :: "command_type \<Rightarrow> u8" where
  "command_type_code CMD_NONE = 0x00"
| "command_type_code CMD_SPW = 0x01"
| "command_type_code CMD_UART = 0x02"
| "command_type_code CMD_SPI = 0x03"
| "command_type_code CMD_ETHERNET = 0x05"

datatype ring_type = PC | QL | HK | TPX | PCAP | POW | RTD | INTRO | PING | REPLY | RB_NONE

fun ring_code :: "ring_type \<Rightarrow> u8" where
  "ring_code PC = 0x00"
| "ring_code QL = 0x01"
| "ring_code HK = 0x10"
| "ring_code TPX = 0x02"
| "ring_code PCAP = 0x03"
| "ring_code POW = 0x11"
| "ring_code RTD = 0x12"
| "ring_code INTRO = 0x13"
| "ring_code PING = 0x20"
| "ring_code REPLY = 0x30"
| "ring_code RB_NONE = 0xff"

lemma ring_code_inj [simp]: "ring_code a = ring_code b \<longleftrightarrow> a = b"
  by (cases a; cases b; simp)

text \<open>Relational operators on an \<open>enum class\<close> compare the underlying values.\<close>

instantiation ring_type :: linorder
begin

definition less_eq_ring_type :: "ring_type \<Rightarrow> ring_type \<Rightarrow> bool" where
  "less_eq_ring_type a b = (ring_code a \<le> ring_code b)"

definition less_ring_type :: "ring_type \<Rightarrow> ring_type \<Rightarrow> bool" where
  "less_ring_type a b = (ring_code a < ring_code b)"

instance
  by standard (auto simp: less_eq_ring_type_def less_ring_type_def order_less_le)

end

definition RING_BUFFER_TYPE_OPTIONS_NAMES :: "(ring_type \<times> string) list" where
  "RING_BUFFER_TYPE_OPTIONS_NAMES = [
     (PC, ''pc''),
     (QL, ''ql''),
     (TPX, ''tpx''),
     (PCAP, ''pcap''),
     (HK, ''hk''),
     (POW, ''pow''),
     (RTD, ''rtd''),
     (INTRO, ''intro''),
     (REPLY, ''reply''),
     (PING, ''ping''),
     (RB_NONE, ''none'')]"

definition RING_BUFFER_TYPE_OPTIONS_INV_NAMES :: "(string \<times> ring_type) list" where
  "RING_BUFFER_TYPE_OPTIONS_INV_NAMES = [
     (''pc'', PC),
     (''ql'', QL),
     (''tpx'', TPX),
     (''pcap'', PCAP),
     (''hk'', HK),
     (''pow'', POW),
     (''rtd'', RTD),
     (''intro'', INTRO),
     (''reply'', REPLY),
     (''ping'', PING),
     (''none'', RB_NONE)]"

definition ring_name :: "ring_type \<Rightarrow> string option" where
  "ring_name t = map_of RING_BUFFER_TYPE_OPTIONS_NAMES t"

definition ring_of_name :: "string \<Rightarrow> ring_type option" where
  "ring_of_name s = map_of RING_BUFFER_TYPE_OPTIONS_INV_NAMES s"

lemma ring_name_total: "ring_name t \<noteq> None"
  by (cases t) (simp_all add: ring_name_def RING_BUFFER_TYPE_OPTIONS_NAMES_def)

lemma ring_name_roundtrip: "ring_name t = Some s \<longleftrightarrow> ring_of_name s = Some t"
  by (cases t)
    (auto simp: ring_name_def ring_of_name_def RING_BUFFER_TYPE_OPTIONS_NAMES_def
      RING_BUFFER_TYPE_OPTIONS_INV_NAMES_def split: if_splits)

datatype spacewire_end = EOP | EEP | JUMBO

fun spacewire_end_code :: "spacewire_end \<Rightarrow> u8" where
  "spacewire_end_code EOP = 0x00"
| "spacewire_end_code EEP = 0x01"
| "spacewire_end_code JUMBO = 0x02"

section \<open>Flight and system states\<close>

datatype flight_state =
  FLIGHT_AWAIT | FLIGHT_PRELAUNCH | FLIGHT_LAUNCH | FLIGHT_SHUTTER | FLIGHT_END | FLIGHT_INVALID

fun flight_state_code :: "flight_state \<Rightarrow> u8" where
  "flight_state_code FLIGHT_AWAIT = 0x00"
| "flight_state_code FLIGHT_PRELAUNCH = 0x01"
| "flight_state_code FLIGHT_LAUNCH = 0x02"
| "flight_state_code FLIGHT_SHUTTER = 0x03"
| "flight_state_code FLIGHT_END = 0x04"
| "flight_state_code FLIGHT_INVALID = 0xff"

datatype system_state =
    SYS_OFF | SYS_AWAIT | SYS_STARTUP | SYS_INIT | SYS_LOOP | SYS_END
  | SYS_DISCONNECT | SYS_ABANDON | SYS_INVALID

fun system_state_code :: "system_state \<Rightarrow> u8" where
  "system_state_code SYS_OFF = 0x00"
| "system_state_code SYS_AWAIT = 0x01"
| "system_state_code SYS_STARTUP = 0x02"
| "system_state_code SYS_INIT = 0x03"
| "system_state_code SYS_LOOP = 0x04"
| "system_state_code SYS_END = 0x05"
| "system_state_code SYS_DISCONNECT = 0x06"
| "system_state_code SYS_ABANDON = 0x07"
| "system_state_code SYS_INVALID = 0xff"

lemma system_state_code_inj [simp]: "system_state_code a = system_state_code b \<longleftrightarrow> a = b"
  by (cases a; cases b; simp)

section \<open>Properties\<close>

text \<open>The two name tables of the ring-buffer types are inverse to each other, as their comments
  ask, and every type has a name.\<close>

theorem ring_names_inverse:
  "(ring_name t = Some s \<longleftrightarrow> ring_of_name s = Some t) \<and> ring_name t \<noteq> None"
  using ring_name_roundtrip ring_name_total by blast

text \<open>The error flags are independent: \<open>|=\<close> sets exactly the named flag and \<open>&= ~\<close> clears
  exactly the named flag, whatever the other bits of the 16-bit field hold.\<close>

theorem error_flags_independent:
  "(err_set (err_or l e) f \<longleftrightarrow> e = f \<or> err_set l f) \<and>
   (err_set (err_clear l e) f \<longleftrightarrow> e \<noteq> f \<and> err_set l f)"
  by simp

end
