(* ===== verification/Rmap_Crc.thy ===== *)
theory Rmap_Crc
  imports Prelude
begin

text \<open>
  The RMAP draft-F checksum: the 256-entry table (\<open>include/DataLinkLayer.h\<close>, and two identical
  copies in \<open>src/Utilities.cpp\<close>), the two loops of \<open>src/Utilities.cpp\<close> over it, and the theory the
  rest of the development uses: the table is the bitwise CRC-8 with the reflected polynomial
  \<open>0xE0\<close>, its step is linear and injective, so a message followed by its checksum leaves the
  residue 0 and a change confined to one byte always changes the checksum. These consequences are
  proved once in the locale \<open>checksum\<close> and reach the code's table through its interpretation.
\<close>

section \<open>The table and the loops\<close>

definition RMAPCRCTable :: "u8 list" where
  "RMAPCRCTable = [
  0x00, 0x91, 0xe3, 0x72, 0x07, 0x96, 0xe4, 0x75,
  0x0e, 0x9f, 0xed, 0x7c, 0x09, 0x98, 0xea, 0x7b,
  0x1c, 0x8d, 0xff, 0x6e, 0x1b, 0x8a, 0xf8, 0x69,
  0x12, 0x83, 0xf1, 0x60, 0x15, 0x84, 0xf6, 0x67,
  0x38, 0xa9, 0xdb, 0x4a, 0x3f, 0xae, 0xdc, 0x4d,
  0x36, 0xa7, 0xd5, 0x44, 0x31, 0xa0, 0xd2, 0x43,
  0x24, 0xb5, 0xc7, 0x56, 0x23, 0xb2, 0xc0, 0x51,
  0x2a, 0xbb, 0xc9, 0x58, 0x2d, 0xbc, 0xce, 0x5f,
  0x70, 0xe1, 0x93, 0x02, 0x77, 0xe6, 0x94, 0x05,
  0x7e, 0xef, 0x9d, 0x0c, 0x79, 0xe8, 0x9a, 0x0b,
  0x6c, 0xfd, 0x8f, 0x1e, 0x6b, 0xfa, 0x88, 0x19,
  0x62, 0xf3, 0x81, 0x10, 0x65, 0xf4, 0x86, 0x17,
  0x48, 0xd9, 0xab, 0x3a, 0x4f, 0xde, 0xac, 0x3d,
  0x46, 0xd7, 0xa5, 0x34, 0x41, 0xd0, 0xa2, 0x33,
  0x54, 0xc5, 0xb7, 0x26, 0x53, 0xc2, 0xb0, 0x21,
  0x5a, 0xcb, 0xb9, 0x28, 0x5d, 0xcc, 0xbe, 0x2f,
  0xe0, 0x71, 0x03, 0x92, 0xe7, 0x76, 0x04, 0x95,
  0xee, 0x7f, 0x0d, 0x9c, 0xe9, 0x78, 0x0a, 0x9b,
  0xfc, 0x6d, 0x1f, 0x8e, 0xfb, 0x6a, 0x18, 0x89,
  0xf2, 0x63, 0x11, 0x80, 0xf5, 0x64, 0x16, 0x87,
  0xd8, 0x49, 0x3b, 0xaa, 0xdf, 0x4e, 0x3c, 0xad,
  0xd6, 0x47, 0x35, 0xa4, 0xd1, 0x40, 0x32, 0xa3,
  0xc4, 0x55, 0x27, 0xb6, 0xc3, 0x52, 0x20, 0xb1,
  0xca, 0x5b, 0x29, 0xb8, 0xcd, 0x5c, 0x2e, 0xbf,
  0x90, 0x01, 0x73, 0xe2, 0x97, 0x06, 0x74, 0xe5,
  0x9e, 0x0f, 0x7d, 0xec, 0x99, 0x08, 0x7a, 0xeb,
  0x8c, 0x1d, 0x6f, 0xfe, 0x8b, 0x1a, 0x68, 0xf9,
  0x82, 0x13, 0x61, 0xf0, 0x85, 0x14, 0x66, 0xf7,
  0xa8, 0x39, 0x4b, 0xda, 0xaf, 0x3e, 0x4c, 0xdd,
  0xa6, 0x37, 0x45, 0xd4, 0xa1, 0x30, 0x42, 0xd3,
  0xb4, 0x25, 0x57, 0xc6, 0xb3, 0x22, 0x50, 0xc1,
  0xba, 0x2b, 0x59, 0xc8, 0xbd, 0x2c, 0x5e, 0xcf]"

definition crc_lookup :: "u8 \<Rightarrow> u8" where
  "crc_lookup x = RMAPCRCTable ! unat (x AND 0xff)"

definition spw_calculate_crc_uint_F :: "bytes \<Rightarrow> u8" where
  "spw_calculate_crc_uint_F data = foldl (\<lambda>crc d. crc_lookup (crc XOR d)) 0 data"

text \<open>
  The \<open>char\<close> version: each operand is promoted to \<open>int\<close> with its sign (a plain \<open>char\<close> is signed
  here), combined, and masked to the low byte before the table is indexed.
\<close>

definition spw_calculate_crc_F :: "8 word list \<Rightarrow> 8 word" where
  "spw_calculate_crc_F data =
     foldl (\<lambda>crc d. RMAPCRCTable ! unat ((scast crc XOR scast d :: 32 word) AND 0xff)) 0 data"

section \<open>The bitwise reference\<close>

definition crc_bit :: "u8 \<Rightarrow> u8" where
  "crc_bit c = (if bit c 0 then drop_bit 1 c XOR 0xe0 else drop_bit 1 c)"

definition crc_byte :: "u8 \<Rightarrow> u8" where
  "crc_byte c = crc_bit (crc_bit (crc_bit (crc_bit (crc_bit (crc_bit (crc_bit (crc_bit c)))))))"

definition crc_bitwise :: "bytes \<Rightarrow> u8" where
  "crc_bitwise data = foldl (\<lambda>crc d. crc_byte (crc XOR d)) 0 data"

lemma length_RMAPCRCTable: "length RMAPCRCTable = 256"
  by (simp add: RMAPCRCTable_def)

lemma all_bytes: "map word_of_nat [0..<256] = ([
    0, 1, 2, 3, 4, 5, 6, 7, 8, 9, 10, 11, 12, 13, 14, 15,
    16, 17, 18, 19, 20, 21, 22, 23, 24, 25, 26, 27, 28, 29, 30, 31,
    32, 33, 34, 35, 36, 37, 38, 39, 40, 41, 42, 43, 44, 45, 46, 47,
    48, 49, 50, 51, 52, 53, 54, 55, 56, 57, 58, 59, 60, 61, 62, 63,
    64, 65, 66, 67, 68, 69, 70, 71, 72, 73, 74, 75, 76, 77, 78, 79,
    80, 81, 82, 83, 84, 85, 86, 87, 88, 89, 90, 91, 92, 93, 94, 95,
    96, 97, 98, 99, 100, 101, 102, 103, 104, 105, 106, 107, 108, 109, 110, 111,
    112, 113, 114, 115, 116, 117, 118, 119, 120, 121, 122, 123, 124, 125, 126, 127,
    128, 129, 130, 131, 132, 133, 134, 135, 136, 137, 138, 139, 140, 141, 142, 143,
    144, 145, 146, 147, 148, 149, 150, 151, 152, 153, 154, 155, 156, 157, 158, 159,
    160, 161, 162, 163, 164, 165, 166, 167, 168, 169, 170, 171, 172, 173, 174, 175,
    176, 177, 178, 179, 180, 181, 182, 183, 184, 185, 186, 187, 188, 189, 190, 191,
    192, 193, 194, 195, 196, 197, 198, 199, 200, 201, 202, 203, 204, 205, 206, 207,
    208, 209, 210, 211, 212, 213, 214, 215, 216, 217, 218, 219, 220, 221, 222, 223,
    224, 225, 226, 227, 228, 229, 230, 231, 232, 233, 234, 235, 236, 237, 238, 239,
    240, 241, 242, 243, 244, 245, 246, 247, 248, 249, 250, 251, 252, 253, 254, 255] :: u8 list)"
  by (simp add: upt_conv_Cons)

lemma table_is_bitwise: "RMAPCRCTable = map crc_byte (map word_of_nat [0..<256])"
  unfolding all_bytes by code_simp

lemma and_ff_u8 [simp]: "(x :: u8) AND 0xff = x"
proof -
  have "(0xff :: u8) = - 1" by simp
  then show ?thesis by (simp only: and.right_neutral)
qed

lemma crc_lookup_bitwise: "crc_lookup x = crc_byte x"
  by (simp add: crc_lookup_def table_is_bitwise)

section \<open>Checksums with a linear step\<close>

text \<open>
  What the packet builders rely on, stated of any byte-wise checksum \<open>fold (step (r XOR d))\<close>: the
  step is linear over exclusive or and sends only 0 to 0.
\<close>

definition crc_fold :: "(u8 \<Rightarrow> u8) \<Rightarrow> u8 \<Rightarrow> bytes \<Rightarrow> u8" where
  "crc_fold step s xs = foldl (\<lambda>r d. step (r XOR d)) s xs"

lemma crc_fold_simps [simp]:
  "crc_fold step s [] = s"
  "crc_fold step s (x # xs) = crc_fold step (step (s XOR x)) xs"
  "crc_fold step s (xs @ ys) = crc_fold step (crc_fold step s xs) ys"
  by (simp_all add: crc_fold_def)

locale checksum =
  fixes step :: "u8 \<Rightarrow> u8"
  assumes step_xor: "step (x XOR y) = step x XOR step y"
    and step_zeroD: "step x = 0 \<Longrightarrow> x = 0"
begin

lemma step_0 [simp]: "step 0 = 0"
  using step_xor [of 0 0] by simp

lemma step_eq_iff [simp]: "step x = step y \<longleftrightarrow> x = y"
proof
  assume "step x = step y"
  then have "step (x XOR y) = 0" by (simp add: step_xor)
  then have "x XOR y = 0" by (rule step_zeroD)
  then show "x = y" by simp
qed simp

lemma step_eq_0 [simp]: "step x = 0 \<longleftrightarrow> x = 0"
  using step_eq_iff [of x 0] by simp

lemma residue: "crc_fold step s (xs @ [crc_fold step s xs]) = 0"
  by simp

lemma residue_iff: "crc_fold step s (xs @ [c]) = 0 \<longleftrightarrow> c = crc_fold step s xs"
  by auto

lemma seed_inj [simp]: "crc_fold step s xs = crc_fold step t xs \<longleftrightarrow> s = t"
  by (induction xs arbitrary: s t) simp_all

lemma one_byte_detected:
  "x \<noteq> y \<Longrightarrow> crc_fold step s (us @ x # vs) \<noteq> crc_fold step s (us @ y # vs)"
  by simp

lemma linear:
  "length xs = length ys \<Longrightarrow>
     crc_fold step (s XOR t) (map2 (XOR) xs ys) = crc_fold step s xs XOR crc_fold step t ys"
proof (induction xs ys arbitrary: s t rule: list_induct2)
  case (Cons x xs y ys)
  have "step ((s XOR t) XOR (x XOR y)) = step (s XOR x) XOR step (t XOR y)"
    by (simp add: step_xor ac_simps)
  then show ?case using Cons.IH by simp
qed simp

end

section \<open>The RMAP table satisfies the interface\<close>

lemma crc_bit_xor: "crc_bit (x XOR y) = crc_bit x XOR crc_bit y"
  by (simp add: crc_bit_def bit_xor_iff ac_simps)

lemma crc_bit_zeroD: "crc_bit x = 0 \<Longrightarrow> x = 0"
proof -
  assume z: "crc_bit x = 0"
  have top: "\<not> bit (drop_bit 1 x) 7"
    using bit_imp_le_length [of x 8] by (auto simp: bit_drop_bit_eq)
  have low: "\<not> bit x 0"
  proof
    assume "bit x 0"
    with z have "drop_bit 1 x = 0xe0" by (simp add: crc_bit_def)
    with top show False by simp
  qed
  with z have "drop_bit 1 x = 0" by (simp add: crc_bit_def)
  then have up: "\<not> bit x (Suc n)" for n
    by (metis bit_drop_bit_eq bit_0_eq bot_fun_def bot_bool_def comp_apply plus_1_eq_Suc)
  have "bit x n = bit 0 n" for n
    using low up by (cases n) simp_all
  then show "x = 0" by (rule bit_eqI)
qed

interpretation rmap: checksum crc_byte
proof
  show "crc_byte (x XOR y) = crc_byte x XOR crc_byte y" for x y
    by (simp add: crc_byte_def crc_bit_xor)
  show "crc_byte x = 0 \<Longrightarrow> x = 0" for x
    by (auto simp: crc_byte_def dest!: crc_bit_zeroD)
qed

lemma crc_uint_F_fold: "spw_calculate_crc_uint_F data = crc_fold crc_byte 0 data"
  by (simp add: spw_calculate_crc_uint_F_def crc_fold_def crc_lookup_bitwise)

lemma and_mask_scast:
  "((scast (a :: u8) XOR scast (b :: u8) :: u32) AND 0xff) = ucast (a XOR b)"
proof (rule bit_word_eqI)
  fix n
  assume n: "n < LENGTH(32)"
  have "(0xff :: u32) = mask 8" by (simp add: mask_eq_exp_minus_1)
  then have ff: "bit (0xff :: u32) n \<longleftrightarrow> n < 8"
    using n by (metis bit_mask_iff possible_bit_word)
  show "bit ((scast a XOR scast b :: u32) AND 0xff) n = bit (ucast (a XOR b) :: u32) n"
  proof (cases "n < 8")
    case True
    then have "min 7 n = n" by simp
    with True n ff show ?thesis
      by (simp add: bit_and_iff bit_xor_iff bit_unsigned_iff bit_signed_iff)
  next
    case False
    then have "\<not> bit a n" "\<not> bit b n" by (auto dest: bit_imp_le_length)
    with False n ff show ?thesis
      by (simp add: bit_and_iff bit_xor_iff bit_unsigned_iff)
  qed
qed

lemma crc_F_fold: "spw_calculate_crc_F data = crc_fold crc_byte 0 data"
proof -
  have "RMAPCRCTable ! unat ((scast c XOR scast d :: u32) AND 0xff) = crc_byte (c XOR d)" for c d :: u8
    using crc_lookup_bitwise [of "c XOR d"]
    by (simp add: and_mask_scast crc_lookup_def)
  then show ?thesis by (simp add: spw_calculate_crc_F_def crc_fold_def)
qed

section \<open>Properties of the checksum\<close>

text \<open>C35. The table-driven RMAP checksum of \<open>spw_calculate_crc_uint_F\<close> is the bitwise CRC-8 (shift
  right, exclusive or with \<open>0xE0\<close> on a carry, eight times per byte) on every input, and the
  \<open>char\<close> version, which indexes the table with a sign-extended value masked to a byte, computes
  the same function.\<close>

theorem crc_loops_are_bitwise_crc:
  "spw_calculate_crc_uint_F data = crc_bitwise data \<and> spw_calculate_crc_F data = crc_bitwise data"
  by (simp add: crc_uint_F_fold crc_F_fold crc_bitwise_def crc_fold_def)

text \<open>C34. The receiver's check: a message with its checksum appended has checksum 0, and no other
  appended byte does.\<close>

theorem crc_residue_zero_iff:
  "spw_calculate_crc_uint_F (data @ [c]) = 0 \<longleftrightarrow> c = spw_calculate_crc_uint_F data"
  unfolding crc_uint_F_fold by (rule rmap.residue_iff)

text \<open>Two messages that differ in one byte only, at any position, never have the same
  checksum, so a fault confined to one byte is always detected.\<close>

theorem crc_one_byte_fault_detected:
  "spw_calculate_crc_uint_F (us @ x # vs) = spw_calculate_crc_uint_F (us @ y # vs) \<longleftrightarrow> x = y"
  by (simp add: crc_uint_F_fold)

end
