(* ===== verification/Utilities.thy ===== *)
theory Utilities
  imports Parameters Rmap_Crc
begin

text \<open>
  \<open>src/Utilities.cpp\<close>: splitting integers into bytes and back, hexadecimal text and its parsing
  with \<open>strtol\<close>, the packet-length check, the console output of byte lists, and the log clean-up.
  Integers are split big-endian (the most significant byte first). A parse or print is a function
  of its text; \<open>strtol\<close> is written out as the C library defines it (white space, sign, optional
  prefix, longest run of digits, clamped to \<open>long\<close>).
\<close>

section \<open>Bytes of an integer\<close>

text \<open>The loop of \<open>splat_to_nbytes\<close>, from byte \<open>n - 1\<close> down to byte 0.\<close>

fun be_bytes :: "nat \<Rightarrow> u64 \<Rightarrow> bytes" where
  "be_bytes 0 data = []"
| "be_bytes (Suc i) data = ucast (drop_bit (i * 8) data AND 0xff) # be_bytes i data"

text \<open>The counter is an \<open>int\<close> that starts at \<open>n - 1\<close>; a shift of 64 or more is undefined.\<close>

definition splat_to_nbytes :: "nat \<Rightarrow> u64 \<Rightarrow> bytes result" where
  "splat_to_nbytes n data =
     (let i = signed_take_bit 31 (int n - 1) in
      if i < 0 then Inr []
      else if i < 8 then Inr (be_bytes (nat (i + 1)) data)
      else Inl Undefined)"

definition unsplat_from_4bytes :: "bytes \<Rightarrow> u32" where
  "unsplat_from_4bytes data =
     (if length data < 4 then 0
      else foldl (\<lambda>r i. r OR push_bit ((3 - i) * 8) (ucast (data ! i))) 0 [0, 1, 2, 3])"

definition swap_endian4 :: "bytes \<Rightarrow> bytes result" where
  "swap_endian4 data =
     bindR (vec_at data 3) (\<lambda>d3. bindR (vec_at data 2) (\<lambda>d2.
     bindR (vec_at data 1) (\<lambda>d1. bindR (vec_at data 0) (\<lambda>d0. Inr [d3, d2, d1, d0]))))"

definition check_packet_complete :: "bytes \<Rightarrow> bool" where
  "check_packet_complete data =
     (if length data < 12 then False
      else
        let length_remain = unsplat_from_4bytes (take 4 (drop 8 data));
            remain = drop 12 data
        in if unat length_remain < length remain then False else True)"

definition inc_mod :: "int \<Rightarrow> int \<Rightarrow> int result" where
  "inc_mod i n = (if i = 2 ^ 31 - 1 then Inl Undefined
                  else Inr (if i + 1 = n then 0 else i + 1))"

lemma length_be_bytes [simp]: "length (be_bytes n d) = n"
  by (induction n) simp_all

lemma splat_small [simp, result_simps]: "n \<le> 8 \<Longrightarrow> splat_to_nbytes n data = Inr (be_bytes n data)"
proof -
  assume "n \<le> 8"
  then have "signed_take_bit 31 (int n - 1) = int n - 1"
    by (simp add: signed_take_bit_int_eq_self)
  with \<open>n \<le> 8\<close> show ?thesis
    by (cases n) (simp_all add: splat_to_nbytes_def Let_def nat_add_distrib)
qed

lemma and_ff_ucast [simp]: "(ucast (w AND 0xff) :: u8) = ucast (w :: u64)"
proof (rule bit_word_eqI)
  fix n assume n: "n < LENGTH(8)"
  have "(0xff :: u64) = mask 8" by (simp add: mask_eq_exp_minus_1)
  then have "bit (0xff :: u64) n" using n by (simp only: bit_mask_iff) simp
  with n show "bit (ucast (w AND 0xff) :: u8) n = bit (ucast w :: u8) n"
    by (simp add: bit_unsigned_iff bit_and_iff)
qed

lemma unsplat_cons: "unsplat_from_4bytes (a # b # c # d # rest) =
  push_bit 24 (ucast a) OR push_bit 16 (ucast b) OR push_bit 8 (ucast c) OR ucast d"
  by (simp add: unsplat_from_4bytes_def numeral_3_eq_3 numeral_2_eq_2 or.assoc)

lemma bit_unsplat:
  "n < 32 \<Longrightarrow> bit (unsplat_from_4bytes (a # b # c # d # rest)) n \<longleftrightarrow>
     (if n < 8 then bit d n else if n < 16 then bit c (n - 8)
      else if n < 24 then bit b (n - 16) else bit a (n - 24))"
  using bit_imp_le_length [of a "n - 24"] bit_imp_le_length [of b "n - 16"]
    bit_imp_le_length [of c "n - 8"] bit_imp_le_length [of d n]
  by (auto simp: unsplat_cons bit_or_iff bit_push_bit_iff bit_unsigned_iff)

lemma be_bytes_numeral [simp]:
  "be_bytes (numeral k) d = ucast (drop_bit (pred_numeral k * 8) d) # be_bytes (pred_numeral k) d"
  by (simp only: numeral_eq_Suc be_bytes.simps and_ff_ucast)

lemma be_bytes_1 [simp]: "be_bytes 1 d = [ucast d]" "be_bytes (Suc 0) d = [ucast d]"
  by (simp_all add: One_nat_def)

lemma be_bytes_4:
  "be_bytes 4 d = [ucast (drop_bit 24 d), ucast (drop_bit 16 d), ucast (drop_bit 8 d), ucast d]"
  by simp

lemma unsplat_be_bytes: "unsplat_from_4bytes (be_bytes 4 (ucast x)) = x"
proof (rule bit_word_eqI)
  fix n assume n: "n < LENGTH(32)"
  then show "bit (unsplat_from_4bytes (be_bytes 4 (ucast x))) n = bit x n"
    by (auto simp: be_bytes_4 bit_unsplat bit_unsigned_iff bit_drop_bit_eq)
qed

lemma be_bytes_unsplat: "be_bytes 4 (ucast (unsplat_from_4bytes [a, b, c, d])) = [a, b, c, d]"
proof -
  have "n < 8 \<Longrightarrow> bit (ucast (drop_bit k (ucast (unsplat_from_4bytes [a, b, c, d]) :: u64)) :: u8) n \<longleftrightarrow>
      k + n < 32 \<and> bit (unsplat_from_4bytes [a, b, c, d]) (k + n)" for k n
    by (auto simp: bit_unsigned_iff bit_drop_bit_eq dest: bit_imp_le_length)
  note bits = this this [of _ 0, simplified]
  show ?thesis
    by (auto simp: be_bytes_4 bits bit_unsplat intro!: bit_word_eqI)
qed

lemma unsplat_take_4: "4 \<le> length xs \<Longrightarrow> unsplat_from_4bytes xs = unsplat_from_4bytes (take 4 xs)"
  by (simp add: unsplat_from_4bytes_def)

lemma inc_mod_in_range:
  "0 \<le> i \<Longrightarrow> i < n \<Longrightarrow> n < 2 ^ 31 \<Longrightarrow> inc_mod i n = Inr ((i + 1) mod n)"
  by (auto simp: inc_mod_def)

section \<open>Hexadecimal text\<close>

definition hex_char :: "nat \<Rightarrow> char" where
  "hex_char n = (if n < 10 then char_of (48 + n) else char_of (87 + n))"

text \<open>\<open>setw(2) << setfill('0') << hex\<close> of one byte.\<close>

definition byte_hex :: "u8 \<Rightarrow> string" where
  "byte_hex b = [hex_char (unat b div 16), hex_char (unat b mod 16)]"

definition bytes_to_string :: "bytes \<Rightarrow> string" where
  "bytes_to_string data = ''0x'' @ concat (map byte_hex data)"

text \<open>\<open>std::to_string\<close> of an unsigned value.\<close>

fun dec_string :: "nat \<Rightarrow> string" where
  "dec_string n = (if n < 10 then [char_of (48 + n)] else dec_string (n div 10) @ [char_of (48 + n mod 10)])"

declare dec_string.simps [simp del]

definition newline :: string where "newline = [char_of (10 :: nat)]"
definition escape :: string where "escape = [char_of (27 :: nat)]"

definition hex_print :: "bytes \<Rightarrow> string" where
  "hex_print data = ''0x'' @ concat (map (\<lambda>c. byte_hex (c AND 0xff) @ '' '') data) @ newline"

definition hex_print_byte :: "u8 \<Rightarrow> string" where
  "hex_print_byte data = (if DEBUG then ''0x'' @ byte_hex (data AND 0xff) else [])"

definition debug_print :: "string \<Rightarrow> string" where
  "debug_print msg = (if DEBUG then escape @ ''[1;34m'' @ msg @ escape @ ''[0m'' else [])"

definition error_print :: "string \<Rightarrow> string" where
  "error_print msg = escape @ ''[1;31m'' @ msg @ escape @ ''[0m''"

definition is_space :: "char \<Rightarrow> bool" where
  "is_space c = (let n = of_char c :: nat in n = 32 \<or> 9 \<le> n \<and> n \<le> 13)"

definition hex_digit :: "char \<Rightarrow> nat option" where
  "hex_digit c = (let n = of_char c in
     if 48 \<le> n \<and> n \<le> 57 then Some (n - 48)
     else if 97 \<le> n \<and> n \<le> 102 then Some (n - 87)
     else if 65 \<le> n \<and> n \<le> 70 then Some (n - 55)
     else None)"

fun hex_value :: "nat \<Rightarrow> string \<Rightarrow> nat" where
  "hex_value acc [] = acc"
| "hex_value acc (c # cs) = (case hex_digit c of None \<Rightarrow> acc | Some d \<Rightarrow> hex_value (16 * acc + d) cs)"

definition strip_0x :: "string \<Rightarrow> string" where
  "strip_0x s = (if take 2 s = ''0x'' \<or> take 2 s = ''0X'' then drop 2 s else s)"

text \<open>\<open>strtol(s, NULL, 16)\<close>; a prefix without a digit after it is read as the number 0 either way.\<close>

definition strtol16 :: "string \<Rightarrow> int" where
  "strtol16 s =
     (let s = dropWhile is_space s;
          neg = (case s of c # cs \<Rightarrow> c = CHR ''-'' | [] \<Rightarrow> False);
          s = (case s of c # cs \<Rightarrow> if c = CHR ''-'' \<or> c = CHR ''+'' then cs else s | [] \<Rightarrow> s);
          v = int (hex_value 0 (strip_0x s))
      in if neg then max (- (2 ^ 63)) (- v) else min (2 ^ 63 - 1) v)"

definition string_to_byte :: "string \<Rightarrow> u8" where
  "string_to_byte hex_str = ucast (word_of_int (strtol16 hex_str) AND 0xff :: u64)"

fun hex_pairs :: "string \<Rightarrow> bytes" where
  "hex_pairs [] = []"
| "hex_pairs [c] = [word_of_int (strtol16 [c])]"
| "hex_pairs (c # d # cs) = word_of_int (strtol16 [c, d]) # hex_pairs cs"

definition string_to_chars :: "string \<Rightarrow> bytes" where
  "string_to_chars hex_str =
     (let hex_str = strip_0x hex_str;
          hex_str = (if length hex_str mod 2 \<noteq> 0 then CHR ''0'' # hex_str else hex_str)
      in hex_pairs hex_str)"

lemma of_char_hex_char: "n < 16 \<Longrightarrow> of_char (hex_char n) = (if n < 10 then 48 + n else 87 + n)"
  by (simp add: hex_char_def)

lemma hex_digit_hex_char: "n < 16 \<Longrightarrow> hex_digit (hex_char n) = Some n"
  by (auto simp: hex_digit_def of_char_hex_char)

lemma hex_char_not:
  assumes "n < 16"
  shows "\<not> is_space (hex_char n)" "hex_char n \<noteq> CHR ''-''" "hex_char n \<noteq> CHR ''+''"
    "hex_char n \<noteq> CHR ''x''" "hex_char n \<noteq> CHR ''X''"
proof -
  have ne: "hex_char n \<noteq> c" if "hex_digit c = None" for c
    using that hex_digit_hex_char [OF assms] by auto
  show "\<not> is_space (hex_char n)"
    using assms by (auto simp: is_space_def of_char_hex_char)
  show "hex_char n \<noteq> CHR ''-''" "hex_char n \<noteq> CHR ''+''" "hex_char n \<noteq> CHR ''x''" "hex_char n \<noteq> CHR ''X''"
    by (rule ne, simp add: hex_digit_def)+
qed

lemma strtol16_byte_hex: "strtol16 (byte_hex b) = int (unat b)"
proof -
  have hi: "unat b div 16 < 16" and lo: "unat b mod 16 < 16"
    using unat_u8_less [of b] by (simp_all add: less_mult_imp_div_less)
  have "int (unat b) < 256" using unat_u8_less [of b] by linarith
  then show ?thesis
    using hex_char_not [OF hi] hex_char_not [OF lo] hex_digit_hex_char [OF hi] hex_digit_hex_char [OF lo]
    by (simp add: strtol16_def byte_hex_def strip_0x_def)
qed

lemma byte_hex_pairs: "hex_pairs (byte_hex b @ s) = b # hex_pairs s"
  using strtol16_byte_hex [of b] by (simp add: byte_hex_def)

lemma hex_pairs_bytes: "hex_pairs (concat (map byte_hex bs)) = bs"
  by (induction bs) (simp_all add: byte_hex_pairs)

lemma even_length_hex: "length (concat (map byte_hex bs)) = 2 * length bs"
  by (induction bs) (simp_all add: byte_hex_def)

lemma string_to_chars_prefixed: "string_to_chars (bytes_to_string bs) = bs"
  by (simp add: string_to_chars_def bytes_to_string_def strip_0x_def even_length_hex hex_pairs_bytes)

section \<open>Log clean-up\<close>

text \<open>
  \<open>clear_formatter_log\<close> walks the log directory and removes every file but the current log. The
  listing is given with the outcome of each removal: \<open>Some b\<close> what \<open>remove\<close> returned, \<open>None\<close> an
  exception, which ends the walk with \<open>-1\<close>. The result is the list of files whose removal was
  requested and the return value. \<open>None\<close> for the listing is a directory that cannot be opened.
\<close>

definition path_filename :: "string \<Rightarrow> string" where
  "path_filename p = rev (takeWhile (\<lambda>c. c \<noteq> CHR ''/'') (rev p))"

fun remove_logs :: "string \<Rightarrow> (string \<times> bool option) list \<Rightarrow> string list \<times> int" where
  "remove_logs current [] = ([], 0)"
| "remove_logs current ((f, out) # rest) =
     (if f = current then remove_logs current rest
      else case out of
        None \<Rightarrow> ([f], - 1)
      | Some _ \<Rightarrow> (let (fs, r) = remove_logs current rest in (f # fs, r)))"

definition clear_formatter_log :: "string \<Rightarrow> (string \<times> bool option) list option \<Rightarrow> string list \<times> int" where
  "clear_formatter_log logger_name listing =
     (case listing of
        None \<Rightarrow> ([], - 1)
      | Some files \<Rightarrow> remove_logs (path_filename (logger_name @ ''.log'')) files)"

lemma remove_logs_keeps_current: "current \<notin> set (fst (remove_logs current files))"
  by (induction files) (auto split: option.splits prod.splits if_splits)

lemma remove_logs_ok:
  "snd (remove_logs current files) = 0 \<Longrightarrow>
     fst (remove_logs current files) = filter (\<lambda>f. f \<noteq> current) (map fst files)"
  by (induction current files rule: remove_logs.induct) (auto split: option.splits prod.splits if_splits)

section \<open>Big-endian values\<close>

text \<open>The number a byte string denotes, most significant byte first.\<close>

definition be_value :: "bytes \<Rightarrow> nat" where
  "be_value bs = foldl (\<lambda>n b. n * 256 + unat b) 0 bs"

lemma be_value_foldl: "foldl (\<lambda>n b. n * 256 + unat b) k bs = k * 256 ^ length bs + be_value bs"
proof (induction bs arbitrary: k)
  case Nil
  then show ?case by (simp add: be_value_def)
next
  case (Cons b bs)
  have "be_value (b # bs) = unat b * 256 ^ length bs + be_value bs"
    using Cons.IH [of "unat b"] by (simp add: be_value_def)
  then show ?case using Cons.IH [of "k * 256 + unat b"] by (simp add: algebra_simps)
qed

lemma be_value_simps [simp]:
  "be_value [] = 0"
  "be_value (b # bs) = unat b * 256 ^ length bs + be_value bs"
  using be_value_foldl [of "unat b" bs] by (simp_all add: be_value_def)

lemma unat_low_byte: "unat (ucast (w :: u64) :: u8) = unat w mod 256"
  by (simp add: unsigned_ucast_eq take_bit_eq_mod)

lemma unat_byte: "unat (ucast (drop_bit n (d :: u64)) :: u8) = unat d div 2 ^ n mod 256"
proof -
  have "unat (drop_bit n d) = drop_bit n (unat d)" by (rule unat_drop_bit_eq)
  also have "\<dots> = unat d div 2 ^ n" by (simp only: drop_bit_eq_div)
  finally show ?thesis by (simp only: unat_low_byte)
qed

lemma power_256: "(256 :: nat) ^ i = 2 ^ (i * 8)"
proof -
  have "(256 :: nat) ^ i = (2 ^ 8) ^ i" by simp
  also have "\<dots> = 2 ^ (8 * i)" by (rule power_mult [symmetric])
  finally show ?thesis by (simp only: mult.commute)
qed

lemma be_value_be_bytes: "be_value (be_bytes n d) = unat d mod 256 ^ n"
proof (induction n)
  case (Suc i)
  have "be_value (be_bytes (Suc i) d) = unat d div 256 ^ i mod 256 * 256 ^ i + unat d mod 256 ^ i"
    using Suc by (simp only: be_bytes.simps and_ff_ucast be_value_simps length_be_bytes unat_byte power_256)
  also have "\<dots> = unat d mod 256 ^ Suc i"
    by (simp add: mod_mult2_eq mult.commute [of 256])
  finally show ?case .
qed simp

section \<open>Properties\<close>

text \<open>Splitting a 32-bit value into four bytes and reading them back is the identity in both
  directions: \<open>splat_to_nbytes(4, x)\<close> never faults and \<open>unsplat_from_4bytes\<close> recovers \<open>x\<close>; four
  bytes read as an integer split into the same four bytes.\<close>

theorem splat_unsplat_roundtrip:
  "(\<exists>bs. splat_to_nbytes 4 (ucast x) = Inr bs \<and> length bs = 4 \<and> unsplat_from_4bytes bs = x) \<and>
   splat_to_nbytes 4 (ucast (unsplat_from_4bytes [a, b, c, d])) = Inr [a, b, c, d]"
  by (simp del: be_bytes_numeral add: unsplat_be_bytes be_bytes_unsplat)

text \<open>Printing a byte list as hexadecimal text and parsing it with \<open>strtol\<close> two digits at a
  time gives the list back, the prefix being stripped.\<close>

theorem hex_text_roundtrip: "string_to_chars (bytes_to_string bs) = bs"
  by (rule string_to_chars_prefixed)

end
