(* ===== verification/Data_Link.thy ===== *)
theory Data_Link
  imports Utilities
begin

text \<open>
  \<open>include/DataLinkLayer.h\<close> and \<open>src/DataLinkLayer.cpp\<close>: the link descriptions \<open>DataLinkLayer\<close>,
  \<open>Ethernet\<close>, \<open>SpaceWire\<close> and \<open>UART\<close> (records; the derived classes extend the base record), every
  constructor, the comparison operators, the textual forms, \<open>SpaceWire::crc\<close>, the extraction of the
  data field of an RMAP read reply, and the pretty printer of SpaceWire packets. A copy constructor
  copies every field, so copying an object of its own class is the identity.
\<close>

section \<open>Link descriptions\<close>

record data_link_layer =
  dl_mean_speed_bps :: u32
  dl_max_payload_size :: nat
  dl_frame_size :: nat
  dl_static_header_size :: nat
  dl_initial_header_size :: nat
  dl_subsequent_header_size :: nat
  dl_static_footer_size :: nat
  dl_initial_footer_size :: nat
  dl_subsequent_footer_size :: nat

definition DataLinkLayer_default :: data_link_layer where
  "DataLinkLayer_default = \<lparr>
     dl_mean_speed_bps = 0,
     dl_max_payload_size = 1,
     dl_frame_size = 1,
     dl_static_header_size = 0,
     dl_initial_header_size = 0,
     dl_subsequent_header_size = 0,
     dl_static_footer_size = 0,
     dl_initial_footer_size = 0,
     dl_subsequent_footer_size = 0\<rparr>"

definition DataLinkLayer_static :: "u32 \<Rightarrow> nat \<Rightarrow> nat \<Rightarrow> nat \<Rightarrow> nat \<Rightarrow> data_link_layer" where
  "DataLinkLayer_static speed payload frame header footer = \<lparr>
     dl_mean_speed_bps = speed,
     dl_max_payload_size = payload,
     dl_frame_size = frame,
     dl_static_header_size = header,
     dl_initial_header_size = 0,
     dl_subsequent_header_size = 0,
     dl_static_footer_size = footer,
     dl_initial_footer_size = 0,
     dl_subsequent_footer_size = 0\<rparr>"

definition DataLinkLayer_full ::
    "u32 \<Rightarrow> nat \<Rightarrow> nat \<Rightarrow> nat \<Rightarrow> nat \<Rightarrow> nat \<Rightarrow> nat \<Rightarrow> nat \<Rightarrow> nat \<Rightarrow> data_link_layer" where
  "DataLinkLayer_full speed payload frame static_h initial_h subsequent_h static_f initial_f subsequent_f = \<lparr>
     dl_mean_speed_bps = speed,
     dl_max_payload_size = payload,
     dl_frame_size = frame,
     dl_static_header_size = static_h,
     dl_initial_header_size = initial_h,
     dl_subsequent_header_size = subsequent_h,
     dl_static_footer_size = static_f,
     dl_initial_footer_size = initial_f,
     dl_subsequent_footer_size = subsequent_f\<rparr>"

text \<open>The copy constructor; applied to an object of a derived class it keeps the base part.\<close>

definition DataLinkLayer_copy :: "'a data_link_layer_scheme \<Rightarrow> data_link_layer" where
  "DataLinkLayer_copy other = \<lparr>
     dl_mean_speed_bps = dl_mean_speed_bps other,
     dl_max_payload_size = dl_max_payload_size other,
     dl_frame_size = dl_frame_size other,
     dl_static_header_size = dl_static_header_size other,
     dl_initial_header_size = dl_initial_header_size other,
     dl_subsequent_header_size = dl_subsequent_header_size other,
     dl_static_footer_size = dl_static_footer_size other,
     dl_initial_footer_size = dl_initial_footer_size other,
     dl_subsequent_footer_size = dl_subsequent_footer_size other\<rparr>"

text \<open>The assignment operator, on the base part of the object assigned to.\<close>

definition DataLinkLayer_assign ::
    "'a data_link_layer_scheme \<Rightarrow> 'b data_link_layer_scheme \<Rightarrow> 'a data_link_layer_scheme" where
  "DataLinkLayer_assign this other = this\<lparr>
     dl_mean_speed_bps := dl_mean_speed_bps other,
     dl_max_payload_size := dl_max_payload_size other,
     dl_frame_size := dl_frame_size other,
     dl_static_header_size := dl_static_header_size other,
     dl_initial_header_size := dl_initial_header_size other,
     dl_subsequent_header_size := dl_subsequent_header_size other,
     dl_static_footer_size := dl_static_footer_size other,
     dl_initial_footer_size := dl_initial_footer_size other,
     dl_subsequent_footer_size := dl_subsequent_footer_size other\<rparr>"

lemma DataLinkLayer_copy_id [simp]: "DataLinkLayer_copy l = l"
  by (simp add: DataLinkLayer_copy_def)

lemma DataLinkLayer_assign_copies:
  "DataLinkLayer_copy (DataLinkLayer_assign this other) = DataLinkLayer_copy other"
  by (simp add: DataLinkLayer_copy_def DataLinkLayer_assign_def)

text \<open>The nine fields that every \<open>operator==\<close> compares.\<close>

definition link_fields_eq :: "'a data_link_layer_scheme \<Rightarrow> 'b data_link_layer_scheme \<Rightarrow> bool" where
  "link_fields_eq this other \<longleftrightarrow>
     dl_mean_speed_bps this = dl_mean_speed_bps other
     \<and> dl_max_payload_size this = dl_max_payload_size other
     \<and> dl_frame_size this = dl_frame_size other
     \<and> dl_static_header_size this = dl_static_header_size other
     \<and> dl_initial_header_size this = dl_initial_header_size other
     \<and> dl_subsequent_header_size this = dl_subsequent_header_size other
     \<and> dl_static_footer_size this = dl_static_footer_size other
     \<and> dl_initial_footer_size this = dl_initial_footer_size other
     \<and> dl_subsequent_footer_size this = dl_subsequent_footer_size other"

section \<open>Ethernet\<close>

datatype transport_protocol = TP_NONE | TP_TCP | TP_UDP

fun transport_protocol_code :: "transport_protocol \<Rightarrow> u8" where
  "transport_protocol_code TP_NONE = 0x00"
| "transport_protocol_code TP_TCP = 0x01"
| "transport_protocol_code TP_UDP = 0x02"

record ethernet = data_link_layer +
  eth_address :: string
  eth_port :: u16
  eth_protocol :: transport_protocol

definition Ethernet_copy :: "ethernet \<Rightarrow> ethernet" where
  "Ethernet_copy other = data_link_layer.extend (DataLinkLayer_copy (data_link_layer.truncate other))
     (ethernet.fields (eth_address other) (eth_port other) (eth_protocol other))"

lemma Ethernet_copy_same: "Ethernet_copy e = e"
  by (cases e) (simp add: Ethernet_copy_def ethernet.defs data_link_layer.defs)

definition Ethernet_of_link :: "data_link_layer \<Rightarrow> ethernet" where
  "Ethernet_of_link l = data_link_layer.extend l (ethernet.fields ''127.0.0.1'' 7 TP_NONE)"

definition Ethernet_default :: ethernet where
  "Ethernet_default = Ethernet_of_link DataLinkLayer_default"

definition Ethernet_static ::
    "string \<Rightarrow> u16 \<Rightarrow> transport_protocol \<Rightarrow> u32 \<Rightarrow> nat \<Rightarrow> nat \<Rightarrow> nat \<Rightarrow> nat \<Rightarrow> ethernet" where
  "Ethernet_static address port protocol speed payload frame header footer =
     data_link_layer.extend (DataLinkLayer_static speed payload frame header footer)
       (ethernet.fields address port protocol)"

definition Ethernet_full ::
    "string \<Rightarrow> u16 \<Rightarrow> transport_protocol \<Rightarrow> u32 \<Rightarrow> nat \<Rightarrow> nat \<Rightarrow> nat \<Rightarrow> nat \<Rightarrow> nat \<Rightarrow> nat \<Rightarrow> nat \<Rightarrow> nat \<Rightarrow> 
      ethernet" where
  "Ethernet_full address port protocol speed payload frame static_h initial_h subsequent_h
       static_f initial_f subsequent_f =
     data_link_layer.extend
       (DataLinkLayer_full speed payload frame static_h initial_h subsequent_h static_f initial_f subsequent_f)
       (ethernet.fields address port protocol)"

definition to_lower :: "char \<Rightarrow> char" where
  "to_lower c = (let n = of_char c :: nat in if 65 \<le> n \<and> n \<le> 90 then char_of (n + 32) else c)"

definition to_upper :: "char \<Rightarrow> char" where
  "to_upper c = (let n = of_char c :: nat in if 97 \<le> n \<and> n \<le> 122 then char_of (n - 32) else c)"

text \<open>The two constructors that take the protocol as text. The first folds to lower case before the
  comparison, the second to upper case.\<close>

definition protocol_of_lower :: "string \<Rightarrow> transport_protocol" where
  "protocol_of_lower p =
     (if p = ''tcp'' then TP_TCP else if p = ''udp'' then TP_UDP else TP_NONE)"

definition Ethernet_static_text ::
    "string \<Rightarrow> u16 \<Rightarrow> string \<Rightarrow> u32 \<Rightarrow> nat \<Rightarrow> nat \<Rightarrow> nat \<Rightarrow> nat \<Rightarrow> ethernet" where
  "Ethernet_static_text address port protocol speed payload frame header footer =
     Ethernet_static address port (protocol_of_lower (map to_lower protocol)) speed payload frame header footer"

definition Ethernet_full_text ::
    "string \<Rightarrow> u16 \<Rightarrow> string \<Rightarrow> u32 \<Rightarrow> nat \<Rightarrow> nat \<Rightarrow> nat \<Rightarrow> nat \<Rightarrow> nat \<Rightarrow> nat \<Rightarrow> nat \<Rightarrow> nat \<Rightarrow> ethernet" where
  "Ethernet_full_text address port protocol speed payload frame static_h initial_h subsequent_h
       static_f initial_f subsequent_f =
     Ethernet_full address port (protocol_of_lower (map to_upper protocol)) speed payload frame
       static_h initial_h subsequent_h static_f initial_f subsequent_f"

definition is_same_endpoint :: "ethernet \<Rightarrow> ethernet \<Rightarrow> bool" where
  "is_same_endpoint this other \<longleftrightarrow> eth_address this = eth_address other
     \<and> eth_port this = eth_port other \<and> eth_protocol this = eth_protocol other"

definition ethernet_eq :: "ethernet \<Rightarrow> ethernet \<Rightarrow> bool" where
  "ethernet_eq this other \<longleftrightarrow> eth_address this = eth_address other
     \<and> eth_port this = eth_port other \<and> eth_protocol this = eth_protocol other
     \<and> link_fields_eq this other"

definition ethernet_to_string :: "ethernet \<Rightarrow> string" where
  "ethernet_to_string e =
     (let protocol_string = (case eth_protocol e of TP_TCP \<Rightarrow> ''tcp'' | TP_UDP \<Rightarrow> ''udp'' | TP_NONE \<Rightarrow> '''')
      in ''('' @ protocol_string @ '')'' @ eth_address e @ '':'' @ dec_string (unat (eth_port e)))"

lemma ethernet_eq_iff: "ethernet_eq a b \<longleftrightarrow> a = b"
  by (auto simp: ethernet_eq_def link_fields_eq_def)

lemma to_upper_not_c: "to_upper x \<noteq> CHR ''c''"
proof
  assume "to_upper x = CHR ''c''"
  moreover have "of_char (to_upper x) = (99 :: nat) \<Longrightarrow> False"
    by (auto simp: to_upper_def Let_def split: if_splits)
  ultimately show False by simp
qed

lemma to_upper_not_p: "to_upper x \<noteq> CHR ''p''"
proof
  assume "to_upper x = CHR ''p''"
  moreover have "of_char (to_upper x) = (112 :: nat) \<Longrightarrow> False"
    by (auto simp: to_upper_def Let_def split: if_splits)
  ultimately show False by simp
qed

lemma protocol_of_upper: "protocol_of_lower (map to_upper p) = TP_NONE"
  using to_upper_not_c to_upper_not_p by (auto simp: protocol_of_lower_def map_eq_Cons_conv)

lemma protocol_of_lower_text:
  "protocol_of_lower (map to_lower ''TCP'') = TP_TCP"
  "protocol_of_lower (map to_lower ''udp'') = TP_UDP"
  by code_simp+

section \<open>SpaceWire\<close>

record spacewire = data_link_layer +
  spw_target_path_address :: bytes
  spw_reply_path_address :: bytes
  spw_target_logical_address :: u8
  spw_source_logical_address :: u8
  spw_key :: u8
  spw_crc_version :: char

definition SpaceWire_copy :: "spacewire \<Rightarrow> spacewire" where
  "SpaceWire_copy other = data_link_layer.extend (DataLinkLayer_copy (data_link_layer.truncate other))
     (spacewire.fields (spw_target_path_address other) (spw_reply_path_address other) (spw_target_logical_address other)
       (spw_source_logical_address other) (spw_key other) (spw_crc_version other))"

lemma SpaceWire_copy_same: "SpaceWire_copy s = s"
  by (cases s) (simp add: SpaceWire_copy_def spacewire.defs data_link_layer.defs)

definition SpaceWire_of_link :: "data_link_layer \<Rightarrow> spacewire" where
  "SpaceWire_of_link l = data_link_layer.extend l (spacewire.fields [] [] 0x00 0x00 0x00 CHR ''f'')"

definition SpaceWire_default :: spacewire where
  "SpaceWire_default = SpaceWire_of_link DataLinkLayer_default"

definition SpaceWire_static ::
    "bytes \<Rightarrow> bytes \<Rightarrow> u8 \<Rightarrow> u8 \<Rightarrow> u8 \<Rightarrow> char \<Rightarrow> u32 \<Rightarrow> nat \<Rightarrow> nat \<Rightarrow> nat \<Rightarrow> nat \<Rightarrow> spacewire" where
  "SpaceWire_static target_path reply_path target source key crc speed payload frame header footer =
     data_link_layer.extend (DataLinkLayer_static speed payload frame header footer)
       (spacewire.fields target_path reply_path target source key crc)"

definition SpaceWire_full ::
    "bytes \<Rightarrow> bytes \<Rightarrow> u8 \<Rightarrow> u8 \<Rightarrow> u8 \<Rightarrow> char \<Rightarrow> u32 \<Rightarrow> nat \<Rightarrow> nat \<Rightarrow> nat \<Rightarrow> nat \<Rightarrow> nat \<Rightarrow> nat \<Rightarrow> nat \<Rightarrow> nat \<Rightarrow> 
      spacewire" where
  "SpaceWire_full target_path reply_path target source key crc speed payload frame
       static_h initial_h subsequent_h static_f initial_f subsequent_f =
     data_link_layer.extend
       (DataLinkLayer_full speed payload frame static_h initial_h subsequent_h static_f initial_f subsequent_f)
       (spacewire.fields target_path reply_path target source key crc)"

definition spacewire_eq :: "spacewire \<Rightarrow> spacewire \<Rightarrow> bool" where
  "spacewire_eq this other \<longleftrightarrow>
     spw_target_path_address this = spw_target_path_address other
     \<and> spw_reply_path_address this = spw_reply_path_address other
     \<and> spw_target_logical_address this = spw_target_logical_address other
     \<and> spw_source_logical_address this = spw_source_logical_address other
     \<and> spw_key this = spw_key other
     \<and> spw_crc_version this = spw_crc_version other
     \<and> link_fields_eq this other"

lemma spacewire_eq_iff: "spacewire_eq a b \<longleftrightarrow> a = b"
  by (auto simp: spacewire_eq_def link_fields_eq_def)

definition spw_crc :: "spacewire \<Rightarrow> bytes \<Rightarrow> u8" where
  "spw_crc spw data =
     (if spw_crc_version spw = CHR ''f'' then foldl (\<lambda>result d. crc_lookup (result XOR d)) 0x00 data
      else 0x00)"

lemma spw_crc_f [simp]: "spw_crc_version spw = CHR ''f'' \<Longrightarrow> spw_crc spw data = spw_calculate_crc_uint_F data"
  by (simp add: spw_crc_def spw_calculate_crc_uint_F_def)

lemma spw_crc_other: "spw_crc_version spw \<noteq> CHR ''f'' \<Longrightarrow> spw_crc spw data = 0"
  by (simp add: spw_crc_def)

text \<open>
  \<open>SpaceWire::get_reply_data\<close>: after the 12-byte prefix of the SPMU-001 the RMAP reply has its data
  length in bytes 8 to 10 and its data after byte 11. A reply that is too short gives the empty list.
\<close>

definition spw_get_reply_data :: "bytes \<Rightarrow> bytes result" where
  "spw_get_reply_data spw_reply =
     (let ether_prefix_length = 12;
          target_path_address_length = 0;
          data_length_start_offset = 9;
          data_length_length = 3
      in if ether_prefix_length + target_path_address_length + data_length_start_offset
             + data_length_length + 1 > length spw_reply then Inr []
         else bindR (vec_slice
               (ether_prefix_length + target_path_address_length + data_length_start_offset - 1)
               (ether_prefix_length + target_path_address_length + data_length_start_offset
                 + data_length_length - 1) spw_reply)
           (\<lambda>data_length_vec.
             let data_length = unat (unsplat_from_4bytes (0x00 # data_length_vec));
                 data_start = ether_prefix_length + target_path_address_length
                   + data_length_start_offset + data_length_length
             in if length spw_reply < data_start + data_length then Inr []
                else vec_slice data_start (data_start + data_length) spw_reply))"

lemma spw_get_reply_data_total:
  "spw_get_reply_data r = Inr
     (let n = unat (unsplat_from_4bytes (0 # take 3 (drop 20 r)))
      in if 25 \<le> length r \<and> 24 + n \<le> length r then take n (drop 24 r) else [])"
  by (auto simp: spw_get_reply_data_def Let_def)

section \<open>Pretty printer of SpaceWire packets\<close>

text \<open>The sizes of the printed blocks and their colours: a reply (no interface given), a write or a
  read command, told apart by the instruction byte. \<open>Undefined\<close> is a read past the end of the data.\<close>

definition spw_print_layout :: "bytes \<Rightarrow> spacewire option \<Rightarrow> (nat \<times> char) list result" where
  "spw_print_layout data spw =
     (case spw of
        None \<Rightarrow>
          (let payload_size = sz_sub (length data) 25 in
           Inr (zip [12, 1, 1, 1, 1, 1, 2, 1, 3, 1, payload_size, 1] ''nrynnrnnnnbn''))
      | Some s \<Rightarrow>
          (let target_path_size = length (spw_target_path_address s);
               reply_path_size = length (spw_reply_path_address s);
               instr_index = 11 + target_path_size + 3
           in bindR (vec_at data instr_index) (\<lambda>instr.
             if instr AND 0x20 \<noteq> 0 then
               (let payload_size = sz_sub (length data) (29 + target_path_size + reply_path_size) in
                Inr (zip [12, target_path_size, 1, 1, 1, 1, reply_path_size, 1, 2, 1, 4, 3, 1, payload_size, 1]
                  ''nbrynnbrnnnnnbn''))
             else Inr (zip [12, target_path_size, 1, 1, 1, 1, reply_path_size, 1, 2, 1, 4, 3, 1]
                  ''nbrynnbrnnnnn''))))"

definition spw_colour :: "char \<Rightarrow> string" where
  "spw_colour c =
     (if c = CHR ''n'' then escape @ ''[0m''
      else if c = CHR ''y'' then escape @ ''[37;43m''
      else if c = CHR ''r'' then escape @ ''[37;41m''
      else escape @ ''[37;44m'')"

fun print_block :: "bytes \<Rightarrow> char \<Rightarrow> nat \<Rightarrow> nat \<Rightarrow> string result" where
  "print_block data c k 0 = Inr []"
| "print_block data c k (Suc j) =
     (if k < length data then
        bindR (print_block data c (Suc k) j)
          (\<lambda>rest. Inr (spw_colour c @ byte_hex (data ! k) @ escape @ ''[0m'' @ rest))
      else Inl Undefined)"

fun print_blocks :: "bytes \<Rightarrow> nat \<Rightarrow> (nat \<times> char) list \<Rightarrow> string result" where
  "print_blocks data k [] = Inr (escape @ ''[0m'' @ newline)"
| "print_blocks data k ((n, c) # bs) =
     bindR (print_block data c k n) (\<lambda>out.
     bindR (print_blocks data (k + n) bs) (\<lambda>rest. Inr (out @ '' '' @ rest)))"

definition spw_print :: "bytes \<Rightarrow> spacewire option \<Rightarrow> string result" where
  "spw_print data spw =
     bindR (vec_at data 0) (\<lambda>d0.
       if d0 \<noteq> 0x00 then Inr (hex_print data)
       else if length data < 26 then Inr (hex_print data)
       else bindR (spw_print_layout data spw) (\<lambda>bs. print_blocks data 0 bs))"

lemma print_block_in: "k + n \<le> length data \<Longrightarrow> \<exists>s. print_block data c k n = Inr s"
proof (induction n arbitrary: k)
  case (Suc n)
  then obtain s where "print_block data c (Suc k) n = Inr s" by force
  with Suc.prems show ?case by simp
qed simp

lemma print_blocks_in:
  "k + sum_list (map fst bs) \<le> length data \<Longrightarrow> \<exists>s. print_blocks data k bs = Inr s"
proof (induction bs arbitrary: k)
  case (Cons b bs)
  obtain n c where b: "b = (n, c)" by force
  from Cons.prems b obtain s where "print_block data c k n = Inr s"
    using print_block_in [of k n data c] by auto
  moreover from Cons.prems b have "k + n + sum_list (map fst bs) \<le> length data" by simp
  then obtain t where "print_blocks data (k + n) bs = Inr t"
    using Cons.IH by blast
  ultimately show ?case by (simp add: b)
qed simp

text \<open>A reply of at least 26 bytes is printed without a read past its end: the blocks add up to its
  length.\<close>

lemma spw_print_reply_total: "data \<noteq> [] \<Longrightarrow> \<exists>s. spw_print data None = Inr s"
proof -
  assume "data \<noteq> []"
  moreover have "\<exists>s. print_blocks data 0
      (zip [12, 1, 1, 1, 1, 1, 2, 1, 3, 1, length data - 25, 1] ''nrynnrnnnnbn'') = Inr s"
    if "\<not> length data < 26"
    by (rule print_blocks_in) (use that in simp)
  ultimately show ?thesis by (simp add: spw_print_def spw_print_layout_def)
qed

section \<open>UART\<close>

record uart = data_link_layer +
  uart_tty_path :: string
  uart_baud_rate :: u32
  uart_parity :: u8
  uart_stop_bits :: u8
  uart_data_bits :: u8

definition UART_copy :: "uart \<Rightarrow> uart" where
  "UART_copy other = data_link_layer.extend (DataLinkLayer_copy (data_link_layer.truncate other))
     (uart.fields (uart_tty_path other) (uart_baud_rate other) (uart_parity other) (uart_stop_bits other) (uart_data_bits other))"

lemma UART_copy_same: "UART_copy u = u"
  by (cases u) (simp add: UART_copy_def uart.defs data_link_layer.defs)

definition UART_of_link :: "data_link_layer \<Rightarrow> uart" where
  "UART_of_link l = data_link_layer.extend l (uart.fields [] 9600 1 1 8)"

definition UART_default :: uart where
  "UART_default = UART_of_link DataLinkLayer_default"

definition UART_static ::
    "string \<Rightarrow> u32 \<Rightarrow> u8 \<Rightarrow> u8 \<Rightarrow> u8 \<Rightarrow> u32 \<Rightarrow> nat \<Rightarrow> nat \<Rightarrow> nat \<Rightarrow> nat \<Rightarrow> uart" where
  "UART_static tty baud parity stop data_n speed payload frame header footer =
     data_link_layer.extend (DataLinkLayer_static speed payload frame header footer)
       (uart.fields tty baud parity stop data_n)"

definition UART_full ::
    "string \<Rightarrow> u32 \<Rightarrow> u8 \<Rightarrow> u8 \<Rightarrow> u8 \<Rightarrow> u32 \<Rightarrow> nat \<Rightarrow> nat \<Rightarrow> nat \<Rightarrow> nat \<Rightarrow> nat \<Rightarrow> nat \<Rightarrow> nat \<Rightarrow> nat \<Rightarrow> uart" where
  "UART_full tty baud parity stop data_n speed payload frame
       static_h initial_h subsequent_h static_f initial_f subsequent_f =
     data_link_layer.extend
       (DataLinkLayer_full speed payload frame static_h initial_h subsequent_h static_f initial_f subsequent_f)
       (uart.fields tty baud parity stop data_n)"

definition uart_eq :: "uart \<Rightarrow> uart \<Rightarrow> bool" where
  "uart_eq this other \<longleftrightarrow> uart_tty_path this = uart_tty_path other
     \<and> uart_baud_rate this = uart_baud_rate other \<and> uart_parity this = uart_parity other
     \<and> uart_stop_bits this = uart_stop_bits other \<and> uart_data_bits this = uart_data_bits other
     \<and> link_fields_eq this other"

lemma uart_eq_iff: "uart_eq a b \<longleftrightarrow> a = b"
  by (auto simp: uart_eq_def link_fields_eq_def)

definition tab :: string where "tab = [char_of (9 :: nat)]"

definition uart_to_string :: "uart \<Rightarrow> string" where
  "uart_to_string u =
     ''UART::''
     @ newline @ tab @ ''tty_path '' @ tab @ ''= '' @ uart_tty_path u
     @ newline @ tab @ ''baud_rate '' @ tab @ ''= '' @ dec_string (unat (uart_baud_rate u))
     @ newline @ tab @ ''parity '' @ tab @ tab @ ''= '' @ dec_string (unat (uart_parity u))
     @ newline @ tab @ ''stop_bits '' @ tab @ ''= '' @ dec_string (unat (uart_stop_bits u))
     @ newline @ tab @ ''data_bits '' @ tab @ ''= '' @ dec_string (unat (uart_data_bits u))
     @ newline"

lemmas link_defs = data_link_layer.defs ethernet.defs spacewire.defs uart.defs
  DataLinkLayer_default_def DataLinkLayer_static_def DataLinkLayer_full_def

text \<open>The short constructors are the detailed ones with no initial or subsequent parts.\<close>

lemma static_is_full:
  "Ethernet_static a p t s m f h g = Ethernet_full a p t s m f h 0 0 g 0 0"
  "SpaceWire_static tp rp ta sa k v s m f h g = SpaceWire_full tp rp ta sa k v s m f h 0 0 g 0 0"
  "UART_static y b q u d s m f h g = UART_full y b q u d s m f h 0 0 g 0 0"
  by (simp_all add: Ethernet_static_def Ethernet_full_def SpaceWire_static_def SpaceWire_full_def
      UART_static_def UART_full_def link_defs)

section \<open>Properties\<close>

text \<open>The detailed \<open>Ethernet\<close> constructor that takes the protocol as text folds it to upper case
  and then compares with lower-case names, so the protocol is \<open>NONE\<close> for every text; the short
  constructor recognises \<open>tcp\<close> and \<open>udp\<close>.\<close>

theorem ethernet_full_text_has_no_protocol:
  "eth_protocol (Ethernet_full_text a p t s m f sh ih qh sf xf qf) = TP_NONE \<and>
   eth_protocol (Ethernet_static_text a p ''TCP'' s m f sh sf) = TP_TCP \<and>
   eth_protocol (Ethernet_static_text a p ''udp'' s m f sh sf) = TP_UDP"
  by (simp add: Ethernet_full_text_def Ethernet_full_def Ethernet_static_text_def Ethernet_static_def
      link_defs protocol_of_upper protocol_of_lower_text
      del: list.map)

end
