(* ===== verification/Systems.thy ===== *)
theory Systems
  imports Data_Link
begin

text \<open>
  Configuration data: \<open>RingBufferParameters\<close> (\<open>src/DirectMemoryAccess.cpp\<close>), \<open>System\<close>
  (\<open>src/Systems.cpp\<close>) and \<open>Timing\<close> (\<open>src/Timing.cpp\<close>). A pointer to an interface is an option. The
  hash map \<open>ring_params\<close> is an association list with distinct keys, so that its \<open>size()\<close> is the
  length of the list. In \<open>Timing\<close> a product of two \<open>uint32_t\<close> wraps before it is divided; the
  division of two integers below \<open>2 ^ 32\<close> in \<open>double\<close> followed by truncation is the integer quotient
  (the quotient is off by less than its distance to the next integer), so it is written \<open>div\<close>.
\<close>

section \<open>Ring buffer parameters\<close>

record ring_buffer_parameters =
  rb_frame_size_bytes :: nat
  rb_start_address :: u32
  rb_frames_per_ring :: nat
  rb_write_pointer_address :: u32
  rb_write_pointer_width_bytes :: nat
  rb_type :: ring_type

definition RingBufferParameters_default :: ring_buffer_parameters where
  "RingBufferParameters_default = \<lparr>
     rb_frame_size_bytes = 0,
     rb_start_address = 0,
     rb_frames_per_ring = 0,
     rb_write_pointer_address = 0,
     rb_write_pointer_width_bytes = 0,
     rb_type = RB_NONE\<rparr>"

definition RingBufferParameters ::
    "nat \<Rightarrow> u32 \<Rightarrow> nat \<Rightarrow> u32 \<Rightarrow> nat \<Rightarrow> ring_type \<Rightarrow> ring_buffer_parameters" where
  "RingBufferParameters frame_size start frames pointer width type = \<lparr>
     rb_frame_size_bytes = frame_size,
     rb_start_address = start,
     rb_frames_per_ring = frames,
     rb_write_pointer_address = pointer,
     rb_write_pointer_width_bytes = width,
     rb_type = type\<rparr>"

definition ring_buffer_parameters_eq :: "ring_buffer_parameters \<Rightarrow> ring_buffer_parameters \<Rightarrow> bool" where
  "ring_buffer_parameters_eq this other \<longleftrightarrow>
     rb_frame_size_bytes this = rb_frame_size_bytes other
     \<and> rb_start_address this = rb_start_address other
     \<and> rb_frames_per_ring this = rb_frames_per_ring other
     \<and> rb_write_pointer_address this = rb_write_pointer_address other
     \<and> rb_write_pointer_width_bytes this = rb_write_pointer_width_bytes other
     \<and> rb_type this = rb_type other"

lemma ring_buffer_parameters_eq_iff: "ring_buffer_parameters_eq a b \<longleftrightarrow> a = b"
  by (auto simp: ring_buffer_parameters_eq_def)

definition RingBufferParameters_copy :: "ring_buffer_parameters \<Rightarrow> ring_buffer_parameters" where
  "RingBufferParameters_copy other = \<lparr>
     rb_frame_size_bytes = rb_frame_size_bytes other, rb_start_address = rb_start_address other,
     rb_frames_per_ring = rb_frames_per_ring other, rb_write_pointer_address = rb_write_pointer_address other,
     rb_write_pointer_width_bytes = rb_write_pointer_width_bytes other, rb_type = rb_type other\<rparr>"

lemma RingBufferParameters_copy_same: "RingBufferParameters_copy r = r"
  by (simp add: RingBufferParameters_copy_def)

definition ring_buffer_parameters_to_string :: "ring_buffer_parameters \<Rightarrow> string" where
  "ring_buffer_parameters_to_string r =
     ''RingBufferParameters::''
     @ newline @ tab @ ''frame_size_bytes '' @ tab @ ''= '' @ dec_string (rb_frame_size_bytes r)
     @ newline @ tab @ ''start_address '' @ tab @ tab @ ''= '' @ dec_string (unat (rb_start_address r))
     @ newline @ tab @ ''frames_per_ring '' @ tab @ ''= '' @ dec_string (rb_frames_per_ring r)
     @ newline @ tab @ ''write_pointer_address '' @ tab @ ''= '' @ dec_string (unat (rb_write_pointer_address r))
     @ newline @ tab @ ''write_pointer_width_bytes '' @ tab @ ''= '' @ dec_string (rb_write_pointer_width_bytes r)
     @ newline"

section \<open>Systems\<close>

record system =
  sys_name :: string
  sys_hex :: u8
  sys_type :: command_type
  sys_uart :: "uart option"
  sys_spacewire :: "spacewire option"
  sys_ethernet :: "ethernet option"
  sys_ring_params :: "(ring_type \<times> ring_buffer_parameters) list"

definition System_default :: system where
  "System_default = \<lparr>sys_name = '''', sys_hex = 0xff, sys_type = CMD_NONE,
     sys_uart = None, sys_spacewire = None, sys_ethernet = None, sys_ring_params = []\<rparr>"

definition System_named :: "string \<Rightarrow> u8 \<Rightarrow> system" where
  "System_named name hex = \<lparr>sys_name = name, sys_hex = hex, sys_type = CMD_NONE,
     sys_uart = None, sys_spacewire = None, sys_ethernet = None, sys_ring_params = []\<rparr>"

definition System_full ::
    "string \<Rightarrow> u8 \<Rightarrow> command_type \<Rightarrow> uart option \<Rightarrow> spacewire option \<Rightarrow> ethernet option
      \<Rightarrow> (ring_type \<times> ring_buffer_parameters) list \<Rightarrow> system" where
  "System_full name hex type u s e ring_params = \<lparr>sys_name = name, sys_hex = hex, sys_type = type,
     sys_uart = u, sys_spacewire = s, sys_ethernet = e, sys_ring_params = ring_params\<rparr>"

definition System_interfaces ::
    "string \<Rightarrow> u8 \<Rightarrow> command_type \<Rightarrow> uart option \<Rightarrow> spacewire option \<Rightarrow> ethernet option \<Rightarrow> system" where
  "System_interfaces name hex type u s e = \<lparr>sys_name = name, sys_hex = hex, sys_type = type,
     sys_uart = u, sys_spacewire = s, sys_ethernet = e, sys_ring_params = []\<rparr>"

definition System_uart :: "string \<Rightarrow> u8 \<Rightarrow> uart option \<Rightarrow> system" where
  "System_uart name hex u = System_interfaces name hex CMD_UART u None None"

definition System_spacewire :: "string \<Rightarrow> u8 \<Rightarrow> spacewire option \<Rightarrow> system" where
  "System_spacewire name hex s = System_interfaces name hex CMD_SPW None s None"

definition System_ethernet :: "string \<Rightarrow> u8 \<Rightarrow> ethernet option \<Rightarrow> system" where
  "System_ethernet name hex e = System_interfaces name hex CMD_ETHERNET None None e"

definition System_assign :: "system \<Rightarrow> system \<Rightarrow> system" where
  "System_assign this other = this\<lparr>sys_name := sys_name other, sys_hex := sys_hex other,
     sys_type := sys_type other, sys_uart := sys_uart other, sys_ethernet := sys_ethernet other,
     sys_spacewire := sys_spacewire other, sys_ring_params := sys_ring_params other\<rparr>"

definition system_eq :: "system \<Rightarrow> system \<Rightarrow> bool" where
  "system_eq this other \<longleftrightarrow> sys_hex this = sys_hex other"

definition system_hash :: "system \<Rightarrow> nat" where
  "system_hash sys = unat (sys_hex sys)"

definition system_print :: "system \<Rightarrow> string" where
  "system_print s = ''system '' @ sys_name s @ '' has code '' @ hex_print_byte (sys_hex s)
     @ newline @ tab @ ''command type: '' @
     (case sys_type s of
        CMD_ETHERNET \<Rightarrow> ''Ethernet'' @ newline
      | CMD_SPW \<Rightarrow> ''SpaceWire'' @ newline
      | CMD_SPI \<Rightarrow> ''SPI'' @ newline
      | CMD_UART \<Rightarrow> ''UART'' @ newline
      | CMD_NONE \<Rightarrow> ''none'' @ newline)"

text \<open>The cases of \<open>get_frame_size()\<close> fall through to the next interface when the pointer of
  their own is null.\<close>

definition frame_size_uart :: "system \<Rightarrow> nat" where
  "frame_size_uart s = (case sys_uart s of Some u \<Rightarrow> dl_frame_size u | None \<Rightarrow> 0)"

definition frame_size_spw :: "system \<Rightarrow> nat" where
  "frame_size_spw s = (case sys_spacewire s of Some w \<Rightarrow> dl_frame_size w | None \<Rightarrow> frame_size_uart s)"

definition frame_size_ethernet :: "system \<Rightarrow> nat" where
  "frame_size_ethernet s = (case sys_ethernet s of Some e \<Rightarrow> dl_frame_size e | None \<Rightarrow> frame_size_spw s)"

definition get_frame_size :: "system \<Rightarrow> nat" where
  "get_frame_size s =
     (case sys_type s of
        CMD_ETHERNET \<Rightarrow> frame_size_ethernet s
      | CMD_SPW \<Rightarrow> frame_size_spw s
      | CMD_UART \<Rightarrow> frame_size_uart s
      | CMD_NONE \<Rightarrow> 0
      | CMD_SPI \<Rightarrow> 0)"

definition ring_params_at :: "system \<Rightarrow> ring_type \<Rightarrow> ring_buffer_parameters result" where
  "ring_params_at s t = option_at (map_of (sys_ring_params s) t)"

definition get_frame_size_of :: "system \<Rightarrow> ring_type \<Rightarrow> nat" where
  "get_frame_size_of s buffer_type =
     (case ring_params_at s buffer_type of
        Inl _ \<Rightarrow> 0
      | Inr r \<Rightarrow> rb_frame_size_bytes r)"

text \<open>\<open>operator==\<close> is an equivalence and agrees with the hash, as the hash maps keyed by \<open>System\<close>
  need.\<close>

lemma system_eq_hash: "system_eq a b \<longleftrightarrow> system_hash a = system_hash b"
  by (simp add: system_eq_def system_hash_def word_unat_eq_iff)

lemma system_eq_equivp: "equivp system_eq"
  by (auto intro!: equivpI reflpI sympI transpI simp: system_eq_def)

lemma get_frame_size_own_interface:
  "sys_type s = CMD_ETHERNET \<Longrightarrow> sys_ethernet s = Some e \<Longrightarrow> get_frame_size s = dl_frame_size e"
  "sys_type s = CMD_SPW \<Longrightarrow> sys_spacewire s = Some w \<Longrightarrow> get_frame_size s = dl_frame_size w"
  "sys_type s = CMD_UART \<Longrightarrow> sys_uart s = Some u \<Longrightarrow> get_frame_size s = dl_frame_size u"
  by (simp_all add: get_frame_size_def frame_size_ethernet_def frame_size_spw_def frame_size_uart_def)

section \<open>Timing\<close>

record timing =
  tm_period_millis :: u32
  tm_command_millis :: u32
  tm_request_millis :: u32
  tm_reply_millis :: u32
  tm_idle_millis :: u32
  tm_retry_max_count :: u32
  tm_timeout_millis :: u32
  tm_intercommand_space_millis :: u32

text \<open>The constructor leaves the last two fields as they are in memory; they are arguments here.\<close>

definition Timing_default :: "u32 \<Rightarrow> u32 \<Rightarrow> timing" where
  "Timing_default timeout intercommand = \<lparr>
     tm_period_millis = 0,
     tm_command_millis = 0,
     tm_request_millis = 0,
     tm_reply_millis = 0,
     tm_idle_millis = 0,
     tm_retry_max_count = 1,
     tm_timeout_millis = timeout,
     tm_intercommand_space_millis = intercommand\<rparr>"

text \<open>A division by the sum 0 gives an infinity or a NaN, whose conversion to an integer is undefined.\<close>

definition resolve_times :: "timing \<Rightarrow> timing result" where
  "resolve_times t =
     (let sum = tm_command_millis t + tm_request_millis t + tm_reply_millis t + tm_idle_millis t;
          scale = (\<lambda>x. x * tm_period_millis t div sum)
      in if sum = 0 then Inl Undefined
         else Inr (t\<lparr>
           tm_command_millis := scale (tm_command_millis t),
           tm_request_millis := scale (tm_request_millis t),
           tm_reply_millis := scale (tm_reply_millis t),
           tm_idle_millis := scale (tm_idle_millis t)\<rparr>))"

text \<open>The arguments are the five products by 1000, already converted to \<open>uint32_t\<close>.\<close>

definition add_times_seconds :: "u32 \<Rightarrow> u32 \<Rightarrow> u32 \<Rightarrow> u32 \<Rightarrow> u32 \<Rightarrow> timing \<Rightarrow> timing result" where
  "add_times_seconds total_time command request reply idle t =
     resolve_times (t\<lparr>
       tm_period_millis := total_time,
       tm_command_millis := command,
       tm_request_millis := request,
       tm_reply_millis := reply,
       tm_idle_millis := idle\<rparr>)"

definition timing_to_string :: "timing \<Rightarrow> string" where
  "timing_to_string t =
     ''Timing::''
     @ newline @ tab @ ''period '' @ tab @ tab @ tab @ ''= '' @ dec_string (unat (tm_period_millis t)) @ '' ms''
     @ newline @ tab @ ''command '' @ tab @ tab @ ''= '' @ dec_string (unat (tm_command_millis t)) @ '' ms''
     @ newline @ tab @ ''request '' @ tab @ tab @ ''= '' @ dec_string (unat (tm_request_millis t)) @ '' ms''
     @ newline @ tab @ ''reply '' @ tab @ tab @ tab @ ''= '' @ dec_string (unat (tm_reply_millis t)) @ '' ms''
     @ newline @ tab @ ''idle '' @ tab @ tab @ tab @ ''= '' @ dec_string (unat (tm_idle_millis t)) @ '' ms''
     @ newline @ tab @ ''retry_max_count '' @ tab @ ''= '' @ dec_string (unat (tm_retry_max_count t))
     @ newline @ tab @ ''timeout '' @ tab @ tab @ ''= '' @ dec_string (unat (tm_timeout_millis t)) @ '' ms''
     @ newline @ tab @ ''intercommand_space '' @ tab @ ''= ''
       @ dec_string (unat (tm_intercommand_space_millis t)) @ '' ms''
     @ newline"

lemma scaled_sum:
  fixes a b c d p s :: nat
  assumes s: "s = a + b + c + d" and "0 < s"
  shows "a * p div s + b * p div s + c * p div s + d * p div s \<le> p"
    and "p \<le> a * p div s + b * p div s + c * p div s + d * p div s + 3"
proof -
  let ?q = "a * p div s + b * p div s + c * p div s + d * p div s"
  let ?r = "a * p mod s + b * p mod s + c * p mod s + d * p mod s"
  have "s * p = a * p + b * p + c * p + d * p"
    by (simp add: s algebra_simps)
  also have "\<dots> = s * ?q + ?r"
    using mult_div_mod_eq [of s "a * p"] mult_div_mod_eq [of s "b * p"]
      mult_div_mod_eq [of s "c * p"] mult_div_mod_eq [of s "d * p"]
    by (simp add: distrib_left)
  finally have eq: "s * p = s * ?q + ?r" .
  then have "s * ?q \<le> s * p" by simp
  with \<open>0 < s\<close> show "?q \<le> p" by (metis mult_le_cancel1)
  have "?r < s + s + s + s"
    using \<open>0 < s\<close> by (intro add_strict_mono mod_less_divisor)
  then have "s * ?q + ?r < s * ?q + (s + s + s + s)" by (rule add_strict_left_mono)
  also have "\<dots> = s * (?q + 4)" by (simp add: algebra_simps)
  finally have "s * p < s * (?q + 4)" by (simp only: eq)
  with \<open>0 < s\<close> have "p < ?q + 4" by (metis mult_less_cancel1)
  then show "p \<le> ?q + 3" by simp
qed

lemma unat_scale:
  fixes x p s :: u32
  assumes "unat x * unat p < 2 ^ 32"
  shows "unat (x * p div s) = unat x * unat p div unat s"
  using assms by (simp add: unat_div unat_mult_lem [THEN iffD1])

definition timing_example :: timing where
  "timing_example = (Timing_default 0 0)\<lparr>tm_period_millis := 1000, tm_command_millis := 200,
     tm_request_millis := 300, tm_reply_millis := 100, tm_idle_millis := 1\<rparr>"

section \<open>Properties\<close>

text \<open>When no product of an allocation with the period leaves 32 bits, \<open>resolve_times\<close> succeeds
  and the four resolved allocations add up to the period or at most three milliseconds less: the
  truncated divisions never allot more time than there is, and may leave up to three unallotted.\<close>

theorem resolve_times_fills_period:
  fixes t :: timing
  defines "a \<equiv> unat (tm_command_millis t)" and "b \<equiv> unat (tm_request_millis t)"
    and "c \<equiv> unat (tm_reply_millis t)" and "d \<equiv> unat (tm_idle_millis t)"
    and "p \<equiv> unat (tm_period_millis t)"
  assumes "0 < a + b + c + d" and "a + b + c + d < 2 ^ 32" and "(a + b + c + d) * p < 2 ^ 32"
  shows "\<exists>t'. resolve_times t = Inr t' \<and> tm_period_millis t' = tm_period_millis t \<and>
     (let s = unat (tm_command_millis t') + unat (tm_request_millis t')
        + unat (tm_reply_millis t') + unat (tm_idle_millis t') in s \<le> p \<and> p \<le> s + 3)"
proof -
  let ?s = "tm_command_millis t + tm_request_millis t + tm_reply_millis t + tm_idle_millis t"
  have s: "unat ?s = a + b + c + d"
    using assms(7) by (simp add: a_def b_def c_def d_def unat_add_lem [THEN iffD1])
  then have "?s \<noteq> 0" using assms(6) by auto
  have bound: "x * p < 2 ^ 32" if "x \<le> a + b + c + d" for x
    using mult_le_mono1 [OF that, of p] assms(8) by linarith
  have "unat (tm_command_millis t * tm_period_millis t div ?s) = a * p div (a + b + c + d)"
    "unat (tm_request_millis t * tm_period_millis t div ?s) = b * p div (a + b + c + d)"
    "unat (tm_reply_millis t * tm_period_millis t div ?s) = c * p div (a + b + c + d)"
    "unat (tm_idle_millis t * tm_period_millis t div ?s) = d * p div (a + b + c + d)"
    using bound [of a] bound [of b] bound [of c] bound [of d] s
    by (simp_all add: a_def b_def c_def d_def p_def unat_scale)
  with \<open>?s \<noteq> 0\<close> scaled_sum [OF refl assms(6), of p] show ?thesis
    by (simp add: resolve_times_def Let_def)
qed

lemma resolve_times_fills_period_witness:
  "\<exists>t'. resolve_times timing_example = Inr t' \<and> tm_period_millis t' = 1000 \<and>
     (let s = unat (tm_command_millis t') + unat (tm_request_millis t')
        + unat (tm_reply_millis t') + unat (tm_idle_millis t') in s \<le> 1000 \<and> 1000 \<le> s + 3)"
  using resolve_times_fills_period [of timing_example] by (simp add: timing_example_def Timing_default_def)

end
