(* ===== verification/Downlink_Element.thy ===== *)
theory Downlink_Element
  imports Systems
begin

text \<open>
  \<open>DownlinkBufferElement\<close> of \<open>src/Buffers.cpp\<close>: a packet waiting in the downlink queue with the data
  of its eight-byte header. The pointer to the source system is an option. The error branches of
  the setters log the element's text, which reads the system's name and the data type, so they are
  undefined for a null system and, in the first constructor, for the type not yet assigned.
\<close>

section \<open>The element and its setters\<close>

record dbe =
  dbe_max_packet_size :: nat
  dbe_payload :: bytes
  dbe_system :: "system option"
  dbe_packets_per_frame :: u16
  dbe_this_packet_index :: u16
  dbe_type :: ring_type
  dbe_frame_counter :: u16

definition DBE_HEADER :: nat where "DBE_HEADER = 8"

definition dbe_to_string :: "dbe \<Rightarrow> string result" where
  "dbe_to_string d =
     bindR (option_at (ring_name (dbe_type d))) (\<lambda>type.
     bindR (option_deref (dbe_system d)) (\<lambda>sys. Inr (
     ''DownlinkBufferElement::''
     @ newline @ tab @ ''max_packet_size '' @ tab @ ''= '' @ dec_string (dbe_max_packet_size d)
     @ newline @ tab @ ''packets_per_frame '' @ tab @ ''= '' @ dec_string (unat (dbe_packets_per_frame d))
     @ newline @ tab @ ''this_packet_index '' @ tab @ ''= '' @ dec_string (unat (dbe_this_packet_index d))
     @ newline @ tab @ ''type '' @ tab @ tab @ tab @ ''= '' @ type
     @ newline @ tab @ ''payload.size() '' @ tab @ tab @ ''= '' @ dec_string (length (dbe_payload d))
     @ newline @ tab @ ''system.name, .hex '' @ tab @ ''= '' @ sys_name sys @ '', '' @ dec_string (unat (sys_hex sys))
     @ newline)))"

definition check_payload_fits :: "bytes \<Rightarrow> dbe \<Rightarrow> bool" where
  "check_payload_fits new_payload d =
     (if sz_add (length new_payload) 8 \<le> dbe_max_packet_size d then True else False)"

definition dbe_set_payload :: "bytes \<Rightarrow> dbe \<Rightarrow> dbe result" where
  "dbe_set_payload new_payload d =
     (if check_payload_fits new_payload d then Inr (d\<lparr>dbe_payload := new_payload\<rparr>)
      else bindR (dbe_to_string d) (\<lambda>log. Inr d))"

definition dbe_set_packets_per_frame :: "u16 \<Rightarrow> dbe \<Rightarrow> dbe" where
  "dbe_set_packets_per_frame n d = d\<lparr>dbe_packets_per_frame := n\<rparr>"

definition dbe_set_this_packet_index :: "u16 \<Rightarrow> dbe \<Rightarrow> dbe result" where
  "dbe_set_this_packet_index i d =
     bindR (if i > dbe_packets_per_frame d then dbe_to_string d else Inr [])
       (\<lambda>log. Inr (d\<lparr>dbe_this_packet_index := i\<rparr>))"

definition dbe_set_type :: "ring_type \<Rightarrow> dbe \<Rightarrow> dbe" where
  "dbe_set_type t d = d\<lparr>dbe_type := t\<rparr>"

definition dbe_set_frame_counter :: "u16 \<Rightarrow> dbe \<Rightarrow> dbe" where
  "dbe_set_frame_counter n d = d\<lparr>dbe_frame_counter := n\<rparr>"

section \<open>Constructors\<close>

text \<open>From a system and a packet size. When the empty payload does not fit, the error branch looks up
  the name of a type that has not been assigned.\<close>

definition DownlinkBufferElement_sized :: "system option \<Rightarrow> nat \<Rightarrow> dbe result" where
  "DownlinkBufferElement_sized new_system new_max_packet_size =
     (if 8 \<le> new_max_packet_size then
        Inr \<lparr>dbe_max_packet_size = new_max_packet_size, dbe_payload = [], dbe_system = new_system,
          dbe_packets_per_frame = 1, dbe_this_packet_index = 1, dbe_type = RB_NONE,
          dbe_frame_counter = 0\<rparr>
      else Inl Undefined)"

text \<open>The default constructor sets a packet size of 0 and then an empty payload, which needs 8.\<close>

definition DownlinkBufferElement_default :: "dbe result" where
  "DownlinkBufferElement_default =
     bindR (DownlinkBufferElement_sized None 0) (\<lambda>d. Inr (dbe_set_type RB_NONE d))"

definition source_frame_size :: "system \<Rightarrow> ring_type \<Rightarrow> nat" where
  "source_frame_size from_system t =
     (case sys_type from_system of
        CMD_SPW \<Rightarrow>
          (if length (sys_ring_params from_system) > 0 then get_frame_size_of from_system t
           else get_frame_size from_system)
      | _ \<Rightarrow> get_frame_size from_system)"

text \<open>From a source and a sink system: the frame size goes through a \<open>uint16_t\<close>, the payload's
  reservation of \<open>max_packet_size - 8\<close> bytes throws when that difference wraps.\<close>

definition DownlinkBufferElement :: "system \<Rightarrow> system \<Rightarrow> ring_type \<Rightarrow> dbe result" where
  "DownlinkBufferElement from_system to_system new_type =
     bindR (option_deref (sys_ethernet to_system)) (\<lambda>e.
       let max_packet_size = dl_max_payload_size e;
           size = unat (word_of_nat (source_frame_size from_system new_type) :: u16)
       in if max_packet_size = 0 then Inl Undefined
          else
            let last_packet_size = size mod max_packet_size;
                packets = size div max_packet_size + min last_packet_size 1
            in if sz_sub max_packet_size 8 > vec_max then Inl Length_Error
               else Inr \<lparr>dbe_max_packet_size = max_packet_size, dbe_payload = [],
                 dbe_system = Some from_system, dbe_packets_per_frame = word_of_nat packets,
                 dbe_this_packet_index = 1, dbe_type = new_type, dbe_frame_counter = 0\<rparr>)"

definition dbe_assign :: "dbe \<Rightarrow> dbe \<Rightarrow> dbe" where
  "dbe_assign this other = this\<lparr>
     dbe_max_packet_size := dbe_max_packet_size other,
     dbe_payload := dbe_payload other,
     dbe_system := dbe_system other,
     dbe_packets_per_frame := dbe_packets_per_frame other,
     dbe_this_packet_index := dbe_this_packet_index other,
     dbe_type := dbe_type other,
     dbe_frame_counter := dbe_frame_counter other\<rparr>"

text \<open>The copy constructor goes through the setters, whose error branches can be taken. The fields not
  yet set hold arbitrary values, which are only logged.\<close>

definition dbe_copy :: "dbe \<Rightarrow> dbe result" where
  "dbe_copy other =
     (let d = \<lparr>dbe_max_packet_size = dbe_max_packet_size other, dbe_payload = [],
          dbe_system = dbe_system other, dbe_packets_per_frame = dbe_packets_per_frame other,
          dbe_this_packet_index = 0, dbe_type = dbe_type other, dbe_frame_counter = 0\<rparr>
      in bindR (dbe_set_this_packet_index (dbe_this_packet_index other) d) (\<lambda>d.
         bindR (dbe_set_payload (dbe_payload other) d) (\<lambda>d.
         Inr (dbe_set_frame_counter (dbe_frame_counter other) d))))"

section \<open>The packet\<close>

definition dbe_get_header :: "dbe \<Rightarrow> bytes result" where
  "dbe_get_header d =
     bindR (option_deref (dbe_system d)) (\<lambda>sys.
     bindR (splat_to_nbytes 2 (ucast (dbe_packets_per_frame d))) (\<lambda>bytes_packets_per_frame.
     bindR (splat_to_nbytes 2 (ucast (dbe_this_packet_index d))) (\<lambda>bytes_packet_index.
     bindR (splat_to_nbytes 2 (ucast (dbe_frame_counter d))) (\<lambda>bytes_frame_counter.
       Inr ([sys_hex sys] @ bytes_packets_per_frame @ bytes_packet_index
            @ [ring_code (dbe_type d)] @ bytes_frame_counter)))))"

definition dbe_get_packet :: "dbe \<Rightarrow> bytes result" where
  "dbe_get_packet d =
     bindR (dbe_get_header d) (\<lambda>header.
       let packet = header @ dbe_payload d
       in if length packet > dbe_max_packet_size d then Inr [] else Inr packet)"

text \<open>The ground station's reading of a packet: source, packets in the frame, index, type, frame
  counter, payload.\<close>

definition word16 :: "u8 \<Rightarrow> u8 \<Rightarrow> u16" where
  "word16 hi lo = push_bit 8 (ucast hi) OR ucast lo"

fun parse_packet :: "bytes \<Rightarrow> (u8 \<times> u16 \<times> u16 \<times> u8 \<times> u16 \<times> bytes) option" where
  "parse_packet (s # n1 # n0 # i1 # i0 # t # c1 # c0 # payload) =
     Some (s, word16 n1 n0, word16 i1 i0, t, word16 c1 c0, payload)"
| "parse_packet _ = None"

text \<open>The state every element of the queue has: its payload fits behind the header (or is empty), and
  it names its system.\<close>

definition dbe_wf :: "dbe \<Rightarrow> bool" where
  "dbe_wf d \<longleftrightarrow> dbe_system d \<noteq> None \<and> length (dbe_payload d) < 2 ^ 63 \<and>
     (dbe_payload d = [] \<or> length (dbe_payload d) + 8 \<le> dbe_max_packet_size d)"

lemma dbe_to_string_ok [simp]: "dbe_system d \<noteq> None \<Longrightarrow> \<exists>s. dbe_to_string d = Inr s"
  using ring_name_total [of "dbe_type d"] by (auto simp: dbe_to_string_def)

lemma bind_dbe_to_string [simp]: "dbe_system d \<noteq> None \<Longrightarrow> bindR (dbe_to_string d) (\<lambda>log. k) = k"
  by (metis dbe_to_string_ok bindR_Inr)

lemma word16_be_bytes: "word16 (ucast (drop_bit 8 (ucast w :: u64))) (ucast (ucast w :: u64)) = w"
proof (rule bit_word_eqI)
  fix n assume n: "n < LENGTH(16)"
  then show "bit (word16 (ucast (drop_bit 8 (ucast w :: u64))) (ucast (ucast w :: u64))) n = bit w n"
    by (auto simp: word16_def bit_or_iff bit_push_bit_iff bit_unsigned_iff bit_drop_bit_eq)
qed

lemma dbe_get_header_eq:
  assumes "dbe_system d = Some s"
  shows "dbe_get_header d = Inr ([sys_hex s] @ be_bytes 2 (ucast (dbe_packets_per_frame d))
    @ be_bytes 2 (ucast (dbe_this_packet_index d)) @ [ring_code (dbe_type d)]
    @ be_bytes 2 (ucast (dbe_frame_counter d)))"
  using assms by (simp add: dbe_get_header_def del: be_bytes_numeral)

lemma dbe_get_packet_length:
  "dbe_get_packet d = Inr p \<Longrightarrow> p = [] \<or> length p = 8 + length (dbe_payload d) \<and> length p \<le> dbe_max_packet_size d"
  by (cases "dbe_system d") (auto simp: dbe_get_packet_def dbe_get_header_def Let_def split: if_splits)

lemma dbe_copy_wf: "dbe_wf d \<Longrightarrow> dbe_copy d = Inr d"
  by (auto simp: dbe_copy_def dbe_set_this_packet_index_def dbe_set_payload_def
      dbe_set_frame_counter_def check_payload_fits_def dbe_wf_def)

lemma dbe_set_payload_wf:
  "dbe_wf d \<Longrightarrow> length p < 2 ^ 63 \<Longrightarrow> dbe_set_payload p d = Inr d' \<Longrightarrow> dbe_wf d'"
  by (auto simp: dbe_set_payload_def check_payload_fits_def dbe_wf_def bindR_eq_Inr split: if_splits)

lemma DownlinkBufferElement_wf: "DownlinkBufferElement a b t = Inr d \<Longrightarrow> dbe_wf d"
  by (auto simp: DownlinkBufferElement_def dbe_wf_def bindR_eq_Inr Let_def split: if_splits)

lemma DownlinkBufferElement_ok:
  assumes "sys_ethernet g = Some e" "8 \<le> dl_max_payload_size e" "dl_max_payload_size e \<le> vec_max"
  shows "\<exists>d. DownlinkBufferElement s g t = Inr d \<and> dbe_system d = Some s \<and> dbe_payload d = [] \<and>
    dbe_max_packet_size d = dl_max_payload_size e \<and> dbe_type d = t"
  using assms by (simp add: DownlinkBufferElement_def Let_def)

section \<open>Properties\<close>

text \<open>C16. A queued element's packet carries the element: reading the eight header bytes and the rest
  gives back the system's identifier, the packet count, the one-based index, the data type, the
  frame counter and the payload, and the packet is no longer than the link allows.\<close>

theorem downlink_packet_roundtrip:
  assumes "dbe_system d = Some s" and "length (dbe_payload d) + 8 \<le> dbe_max_packet_size d"
  shows "\<exists>p. dbe_get_packet d = Inr p \<and> length p \<le> dbe_max_packet_size d \<and>
    parse_packet p = Some (sys_hex s, dbe_packets_per_frame d, dbe_this_packet_index d,
      ring_code (dbe_type d), dbe_frame_counter d, dbe_payload d)"
  using assms word16_be_bytes by (simp add: dbe_get_packet_def dbe_get_header_eq)

lemma downlink_packet_roundtrip_witness:
  "\<exists>p. dbe_get_packet \<lparr>dbe_max_packet_size = 10, dbe_payload = [1, 2],
      dbe_system = Some (System_named ''cdte1'' 9), dbe_packets_per_frame = 3,
      dbe_this_packet_index = 2, dbe_type = HK, dbe_frame_counter = 7\<rparr> = Inr p \<and> length p \<le> 10 \<and>
    parse_packet p = Some (9, 3, 2, 0x10, 7, [1, 2])"
  using downlink_packet_roundtrip [of "\<lparr>dbe_max_packet_size = 10, dbe_payload = [1, 2],
      dbe_system = Some (System_named ''cdte1'' 9), dbe_packets_per_frame = 3,
      dbe_this_packet_index = 2, dbe_type = HK, dbe_frame_counter = 7\<rparr>" "System_named ''cdte1'' 9"]
  by (simp add: System_named_def)

text \<open>The default constructor never succeeds: it sets an empty payload in a packet of size 0, and
  the error branch reads the name of a null system. With at least 8 bytes the sized constructor
  succeeds for every system.\<close>

theorem default_element_undefined:
  "DownlinkBufferElement_default = Inl Undefined \<and>
   (\<exists>d. DownlinkBufferElement_sized s (n + 8) = Inr d \<and> dbe_payload d = [])"
  by (simp add: DownlinkBufferElement_default_def DownlinkBufferElement_sized_def)

end
