(* ===== verification/Packet_Framer.thy ===== *)
theory Packet_Framer
  imports Downlink_Element
begin

text \<open>
  \<open>PacketFramer\<close> of \<open>src/Buffers.cpp\<close>: a frame under assembly from packets whose headers and footers
  are stripped. Sizes are \<open>size_t\<close>; sums and differences of sizes wrap as in the code. Erasing more
  bytes than a packet has is undefined behaviour.
\<close>

section \<open>State\<close>

record packet_framer =
  pf_static_strip_header_size :: nat
  pf_initial_strip_header_size :: nat
  pf_subsequent_strip_header_size :: nat
  pf_static_strip_footer_size :: nat
  pf_initial_strip_footer_size :: nat
  pf_subsequent_strip_footer_size :: nat
  pf_packets_per_frame :: nat
  pf_packet_counter :: nat
  pf_frame_size :: nat
  pf_frame :: bytes
  pf_frame_done :: bool
  pf_system :: system
  pf_type :: ring_type

definition pf_copy :: "packet_framer \<Rightarrow> packet_framer" where
  "pf_copy other = \<lparr>
     pf_static_strip_header_size = pf_static_strip_header_size other,
     pf_initial_strip_header_size = pf_initial_strip_header_size other,
     pf_subsequent_strip_header_size = pf_subsequent_strip_header_size other,
     pf_static_strip_footer_size = pf_static_strip_footer_size other,
     pf_initial_strip_footer_size = pf_initial_strip_footer_size other,
     pf_subsequent_strip_footer_size = pf_subsequent_strip_footer_size other,
     pf_packets_per_frame = pf_packets_per_frame other,
     pf_packet_counter = pf_packet_counter other,
     pf_frame_size = pf_frame_size other,
     pf_frame = pf_frame other,
     pf_frame_done = pf_frame_done other,
     pf_system = pf_system other,
     pf_type = pf_type other\<rparr>"

lemma pf_copy_same: "pf_copy pf = pf"
  by (simp add: pf_copy_def)

definition framer_of_link ::
    "'a data_link_layer_scheme \<Rightarrow> nat \<Rightarrow> nat \<Rightarrow> system \<Rightarrow> ring_type \<Rightarrow> packet_framer" where
  "framer_of_link system_if packets frame_size sys t = \<lparr>
     pf_static_strip_header_size = dl_static_header_size system_if,
     pf_initial_strip_header_size = dl_initial_header_size system_if,
     pf_subsequent_strip_header_size = dl_subsequent_header_size system_if,
     pf_static_strip_footer_size = dl_static_footer_size system_if,
     pf_initial_strip_footer_size = dl_initial_footer_size system_if,
     pf_subsequent_strip_footer_size = dl_subsequent_footer_size system_if,
     pf_packets_per_frame = packets,
     pf_packet_counter = 0,
     pf_frame_size = frame_size,
     pf_frame = [],
     pf_frame_done = False,
     pf_system = sys,
     pf_type = t\<rparr>"

text \<open>The end of the constructor, common to the three interfaces. The number of packets adds
  \<open>min(packet_size, 1)\<close>, not the minimum with the size of the last packet.\<close>

definition framer_finish ::
    "'a data_link_layer_scheme \<Rightarrow> nat \<Rightarrow> system \<Rightarrow> ring_type \<Rightarrow> packet_framer result" where
  "framer_finish system_if frame_size sys t =
     (let packet_size = dl_max_payload_size system_if in
      if packet_size = 0 then Inl Undefined
      else if frame_size > vec_max then Inl Length_Error
      else Inr (framer_of_link system_if (frame_size div packet_size + min packet_size 1) frame_size sys t))"

text \<open>For a system without an interface type the pointer is never initialised (and the packet size
  is 0, a division by zero).\<close>

definition PacketFramer :: "system \<Rightarrow> ring_type \<Rightarrow> packet_framer result" where
  "PacketFramer new_system new_type =
     (case sys_type new_system of
        CMD_ETHERNET \<Rightarrow> bindR (option_deref (sys_ethernet new_system))
          (\<lambda>i. framer_finish i (get_frame_size new_system) new_system new_type)
      | CMD_SPW \<Rightarrow> bindR (option_deref (sys_spacewire new_system))
          (\<lambda>i. framer_finish i
             (if length (sys_ring_params new_system) > 0 then get_frame_size_of new_system new_type
              else get_frame_size new_system) new_system new_type)
      | CMD_UART \<Rightarrow> bindR (option_deref (sys_uart new_system))
          (\<lambda>i. framer_finish i (get_frame_size new_system) new_system new_type)
      | CMD_NONE \<Rightarrow> Inl Undefined
      | CMD_SPI \<Rightarrow> Inl Undefined)"

section \<open>Operations\<close>

definition pf_clear_frame :: "packet_framer \<Rightarrow> packet_framer" where
  "pf_clear_frame pf = pf\<lparr>pf_frame := [], pf_frame_done := False, pf_packet_counter := 0\<rparr>"

text \<open>The four erasures applied to a packet.\<close>

definition strip_packet :: "nat \<Rightarrow> nat \<Rightarrow> nat \<Rightarrow> nat \<Rightarrow> bytes \<Rightarrow> bytes result" where
  "strip_packet h1 h2 f1 f2 packet =
     bindR (vec_erase_front h1 packet) (\<lambda>packet.
     bindR (vec_erase_front h2 packet) (\<lambda>packet.
     bindR (vec_erase_back f1 packet) (\<lambda>packet. vec_erase_back f2 packet)))"

definition strip_initial :: "packet_framer \<Rightarrow> bytes \<Rightarrow> bytes result" where
  "strip_initial pf = strip_packet
     (pf_initial_strip_header_size pf) (pf_static_strip_header_size pf)
     (pf_initial_strip_footer_size pf) (pf_static_strip_footer_size pf)"

definition strip_subsequent :: "packet_framer \<Rightarrow> bytes \<Rightarrow> bytes result" where
  "strip_subsequent pf = strip_packet
     (pf_static_strip_header_size pf) (pf_subsequent_strip_header_size pf)
     (pf_static_strip_footer_size pf) (pf_subsequent_strip_footer_size pf)"

definition subsequent_heads_and_feet :: "packet_framer \<Rightarrow> nat" where
  "subsequent_heads_and_feet pf =
     sz_add (sz_add (sz_add (pf_static_strip_footer_size pf) (pf_subsequent_strip_footer_size pf))
       (pf_static_strip_header_size pf)) (pf_subsequent_strip_header_size pf)"

definition pf_append :: "bytes \<Rightarrow> bool \<Rightarrow> packet_framer \<Rightarrow> packet_framer" where
  "pf_append packet finished pf = pf\<lparr>pf_frame := pf_frame pf @ packet,
     pf_frame_done := finished, pf_packet_counter := sz_add (pf_packet_counter pf) 1\<rparr>"

definition push_to_frame :: "bytes \<Rightarrow> packet_framer \<Rightarrow> packet_framer result" where
  "push_to_frame new_packet pf =
     (if pf_frame_done pf \<or> length (pf_frame pf) = pf_frame_size pf then Inr pf
      else if length (pf_frame pf) > 0 then
        (let heads_and_feet_size = subsequent_heads_and_feet pf;
             new_size = sz_sub (sz_add (length (pf_frame pf)) (length new_packet)) heads_and_feet_size
         in if new_size > pf_frame_size pf then
              bindR (strip_subsequent pf new_packet) (\<lambda>packet.
              bindR (vec_resize (sz_sub (pf_frame_size pf) (length (pf_frame pf))) packet) (\<lambda>packet.
                Inr (pf_append packet True pf)))
            else if new_size = pf_frame_size pf then
              bindR (strip_subsequent pf new_packet) (\<lambda>packet. Inr (pf_append packet True pf))
            else
              bindR (strip_subsequent pf new_packet) (\<lambda>packet.
                Inr (pf_append packet (pf_frame_done pf) pf)))
      else
        bindR (strip_initial pf new_packet) (\<lambda>packet.
          Inr (pf_append packet (pf_frame_done pf) pf)))"

definition check_frame_done :: "packet_framer \<Rightarrow> bool" where
  "check_frame_done pf = (if length (pf_frame pf) = pf_frame_size pf then True else False)"

text \<open>
  The loop counter of \<open>pop_from_frame\<close> is decremented. Compared as a \<open>size_t\<close> its second value is
  the largest one, so the body runs once for every block size but 0.
\<close>

definition pop_from_frame :: "nat \<Rightarrow> packet_framer \<Rightarrow> (bytes \<times> packet_framer) result" where
  "pop_from_frame block_size pf =
     (let start_size = length (pf_frame pf);
          finish = (\<lambda>(r, pf). if length (pf_frame pf) = 0 then (r, pf\<lparr>pf_frame_done := True\<rparr>) else (r, pf))
      in if block_size > vec_max then Inl Length_Error
         else if block_size = 0 then Inr (finish ([], pf))
         else bindR (vec_at (pf_frame pf) (sz_sub (sz_sub start_size block_size) 1)) (\<lambda>x.
           Inr (finish ((replicate block_size 0)[0 := x],
             pf\<lparr>pf_frame := butlast (pf_frame pf),
                pf_packet_counter := sz_sub (pf_packet_counter pf) 1\<rparr>))))"

definition get_spw_transaction_id :: "packet_framer \<Rightarrow> u16" where
  "get_spw_transaction_id pf =
     (if sys_hex (pf_system pf) > 0xf then 0x00
      else if pf_packet_counter pf > 0xfff \<or> pf_packets_per_frame pf > 0xfff then 0x00
      else
        let msb = push_bit 12 (ucast (sys_hex (pf_system pf) AND 0xf)) :: u16;
            lsb = word_of_nat (pf_packet_counter pf) AND 0xfff
        in msb OR lsb)"

definition pf_to_string :: "packet_framer \<Rightarrow> string result" where
  "pf_to_string pf =
     bindR (option_at (ring_name (pf_type pf))) (\<lambda>type. Inr (
     ''PacketFramer::''
     @ newline @ tab @ ''frame_size '' @ tab @ tab @ tab @ ''= '' @ dec_string (pf_frame_size pf)
     @ newline @ tab @ ''frame.size() '' @ tab @ tab @ tab @ ''= '' @ dec_string (length (pf_frame pf))
     @ newline @ tab @ ''frame_done '' @ tab @ tab @ tab @ ''= '' @ (if pf_frame_done pf then ''1'' else ''0'')
     @ newline @ tab @ ''packets_per_frame '' @ tab @ tab @ ''= '' @ dec_string (pf_packets_per_frame pf)
     @ newline @ tab @ ''packet_counter '' @ tab @ tab @ tab @ ''= '' @ dec_string (pf_packet_counter pf)
     @ newline @ tab @ ''system.name, system.hex '' @ tab @ ''= '' @ sys_name (pf_system pf) @ '', ''
       @ dec_string (unat (sys_hex (pf_system pf)))
     @ newline @ tab @ ''type '' @ tab @ tab @ tab @ tab @ ''= '' @ type
     @ newline @ tab @ ''static_strip_header_size '' @ tab @ ''= '' @ dec_string (pf_static_strip_header_size pf)
     @ newline @ tab @ ''static_strip_footer_size '' @ tab @ ''= '' @ dec_string (pf_static_strip_footer_size pf)
     @ newline @ tab @ ''initial_strip_header_size '' @ tab @ ''= '' @ dec_string (pf_initial_strip_header_size pf)
     @ newline @ tab @ ''initial_strip_footer_size '' @ tab @ ''= '' @ dec_string (pf_initial_strip_footer_size pf)
     @ newline @ tab @ ''subsequent_strip_header_size '' @ tab @ ''= '' @ dec_string (pf_subsequent_strip_header_size pf)
     @ newline @ tab @ ''subsequent_strip_footer_size '' @ tab @ ''= '' @ dec_string (pf_subsequent_strip_footer_size pf)
     @ newline))"

section \<open>Reassembly\<close>

fun push_all :: "bytes list \<Rightarrow> packet_framer \<Rightarrow> packet_framer result" where
  "push_all [] pf = Inr pf"
| "push_all (p # ps) pf = bindR (push_to_frame p pf) (push_all ps)"

text \<open>A packet on the link: header, payload, footer.\<close>

type_synonym parts = "bytes \<times> bytes \<times> bytes"

fun packet_of :: "parts \<Rightarrow> bytes" where
  "packet_of (h, p, f) = h @ p @ f"

fun payload_of :: "parts \<Rightarrow> bytes" where
  "payload_of (h, p, f) = p"

fun initial_shape :: "packet_framer \<Rightarrow> parts \<Rightarrow> bool" where
  "initial_shape pf (h, p, f) \<longleftrightarrow>
     length h = pf_initial_strip_header_size pf + pf_static_strip_header_size pf \<and>
     length f = pf_initial_strip_footer_size pf + pf_static_strip_footer_size pf \<and>
     p \<noteq> [] \<and> length p \<le> pf_frame_size pf"

fun subsequent_shape :: "packet_framer \<Rightarrow> parts \<Rightarrow> bool" where
  "subsequent_shape pf (h, p, f) \<longleftrightarrow>
     length h = pf_static_strip_header_size pf + pf_subsequent_strip_header_size pf \<and>
     length f = pf_static_strip_footer_size pf + pf_subsequent_strip_footer_size pf \<and>
     length h + length p + length f < 2 ^ 62"

text \<open>The invariant between pushes: the frame is never longer than its size, and only a full frame
  is marked done.\<close>

definition pf_inv :: "packet_framer \<Rightarrow> bool" where
  "pf_inv pf \<longleftrightarrow> length (pf_frame pf) \<le> pf_frame_size pf \<and> pf_frame_size pf < 2 ^ 62 \<and>
     (pf_frame_done pf \<longrightarrow> length (pf_frame pf) = pf_frame_size pf)"

lemma strip_packet_wrapped:
  "length h = h1 + h2 \<Longrightarrow> length f = f1 + f2 \<Longrightarrow> strip_packet h1 h2 f1 f2 (h @ p @ f) = Inr p"
  by (simp add: strip_packet_def)

lemma strip_packet_short: "length packet < h1 + h2 + f1 + f2 \<Longrightarrow> strip_packet h1 h2 f1 f2 packet = Inl Undefined"
  by (simp add: strip_packet_def vec_erase_front_def vec_erase_back_def, arith)

lemma push_full: "pf_inv pf \<Longrightarrow> length (pf_frame pf) = pf_frame_size pf \<Longrightarrow> push_to_frame p pf = Inr pf"
  by (simp add: push_to_frame_def)

lemma push_initial:
  assumes "pf_inv pf" "pf_frame pf = []" "initial_shape pf t"
  shows "push_to_frame (packet_of t) pf = Inr (pf_append (payload_of t) False pf)"
proof -
  obtain h p f where t: "t = (h, p, f)" by (cases t)
  with assms have "\<not> pf_frame_done pf" "0 < pf_frame_size pf"
    by (auto simp: pf_inv_def neq_Nil_conv)
  with assms t show ?thesis
    by (simp add: push_to_frame_def strip_initial_def strip_packet_wrapped)
qed

lemma push_subsequent:
  assumes inv: "pf_inv pf" and ne: "pf_frame pf \<noteq> []" and room: "length (pf_frame pf) < pf_frame_size pf"
    and shape: "subsequent_shape pf t"
  shows "push_to_frame (packet_of t) pf = Inr (pf_append
    (take (pf_frame_size pf - length (pf_frame pf)) (payload_of t))
    (pf_frame_size pf \<le> length (pf_frame pf) + length (payload_of t)) pf)"
proof -
  obtain h p f where t: "t = (h, p, f)" by (cases t)
  have h: "length h = pf_static_strip_header_size pf + pf_subsequent_strip_header_size pf"
    and f: "length f = pf_static_strip_footer_size pf + pf_subsequent_strip_footer_size pf"
    and small: "length h + length p + length f < 2 ^ 62"
    using shape t by auto
  have strip: "strip_subsequent pf (h @ p @ f) = Inr p"
    using h f by (simp add: strip_subsequent_def strip_packet_wrapped)
  have heads: "subsequent_heads_and_feet pf = length h + length f"
    using h f small by (simp add: subsequent_heads_and_feet_def)
  have "length (pf_frame pf) < 2 ^ 62" "pf_frame_size pf < 2 ^ 62"
    using inv room by (auto simp: pf_inv_def)
  then have new: "sz_sub (sz_add (length (pf_frame pf)) (length (h @ p @ f)))
      (subsequent_heads_and_feet pf) = length (pf_frame pf) + length p"
    using small by (simp add: heads)
  have fit: "pf_frame_size pf - length (pf_frame pf) \<le> vec_max"
    using \<open>pf_frame_size pf < 2 ^ 62\<close> by (simp add: vec_max_def)
  have "\<not> pf_frame_done pf" using inv room by (auto simp: pf_inv_def)
  with ne room fit strip show ?thesis
    unfolding push_to_frame_def Let_def t packet_of.simps payload_of.simps new
    by (auto simp: pad_to_shrink)
qed

lemma pf_inv_append:
  "pf_inv pf \<Longrightarrow> length (pf_frame pf) + length p \<le> pf_frame_size pf \<Longrightarrow>
   (d \<Longrightarrow> length (pf_frame pf) + length p = pf_frame_size pf) \<Longrightarrow> pf_inv (pf_append p d pf)"
  by (auto simp: pf_inv_def pf_append_def)

lemma subsequent_shape_append [simp]: "subsequent_shape (pf_append p d pf) t = subsequent_shape pf t"
  by (cases t) (simp add: pf_append_def)

lemma push_all_full:
  "pf_inv pf \<Longrightarrow> length (pf_frame pf) = pf_frame_size pf \<Longrightarrow> push_all ps pf = Inr pf"
  by (induction ps) (simp_all add: push_full)

lemma push_all_subsequent:
  "pf_inv pf \<Longrightarrow> pf_frame pf \<noteq> [] \<Longrightarrow> list_all (subsequent_shape pf) ts \<Longrightarrow>
   \<exists>pf'. push_all (map packet_of ts) pf = Inr pf' \<and> pf_inv pf' \<and> pf_frame_size pf' = pf_frame_size pf \<and>
     pf_frame pf' = take (pf_frame_size pf) (pf_frame pf @ concat (map payload_of ts))"
proof (induction ts arbitrary: pf)
  case Nil
  then show ?case by (auto simp: pf_inv_def)
next
  case (Cons t ts)
  show ?case
  proof (cases "length (pf_frame pf) = pf_frame_size pf")
    case True
    then have "push_all (map packet_of (t # ts)) pf = Inr pf" using Cons.prems(1) push_all_full by blast
    with True Cons.prems(1) show ?thesis by (metis append_eq_conv_conj)
  next
    case False
    then have room: "length (pf_frame pf) < pf_frame_size pf" using Cons.prems(1) by (simp add: pf_inv_def)
    let ?n = "pf_frame_size pf - length (pf_frame pf)"
    let ?pf = "pf_append (take ?n (payload_of t)) (pf_frame_size pf \<le> length (pf_frame pf) + length (payload_of t)) pf"
    have push: "push_to_frame (packet_of t) pf = Inr ?pf"
      using Cons.prems room by (intro push_subsequent) auto
    have inv: "pf_inv ?pf" using Cons.prems(1) room by (intro pf_inv_append) auto
    have frame: "pf_frame ?pf = take (pf_frame_size pf) (pf_frame pf @ payload_of t)"
      "pf_frame_size ?pf = pf_frame_size pf"
      using room by (auto simp: pf_append_def)
    have "\<exists>pf'. push_all (map packet_of ts) ?pf = Inr pf' \<and> pf_inv pf' \<and> pf_frame_size pf' = pf_frame_size ?pf \<and>
        pf_frame pf' = take (pf_frame_size ?pf) (pf_frame ?pf @ concat (map payload_of ts))"
    proof (rule Cons.IH [OF inv])
      show "pf_frame ?pf \<noteq> []" using Cons.prems(2) by (simp add: pf_append_def)
      show "list_all (subsequent_shape ?pf) ts" using Cons.prems(3) by (simp add: list_all_iff)
    qed
    with push frame room show ?thesis by (auto simp: min_def)
  qed
qed

lemma reassembly:
  assumes "pf_inv pf" "pf_frame pf = []" "initial_shape pf t" "list_all (subsequent_shape pf) ts"
  shows "\<exists>pf'. push_all (map packet_of (t # ts)) pf = Inr pf' \<and> pf_inv pf' \<and>
     pf_frame pf' = take (pf_frame_size pf) (concat (map payload_of (t # ts))) \<and>
     check_frame_done pf' = (pf_frame_size pf \<le> length (concat (map payload_of (t # ts))))"
proof -
  let ?pf = "pf_append (payload_of t) False pf"
  have ne: "payload_of t \<noteq> []" "length (payload_of t) \<le> pf_frame_size pf" using assms(3) by (cases t; simp)+
  have frame: "pf_frame ?pf = payload_of t" "pf_frame_size ?pf = pf_frame_size pf"
    using assms(2) by (simp_all add: pf_append_def)
  have "pf_inv ?pf" using assms ne by (intro pf_inv_append) auto
  moreover have "list_all (subsequent_shape ?pf) ts" using assms(4) by (simp add: list_all_iff)
  ultimately obtain pf' where "push_all (map packet_of ts) ?pf = Inr pf'" "pf_inv pf'"
      "pf_frame_size pf' = pf_frame_size pf"
      "pf_frame pf' = take (pf_frame_size pf) (payload_of t @ concat (map payload_of ts))"
    using push_all_subsequent [of ?pf ts] frame ne by auto
  then show ?thesis
    using push_initial [OF assms(1-3)] by (auto simp: check_frame_done_def)
qed

text \<open>An interrupted assembly: the packets of the next frame are appended to what is left.\<close>

lemma clear_frame_fresh:
  "pf_frame_size pf < 2 ^ 62 \<Longrightarrow> pf_inv (pf_clear_frame pf) \<and> pf_frame (pf_clear_frame pf) = []"
  by (simp add: pf_inv_def pf_clear_frame_def)

lemma pop_from_frame_one_byte:
  assumes "0 < n" "n < length (pf_frame pf)" "length (pf_frame pf) < 2 ^ 62"
  shows "\<exists>pf'. pop_from_frame n pf = Inr (pf_frame pf ! (length (pf_frame pf) - n - 1) # replicate (n - 1) 0, pf')
    \<and> pf_frame pf' = butlast (pf_frame pf)"
  using assms by (cases n) (auto simp: pop_from_frame_def Let_def vec_max_def)

section \<open>Transaction identifiers\<close>

lemma base_4096:
  fixes a b c d :: nat
  assumes "c < 4096" "d < 4096"
  shows "a * 4096 + c = b * 4096 + d \<longleftrightarrow> a = b \<and> c = d"
proof
  assume eq: "a * 4096 + c = b * 4096 + d"
  then have "(a * 4096 + c) div 4096 = (b * 4096 + d) div 4096" by simp
  then have "a = b" using assms by simp
  with eq show "a = b \<and> c = d" by simp
qed simp

lemma transaction_id_bits:
  assumes "sys_hex (pf_system pf) \<le> 0xf" "pf_packet_counter pf \<le> 0xfff" "pf_packets_per_frame pf \<le> 0xfff"
  shows "unat (get_spw_transaction_id pf) = unat (sys_hex (pf_system pf)) * 4096 + pf_packet_counter pf"
proof -
  let ?h = "sys_hex (pf_system pf)" and ?c = "pf_packet_counter pf"
  have h16: "unat ?h < 16" using assms(1) by (simp add: word_le_nat_alt)
  have hm: "?h AND 0xf = ?h"
  proof -
    have "(0xf :: u8) = mask 4" by (simp add: mask_eq_exp_minus_1)
    then have "?h AND 0xf = take_bit 4 ?h" by (simp only: take_bit_eq_mask)
    also have "\<dots> = ?h"
      using h16 by (simp add: word_unat_eq_iff unsigned_take_bit_eq take_bit_nat_eq_self)
    finally show ?thesis .
  qed
  have cm: "(word_of_nat ?c AND 0xfff :: u16) = word_of_nat ?c"
  proof -
    have "(0xfff :: u16) = mask 12" by (simp add: mask_eq_exp_minus_1)
    then have "(word_of_nat ?c AND 0xfff :: u16) = take_bit 12 (word_of_nat ?c)" by (simp only: take_bit_eq_mask)
    also have "\<dots> = word_of_nat ?c"
      using assms(2) by (simp add: word_unat_eq_iff unsigned_take_bit_eq unsigned_of_nat take_bit_nat_eq_self)
    finally show ?thesis .
  qed
  have uc: "unat (word_of_nat ?c :: u16) = ?c"
    using assms(2) by (simp add: unsigned_of_nat take_bit_nat_eq_self)
  have disj: "push_bit 12 (ucast ?h) AND (word_of_nat ?c :: u16) = 0"
  proof (rule bit_word_eqI)
    fix n assume "n < LENGTH(16)"
    have "\<not> bit (word_of_nat ?c :: u16) n" if "12 \<le> n"
    proof -
      have "take_bit 12 (word_of_nat ?c :: u16) = word_of_nat ?c"
        using assms(2) by (simp add: word_unat_eq_iff unsigned_take_bit_eq unsigned_of_nat take_bit_nat_eq_self)
      with that show ?thesis by (metis bit_take_bit_iff linorder_not_le)
    qed
    then show "bit (push_bit 12 (ucast ?h) AND (word_of_nat ?c :: u16)) n = bit 0 n"
      by (auto simp: bit_and_iff bit_push_bit_iff)
  qed
  have up: "unat (push_bit 12 (ucast ?h) :: u16) = unat ?h * 4096"
    using h16 unat_mult_small [of "ucast ?h :: u16" 4096] by (simp add: push_bit_eq_mult)
  have "get_spw_transaction_id pf = push_bit 12 (ucast ?h) OR word_of_nat ?c"
    using assms hm cm by (simp add: get_spw_transaction_id_def not_less not_less [THEN iffD2])
  also have "\<dots> = push_bit 12 (ucast ?h) + word_of_nat ?c"
    using disj by (simp add: disjunctive_add_eq_or)
  finally show ?thesis
    using up uc h16 assms(2) by (simp add: unat_add_lem [THEN iffD1])
qed

definition framer_example :: packet_framer where
  "framer_example = \<lparr>
     pf_static_strip_header_size = 2, pf_initial_strip_header_size = 1, pf_subsequent_strip_header_size = 0,
     pf_static_strip_footer_size = 1, pf_initial_strip_footer_size = 0, pf_subsequent_strip_footer_size = 0,
     pf_packets_per_frame = 2, pf_packet_counter = 0, pf_frame_size = 5, pf_frame = [], pf_frame_done = False,
     pf_system = System_named ''cmos1'' 0xe, pf_type = PC\<rparr>"

section \<open>Properties\<close>

text \<open>C10. Reassembly: starting from an empty frame, pushing a first packet with the initial header and
  footer around a non-empty payload that fits, then any number of packets with the subsequent headers
  and footers, never faults and leaves exactly the concatenated payloads, cut at the frame size; the
  frame counts as done as soon as the payloads reach that size.\<close>

theorem packet_framer_reassembles:
  assumes "pf_frame pf = []" and "\<not> pf_frame_done pf" and "pf_frame_size pf < 2 ^ 62"
    and "initial_shape pf t" and "list_all (subsequent_shape pf) ts"
  shows "\<exists>pf'. push_all (map packet_of (t # ts)) pf = Inr pf' \<and>
     pf_frame pf' = take (pf_frame_size pf) (concat (map payload_of (t # ts))) \<and>
     check_frame_done pf' = (pf_frame_size pf \<le> length (concat (map payload_of (t # ts))))"
  using reassembly [of pf t ts] assms by (auto simp: pf_inv_def)

lemma packet_framer_reassembles_witness:
  "\<exists>pf'. push_all [[0, 0, 0, 1, 2, 3, 0], [0, 0, 4, 5, 6, 0]] framer_example = Inr pf' \<and>
     pf_frame pf' = [1, 2, 3, 4, 5] \<and> check_frame_done pf'"
  using packet_framer_reassembles [of framer_example "([0, 0, 0], [1, 2, 3], [0])" "[([0, 0], [4, 5, 6], [0])]"]
  by (simp add: framer_example_def)

text \<open>For a packet whose header and footer are longer than the packet, in an empty frame, the
  erasures run past its end: undefined behaviour, the size check before them only logs.\<close>

theorem short_packet_undefined:
  assumes "pf_frame pf = []" and "\<not> pf_frame_done pf" and "0 < pf_frame_size pf"
    and "length packet < pf_initial_strip_header_size pf + pf_static_strip_header_size pf
           + pf_initial_strip_footer_size pf + pf_static_strip_footer_size pf"
  shows "push_to_frame packet pf = Inl Undefined"
  using assms by (simp add: push_to_frame_def strip_initial_def strip_packet_short)

lemma short_packet_undefined_witness: "push_to_frame [0, 0, 0] framer_example = Inl Undefined"
  using short_packet_undefined [of framer_example "[0, 0, 0]"] by (simp add: framer_example_def)

text \<open>Transaction identifiers: for system identifiers below 16 and counters up to \<open>0xfff\<close> two
  framers give the same identifier exactly when system and counter agree, so a reply can be matched
  to its request.\<close>

theorem transaction_id_unique:
  assumes "sys_hex (pf_system p) \<le> 0xf" "pf_packet_counter p \<le> 0xfff" "pf_packets_per_frame p \<le> 0xfff"
    and "sys_hex (pf_system q) \<le> 0xf" "pf_packet_counter q \<le> 0xfff" "pf_packets_per_frame q \<le> 0xfff"
  shows "get_spw_transaction_id p = get_spw_transaction_id q \<longleftrightarrow>
    sys_hex (pf_system p) = sys_hex (pf_system q) \<and> pf_packet_counter p = pf_packet_counter q"
proof -
  have "get_spw_transaction_id p = get_spw_transaction_id q \<longleftrightarrow>
      unat (sys_hex (pf_system p)) * 4096 + pf_packet_counter p
      = unat (sys_hex (pf_system q)) * 4096 + pf_packet_counter q"
    unfolding word_unat_eq_iff transaction_id_bits [OF assms(1-3)] transaction_id_bits [OF assms(4-6)] ..
  also have "\<dots> \<longleftrightarrow> unat (sys_hex (pf_system p)) = unat (sys_hex (pf_system q))
      \<and> pf_packet_counter p = pf_packet_counter q"
    using assms(2,5) by (intro base_4096) auto
  finally show ?thesis by (simp add: word_unat_eq_iff)
qed

lemma transaction_id_unique_witness:
  "get_spw_transaction_id framer_example \<noteq> get_spw_transaction_id (framer_example\<lparr>pf_packet_counter := 1\<rparr>)"
  using transaction_id_unique [of framer_example "framer_example\<lparr>pf_packet_counter := 1\<rparr>"]
  by (simp add: framer_example_def System_named_def)

text \<open>\<open>pop_from_frame\<close> of a block of \<open>n > 1\<close> bytes does not return the last \<open>n\<close> bytes of the frame:
  because its loop counts down, it removes a single byte and fills the block with zeros after the
  first, and it throws when the frame has no more than \<open>n\<close> bytes.\<close>

theorem pop_from_frame_pops_one:
  assumes "0 < n" and "length (pf_frame pf) < 2 ^ 62" and "n < 2 ^ 62"
  shows "if n < length (pf_frame pf)
    then \<exists>pf'. pop_from_frame n pf =
        Inr (pf_frame pf ! (length (pf_frame pf) - n - 1) # replicate (n - 1) 0, pf')
      \<and> pf_frame pf' = butlast (pf_frame pf)
    else pop_from_frame n pf = Inl Out_Of_Range"
proof (cases "n < length (pf_frame pf)")
  case True
  then show ?thesis using pop_from_frame_one_byte assms by simp
next
  case False
  then have "length (pf_frame pf) \<le> sz_sub (sz_sub (length (pf_frame pf)) n) 1"
    using assms by (auto simp: sz_sub_def)
  with False assms show ?thesis by (simp add: pop_from_frame_def Let_def vec_max_def)
qed

lemma pop_from_frame_pops_one_witness:
  "\<exists>pf'. pop_from_frame 2 (framer_example\<lparr>pf_frame := [1, 2, 3, 4]\<rparr>) = Inr ([2, 0], pf') \<and>
     pf_frame pf' = [1, 2, 3]"
  using pop_from_frame_pops_one [of 2 "framer_example\<lparr>pf_frame := [1, 2, 3, 4]\<rparr>"]
  by (simp add: framer_example_def)

end
