(* ===== verification/Drain.thy ===== *)
theory Drain
  imports Prelude
begin

text \<open>
  The loop that empties a source of packets into a queue
  (\<open>while (!source.emptied()) queue.enqueue(source.pop())\<close>, the downlink loop of the transport
  layer), and the interface it relies on. The loop may run forever, so it is a partial function;
  the locale \<open>chunk_source\<close> says what a source promises, and under it the loop ends, faults never,
  and moves the whole content of the source in order.
\<close>

section \<open>The loop\<close>

partial_function (option) drain_loop ::
    "('s \<Rightarrow> bool) \<Rightarrow> ('s \<Rightarrow> ('e \<times> 's) result) \<Rightarrow> 's \<Rightarrow> 'e list \<Rightarrow> ('s \<times> 'e list) result option" where
  "drain_loop emptied pop s queue =
     (if emptied s then Some (Inr (s, queue))
      else case pop s of
        Inl e \<Rightarrow> Some (Inl e)
      | Inr (x, s') \<Rightarrow> drain_loop emptied pop s' (queue @ [x]))"

lemma drain_emptied [simp]: "emptied s \<Longrightarrow> drain_loop emptied pop s queue = Some (Inr (s, queue))"
  by (simp add: drain_loop.simps [of emptied pop s queue])

lemma drain_step: "\<not> emptied s \<Longrightarrow> pop s = Inr (x, s') \<Longrightarrow>
   drain_loop emptied pop s queue = drain_loop emptied pop s' (queue @ [x])"
  by (simp add: drain_loop.simps [of emptied pop s queue])

lemma drain_fault: "\<not> emptied s \<Longrightarrow> pop s = Inl e \<Longrightarrow> drain_loop emptied pop s queue = Some (Inl e)"
  by (simp add: drain_loop.simps [of emptied pop s queue])

text \<open>A set of states the loop cannot leave and in which nothing is ever empty: it runs forever.\<close>

lemma drain_diverges:
  assumes stuck: "\<And>s. I s \<Longrightarrow> \<not> emptied s \<and> (\<exists>x s'. pop s = Inr (x, s') \<and> I s')"
    and "I s"
  shows "drain_loop emptied pop s queue = None"
proof -
  have "em = emptied \<longrightarrow> p = pop \<longrightarrow> \<not> I s" if "drain_loop em p s q = Some r" for em p s q r
    using _ that
  proof (rule drain_loop.raw_induct [where P = "\<lambda>em p s q r. em = emptied \<longrightarrow> p = pop \<longrightarrow> \<not> I s"])
    fix loop em p s q r
    assume IH: "\<And>em p s q r. loop em p s q = Some r \<Longrightarrow> em = emptied \<longrightarrow> p = pop \<longrightarrow> \<not> I s"
      and body: "(if em s then Some (Inr (s, q)) else case p s of Inl e \<Rightarrow> Some (Inl e)
          | Inr (x, s') \<Rightarrow> loop em p s' (q @ [x])) = Some r"
    show "em = emptied \<longrightarrow> p = pop \<longrightarrow> \<not> I s"
    proof (intro impI notI)
      assume eq: "em = emptied" "p = pop" and "I s"
      with stuck [of s] obtain x s' where "\<not> emptied s" "pop s = Inr (x, s')" "I s'" by blast
      with IH [of em p s' "q @ [x]" r] body eq show False by auto
    qed
  qed
  with \<open>I s\<close> show ?thesis by (cases "drain_loop emptied pop s queue") auto
qed

text \<open>What every popped element satisfies holds of all that the loop adds.\<close>

lemma drain_elements:
  assumes "drain_loop emptied pop s queue = Some (Inr (s', queue'))"
    and "\<And>s x s'. pop s = Inr (x, s') \<Longrightarrow> Q x" and "list_all Q queue"
  shows "list_all Q queue'"
proof -
  have "p = pop \<longrightarrow> list_all Q q \<longrightarrow> (\<forall>s' q'. r = Inr (s', q') \<longrightarrow> list_all Q q')"
    if "drain_loop em p s q = Some r" for em p s q r
    using _ that
  proof (rule drain_loop.raw_induct [where P = "\<lambda>em p s q r. p = pop \<longrightarrow> list_all Q q \<longrightarrow>
      (\<forall>s' q'. r = Inr (s', q') \<longrightarrow> list_all Q q')"])
    fix loop em p s q r
    assume IH: "\<And>em p s q r. loop em p s q = Some r \<Longrightarrow> p = pop \<longrightarrow> list_all Q q \<longrightarrow>
        (\<forall>s' q'. r = Inr (s', q') \<longrightarrow> list_all Q q')"
      and body: "(if em s then Some (Inr (s, q)) else case p s of Inl e \<Rightarrow> Some (Inl e)
          | Inr (x, s') \<Rightarrow> loop em p s' (q @ [x])) = Some r"
    show "p = pop \<longrightarrow> list_all Q q \<longrightarrow> (\<forall>s' q'. r = Inr (s', q') \<longrightarrow> list_all Q q')"
    proof (intro impI)
      assume "p = pop" "list_all Q q"
      then show "\<forall>s' q'. r = Inr (s', q') \<longrightarrow> list_all Q q'"
        using body IH [of em p _ "q @ [_]" r] assms(2) [of s]
        by (auto split: if_splits sum.splits prod.splits)
    qed
  qed
  with assms show ?thesis by blast
qed

section \<open>The interface\<close>

locale chunk_source =
  fixes inv :: "'s \<Rightarrow> bool"
    and emptied :: "'s \<Rightarrow> bool"
    and pop :: "'s \<Rightarrow> ('e \<times> 's) result"
    and content :: "'s \<Rightarrow> 'b list"
    and data :: "'e \<Rightarrow> 'b list"
  assumes emptied_iff: "emptied s \<longleftrightarrow> content s = []"
    and pop_progress: "inv s \<Longrightarrow> content s \<noteq> [] \<Longrightarrow>
      \<exists>x s'. pop s = Inr (x, s') \<and> inv s' \<and> data x \<noteq> [] \<and> content s = data x @ content s'"
begin

lemma drain_total:
  "inv s \<Longrightarrow> \<exists>s' xs. drain_loop emptied pop s queue = Some (Inr (s', queue @ xs)) \<and>
     inv s' \<and> content s' = [] \<and> concat (map data xs) = content s"
proof (induction "length (content s)" arbitrary: s queue rule: less_induct)
  case less
  show ?case
  proof (cases "content s = []")
    case True
    with less.prems show ?thesis by (intro exI [of _ s] exI [of _ "[]"]) (simp add: emptied_iff)
  next
    case False
    with pop_progress less.prems obtain x s1 where
      x: "pop s = Inr (x, s1)" "inv s1" "data x \<noteq> []" "content s = data x @ content s1" by blast
    then have "length (content s1) < length (content s)" by simp
    from less.hyps [OF this x(2), of "queue @ [x]"] obtain s2 xs where
      "drain_loop emptied pop s1 (queue @ [x]) = Some (Inr (s2, (queue @ [x]) @ xs))"
      "inv s2" "content s2 = []" "concat (map data xs) = content s1" by blast
    with x False show ?thesis
      by (intro exI [of _ s2] exI [of _ "x # xs"]) (simp add: drain_step emptied_iff)
  qed
qed

lemma drain_never_faults: "inv s \<Longrightarrow> drain_loop emptied pop s queue \<noteq> Some (Inl e)"
  using drain_total [of s queue] by auto

lemma drain_keeps_queue:
  assumes "inv s" "drain_loop emptied pop s queue = Some (Inr (s', queue'))"
  shows "take (length queue) queue' = queue"
  using drain_total [OF assms(1), of queue] assms(2) by auto

end

end
