(* ===== verification/Single_Float.thy ===== *)
theory Single_Float
  imports Prelude
begin

text \<open>
  Single-precision arithmetic as far as the \<open>FramePacketizer\<close> constructor uses it: the conversion of a
  \<open>size_t\<close> to \<open>float\<close>, the quotient of two such values, and \<open>std::ceil\<close>. A positive float is a
  24-bit significand times a power of two; both conversion and quotient round to nearest, ties to
  even. For operands below \<open>2 ^ 24\<close> the rounded-up quotient is the exact one.
\<close>

fun bits :: "nat \<Rightarrow> nat" where
  "bits n = (if n = 0 then 0 else Suc (bits (n div 2)))"

declare bits.simps [simp del]

definition round_half_even :: "nat \<Rightarrow> nat \<Rightarrow> nat" where
  "round_half_even a b =
     (let q = a div b; r = a mod b
      in if 2 * r < b \<or> (2 * r = b \<and> even q) then q else q + 1)"

text \<open>A \<open>size_t\<close> as a float; the value is again an integer.\<close>

definition float_of_size :: "nat \<Rightarrow> nat" where
  "float_of_size n =
     (if n < 2 ^ 24 then n
      else let e = bits n - 24 in round_half_even n (2 ^ e) * 2 ^ e)"

text \<open>The quotient of two positive floats that are integers: significand and exponent.\<close>

definition quotient_exp :: "nat \<Rightarrow> nat \<Rightarrow> int" where
  "quotient_exp a b =
     (let e = int (bits a) - int (bits b)
      in if b * 2 ^ nat e \<le> a * 2 ^ nat (- e) then e - 23 else e - 24)"

definition float_quotient :: "nat \<Rightarrow> nat \<Rightarrow> nat \<times> int" where
  "float_quotient a b =
     (let e = quotient_exp a b
      in (round_half_even (a * 2 ^ nat (- e)) (b * 2 ^ nat e), e))"

definition float_ceil :: "nat \<times> int \<Rightarrow> nat" where
  "float_ceil v = (let (m, e) = v in if 0 \<le> e then m * 2 ^ nat e else ceil_div m (2 ^ nat (- e)))"

text \<open>\<open>std::ceil((float) a / (float) b)\<close> stored in a \<open>size_t\<close>. A division by 0 gives an infinity or a
  NaN and a quotient of \<open>2 ^ 64\<close> or more does not fit: both conversions are undefined.\<close>

definition ceil_float_div :: "nat \<Rightarrow> nat \<Rightarrow> nat result" where
  "ceil_float_div a b =
     (if b = 0 then Inl Undefined
      else if a = 0 then Inr 0
      else let n = float_ceil (float_quotient (float_of_size a) (float_of_size b))
           in if n < 2 ^ 64 then Inr n else Inl Undefined)"

lemma bits_bounds: "0 < n \<Longrightarrow> 2 ^ bits n \<le> 2 * n \<and> n < 2 ^ bits n"
proof (induction n rule: bits.induct)
  case (1 n)
  show ?case
  proof (cases "n div 2 = 0")
    case True
    with 1 have "n = 1" by linarith
    then show ?thesis by (simp add: bits.simps [of "Suc 0"] bits.simps [of 0])
  next
    case False
    with 1 have "2 ^ bits (n div 2) \<le> 2 * (n div 2)" "n div 2 < 2 ^ bits (n div 2)" by auto
    with 1 show ?thesis by (simp add: bits.simps [of n]) linarith
  qed
qed

lemma round_half_even_bounds:
  assumes "0 < b"
  shows "a \<le> k * b \<Longrightarrow> round_half_even a b \<le> k"
    and "2 * k * b + b < 2 * a \<Longrightarrow> k < round_half_even a b"
proof -
  let ?q = "a div b" and ?r = "a mod b"
  have a: "a = ?q * b + ?r" and r: "?r < b" using assms by simp_all
  have up: "round_half_even a b \<le> ?q + 1" "?r = 0 \<Longrightarrow> round_half_even a b = ?q"
    and low: "?q \<le> round_half_even a b" "b < 2 * ?r \<Longrightarrow> round_half_even a b = ?q + 1"
    using assms by (auto simp: round_half_even_def Let_def)
  show "round_half_even a b \<le> k" if "a \<le> k * b"
  proof (cases "?q < k")
    case True then show ?thesis using up(1) by linarith
  next
    case False
    then have "k * b \<le> ?q * b" by simp
    with that a have "?r = 0" "?q * b \<le> k * b" by linarith+
    with assms have "?q \<le> k" by simp
    then show ?thesis using up(2) \<open>?r = 0\<close> by simp
  qed
  show "k < round_half_even a b" if lt: "2 * k * b + b < 2 * a"
  proof (cases "k < ?q")
    case True then show ?thesis using low(1) by linarith
  next
    case False
    then have "?q * b \<le> k * b" by simp
    with lt a have "2 * (?q * b) + b < 2 * (?q * b) + 2 * ?r" by linarith
    then have b: "b < 2 * ?r" by simp
    have "k * b < ?q * b + b" using lt a r by linarith
    then have "k * b < (?q + 1) * b" by simp
    then have "k < ?q + 1" by (metis mult_less_cancel2)
    then show ?thesis using low(2) [OF b] by simp
  qed
qed

lemma ceil_div_unique:
  assumes "0 < b" "a \<le> k * b" "k = 0 \<or> (k - 1) * b < a"
  shows "ceil_div a b = k"
proof (cases k)
  case 0
  with assms show ?thesis by simp
next
  case (Suc j)
  then have lo: "j * b < a" and hi: "a \<le> j * b + b" using assms by auto
  define r where "r = a - j * b"
  then have r: "a = r + j * b" "0 < r" "r \<le> b" using lo hi by auto
  have "ceil_div a b = j + ceil_div r b"
    using assms(1) by (simp add: r(1) ceil_div_def)
  with r ceil_div_le [of r b] Suc show ?thesis by simp
qed

lemma ceil_div_bounds:
  assumes "0 < b" "0 < a"
  shows "0 < ceil_div a b" "(ceil_div a b - 1) * b < a" "a \<le> ceil_div a b * b"
proof -
  have a: "a = a div b * b + a mod b" and r: "a mod b < b" using assms by simp_all
  show "a \<le> ceil_div a b * b" using assms by (rule_tac mult_ceil_div_ge)
  show "0 < ceil_div a b" using assms a by (auto simp: ceil_div_def)
  show "(ceil_div a b - 1) * b < a"
  proof (cases "a mod b = 0")
    case True
    then have "0 < a div b" using assms a by auto
    with True a assms show ?thesis by (simp add: ceil_div_def diff_mult_distrib)
  next
    case False
    with a have "a div b * b < a" by linarith
    with False show ?thesis by (simp add: ceil_div_def)
  qed
qed

text \<open>The scaled quotient has at least 24 significant bits.\<close>

lemma quotient_exp_normal:
  assumes "0 < a" "0 < b"
  shows "2 ^ 23 * (b * 2 ^ nat (quotient_exp a b)) \<le> a * 2 ^ nat (- quotient_exp a b)"
proof -
  let ?e = "int (bits a) - int (bits b)"
  have a: "2 ^ bits a \<le> 2 * a" and b: "b < 2 ^ bits b" using bits_bounds assms by auto
  have low: "b * 2 ^ nat ?e \<le> 2 * (a * 2 ^ nat (- ?e))"
  proof (cases "0 \<le> ?e")
    case True
    then have ba: "bits a = bits b + nat ?e" by linarith
    have "b * 2 ^ nat ?e \<le> 2 ^ bits b * 2 ^ nat ?e" using b by simp
    also have "\<dots> = 2 ^ bits a" by (subst ba) (simp only: power_add)
    finally show ?thesis using a True by simp
  next
    case False
    then have bb: "bits b = bits a + nat (- ?e)" by linarith
    from b have "b \<le> 2 ^ bits b" by simp
    also have "\<dots> = 2 ^ bits a * 2 ^ nat (- ?e)" by (subst bb) (simp only: power_add)
    also have "\<dots> \<le> 2 * a * 2 ^ nat (- ?e)" using a by simp
    finally show ?thesis using False by simp
  qed
  have shift: "2 ^ k * (b * 2 ^ nat (f - int k)) \<le> a * 2 ^ nat (- (f - int k))"
    if "b * 2 ^ nat f \<le> a * 2 ^ nat (- f)" for f k
  proof (cases "0 \<le> f - int k")
    case True
    then have "nat f = k + nat (f - int k)" by linarith
    with True that show ?thesis by (simp add: power_add algebra_simps)
  next
    case False
    then have "nat f + nat (int k - f) = nat (- f) + k" by linarith
    then have pow: "(2::nat) ^ nat f * 2 ^ nat (int k - f) = 2 ^ nat (- f) * 2 ^ k"
      by (metis power_add)
    have "2 ^ k * b * 2 ^ nat f \<le> a * (2 ^ nat (- f) * 2 ^ k)" using that by (simp add: ac_simps)
    also have "\<dots> = a * (2 ^ nat f * 2 ^ nat (int k - f))" by (simp only: pow)
    also have "\<dots> = a * 2 ^ nat (int k - f) * 2 ^ nat f" by (simp only: ac_simps)
    finally have "2 ^ k * b \<le> a * 2 ^ nat (int k - f)" by simp
    with False show ?thesis by simp
  qed
  show ?thesis
  proof (cases "b * 2 ^ nat ?e \<le> a * 2 ^ nat (- ?e)")
    case True
    with shift [OF True, of 23] show ?thesis by (simp add: quotient_exp_def Let_def)
  next
    case False
    have "b * 2 ^ nat (?e - 1) \<le> a * 2 ^ nat (- (?e - 1))"
    proof (cases "0 < ?e")
      case True
      then have "nat ?e = Suc (nat (?e - 1))" by linarith
      with low True show ?thesis by simp
    next
      case False
      then have "nat (- (?e - 1)) = Suc (nat (- ?e))" by linarith
      with low False show ?thesis by simp
    qed
    from shift [OF this, of 23] False show ?thesis by (simp add: quotient_exp_def Let_def)
  qed
qed

lemma ceil_float_quotient:
  assumes "0 < a" "0 < b" "a < 2 ^ 24"
  shows "float_ceil (float_quotient a b) = ceil_div a b"
proof -
  let ?e = "quotient_exp a b"
  let ?s = "2 ^ nat (- ?e) :: nat"
  note normal = quotient_exp_normal [OF assms(1,2)]
  have "?e \<le> 0"
  proof (rule ccontr)
    assume "\<not> ?e \<le> 0"
    then obtain k where k: "nat ?e = Suc k" "nat (- ?e) = 0" by (metis nat_eq_iff2 not0_implies_Suc not_le nat_0_iff neg_le_0_iff_le linorder_le_cases)
    have "0 < b * 2 ^ k" using assms(2) by simp
    moreover from normal k have "16777216 * (b * 2 ^ k) \<le> a" by simp
    ultimately have "16777216 \<le> a" by linarith
    with assms(3) show False by simp
  qed
  then have e0: "nat ?e = 0" by simp
  have bs: "2 ^ 23 * b \<le> a * ?s" using normal e0 by simp
  have half: "b < 2 * ?s"
  proof (rule ccontr)
    assume "\<not> b < 2 * ?s"
    then have "2 ^ 24 * ?s \<le> 2 ^ 23 * b" by simp
    with bs have "2 ^ 24 * ?s \<le> a * ?s" by linarith
    with assms(3) show False by simp
  qed
  define m where "m = round_half_even (a * ?s) b"
  define k where "k = ceil_div a b"
  note k = ceil_div_bounds [OF assms(2,1), folded k_def]
  have up: "m \<le> k * ?s"
    unfolding m_def using k(3) by (intro round_half_even_bounds) (simp_all add: assms(2))
  have low: "(k - 1) * ?s < m"
    unfolding m_def
  proof (rule round_half_even_bounds(2) [OF assms(2)])
    have "(k - 1) * b + 1 \<le> a" using k(2) by simp
    then have "((k - 1) * b + 1) * ?s \<le> a * ?s" by (rule mult_le_mono1)
    moreover have "((k - 1) * b + 1) * ?s = (k - 1) * ?s * b + ?s" by (simp only: distrib_right mult_1 ac_simps)
    ultimately have "2 * ((k - 1) * ?s * b) + 2 * ?s \<le> 2 * (a * ?s)" by linarith
    then show "2 * ((k - 1) * ?s) * b + b < 2 * (a * ?s)" using half by (simp add: ac_simps)
  qed
  have "ceil_div m ?s = k" using up low by (intro ceil_div_unique) auto
  moreover have "float_ceil (m, ?e) = ceil_div m ?s"
    using \<open>?e \<le> 0\<close> by (cases "?e = 0") (simp_all add: float_ceil_def ceil_div_def)
  ultimately show ?thesis by (simp add: float_quotient_def Let_def e0 m_def k_def)
qed

lemma ceil_float_div_exact:
  assumes "a < 2 ^ 24" "b < 2 ^ 24" "0 < b"
  shows "ceil_float_div a b = Inr (ceil_div a b)"
proof -
  have "ceil_div a b \<le> a"
  proof (cases "a = 0")
    case False
    with assms have "(ceil_div a b - 1) * b < a" "0 < ceil_div a b" using ceil_div_bounds [of b a] by auto
    moreover have "ceil_div a b - 1 \<le> (ceil_div a b - 1) * b" using assms(3) by simp
    ultimately show ?thesis by linarith
  qed simp
  with assms(1) have "ceil_div a b < 2 ^ 64" by (rule_tac le_less_trans) auto
  with assms show ?thesis
    by (auto simp: ceil_float_div_def float_of_size_def ceil_float_quotient)
qed

text \<open>The first size at which the conversion loses the last bit.\<close>

lemma ceil_float_div_inexact: "ceil_float_div 16777217 1 = Inr 16777216"
  by (simp add: ceil_float_div_def float_of_size_def float_quotient_def quotient_exp_def
      float_ceil_def round_half_even_def bits.simps)

end
