(* ===== verification/Frame_Packetizer.thy ===== *)
theory Frame_Packetizer
  imports Packet_Framer Drain Single_Float
begin

text \<open>
  \<open>FramePacketizer\<close> of \<open>src/Buffers.cpp\<close>: a complete frame cut into downlink elements. The
  constructor's packet count is a single-precision quotient rounded up (\<open>Single_Float\<close>). The
  packetizer interprets the \<open>chunk_source\<close> interface of \<open>Drain\<close>, so the downlink loop over it ends
  and moves the whole frame whenever a packet has room for more than its header.
\<close>

section \<open>State and constructors\<close>

record frame_packetizer =
  fp_header_size :: nat
  fp_frame :: bytes
  fp_max_packet_size :: nat
  fp_packets_remaining_in_frame :: nat
  fp_packets_per_frame :: nat
  fp_system :: system
  fp_type :: ring_type

definition fp_copy :: "frame_packetizer \<Rightarrow> frame_packetizer" where
  "fp_copy other = \<lparr>
     fp_header_size = fp_header_size other, fp_frame = fp_frame other, fp_max_packet_size = fp_max_packet_size other,
     fp_packets_remaining_in_frame = fp_packets_remaining_in_frame other,
     fp_packets_per_frame = fp_packets_per_frame other, fp_system = fp_system other, fp_type = fp_type other\<rparr>"

lemma fp_copy_same: "fp_copy fp = fp"
  by (simp add: fp_copy_def)

definition FramePacketizer_sized :: "system \<Rightarrow> nat \<Rightarrow> nat \<Rightarrow> frame_packetizer" where
  "FramePacketizer_sized new_system new_max_packet_size new_packets_per_frame = \<lparr>
     fp_header_size = 8,
     fp_frame = [],
     fp_max_packet_size = new_max_packet_size,
     fp_packets_remaining_in_frame = 0,
     fp_packets_per_frame = new_packets_per_frame,
     fp_system = new_system,
     fp_type = RB_NONE\<rparr>"

definition FramePacketizer :: "system \<Rightarrow> system \<Rightarrow> ring_type \<Rightarrow> frame_packetizer result" where
  "FramePacketizer from_system to_system new_type =
     (let frame_size = source_frame_size from_system new_type in
      bindR (option_deref (sys_ethernet to_system)) (\<lambda>e.
        let max_packet_size = dl_max_payload_size e; header_size = 8 in
        bindR (ceil_float_div frame_size (sz_sub max_packet_size header_size)) (\<lambda>packets_per_frame.
          if sz_mul max_packet_size packets_per_frame > vec_max then Inl Length_Error
          else Inr \<lparr>
            fp_header_size = header_size,
            fp_frame = [],
            fp_max_packet_size = max_packet_size,
            fp_packets_remaining_in_frame = packets_per_frame,
            fp_packets_per_frame = packets_per_frame,
            fp_system = from_system,
            fp_type = new_type\<rparr>)))"

definition FramePacketizer_of_framer :: "packet_framer \<Rightarrow> frame_packetizer result" where
  "FramePacketizer_of_framer pf =
     (if pf_packets_per_frame pf = 0 then Inl Undefined
      else Inr \<lparr>
        fp_header_size = 8,
        fp_frame = [],
        fp_max_packet_size = pf_frame_size pf div pf_packets_per_frame pf,
        fp_packets_remaining_in_frame = pf_packets_per_frame pf,
        fp_packets_per_frame = pf_packets_per_frame pf,
        fp_system = pf_system pf,
        fp_type = pf_type pf\<rparr>)"

section \<open>Operations\<close>

definition fp_get_header :: "frame_packetizer \<Rightarrow> bytes" where
  "fp_get_header fp =
     (let count_msb = word_of_nat (fp_packets_per_frame fp div 2 ^ 8 mod 256);
          count_lsb = word_of_nat (fp_packets_per_frame fp mod 256);
          remain_msb = word_of_nat (fp_packets_remaining_in_frame fp div 2 ^ 8 mod 256);
          remain_lsb = word_of_nat (fp_packets_per_frame fp mod 256)
      in [sys_hex (fp_system fp), count_msb, count_lsb, remain_msb, remain_lsb,
          ring_code (fp_type fp), 0x00, 0x00])"

definition pop_payload :: "frame_packetizer \<Rightarrow> bytes \<times> frame_packetizer" where
  "pop_payload fp =
     (let pop_size = min (length (fp_frame fp)) (sz_sub (fp_max_packet_size fp) (fp_header_size fp))
      in (take pop_size (fp_frame fp),
          fp\<lparr>fp_frame := drop pop_size (fp_frame fp),
             fp_packets_remaining_in_frame := sz_sub (fp_packets_remaining_in_frame fp) 1\<rparr>))"

definition pop_packet :: "frame_packetizer \<Rightarrow> bytes \<times> frame_packetizer" where
  "pop_packet fp =
     (let header = fp_get_header fp; (payload, fp') = pop_payload fp in (header @ payload, fp'))"

definition pop_buffer_element :: "frame_packetizer \<Rightarrow> (dbe \<times> frame_packetizer) result" where
  "pop_buffer_element fp =
     bindR (DownlinkBufferElement_sized (Some (fp_system fp)) (fp_max_packet_size fp)) (\<lambda>dbel.
       let (payload, fp') = pop_payload fp;
           dbel = dbe_set_packets_per_frame (word_of_nat (fp_packets_per_frame fp)) dbel
       in bindR (dbe_set_this_packet_index
                   (word_of_nat (sz_sub (fp_packets_per_frame fp') (fp_packets_remaining_in_frame fp'))) dbel)
            (\<lambda>dbel. bindR (dbe_set_payload payload dbel) (\<lambda>dbel.
              Inr (dbe_set_type (fp_type fp') dbel, fp'))))"

definition fp_set_frame :: "bytes \<Rightarrow> frame_packetizer \<Rightarrow> frame_packetizer" where
  "fp_set_frame new_frame fp = fp\<lparr>fp_frame := new_frame,
     fp_packets_remaining_in_frame := fp_packets_per_frame fp\<rparr>"

definition fp_clear_frame :: "frame_packetizer \<Rightarrow> frame_packetizer" where
  "fp_clear_frame fp = fp\<lparr>fp_frame := []\<rparr>"

definition frame_emptied :: "frame_packetizer \<Rightarrow> bool" where
  "frame_emptied fp = (if length (fp_frame fp) = 0 then True else False)"

definition fp_to_string :: "frame_packetizer \<Rightarrow> string result" where
  "fp_to_string fp =
     bindR (option_at (ring_name (fp_type fp))) (\<lambda>type. Inr (
     ''FramePacketizer::''
     @ newline @ tab @ ''header_size '' @ tab @ tab @ tab @ ''= '' @ dec_string (fp_header_size fp)
     @ newline @ tab @ ''frame.size() '' @ tab @ tab @ tab @ ''= '' @ dec_string (length (fp_frame fp))
     @ newline @ tab @ ''max_packet_size '' @ tab @ tab @ ''= '' @ dec_string (fp_max_packet_size fp)
     @ newline @ tab @ ''packets_per_frame '' @ tab @ tab @ ''= '' @ dec_string (fp_packets_per_frame fp)
     @ newline @ tab @ ''packets_remaining_in_frame '' @ tab @ ''= '' @ dec_string (fp_packets_remaining_in_frame fp)
     @ newline @ tab @ ''system.name, system.hex '' @ tab @ ''= '' @ sys_name (fp_system fp) @ '', ''
       @ dec_string (unat (sys_hex (fp_system fp)))
     @ newline @ tab @ ''type '' @ tab @ tab @ tab @ tab @ ''= '' @ type
     @ newline))"

text \<open>The downlink loop over a packetizer (\<open>sync_remote_buffer_transaction\<close>, \<open>src/TransportLayer.cpp\<close>):
  each element gets the frame counter and goes to the end of the queue.\<close>

definition pop_counted :: "u16 \<Rightarrow> frame_packetizer \<Rightarrow> (dbe \<times> frame_packetizer) result" where
  "pop_counted n fp =
     bindR (pop_buffer_element fp) (\<lambda>(dbel, fp'). Inr (dbe_set_frame_counter n dbel, fp'))"

definition queue_frame :: "u16 \<Rightarrow> frame_packetizer \<Rightarrow> dbe list \<Rightarrow> (frame_packetizer \<times> dbe list) result option" where
  "queue_frame n fp queue = drain_loop frame_emptied (pop_counted n) fp queue"

section \<open>The elements of a frame\<close>

definition fp_wf :: "frame_packetizer \<Rightarrow> bool" where
  "fp_wf fp \<longleftrightarrow> fp_header_size fp = 8 \<and> 8 < fp_max_packet_size fp \<and> fp_max_packet_size fp < 2 ^ 62"

definition element_of :: "u16 \<Rightarrow> frame_packetizer \<Rightarrow> nat \<Rightarrow> bytes \<Rightarrow> dbe" where
  "element_of n fp i payload = \<lparr>
     dbe_max_packet_size = fp_max_packet_size fp,
     dbe_payload = payload,
     dbe_system = Some (fp_system fp),
     dbe_packets_per_frame = word_of_nat (fp_packets_per_frame fp),
     dbe_this_packet_index = word_of_nat i,
     dbe_type = fp_type fp,
     dbe_frame_counter = n\<rparr>"

lemma element_of_update [simp]:
  "element_of n (fp\<lparr>fp_frame := x, fp_packets_remaining_in_frame := y\<rparr>) = element_of n fp"
  by (intro ext) (simp add: element_of_def)

lemma pop_counted_eq:
  assumes "fp_wf fp"
  shows "pop_counted n fp = Inr
    (element_of n fp (sz_sub (fp_packets_per_frame fp) (sz_sub (fp_packets_remaining_in_frame fp) 1))
       (take (fp_max_packet_size fp - 8) (fp_frame fp)),
     fp\<lparr>fp_frame := drop (fp_max_packet_size fp - 8) (fp_frame fp),
        fp_packets_remaining_in_frame := sz_sub (fp_packets_remaining_in_frame fp) 1\<rparr>)"
  using assms
  by (auto simp: pop_counted_def pop_buffer_element_def pop_payload_def fp_wf_def Let_def
      DownlinkBufferElement_sized_def dbe_set_packets_per_frame_def dbe_set_this_packet_index_def
      dbe_set_payload_def check_payload_fits_def dbe_set_type_def dbe_set_frame_counter_def
      element_of_def min_def)

interpretation packetizer: chunk_source fp_wf frame_emptied "pop_counted n" fp_frame dbe_payload
  for n :: u16
proof
  show "frame_emptied fp \<longleftrightarrow> fp_frame fp = []" for fp
    by (simp add: frame_emptied_def)
  show "\<exists>d fp'. pop_counted n fp = Inr (d, fp') \<and> fp_wf fp' \<and> dbe_payload d \<noteq> [] \<and>
      fp_frame fp = dbe_payload d @ fp_frame fp'" if "fp_wf fp" "fp_frame fp \<noteq> []" for fp
    using that by (simp add: pop_counted_eq) (simp add: element_of_def fp_wf_def)
qed

text \<open>The elements a frame is expected to become, numbered from \<open>i\<close>.\<close>

fun elements_from :: "u16 \<Rightarrow> frame_packetizer \<Rightarrow> nat \<Rightarrow> bytes list \<Rightarrow> dbe list" where
  "elements_from n fp i [] = []"
| "elements_from n fp i (b # bs) = element_of n fp i b # elements_from n fp (Suc i) bs"

definition frame_elements :: "u16 \<Rightarrow> frame_packetizer \<Rightarrow> nat \<Rightarrow> dbe list" where
  "frame_elements n fp k = elements_from n fp (Suc k) (blocks (fp_max_packet_size fp - 8) (fp_frame fp))"

lemma length_elements_from [simp]: "length (elements_from n fp i bs) = length bs"
  by (induction bs arbitrary: i) simp_all

lemma elements_from_nth: "j < length bs \<Longrightarrow> elements_from n fp i bs ! j = element_of n fp (i + j) (bs ! j)"
  by (induction bs arbitrary: i j) (auto simp: nth_Cons split: nat.split)

lemma payloads_elements_from [simp]: "map dbe_payload (elements_from n fp i bs) = bs"
  by (induction bs arbitrary: i) (simp_all add: element_of_def)

lemma elements_from_cong: "element_of n fp = element_of n fp' \<Longrightarrow> elements_from n fp i bs = elements_from n fp' i bs"
  by (induction bs arbitrary: i) simp_all

lemma frame_elements_Nil: "fp_frame fp = [] \<Longrightarrow> frame_elements n fp k = []"
  by (simp add: frame_elements_def)

lemma frame_elements_Cons:
  assumes "fp_frame fp \<noteq> []" "0 < fp_max_packet_size fp - 8"
    and "fp_frame fp' = drop (fp_max_packet_size fp - 8) (fp_frame fp)"
    and "element_of n fp' = element_of n fp" "fp_max_packet_size fp' = fp_max_packet_size fp"
  shows "frame_elements n fp k =
    element_of n fp (Suc k) (take (fp_max_packet_size fp - 8) (fp_frame fp)) # frame_elements n fp' (Suc k)"
  using assms elements_from_cong [OF assms(4)] by (simp add: frame_elements_def blocks_step)

lemma queue_frame_elements:
  assumes "fp_wf fp" and "fp_packets_per_frame fp < 2 ^ 64"
    and "fp_packets_remaining_in_frame fp + k = fp_packets_per_frame fp"
    and "ceil_div (length (fp_frame fp)) (fp_max_packet_size fp - 8) \<le> fp_packets_remaining_in_frame fp"
  shows "\<exists>fp'. queue_frame n fp queue = Some (Inr (fp', queue @ frame_elements n fp k)) \<and>
    fp_frame fp' = [] \<and> fp_packets_per_frame fp' = fp_packets_per_frame fp"
  using assms
proof (induction "length (fp_frame fp)" arbitrary: fp queue k rule: less_induct)
  case less
  let ?m = "fp_max_packet_size fp - 8"
  have m: "0 < ?m" using less.prems(1) by (simp add: fp_wf_def)
  show ?case
  proof (cases "fp_frame fp = []")
    case True
    then show ?thesis by (simp add: queue_frame_def frame_emptied_def frame_elements_Nil)
  next
    case False
    let ?fp = "fp\<lparr>fp_frame := drop ?m (fp_frame fp),
        fp_packets_remaining_in_frame := fp_packets_remaining_in_frame fp - 1\<rparr>"
    let ?d = "element_of n fp (Suc k) (take ?m (fp_frame fp))"
    have "0 < ceil_div (length (fp_frame fp)) ?m" using m False by (simp add: ceil_div_bounds)
    then have rem: "0 < fp_packets_remaining_in_frame fp" using less.prems(4) by linarith
    then have k: "fp_packets_per_frame fp - (fp_packets_remaining_in_frame fp - 1) = Suc k"
      using less.prems(3) by linarith
    have pop: "pop_counted n fp = Inr (?d, ?fp)"
      using rem less.prems(3) k by (simp add: pop_counted_eq [OF less.prems(1)])
    have cd: "ceil_div (length (fp_frame fp)) ?m = Suc (ceil_div (length (drop ?m (fp_frame fp))) ?m)"
      using m False by (cases "?m \<le> length (fp_frame fp)") (simp_all add: ceil_div_step ceil_div_le)
    have "\<exists>fp'. queue_frame n ?fp (queue @ [?d]) = Some (Inr (fp', (queue @ [?d]) @ frame_elements n ?fp (Suc k)))
        \<and> fp_frame fp' = [] \<and> fp_packets_per_frame fp' = fp_packets_per_frame ?fp"
    proof (rule less.hyps)
      have "length (drop ?m (fp_frame fp)) < length (fp_frame fp)" unfolding length_drop
        using m False by (intro diff_less) simp_all
      then show "length (fp_frame ?fp) < length (fp_frame fp)" by simp
      show "fp_wf ?fp" "fp_packets_per_frame ?fp < 2 ^ 64"
        "fp_packets_remaining_in_frame ?fp + Suc k = fp_packets_per_frame ?fp"
        using less.prems rem by (simp_all add: fp_wf_def)
      show "ceil_div (length (fp_frame ?fp)) (fp_max_packet_size ?fp - 8) \<le> fp_packets_remaining_in_frame ?fp"
      proof -
        have "ceil_div (length (drop ?m (fp_frame fp))) ?m \<le> fp_packets_remaining_in_frame fp - 1"
          using cd less.prems(4) by linarith
        then show ?thesis by simp
      qed
    qed
    moreover have "frame_elements n fp k = ?d # frame_elements n ?fp (Suc k)"
      using m False by (intro frame_elements_Cons) auto
    ultimately show ?thesis
      using False pop by (simp add: queue_frame_def drain_step frame_emptied_def)
  qed
qed

text \<open>A packet with room for the header only never shrinks the frame.\<close>

lemma queue_frame_stuck:
  assumes "fp_header_size fp = 8" "fp_max_packet_size fp = 8" "fp_frame fp \<noteq> []"
  shows "queue_frame n fp queue = None"
  unfolding queue_frame_def
proof (rule drain_diverges [of "\<lambda>fp. fp_header_size fp = 8 \<and> fp_max_packet_size fp = 8 \<and> fp_frame fp \<noteq> []"])
  fix fp :: frame_packetizer
  assume "fp_header_size fp = 8 \<and> fp_max_packet_size fp = 8 \<and> fp_frame fp \<noteq> []"
  then show "\<not> frame_emptied fp \<and> (\<exists>x s'. pop_counted n fp = Inr (x, s') \<and>
      fp_header_size s' = 8 \<and> fp_max_packet_size s' = 8 \<and> fp_frame s' \<noteq> [])"
    by (simp add: pop_counted_def pop_buffer_element_def pop_payload_def frame_emptied_def Let_def
      DownlinkBufferElement_sized_def dbe_set_packets_per_frame_def dbe_set_this_packet_index_def
      dbe_set_payload_def check_payload_fits_def)
qed (use assms in simp)

text \<open>The index field of \<open>pop_packet\<close>'s header takes its low byte from the packet count.\<close>

lemma header_index_low_byte: "fp_get_header fp ! 4 = fp_get_header fp ! 2"
  by (simp add: fp_get_header_def Let_def)

lemma FramePacketizer_exact:
  assumes "sys_ethernet g = Some e" and "8 < dl_max_payload_size e" and "dl_max_payload_size e < 2 ^ 24"
    and "source_frame_size s t < 2 ^ 24"
  shows "FramePacketizer s g t = Inr \<lparr>
      fp_header_size = 8, fp_frame = [], fp_max_packet_size = dl_max_payload_size e,
      fp_packets_remaining_in_frame = ceil_div (source_frame_size s t) (dl_max_payload_size e - 8),
      fp_packets_per_frame = ceil_div (source_frame_size s t) (dl_max_payload_size e - 8),
      fp_system = s, fp_type = t\<rparr>"
proof -
  let ?m = "dl_max_payload_size e" and ?n = "source_frame_size s t"
  have div: "ceil_float_div ?n (?m - 8) = Inr (ceil_div ?n (?m - 8))"
    using assms by (intro ceil_float_div_exact) auto
  have "ceil_div ?n (?m - 8) \<le> ?n + 1" by (simp add: ceil_div_def) (metis div_le_dividend le_SucI)
  then have "?m * ceil_div ?n (?m - 8) \<le> 2 ^ 24 * 2 ^ 25" using assms by (intro mult_le_mono) auto
  also have "\<dots> \<le> vec_max" by (simp add: vec_max_def)
  finally have small: "?m * ceil_div ?n (?m - 8) \<le> vec_max" .
  then have "sz_mul ?m (ceil_div ?n (?m - 8)) = ?m * ceil_div ?n (?m - 8)"
    by (intro sz_mul_small) (simp add: vec_max_def)
  with assms div small show ?thesis by (simp add: FramePacketizer_def Let_def)
qed

definition gse_example :: system where
  "gse_example = System_ethernet ''gse'' 0x10
     (Some (Ethernet_static ''192.168.1.118'' 9999 TP_UDP 1000000 12 2000 0 0))"

definition cdte_example :: system where
  "cdte_example = System_full ''cdte1'' 0x09 CMD_SPW None
     (Some (SpaceWire_default\<lparr>dl_max_payload_size := 6\<rparr>)) None
     [(PC, RingBufferParameters 10 0 4 0x100 4 PC)]"

section \<open>Properties\<close>

text \<open>C40. The packet count the constructor computes with single-precision floats is exact: for frames
  and packets below \<open>2 ^ 24\<close> bytes it is the frame size divided by the packet size less its header,
  rounded up.\<close>

theorem packetizer_count_exact:
  assumes "sys_ethernet g = Some e" and "8 < dl_max_payload_size e" and "dl_max_payload_size e < 2 ^ 24"
    and "source_frame_size s t < 2 ^ 24"
  shows "\<exists>fp. FramePacketizer s g t = Inr fp \<and> fp_wf fp \<and>
    fp_packets_per_frame fp = ceil_div (source_frame_size s t) (dl_max_payload_size e - 8)"
  using FramePacketizer_exact [OF assms] assms by (simp add: fp_wf_def)

lemma packetizer_count_exact_witness:
  "\<exists>fp. FramePacketizer cdte_example gse_example PC = Inr fp \<and> fp_wf fp \<and> fp_packets_per_frame fp = 3"
  using packetizer_count_exact [of gse_example "Ethernet_static ''192.168.1.118'' 9999 TP_UDP 1000000 12 2000 0 0"
      cdte_example PC]
  by (simp add: gse_example_def cdte_example_def System_ethernet_def System_interfaces_def System_full_def
      Ethernet_static_def link_defs source_frame_size_def get_frame_size_of_def ring_params_at_def
      RingBufferParameters_def ceil_div_def)

text \<open>C11. Downlinking a frame: a packetizer with a packet size above 8, given a frame of at most the
  announced number of packets (fewer than \<open>2 ^ 16\<close>), empties it into the queue without faulting. The new
  elements stand behind the old ones, are numbered from 1, all carry the packetizer's count, type and
  system and the given frame counter, their packets fit the link, and their payloads in order are the
  frame.\<close>

theorem queue_frame_complete:
  assumes "fp_wf fp" and "fp_packets_per_frame fp < 2 ^ 16"
    and "ceil_div (length frame) (fp_max_packet_size fp - 8) \<le> fp_packets_per_frame fp"
  shows "\<exists>fp' es. queue_frame n (fp_set_frame frame fp) queue = Some (Inr (fp', queue @ es)) \<and>
    frame_emptied fp' \<and> concat (map dbe_payload es) = frame \<and>
    length es = ceil_div (length frame) (fp_max_packet_size fp - 8) \<and>
    (\<forall>i < length es. unat (dbe_this_packet_index (es ! i)) = i + 1 \<and>
       unat (dbe_packets_per_frame (es ! i)) = fp_packets_per_frame fp \<and>
       dbe_type (es ! i) = fp_type fp \<and> dbe_system (es ! i) = Some (fp_system fp) \<and>
       dbe_frame_counter (es ! i) = n \<and> dbe_payload (es ! i) \<noteq> [] \<and>
       length (dbe_payload (es ! i)) + 8 \<le> dbe_max_packet_size (es ! i))"
proof -
  let ?fp = "fp_set_frame frame fp" and ?m = "fp_max_packet_size fp - 8"
  have fp: "fp_frame ?fp = frame" "fp_max_packet_size ?fp = fp_max_packet_size fp" "fp_wf ?fp"
    "fp_packets_per_frame ?fp = fp_packets_per_frame fp" "fp_packets_remaining_in_frame ?fp = fp_packets_per_frame fp"
    using assms(1) by (simp_all add: fp_set_frame_def fp_wf_def)
  have m: "0 < ?m" using assms(1) by (simp add: fp_wf_def)
  obtain fp' where q: "queue_frame n ?fp queue = Some (Inr (fp', queue @ frame_elements n ?fp 0))"
      "fp_frame fp' = []"
    using queue_frame_elements [of ?fp 0 n queue] fp assms by auto
  have el: "element_of n ?fp = element_of n fp" by (intro ext) (simp add: element_of_def fp_set_frame_def)
  define bs where "bs = blocks ?m frame"
  have es: "frame_elements n ?fp 0 = elements_from n fp (Suc 0) bs"
    using fp elements_from_cong [OF el] by (simp add: frame_elements_def bs_def)
  have len: "length bs = ceil_div (length frame) ?m" using m by (simp add: bs_def length_blocks)
  have nth: "elements_from n fp (Suc 0) bs ! i = element_of n fp (Suc i) (bs ! i)" if "i < length bs" for i
    using that by (simp add: elements_from_nth)
  have b: "0 < length (bs ! i) \<and> length (bs ! i) \<le> ?m" if "i < length bs" for i
    using that blocks_bounds [of "bs ! i" ?m frame] by (simp add: bs_def)
  have small: "Suc i < 65536" if "i < length bs" for i using that len assms(2,3) by simp
  show ?thesis
  proof (intro exI conjI allI impI)
    show "queue_frame n ?fp queue = Some (Inr (fp', queue @ elements_from n fp (Suc 0) bs))" using q es by simp
    show "frame_emptied fp'" using q by (simp add: frame_emptied_def)
    show "concat (map dbe_payload (elements_from n fp (Suc 0) bs)) = frame" using m by (simp add: bs_def)
    show "length (elements_from n fp (Suc 0) bs) = ceil_div (length frame) ?m" by (simp add: len)
  next
    fix i assume "i < length (elements_from n fp (Suc 0) bs)"
    then have i: "i < length bs" by simp
    show "unat (dbe_this_packet_index (elements_from n fp (Suc 0) bs ! i)) = i + 1"
      using small [OF i] by (simp add: nth [OF i] element_of_def unat_of_nat_small del: of_nat_Suc)
    show "unat (dbe_packets_per_frame (elements_from n fp (Suc 0) bs ! i)) = fp_packets_per_frame fp"
      using assms(2) by (simp add: nth [OF i] element_of_def unat_of_nat_small)
    show "length (dbe_payload (elements_from n fp (Suc 0) bs ! i)) + 8 \<le> dbe_max_packet_size (elements_from n fp (Suc 0) bs ! i)"
    proof -
      have "length (bs ! i) + 8 \<le> fp_max_packet_size fp" using b [OF i] m by linarith
      then show ?thesis by (simp add: nth [OF i] element_of_def)
    qed
    show "dbe_payload (elements_from n fp (Suc 0) bs ! i) \<noteq> []"
      using b [OF i] by (auto simp: nth [OF i] element_of_def)
  qed (simp_all add: nth element_of_def)
qed

lemma queue_frame_complete_witness:
  "\<exists>fp' es. queue_frame 5 (fp_set_frame [1, 2, 3] (FramePacketizer_sized gse_example 10 2)) [] =
      Some (Inr (fp', es)) \<and> concat (map dbe_payload es) = [1, 2, 3] \<and> length es = 2"
  using queue_frame_complete [of "FramePacketizer_sized gse_example 10 2" "[1, 2, 3]" 5 "[]"]
  by (force simp: FramePacketizer_sized_def fp_wf_def ceil_div_def)

text \<open>When the link's maximal payload is exactly the eight bytes of the header, the loop that
  queues a non-empty frame never ends: every element is empty and the frame never shrinks.\<close>

theorem queue_frame_diverges_without_room:
  assumes "fp_header_size fp = 8" and "fp_max_packet_size fp = 8" and "frame \<noteq> []"
  shows "queue_frame n (fp_set_frame frame fp) queue = None"
  using assms by (intro queue_frame_stuck) (simp_all add: fp_set_frame_def)

lemma queue_frame_diverges_without_room_witness:
  "queue_frame 0 (fp_set_frame [1] (FramePacketizer_sized gse_example 8 1)) [] = None"
  using queue_frame_diverges_without_room [of "FramePacketizer_sized gse_example 8 1" "[1]" 0 "[]"]
  by (simp add: FramePacketizer_sized_def)

end
