(* ===== verification/Commands.thy ===== *)
theory Commands
  imports Systems
begin

text \<open>
  The command table of \<open>src/Commanding.cpp\<close>: \<open>Command\<close>, \<open>CommandDeck\<close> with its lookups, and the two
  loaders that fill it. A JSON file is read by a third-party parser; the loaders take the parsed
  entries, each a partial map from field names to texts, from an argument \<open>files\<close> that returns
  \<open>None\<close> for a file that cannot be opened. A missing field makes the conversion to text throw. Hash
  maps that are iterated are association lists in iteration order; \<open>exit(0)\<close> ends the program and is
  the fault \<open>Thrown ''exit''\<close>.
\<close>

section \<open>Commands\<close>

record command =
  cmd_name :: string
  cmd_hex :: u8
  cmd_read :: bool
  cmd_type :: command_type
  cmd_spw_instruction :: u8
  cmd_spw_address :: bytes
  cmd_spw_write_data :: bytes
  cmd_spw_reply_length :: nat
  cmd_full_command :: bytes
  cmd_uart_instruction :: bytes
  cmd_uart_reply_length :: nat
  cmd_eth_packet :: bytes
  cmd_eth_reply_length :: nat
  cmd_spi_address :: bytes
  cmd_spi_write_data :: bytes
  cmd_spi_reply_length :: u16

text \<open>The default constructor sets nothing; the only default commands of the program are the static
  \<open>null_command\<close>s, whose storage is zero.\<close>

definition null_command :: command where
  "null_command = \<lparr>cmd_name = [], cmd_hex = 0, cmd_read = False, cmd_type = CMD_NONE,
     cmd_spw_instruction = 0, cmd_spw_address = [], cmd_spw_write_data = [], cmd_spw_reply_length = 0,
     cmd_full_command = [], cmd_uart_instruction = [], cmd_uart_reply_length = 0,
     cmd_eth_packet = [], cmd_eth_reply_length = 0, cmd_spi_address = [], cmd_spi_write_data = [],
     cmd_spi_reply_length = 0\<rparr>"

definition cmd_set_type :: "command_type \<Rightarrow> command \<Rightarrow> command" where
  "cmd_set_type t c = c\<lparr>cmd_type := t\<rparr>"

text \<open>The constructor leaves the integer fields as they are in memory (\<open>mem\<close>); vectors are empty.\<close>

definition Command :: "command \<Rightarrow> string \<Rightarrow> u8 \<Rightarrow> bool \<Rightarrow> command_type \<Rightarrow> command" where
  "Command mem new_name new_hex new_read new_type =
     cmd_set_type new_type (mem\<lparr>cmd_name := new_name, cmd_hex := new_hex, cmd_read := new_read,
       cmd_spw_address := [], cmd_spw_write_data := [], cmd_full_command := [],
       cmd_uart_instruction := [], cmd_eth_packet := [], cmd_spi_address := [],
       cmd_spi_write_data := []\<rparr>)"

definition set_spw_options :: "u8 \<Rightarrow> bytes \<Rightarrow> bytes \<Rightarrow> nat \<Rightarrow> command \<Rightarrow> command" where
  "set_spw_options instruction address write_data reply_length c =
     (let c = c\<lparr>cmd_spw_instruction := instruction\<rparr>;
          c = (if length address > 0 then c\<lparr>cmd_spw_address := address\<rparr> else c)
      in c\<lparr>cmd_spw_write_data := write_data, cmd_spw_reply_length := reply_length\<rparr>)"

definition set_uart_options :: "bytes \<Rightarrow> nat \<Rightarrow> command \<Rightarrow> command" where
  "set_uart_options instruction reply_length c =
     c\<lparr>cmd_uart_instruction := instruction, cmd_uart_reply_length := reply_length\<rparr>"

definition set_eth_options :: "bytes \<Rightarrow> nat \<Rightarrow> command \<Rightarrow> command" where
  "set_eth_options packet reply_length c =
     c\<lparr>cmd_eth_packet := packet, cmd_eth_reply_length := reply_length\<rparr>"

definition cmd_get_command_bytes :: "command \<Rightarrow> bytes" where
  "cmd_get_command_bytes c = [0x00]"

text \<open>The raw variant copies the bytes to an address that was never set.\<close>

definition cmd_get_command_bytes_raw :: "command \<Rightarrow> bytes result" where
  "cmd_get_command_bytes_raw c = (if cmd_get_command_bytes c = [] then Inr [] else Inl Undefined)"

text \<open>The default constructor of a command that is not static: the integer fields stay as they are in memory (\<open>mem\<close>).\<close>

definition Command_default :: "command \<Rightarrow> command" where
  "Command_default mem = mem\<lparr>cmd_name := [], cmd_spw_address := [], cmd_spw_write_data := [], cmd_full_command := [],
     cmd_uart_instruction := [], cmd_eth_packet := [], cmd_spi_address := [], cmd_spi_write_data := []\<rparr>"

lemma command_bytes_raw_undefined: "cmd_get_command_bytes_raw c = Inl Undefined"
  by (simp add: cmd_get_command_bytes_raw_def cmd_get_command_bytes_def)

definition check_spw_replies :: "command \<Rightarrow> bool" where
  "check_spw_replies c = (if cmd_spw_instruction c AND 0x08 \<noteq> 0 then True else False)"

text \<open>Copy constructor and assignment.\<close>

definition cmd_assign :: "command \<Rightarrow> command \<Rightarrow> command" where
  "cmd_assign this other = this\<lparr>
     cmd_name := cmd_name other,
     cmd_hex := cmd_hex other,
     cmd_read := cmd_read other,
     cmd_type := cmd_type other,
     cmd_spw_instruction := cmd_spw_instruction other,
     cmd_spw_write_data := cmd_spw_write_data other,
     cmd_spw_address := cmd_spw_address other,
     cmd_spw_reply_length := cmd_spw_reply_length other,
     cmd_full_command := cmd_full_command other,
     cmd_uart_instruction := cmd_uart_instruction other,
     cmd_uart_reply_length := cmd_uart_reply_length other,
     cmd_spi_address := cmd_spi_address other,
     cmd_spi_write_data := cmd_spi_write_data other,
     cmd_spi_reply_length := cmd_spi_reply_length other,
     cmd_eth_packet := cmd_eth_packet other,
     cmd_eth_reply_length := cmd_eth_reply_length other\<rparr>"

lemma cmd_assign_copies [simp]: "cmd_assign this other = other"
  by (simp add: cmd_assign_def)

definition cmd_to_string :: "command \<Rightarrow> string" where
  "cmd_to_string c =
     ''Command::''
     @ newline @ tab @ ''name '' @ tab @ tab @ ''= '' @ cmd_name c
     @ newline @ tab @ ''hex '' @ tab @ tab @ ''= '' @ dec_string (unat (cmd_hex c))
     @ (case cmd_type c of
          CMD_SPW \<Rightarrow> newline @ tab @ ''type '' @ tab @ tab @ ''= spw''
            @ newline @ tab @ ''instruction '' @ tab @ ''= '' @ dec_string (unat (cmd_spw_instruction c))
            @ newline @ tab @ ''write_data '' @ tab @ ''= '' @ bytes_to_string (cmd_spw_write_data c)
            @ newline @ tab @ ''address '' @ tab @ ''= '' @ bytes_to_string (cmd_spw_address c)
            @ newline @ tab @ ''reply_length '' @ tab @ ''= '' @ dec_string (cmd_spw_reply_length c)
        | CMD_ETHERNET \<Rightarrow> newline @ tab @ ''type '' @ tab @ tab @ ''= ethernet''
            @ newline @ tab @ ''packet '' @ tab @ tab @ ''= '' @ bytes_to_string (cmd_eth_packet c)
            @ newline @ tab @ ''reply_length '' @ tab @ ''= '' @ dec_string (cmd_eth_reply_length c)
        | CMD_UART \<Rightarrow> newline @ tab @ ''type '' @ tab @ tab @ ''= uart''
            @ newline @ tab @ ''instruction '' @ tab @ ''= '' @ bytes_to_string (cmd_uart_instruction c)
            @ newline @ tab @ ''reply_length '' @ tab @ ''= '' @ dec_string (cmd_uart_reply_length c)
        | CMD_SPI \<Rightarrow> newline @ tab @ ''type '' @ tab @ tab @ ''= spi''
        | CMD_NONE \<Rightarrow> newline @ tab @ ''type '' @ tab @ tab @ ''= none'')
     @ newline"

section \<open>The deck\<close>

record command_deck =
  deck_systems :: "system list"
  deck_commands :: "u8 \<rightharpoonup> (u8 \<rightharpoonup> command)"
  deck_did_add_systems :: bool

definition CommandDeck_default :: command_deck where
  "CommandDeck_default = \<lparr>deck_systems = [], deck_commands = Map.empty, deck_did_add_systems = False\<rparr>"

definition null_sys :: system where
  "null_sys = System_named ''null'' 0xFF"

fun find_name :: "string \<Rightarrow> system list \<Rightarrow> system" where
  "find_name name [] = null_sys"
| "find_name name (s # ss) = (if name = sys_name s then s else find_name name ss)"

fun find_code :: "u8 \<Rightarrow> system list \<Rightarrow> system" where
  "find_code code [] = null_sys"
| "find_code code (s # ss) = (if code = sys_hex s then s else find_code code ss)"

definition get_sys_for_name :: "string \<Rightarrow> command_deck \<Rightarrow> system" where
  "get_sys_for_name name deck = find_name name (deck_systems deck)"

definition get_sys_for_code :: "u8 \<Rightarrow> command_deck \<Rightarrow> system" where
  "get_sys_for_code code deck = find_code code (deck_systems deck)"

definition get_sys_code_for_name :: "string \<Rightarrow> command_deck \<Rightarrow> u8" where
  "get_sys_code_for_name name deck = sys_hex (get_sys_for_name name deck)"

definition get_sys_name_for_code :: "u8 \<Rightarrow> command_deck \<Rightarrow> string" where
  "get_sys_name_for_code code deck = sys_name (get_sys_for_code code deck)"

definition get_command_for_sys_for_code :: "u8 \<Rightarrow> u8 \<Rightarrow> command_deck \<Rightarrow> command" where
  "get_command_for_sys_for_code sys code deck =
     (case deck_commands deck sys of
        None \<Rightarrow> null_command
      | Some inner \<Rightarrow> (case inner code of None \<Rightarrow> null_command | Some c \<Rightarrow> c))"

text \<open>\<open>commands[hex].insert(pair)\<close>: creates the inner map when it is missing and keeps an entry that is
  already there.\<close>

definition insert_command :: "u8 \<Rightarrow> u8 \<Rightarrow> command \<Rightarrow> command_deck \<Rightarrow> command_deck" where
  "insert_command sys code c deck =
     (let inner = (case deck_commands deck sys of None \<Rightarrow> Map.empty | Some m \<Rightarrow> m);
          inner = (if code \<in> dom inner then inner else inner(code \<mapsto> c))
      in deck\<lparr>deck_commands := (deck_commands deck)(sys \<mapsto> inner)\<rparr>)"

definition find_command :: "command_deck \<Rightarrow> u8 \<times> u8 \<Rightarrow> command option" where
  "find_command deck k =
     (case deck_commands deck (fst k) of None \<Rightarrow> None | Some inner \<Rightarrow> inner (snd k))"

section \<open>Stores in which the first insertion wins\<close>

locale first_wins_store =
  fixes lookup :: "'m \<Rightarrow> 'k \<Rightarrow> 'v option"
    and add :: "'k \<Rightarrow> 'v \<Rightarrow> 'm \<Rightarrow> 'm"
  assumes lookup_add: "lookup (add k v m) k' =
    (if k' = k then (case lookup m k of None \<Rightarrow> Some v | Some w \<Rightarrow> Some w) else lookup m k')"
begin

lemma lookup_add_keeps: "lookup m k' = Some w \<Longrightarrow> lookup (add k v m) k' = Some w"
  by (auto simp: lookup_add)

lemma lookup_fold:
  "lookup (foldl (\<lambda>m (k, v). add k v m) m kvs) k =
     (case lookup m k of None \<Rightarrow> map_of kvs k | Some w \<Rightarrow> Some w)"
proof (induction kvs arbitrary: m)
  case Nil
  then show ?case by (simp split: option.split)
next
  case (Cons kv kvs)
  obtain a b where "kv = (a, b)" by force
  then show ?case using Cons.IH [of "add a b m"] by (auto simp: lookup_add split: option.splits)
qed

end

interpretation deck: first_wins_store find_command "\<lambda>k. insert_command (fst k) (snd k)"
proof
  show "find_command (insert_command (fst k) (snd k) v m) k' =
      (if k' = k then (case find_command m k of None \<Rightarrow> Some v | Some w \<Rightarrow> Some w)
       else find_command m k')" for k v m k'
    by (cases k; cases k') (auto simp: find_command_def insert_command_def Let_def dom_def split: option.splits)
qed

lemma get_command_find: "get_command_for_sys_for_code s c deck =
    (case find_command deck (s, c) of None \<Rightarrow> null_command | Some x \<Rightarrow> x)"
  by (simp add: get_command_for_sys_for_code_def find_command_def split: option.split)

lemma find_code_first:
  "find_code code ss = (case List.find (\<lambda>s. sys_hex s = code) ss of None \<Rightarrow> null_sys | Some s \<Rightarrow> s)"
  by (induction ss) auto

lemma find_name_first:
  "find_name name ss = (case List.find (\<lambda>s. sys_name s = name) ss of None \<Rightarrow> null_sys | Some s \<Rightarrow> s)"
  by (induction ss) auto

lemma get_sys_for_code_distinct:
  "distinct (map sys_hex (deck_systems deck)) \<Longrightarrow> s \<in> set (deck_systems deck) \<Longrightarrow>
     get_sys_for_code (sys_hex s) deck = s"
proof -
  have "distinct (map sys_hex ss) \<Longrightarrow> s \<in> set ss \<Longrightarrow> find_code (sys_hex s) ss = s" for ss
    by (induction ss) (auto simp: image_iff)
  then show "distinct (map sys_hex (deck_systems deck)) \<Longrightarrow> s \<in> set (deck_systems deck) \<Longrightarrow>
     get_sys_for_code (sys_hex s) deck = s"
    by (simp add: get_sys_for_code_def)
qed

section \<open>Loading command files\<close>

type_synonym entry = "string \<rightharpoonup> string"

definition field :: "entry \<Rightarrow> string \<Rightarrow> string result" where
  "field e k = (case e k of None \<Rightarrow> Inl (Thrown ''type_error'') | Some s \<Rightarrow> Inr s)"

text \<open>\<open>std::istringstream(s) >> b\<close> for a \<open>bool\<close>: the number 0 and a text without a number give false.\<close>

definition is_digit :: "char \<Rightarrow> bool" where
  "is_digit c = (let n = of_char c :: nat in 48 \<le> n \<and> n \<le> 57)"

definition read_bool :: "string \<Rightarrow> bool" where
  "read_bool s =
     (let s = dropWhile is_space s;
          s = (case s of c # cs \<Rightarrow> if c = CHR ''-'' \<or> c = CHR ''+'' then cs else s | [] \<Rightarrow> s)
      in \<exists>c \<in> set (takeWhile is_digit s). c \<noteq> CHR ''0'')"

text \<open>\<open>strtoul(s, NULL, 16)\<close>: a minus sign negates modulo \<open>2 ^ 64\<close>, an overflow gives the maximum.\<close>

definition strtoul16 :: "string \<Rightarrow> nat" where
  "strtoul16 s =
     (let s = dropWhile is_space s;
          neg = (case s of c # cs \<Rightarrow> c = CHR ''-'' | [] \<Rightarrow> False);
          s = (case s of c # cs \<Rightarrow> if c = CHR ''-'' \<or> c = CHR ''+'' then cs else s | [] \<Rightarrow> s);
          v = hex_value 0 (strip_0x s)
      in if v \<ge> 2 ^ 64 then 2 ^ 64 - 1 else if neg then sz_sub 0 v else v)"

definition load_uart :: "command \<Rightarrow> entry \<Rightarrow> command result" where
  "load_uart c e =
     bindR (field e ''write_value'') (\<lambda>write_data.
     bindR (field e ''reply.length [B]'') (\<lambda>reply_len.
       Inr (set_uart_options (string_to_chars write_data)
         (if cmd_read c then strtoul16 reply_len else 0) c)))"

definition load_spw :: "command \<Rightarrow> entry \<Rightarrow> command result" where
  "load_spw c e =
     bindR (field e ''instruction'') (\<lambda>instr.
     bindR (field e ''address'') (\<lambda>addr.
     bindR (field e ''write_value'') (\<lambda>write_data.
     bindR (field e ''reply.length [B]'') (\<lambda>reply_len.
       Inr (set_spw_options (string_to_byte instr) (string_to_chars addr)
         (if \<not> cmd_read c then string_to_chars write_data else [])
         (strtoul16 reply_len) c)))))"

definition load_eth :: "command \<Rightarrow> entry \<Rightarrow> command result" where
  "load_eth c e =
     bindR (field e ''instruction'') (\<lambda>instr.
     bindR (field e ''address'') (\<lambda>addr.
     bindR (field e ''write_value'') (\<lambda>write.
     bindR (field e ''reply.length [B]'') (\<lambda>reply_len.
       Inr (set_eth_options [string_to_byte instr, string_to_byte addr, string_to_byte write]
         (strtoul16 reply_len) c)))))"

text \<open>The start of the loop body: code, name and direction of an entry.\<close>

definition entry_head :: "entry \<Rightarrow> (u8 \<times> string \<times> bool) result" where
  "entry_head e =
     bindR (field e ''hex'') (\<lambda>hex. bindR (field e ''name'') (\<lambda>name.
     bindR (field e ''R=1/W=0'') (\<lambda>rd. Inr (string_to_byte hex, name, read_bool rd))))"

text \<open>What the loop body makes of an entry for a system of each type; the SPI and unknown types only
  log. The second definition stores it.\<close>

definition parse_entry :: "command \<Rightarrow> system \<Rightarrow> entry \<Rightarrow> (u8 \<times> command) option result" where
  "parse_entry mem sys e =
     bindR (entry_head e) (\<lambda>(hex, name, rd).
       case sys_type sys of
         CMD_UART \<Rightarrow> bindR (load_uart (Command mem name hex rd CMD_UART) e) (\<lambda>c. Inr (Some (hex, c)))
       | CMD_SPW \<Rightarrow> bindR (load_spw (Command mem name hex rd CMD_SPW) e) (\<lambda>c. Inr (Some (hex, c)))
       | CMD_ETHERNET \<Rightarrow> bindR (load_eth (Command mem name hex rd CMD_ETHERNET) e) (\<lambda>c. Inr (Some (hex, c)))
       | CMD_SPI \<Rightarrow> Inr None
       | CMD_NONE \<Rightarrow> Inr None)"

definition load_entry :: "command \<Rightarrow> system \<Rightarrow> entry \<Rightarrow> command_deck \<Rightarrow> command_deck result" where
  "load_entry mem sys e deck =
     bindR (parse_entry mem sys e) (\<lambda>parsed. Inr
       (case parsed of None \<Rightarrow> deck | Some (hex, c) \<Rightarrow> insert_command (sys_hex sys) hex c deck))"

fun load_entries :: "command \<Rightarrow> system \<Rightarrow> entry list \<Rightarrow> command_deck \<Rightarrow> command_deck result" where
  "load_entries mem sys [] deck = Inr deck"
| "load_entries mem sys (e # es) deck = bindR (load_entry mem sys e deck) (load_entries mem sys es)"

fun load_files :: "(string \<Rightarrow> entry list option) \<Rightarrow> command \<Rightarrow> (system \<times> string) list \<Rightarrow> command_deck
    \<Rightarrow> command_deck result" where
  "load_files files mem [] deck = Inr deck"
| "load_files files mem ((sys, path) # rest) deck =
     (case files path of
        None \<Rightarrow> load_files files mem rest deck
      | Some es \<Rightarrow> bindR (load_entries mem sys es deck) (load_files files mem rest))"

definition CommandDeck :: "(string \<Rightarrow> entry list option) \<Rightarrow> command \<Rightarrow> system list \<Rightarrow> (system \<times> string) list
    \<Rightarrow> command_deck result" where
  "CommandDeck files mem new_systems command_paths =
     load_files files mem command_paths
       \<lparr>deck_systems = new_systems, deck_commands = Map.empty, deck_did_add_systems = True\<rparr>"

section \<open>The deprecated loader\<close>

fun add_system_entries :: "entry list \<Rightarrow> command_deck \<Rightarrow> command_deck result" where
  "add_system_entries [] deck = Inr deck"
| "add_system_entries (e # es) deck =
     bindR (field e ''name'') (\<lambda>name. bindR (field e ''id'') (\<lambda>hex.
       add_system_entries es (deck\<lparr>deck_systems :=
         deck_systems deck @ [System_named name (word_of_int (strtol16 hex))]\<rparr>)))"

definition add_systems :: "(string \<Rightarrow> entry list option) \<Rightarrow> string \<Rightarrow> command_deck \<Rightarrow> command_deck result" where
  "add_systems files sys_filename deck =
     (case files sys_filename of
        None \<Rightarrow> Inl (Thrown ''exit'')
      | Some es \<Rightarrow> bindR (add_system_entries es deck)
          (\<lambda>deck. Inr (deck\<lparr>deck_did_add_systems := True\<rparr>)))"

definition load_spw_old :: "command \<Rightarrow> entry \<Rightarrow> command result" where
  "load_spw_old c e =
     bindR (field e ''instruction'') (\<lambda>instr.
     bindR (field e ''address'') (\<lambda>addr.
     bindR (field e ''length'') (\<lambda>data.
       Inr (set_spw_options (string_to_byte instr) (string_to_chars addr)
         (if cmd_read c then [] else string_to_chars data)
         (if cmd_read c then strtoul16 data else 0) c))))"

definition spw_path_keys :: "string list" where
  "spw_path_keys = [''CDTE1'', ''CDTE2'', ''CDTE3'', ''CDTE4'', ''CDTEDE'', ''CMOS1'', ''CMOS2'']"

definition add_command_entry :: "command \<Rightarrow> string \<Rightarrow> entry \<Rightarrow> command_deck \<Rightarrow> command_deck result" where
  "add_command_entry mem path_key e deck =
     bindR (entry_head e) (\<lambda>(hex, name, rd).
       let store = (\<lambda>c. Inr (insert_command (get_sys_code_for_name path_key deck) hex c deck)) in
       if path_key = ''TIMEPIX'' then Inr deck
       else if path_key \<in> set spw_path_keys then
         bindR (load_spw_old (Command mem name hex rd CMD_SPW) e) store
       else if path_key = ''HOUSEKEEPING'' then
         bindR (load_eth (Command mem name hex rd CMD_SPI) e) store
       else Inl (Thrown ''exit''))"

fun add_command_entries :: "command \<Rightarrow> string \<Rightarrow> entry list \<Rightarrow> command_deck \<Rightarrow> command_deck result" where
  "add_command_entries mem key [] deck = Inr deck"
| "add_command_entries mem key (e # es) deck =
     bindR (add_command_entry mem key e deck) (add_command_entries mem key es)"

fun add_commands :: "(string \<Rightarrow> entry list option) \<Rightarrow> command \<Rightarrow> (string \<times> string) list \<Rightarrow> command_deck
    \<Rightarrow> command_deck result" where
  "add_commands files mem [] deck = Inr deck"
| "add_commands files mem ((key, path) # rest) deck =
     (case files path of
        None \<Rightarrow> Inl (Thrown ''exit'')
      | Some es \<Rightarrow>
          if key = ''SYSTEMS'' then add_commands files mem rest deck
          else bindR (add_command_entries mem key es deck) (add_commands files mem rest))"

text \<open>\<open>did_add_systems_\<close> is set false first, and only \<open>add_systems\<close> sets it true.\<close>

definition CommandDeck_named :: "(string \<Rightarrow> entry list option) \<Rightarrow> command \<Rightarrow> (string \<times> string) list
    \<Rightarrow> command_deck result" where
  "CommandDeck_named files mem named_paths =
     (case map_of named_paths ''SYSTEMS'' of
        None \<Rightarrow> Inl (Thrown ''exit'')
      | Some sys_filename \<Rightarrow>
          bindR (add_systems files sys_filename CommandDeck_default) (\<lambda>deck.
            if \<not> deck_did_add_systems deck then Inl (Thrown ''exit'')
            else add_commands files mem (filter (\<lambda>(k, _). k \<noteq> ''SYSTEMS'') named_paths) deck))"

section \<open>What a loaded deck holds\<close>

fun parse_entries :: "command \<Rightarrow> system \<Rightarrow> entry list \<Rightarrow> (u8 \<times> command) list result" where
  "parse_entries mem sys [] = Inr []"
| "parse_entries mem sys (e # es) =
     bindR (parse_entry mem sys e) (\<lambda>p. bindR (parse_entries mem sys es) (\<lambda>ps.
       Inr (case p of None \<Rightarrow> ps | Some kc \<Rightarrow> kc # ps)))"

lemma systems_insert_command [simp]: "deck_systems (insert_command s k c deck) = deck_systems deck"
  by (simp add: insert_command_def Let_def)

lemma load_entries_parsed:
  "load_entries mem sys es deck = bindR (parse_entries mem sys es)
     (\<lambda>kcs. Inr (foldl (\<lambda>m (k, c). insert_command (sys_hex sys) k c m) deck kcs))"
proof (induction es arbitrary: deck)
  case (Cons e es)
  show ?case
  proof (cases "parse_entry mem sys e")
    case (Inr p)
    then show ?thesis
      by (cases p; cases "parse_entries mem sys es") (auto simp: load_entry_def Cons.IH)
  qed (simp add: load_entry_def)
qed simp

lemma map_of_same_system:
  "map_of (map (\<lambda>(k, c). ((h, k), c)) kcs) (h', k') = (if h' = h then map_of kcs k' else None)"
  by (induction kcs) auto

lemma find_command_inserts:
  "find_command (foldl (\<lambda>m (k, c). insert_command h k c m) deck kcs) (h', k') =
     (case find_command deck (h', k') of
        None \<Rightarrow> if h' = h then map_of kcs k' else None
      | Some c \<Rightarrow> Some c)"
proof -
  have "foldl (\<lambda>m (k, c). insert_command h k c m) deck kcs =
      foldl (\<lambda>m (k, c). insert_command (fst k) (snd k) c m) deck (map (\<lambda>(k, c). ((h, k), c)) kcs)"
    by (induction kcs arbitrary: deck) auto
  then show ?thesis
    by (simp only: deck.lookup_fold map_of_same_system)
qed

definition entry_example :: "u8 \<Rightarrow> entry" where
  "entry_example v = Map.empty(''hex'' \<mapsto> ''0x10'', ''name'' \<mapsto> ''ping'', ''R=1/W=0'' \<mapsto> ''0'',
     ''write_value'' \<mapsto> bytes_to_string [v], ''reply.length [B]'' \<mapsto> ''0x00'')"

section \<open>Properties\<close>

text \<open>Loading a system's command file: the entries that parse are stored under their codes. A code
  already in the deck keeps its command, otherwise the first entry of the file with that code wins;
  the commands of every other system and the list of systems stay as they were.\<close>

theorem loaded_commands:
  assumes "load_entries mem sys es deck = Inr deck'"
  shows "\<exists>kcs. parse_entries mem sys es = Inr kcs \<and> deck_systems deck' = deck_systems deck \<and>
    (\<forall>h k. get_command_for_sys_for_code h k deck' =
       (case find_command deck (h, k) of
          Some c \<Rightarrow> c
        | None \<Rightarrow> (case (if h = sys_hex sys then map_of kcs k else None) of
            None \<Rightarrow> null_command | Some c \<Rightarrow> c)))"
proof -
  from assms obtain kcs where p: "parse_entries mem sys es = Inr kcs"
    and d: "deck' = foldl (\<lambda>m (k, c). insert_command (sys_hex sys) k c m) deck kcs"
    by (auto simp: load_entries_parsed bindR_eq_Inr)
  have "deck_systems (foldl (\<lambda>m (k, c). insert_command h k c m) deck kcs) = deck_systems deck" for h
    by (induction kcs arbitrary: deck) auto
  with p show ?thesis
    by (auto simp: d get_command_find find_command_inserts split: option.split)
qed

lemma loaded_commands_witness:
  "case load_entries null_command (System_uart ''timepix'' 0x0a None) [entry_example 5] CommandDeck_default of
     Inl _ \<Rightarrow> False
   | Inr d \<Rightarrow> cmd_uart_instruction (get_command_for_sys_for_code 0x0a 0x10 d) = [5] \<and>
       (\<exists>kcs. parse_entries null_command (System_uart ''timepix'' 0x0a None) [entry_example 5] = Inr kcs)"
proof -
  have run: "case load_entries null_command (System_uart ''timepix'' 0x0a None) [entry_example 5] CommandDeck_default of
      Inl _ \<Rightarrow> False
    | Inr d \<Rightarrow> cmd_uart_instruction (get_command_for_sys_for_code 0x0a 0x10 d) = [5]"
    by code_simp
  show ?thesis
    using run loaded_commands [of null_command "System_uart ''timepix'' 0x0a None" "[entry_example 5]" CommandDeck_default]
    by (auto split: sum.splits)
qed

text \<open>Lookups never fault: an unknown code gives the null system or the null command, and in a deck
  whose systems have distinct identifiers every system is found under its own.\<close>

theorem deck_lookups:
  assumes "distinct (map sys_hex (deck_systems deck))"
  shows "(s \<in> set (deck_systems deck) \<longrightarrow> get_sys_for_code (sys_hex s) deck = s) \<and>
    (code \<notin> sys_hex ` set (deck_systems deck) \<longrightarrow> get_sys_for_code code deck = null_sys) \<and>
    (find_command deck (h, k) = None \<longrightarrow> get_command_for_sys_for_code h k deck = null_command)"
proof -
  have "code \<notin> sys_hex ` set ss \<Longrightarrow> find_code code ss = null_sys" for ss
    by (induction ss) auto
  with get_sys_for_code_distinct [OF assms] show ?thesis
    by (auto simp: get_sys_for_code_def get_command_find)
qed

lemma deck_lookups_witness:
  "get_sys_for_code 0x09 (CommandDeck_default\<lparr>deck_systems := [System_named ''cdte1'' 0x09]\<rparr>)
     = System_named ''cdte1'' 0x09"
  using deck_lookups [of "CommandDeck_default\<lparr>deck_systems := [System_named ''cdte1'' 0x09]\<rparr>"
      "System_named ''cdte1'' 0x09" 0 0 0]
  by (simp add: System_named_def)

end
