(* ===== verification/Rmap_Packets.thy ===== *)
theory Rmap_Packets
  imports Commands
begin

text \<open>
  The packet builders of \<open>CommandDeck\<close> (\<open>src/Commanding.cpp\<close>): RMAP command packets behind the
  12-byte prefix of the SPMU-001, the read commands at an address and from a template, the Ethernet
  and UART payloads, the dispatch on the command type, and the deprecated hard-coded builders. A
  null SpaceWire interface that is dereferenced is \<open>Undefined\<close>. \<open>rmap_decode\<close> is the receiver's
  reading of such a packet, with the bitwise checksum.
\<close>

section \<open>Prefix and header\<close>

fun size_bytes :: "nat \<Rightarrow> u64 \<Rightarrow> bytes" where
  "size_bytes 0 n = []"
| "size_bytes (Suc i) n = ucast (drop_bit (8 * i) n AND 0xff) # size_bytes i n"

definition get_spw_ether_header :: "bytes \<Rightarrow> bytes" where
  "get_spw_ether_header rmap_packet =
     [spacewire_end_code EOP, 0x00, 0x00, 0x00] @ size_bytes 8 (word_of_nat (length rmap_packet))"

definition make_spw_header :: "system \<Rightarrow> command \<Rightarrow> bytes result" where
  "make_spw_header sys cmd =
     bindR (option_deref (sys_spacewire sys)) (\<lambda>spw.
       let protocol_id = 0x01;
           transaction_id_lsb = 0x00;
           transaction_id_msb = 0x00;
           extended_address = 0x00;
           instruction = cmd_spw_instruction cmd;
           raw_data_length = (if cmd_read cmd then cmd_spw_reply_length cmd
                              else length (cmd_spw_write_data cmd));
           memory_address = cmd_spw_address cmd
       in bindR (splat_to_nbytes 3 (word_of_nat raw_data_length)) (\<lambda>data_length.
         let tailer = [spw_target_logical_address spw, protocol_id, instruction, spw_key spw]
               @ spw_reply_path_address spw
               @ [spw_source_logical_address spw, transaction_id_msb, transaction_id_lsb, extended_address]
               @ memory_address @ data_length;
             tailer_crc = spw_crc spw tailer
         in Inr (spw_target_path_address spw @ tailer @ [tailer_crc])))"

definition make_spw_packet_for_sys_for_command :: "system \<Rightarrow> command \<Rightarrow> bytes result" where
  "make_spw_packet_for_sys_for_command sys cmd =
     bindR (make_spw_header sys cmd) (\<lambda>header.
     bindR (if cmd_read cmd then Inr header
            else bindR (option_deref (sys_spacewire sys)) (\<lambda>spw.
              let data = cmd_spw_write_data cmd;
                  data_crc = spw_crc spw data
              in Inr (header @ data @ [data_crc]))) (\<lambda>rmap_packet.
       Inr (get_spw_ether_header rmap_packet @ rmap_packet)))"

section \<open>Ethernet, UART and the dispatch\<close>

definition make_eth_packet_for_sys_for_command :: "command_deck \<Rightarrow> system \<Rightarrow> command \<Rightarrow> bytes" where
  "make_eth_packet_for_sys_for_command deck sys cmd =
     (if \<not> system_eq sys (get_sys_for_name ''housekeeping'' deck) then [0x00]
      else cmd_eth_packet cmd)"

definition make_uart_packet_for_sys_for_command :: "command_deck \<Rightarrow> system \<Rightarrow> command \<Rightarrow> bytes" where
  "make_uart_packet_for_sys_for_command deck sys cmd =
     (if \<not> system_eq sys (get_sys_for_name ''timepix'' deck) then [0x00]
      else cmd_uart_instruction cmd)"

definition get_command_bytes_for_sys_for_code :: "command_deck \<Rightarrow> u8 \<Rightarrow> u8 \<Rightarrow> bytes result" where
  "get_command_bytes_for_sys_for_code deck sys code =
     (let cmd = get_command_for_sys_for_code sys code deck;
          system = get_sys_for_code sys deck
      in case cmd_type cmd of
        CMD_SPW \<Rightarrow> make_spw_packet_for_sys_for_command system cmd
      | CMD_SPI \<Rightarrow> Inr [0x00]
      | CMD_ETHERNET \<Rightarrow> Inr (make_eth_packet_for_sys_for_command deck system cmd)
      | CMD_UART \<Rightarrow> Inr (make_uart_packet_for_sys_for_command deck system cmd)
      | CMD_NONE \<Rightarrow> Inr [0x00])"

section \<open>Read commands\<close>

definition read_tailer :: "spacewire \<Rightarrow> bytes \<Rightarrow> bytes \<Rightarrow> bytes \<Rightarrow> bytes" where
  "read_tailer spw transaction_id read_addr read_len_bytes =
     (let tailer = [spw_target_logical_address spw, 0x01, 0x4d, spw_key spw]
            @ spw_reply_path_address spw @ [spw_source_logical_address spw] @ transaction_id
            @ [0x00] @ read_addr @ read_len_bytes
      in tailer @ [spw_crc spw tailer])"

definition get_read_command_for_sys_at_address :: "command_deck \<Rightarrow> u8 \<Rightarrow> bytes \<Rightarrow> nat \<Rightarrow> bytes result" where
  "get_read_command_for_sys_at_address deck sys read_addr read_len =
     (case sys_spacewire (get_sys_for_code sys deck) of
        None \<Rightarrow> Inr []
      | Some spw \<Rightarrow>
          bindR (splat_to_nbytes 3 (word_of_nat read_len)) (\<lambda>read_len_bytes.
            let packet = spw_target_path_address spw @ read_tailer spw [0x00, 0x00] read_addr read_len_bytes
            in Inr (get_spw_ether_header packet @ packet)))"

definition get_read_command_for_sys_at_address_and_transaction_id ::
    "command_deck \<Rightarrow> u8 \<Rightarrow> bytes \<Rightarrow> nat \<Rightarrow> u16 \<Rightarrow> bytes result" where
  "get_read_command_for_sys_at_address_and_transaction_id deck sys read_addr read_len transaction_id =
     (case sys_spacewire (get_sys_for_code sys deck) of
        None \<Rightarrow> Inr []
      | Some spw \<Rightarrow>
          bindR (splat_to_nbytes 3 (word_of_nat read_len)) (\<lambda>read_len_bytes.
          bindR (splat_to_nbytes 2 (ucast transaction_id)) (\<lambda>transact_id_bytes.
            let packet = spw_target_path_address spw
                  @ read_tailer spw [transact_id_bytes ! 0, transact_id_bytes ! 1] read_addr read_len_bytes
            in Inr (get_spw_ether_header packet @ packet))))"

text \<open>The two field loops of the template method: \<open>n\<close> bytes of \<open>src\<close> are written from \<open>base\<close> on.\<close>

fun copy_field :: "nat \<Rightarrow> bytes \<Rightarrow> bytes \<Rightarrow> bytes result" where
  "copy_field base [] t = Inr t"
| "copy_field base (x # xs) t = bindR (vec_set base x t) (copy_field (sz_add base 1) xs)"

definition write_field :: "nat \<Rightarrow> nat \<Rightarrow> bytes \<Rightarrow> bytes \<Rightarrow> bytes result" where
  "write_field n base src t =
     (if length src < n then Inl Out_Of_Range else copy_field base (take n src) t)"

definition get_read_command_from_template :: "command_deck \<Rightarrow> u8 \<Rightarrow> u8 \<Rightarrow> bytes \<Rightarrow> nat \<Rightarrow> bytes result" where
  "get_read_command_from_template deck sys cmd addr read_len =
     bindR (get_command_bytes_for_sys_for_code deck sys cmd) (\<lambda>template.
     bindR (option_deref (sys_spacewire (get_sys_for_code sys deck))) (\<lambda>spw.
     bindR (splat_to_nbytes 3 (word_of_nat read_len)) (\<lambda>data_length.
       let n = length template;
           start = 12 + length (spw_target_path_address spw)
       in bindR (vec_set (sz_sub n 9) 0x00 template) (\<lambda>t.
          bindR (write_field 4 (sz_sub n 8) addr t) (\<lambda>t.
          bindR (write_field 3 (sz_sub n 4) data_length t) (\<lambda>t.
            if start > n then Inl Undefined
            else if start \<ge> n - 1 then Inr []
            else
              let new_header = take (n - 1 - start) (drop start t);
                  new_header = new_header @ [spw_calculate_crc_uint_F new_header]
              in copy_field start new_header t))))))"

section \<open>The deprecated builders\<close>

definition old_header :: "u8 \<Rightarrow> nat \<Rightarrow> bytes" where
  "old_header instruction n =
     (let header = [0xFE, 0x01, instruction, 0x02] @ [0x00, 0x00, 0x06, 0x03] @ [0xFE, 0x00, 0x00, 0x00]
            @ [0x00, 0x00, 0x00, 0x00]
            @ [word_of_nat (n div 2 ^ 16), word_of_nat (n div 2 ^ 8), word_of_nat n]
      in header @ [spw_calculate_crc_uint_F header])"

definition get_command_bytes_for_sys_for_code_old :: "command_deck \<Rightarrow> u8 \<Rightarrow> u8 \<Rightarrow> bytes" where
  "get_command_bytes_for_sys_for_code_old deck sys code =
     (let cmd = get_command_for_sys_for_code sys code deck in
      if cmd_type cmd = CMD_SPW then
        (let rmap_packet =
           (if cmd_read cmd then [0x07, 0x02] @ old_header 0x4d (cmd_spw_reply_length cmd)
            else
              let write_data = cmd_spw_write_data cmd
              in [0x07, 0x02] @ old_header 0x7d (length write_data mod 2 ^ 32)
                 @ write_data @ [spw_calculate_crc_uint_F write_data])
         in get_spw_ether_header rmap_packet @ rmap_packet)
      else [])"

definition hardcode_header :: "u8 \<Rightarrow> bytes" where
  "hardcode_header instruction =
     [0xfe, 0x01, instruction, 0x02, 0x00, 0x00, 0x06, 0x03, 0xfe, 0x00, 0x00, 0x00,
      0x00, 0x00, 0x00, 0x00, 0x00, 0x00, 0x0c]"

definition hardcode_prefix :: "bytes \<Rightarrow> bytes" where
  "hardcode_prefix rmap_packet =
     (let n = length rmap_packet in
      [0x00, 0x00, 0x00, 0x00, 0x00, 0x00, 0x00, 0x00,
       word_of_nat (n div 2 ^ 24), word_of_nat (n div 2 ^ 16), word_of_nat (n div 2 ^ 8), word_of_nat n])"

definition get_write_command_bytes_for_sys_for_HARDCODE :: "u8 \<Rightarrow> u8 \<Rightarrow> bytes" where
  "get_write_command_bytes_for_sys_for_HARDCODE sys code =
     (let header = hardcode_header 0x7D;
          header = header @ [spw_calculate_crc_uint_F header];
          data = [0x3c, 0x3c, 0x01, 0x00, 0x03, 0x03, 0x03, 0x03, 0x3c, 0x3c, 0x3c, 0x3c] @ [0x00];
          rmap_packet = [0x07, 0x02] @ header @ data
      in hardcode_prefix rmap_packet @ rmap_packet)"

definition get_read_command_bytes_for_sys_for_HARDCODE :: "u8 \<Rightarrow> u8 \<Rightarrow> bytes" where
  "get_read_command_bytes_for_sys_for_HARDCODE sys code =
     (let header = hardcode_header 0x4D;
          header = header @ [spw_calculate_crc_uint_F header];
          rmap_packet = [0x07, 0x02] @ header
      in hardcode_prefix rmap_packet @ rmap_packet)"

section \<open>The receiver's reading\<close>

text \<open>
  The RMAP command after the 12-byte prefix and the target path address: header with its checksum,
  then for a write command (bit 5 of the instruction) the announced number of data bytes with
  theirs. The reply path address has \<open>rlen\<close> bytes, the memory address four. The result is
  instruction, key, transaction identifier, memory address, announced length and data.
\<close>

definition rmap_decode ::
    "nat \<Rightarrow> nat \<Rightarrow> bytes \<Rightarrow> (u8 \<times> u8 \<times> nat \<times> bytes \<times> nat \<times> bytes) option" where
  "rmap_decode plen rlen packet =
     (let rmap = drop 12 packet;
          body = drop plen rmap;
          header = take (16 + rlen) body;
          rest = drop (16 + rlen) body;
          fields = drop (4 + rlen) header;
          n = be_value (take 3 (drop 8 fields))
      in if length packet < 12 \<or> be_value (take 10 (drop 2 packet)) \<noteq> length rmap
            \<or> length header \<noteq> 16 + rlen \<or> crc_bitwise header \<noteq> 0 \<or> header ! 1 \<noteq> 0x01 then None
         else if bit (header ! 2) 5 then
           (if length rest = n + 1 \<and> crc_bitwise rest = 0
            then Some (header ! 2, header ! 3, be_value (take 2 (drop 1 fields)), take 4 (drop 4 fields), n, butlast rest)
            else None)
         else if rest = []
           then Some (header ! 2, header ! 3, be_value (take 2 (drop 1 fields)), take 4 (drop 4 fields), n, [])
         else None)"

section \<open>Shapes of the packets\<close>

lemma size_bytes_eq: "size_bytes n d = be_bytes n d"
  by (induction n) (simp_all add: mult.commute)

lemma length_ether_header [simp]: "length (get_spw_ether_header p) = 12"
  by (simp add: get_spw_ether_header_def size_bytes_eq del: be_bytes_numeral)

lemma ether_header_value:
  "length p < 2 ^ 64 \<Longrightarrow> be_value (take 10 (drop 2 (get_spw_ether_header p @ p))) = length p"
proof -
  assume n: "length p < 2 ^ 64"
  have "take 10 (drop 2 (get_spw_ether_header p @ p)) = 0 # 0 # be_bytes 8 (word_of_nat (length p))"
    by (simp add: get_spw_ether_header_def size_bytes_eq del: be_bytes_numeral)
  then show ?thesis
    using n by (simp add: be_value_be_bytes unat_of_nat_small del: be_bytes_numeral)
qed

section \<open>Command packets are read back\<close>

definition rmap_header :: "spacewire \<Rightarrow> u8 \<Rightarrow> bytes \<Rightarrow> bytes \<Rightarrow> bytes \<Rightarrow> bytes" where
  "rmap_header spw instruction transaction_id address data_length =
     [spw_target_logical_address spw, 0x01, instruction, spw_key spw] @ spw_reply_path_address spw
     @ [spw_source_logical_address spw] @ transaction_id @ [0x00] @ address @ data_length"

definition spw_packet :: "spacewire \<Rightarrow> bytes \<Rightarrow> bytes \<Rightarrow> bytes" where
  "spw_packet spw header rest =
     (let rmap = spw_target_path_address spw @ header @ [spw_crc spw header] @ rest
      in get_spw_ether_header rmap @ rmap)"

lemma crc_bitwise_residue: "crc_bitwise (xs @ [spw_calculate_crc_uint_F xs]) = 0"
  using rmap.residue by (simp add: crc_bitwise_def crc_uint_F_fold crc_fold_def)

lemma take_append_exact: "length xs = n \<Longrightarrow> take n (xs @ ys) = xs" "length xs = n \<Longrightarrow> drop n (xs @ ys) = ys"
  by auto

lemma rmap_decode_packet:
  assumes crc: "spw_crc_version spw = CHR ''f''"
    and len: "length tid = 2" "length addr = 4" "length dl = 3"
    and small: "length (spw_target_path_address spw) + length (spw_reply_path_address spw) + length rest < 2 ^ 60"
  shows "rmap_decode (length (spw_target_path_address spw)) (length (spw_reply_path_address spw))
      (spw_packet spw (rmap_header spw instr tid addr dl) rest) =
    (if bit instr 5
     then if length rest = be_value dl + 1 \<and> crc_bitwise rest = 0
       then Some (instr, spw_key spw, be_value tid, addr, be_value dl, butlast rest) else None
     else if rest = [] then Some (instr, spw_key spw, be_value tid, addr, be_value dl, []) else None)"
proof -
  let ?h = "rmap_header spw instr tid addr dl" and ?p = "spw_target_path_address spw"
  let ?H = "?h @ [spw_crc spw ?h]" and ?rlen = "length (spw_reply_path_address spw)"
  let ?rmap = "?p @ ?H @ rest"
  have H: "length ?H = 16 + ?rlen" using len by (simp add: rmap_header_def)
  have pkt: "spw_packet spw ?h rest = get_spw_ether_header ?rmap @ ?rmap"
    by (simp add: spw_packet_def Let_def)
  have rmap: "drop 12 (spw_packet spw ?h rest) = ?rmap" by (simp add: pkt)
  have n: "be_value (take 10 (drop 2 (spw_packet spw ?h rest))) = length ?rmap"
    unfolding pkt using H small by (intro ether_header_value) simp
  have hd: "take (16 + ?rlen) (drop (length ?p) ?rmap) = ?H" "drop (16 + ?rlen) (drop (length ?p) ?rmap) = rest"
    using take_append_exact [OF H, of rest] by simp_all
  have c: "crc_bitwise ?H = 0" using crc by (simp add: crc_bitwise_residue)
  obtain t0 t1 where t: "tid = [t0, t1]" using len(1) by (auto simp: numeral_2_eq_2 length_Suc_conv)
  obtain a0 a1 a2 a3 where a: "addr = [a0, a1, a2, a3]" using len(2) by (auto simp: eval_nat_numeral length_Suc_conv)
  obtain l0 l1 l2 where l: "dl = [l0, l1, l2]" using len(3) by (auto simp: eval_nat_numeral length_Suc_conv)
  have nth: "?H ! 1 = 0x01" "?H ! 2 = instr" "?H ! 3 = spw_key spw" by (simp_all add: rmap_header_def)
  have fields: "drop (4 + ?rlen) ?H = spw_source_logical_address spw # tid @ [0x00] @ addr @ dl @ [spw_crc spw ?h]"
  proof -
    have "?H = ([spw_target_logical_address spw, 0x01, instr, spw_key spw] @ spw_reply_path_address spw)
        @ (spw_source_logical_address spw # tid @ [0x00] @ addr @ dl @ [spw_crc spw ?h])"
      by (simp add: rmap_header_def)
    moreover have "length ([spw_target_logical_address spw, 0x01, instr, spw_key spw] @ spw_reply_path_address spw)
        = 4 + ?rlen" by simp
    ultimately show ?thesis by (metis take_append_exact(2))
  qed
  have f: "take 2 (drop 1 (drop (4 + ?rlen) ?H)) = tid" "take 4 (drop 4 (drop (4 + ?rlen) ?H)) = addr"
    "take 3 (drop 8 (drop (4 + ?rlen) ?H)) = dl"
    unfolding fields by (simp_all add: t a l)
  have "\<not> length (spw_packet spw ?h rest) < 12" by (simp add: pkt)
  then show ?thesis
    unfolding rmap_decode_def Let_def rmap n hd f using H c nth by (simp del: be_value_simps)
qed

lemma make_spw_header_eq:
  "sys_spacewire sys = Some spw \<Longrightarrow> make_spw_header sys cmd = Inr (
     let h = rmap_header spw (cmd_spw_instruction cmd) [0x00, 0x00] (cmd_spw_address cmd)
       (be_bytes 3 (word_of_nat (if cmd_read cmd then cmd_spw_reply_length cmd else length (cmd_spw_write_data cmd))))
     in spw_target_path_address spw @ h @ [spw_crc spw h])"
  by (simp add: make_spw_header_def rmap_header_def Let_def del: be_bytes_numeral)

lemma make_spw_packet_eq:
  assumes "sys_spacewire sys = Some spw"
  shows "make_spw_packet_for_sys_for_command sys cmd = Inr (spw_packet spw
     (rmap_header spw (cmd_spw_instruction cmd) [0x00, 0x00] (cmd_spw_address cmd)
       (be_bytes 3 (word_of_nat (if cmd_read cmd then cmd_spw_reply_length cmd else length (cmd_spw_write_data cmd)))))
     (if cmd_read cmd then [] else cmd_spw_write_data cmd @ [spw_crc spw (cmd_spw_write_data cmd)]))"
  using make_spw_header_eq [OF assms] assms
  by (simp add: make_spw_packet_for_sys_for_command_def spw_packet_def Let_def del: be_bytes_numeral)

lemma read_command_id_eq:
  assumes "sys_spacewire (get_sys_for_code sys deck) = Some spw"
  shows "get_read_command_for_sys_at_address_and_transaction_id deck sys addr n tid =
    Inr (spw_packet spw (rmap_header spw 0x4d (be_bytes 2 (ucast tid)) addr (be_bytes 3 (word_of_nat n))) [])"
proof -
  have tid: "[be_bytes 2 (ucast tid) ! 0, be_bytes 2 (ucast tid) ! 1] = be_bytes 2 (ucast tid :: u64)" by simp
  show ?thesis
    using assms unfolding get_read_command_for_sys_at_address_and_transaction_id_def
    by (simp add: read_tailer_def spw_packet_def rmap_header_def Let_def)
qed

lemma read_command_eq:
  assumes "sys_spacewire (get_sys_for_code sys deck) = Some spw"
  shows "get_read_command_for_sys_at_address deck sys addr n =
    Inr (spw_packet spw (rmap_header spw 0x4d [0x00, 0x00] addr (be_bytes 3 (word_of_nat n))) [])"
  using assms
  by (simp add: get_read_command_for_sys_at_address_def read_tailer_def spw_packet_def rmap_header_def Let_def
      del: be_bytes_numeral)

lemma be_value_length_field: "be_value (be_bytes 3 (word_of_nat n)) = n mod 2 ^ 24"
  by (simp add: be_value_be_bytes unsigned_of_nat take_bit_eq_mod mod_mod_cancel del: be_bytes_numeral)

text \<open>What a receiver reads in a memory read request.\<close>

lemma read_command_decodes:
  assumes "sys_spacewire (get_sys_for_code sys deck) = Some spw" and "spw_crc_version spw = CHR ''f''"
    and "length addr = 4"
    and "length (spw_target_path_address spw) + length (spw_reply_path_address spw) < 2 ^ 59"
    and "get_read_command_for_sys_at_address deck sys addr n = Inr p"
  shows "rmap_decode (length (spw_target_path_address spw)) (length (spw_reply_path_address spw)) p =
    Some (0x4d, spw_key spw, 0, addr, n mod 2 ^ 24, [])"
proof -
  have p: "p = spw_packet spw (rmap_header spw 0x4d [0x00, 0x00] addr (be_bytes 3 (word_of_nat n))) []"
    using assms(1,5) by (simp add: read_command_eq del: be_bytes_numeral)
  show ?thesis
    unfolding p using assms(2-4)
    by (subst rmap_decode_packet) (simp_all add: be_value_length_field del: be_bytes_numeral)
qed

section \<open>The template method\<close>

lemma copy_field_exact:
  "length src = length mid \<Longrightarrow> length pre = base \<Longrightarrow> length pre + length src < 2 ^ 64 \<Longrightarrow>
     copy_field base src (pre @ mid @ post) = Inr (pre @ src @ post)"
proof (induction src arbitrary: pre mid base)
  case (Cons x src)
  from Cons.prems(1) obtain m mid' where mid: "mid = m # mid'" "length src = length mid'"
    by (cases mid) auto
  have "vec_set base x (pre @ mid @ post) = Inr ((pre @ [x]) @ mid' @ post)"
    by (simp add: mid list_update_append flip: Cons.prems(2))
  moreover have "sz_add base 1 = Suc base" using Cons.prems by (intro trans [OF sz_add_small]) auto
  ultimately show ?case
    using Cons.IH [of mid' "pre @ [x]" "Suc base"] Cons.prems mid by simp
qed simp

lemma ether_header_length_only: "length p = length q \<Longrightarrow> get_spw_ether_header p = get_spw_ether_header q"
  by (simp add: get_spw_ether_header_def)

lemma template_result:
  assumes crc: "spw_crc_version spw = CHR ''f''" and spw: "sys_spacewire (get_sys_for_code sys deck) = Some spw"
    and bytes: "get_command_bytes_for_sys_for_code deck sys cmd =
      Inr (spw_packet spw (rmap_header spw instr tid taddr tdl) [])"
    and len: "length tid = 2" "length taddr = 4" "length tdl = 3" "length addr = 4"
    and small: "length (spw_target_path_address spw) + length (spw_reply_path_address spw) < 2 ^ 60"
  shows "get_read_command_from_template deck sys cmd addr n =
    Inr (spw_packet spw (rmap_header spw instr tid addr (be_bytes 3 (word_of_nat n))) [])"
proof -
  let ?path = "spw_target_path_address spw" and ?dl = "be_bytes 3 (word_of_nat n)"
  define M where "M = [spw_target_logical_address spw, 0x01, instr, spw_key spw] @ spw_reply_path_address spw
      @ [spw_source_logical_address spw] @ tid"
  have hdr: "rmap_header spw instr tid a d = M @ [0x00] @ a @ d" for a d
    by (simp add: rmap_header_def M_def)
  define E where "E = get_spw_ether_header (?path @ (M @ [0x00] @ taddr @ tdl) @ [0])"
  define c where "c = spw_crc spw (M @ [0x00] @ taddr @ tdl)"
  define A where "A = E @ ?path @ M"
  have E: "get_spw_ether_header (?path @ (M @ [0x00] @ a @ d) @ [x]) = E"
    if "length a = 4" "length d = 3" for a d x
    using that len by (auto simp: E_def intro!: ether_header_length_only)
  have t: "spw_packet spw (rmap_header spw instr tid taddr tdl) [] = A @ [0x00] @ taddr @ tdl @ [c]"
    using E [of taddr tdl c] len by (simp add: spw_packet_def hdr A_def c_def)
  have lA: "length A < 2 ^ 61" "12 + length ?path \<le> length A"
    using small len by (simp_all add: A_def E_def M_def)
  have n: "length (A @ [0x00] @ taddr @ tdl @ [c]) = length A + 9" using len by simp
  have s1: "vec_set (length A) 0x00 (A @ [0x00] @ taddr @ tdl @ [c]) = Inr (A @ [0x00] @ taddr @ tdl @ [c])"
    by simp
  have s2: "write_field 4 (length A + 1) addr (A @ [0x00] @ taddr @ tdl @ [c]) = Inr (A @ [0x00] @ addr @ tdl @ [c])"
    using copy_field_exact [of addr taddr "A @ [0x00]" "length A + 1" "tdl @ [c]"] len lA
    by (simp add: write_field_def)
  have s3: "write_field 3 (length A + 5) ?dl (A @ [0x00] @ addr @ tdl @ [c]) = Inr (A @ [0x00] @ addr @ ?dl @ [c])"
    using copy_field_exact [of ?dl tdl "A @ [0x00] @ addr" "length A + 5" "[c]"] len lA
    by (simp add: write_field_def del: be_bytes_numeral)
  let ?h = "M @ [0x00] @ addr @ ?dl" and ?t = "A @ [0x00] @ addr @ ?dl @ [c]"
  have dropped: "drop (12 + length ?path) ?t = ?h @ [c]" by (simp add: A_def E_def del: be_bytes_numeral)
  have taken: "take (length A + 9 - 1 - (12 + length ?path)) (?h @ [c]) = ?h"
    using len by (intro take_append_exact(1)) (simp add: A_def E_def del: be_bytes_numeral)
  have s4: "copy_field (12 + length ?path) (?h @ [spw_calculate_crc_uint_F ?h]) ?t =
      Inr (E @ ?path @ ?h @ [spw_calculate_crc_uint_F ?h])"
    using copy_field_exact [of "?h @ [spw_calculate_crc_uint_F ?h]" "?h @ [c]" "E @ ?path" "12 + length ?path" "[]"] len lA
    by (simp add: A_def E_def del: be_bytes_numeral)
  have idx: "sz_sub (length A + 9) 9 = length A" "sz_sub (length A + 9) 8 = length A + 1"
    "sz_sub (length A + 9) 4 = length A + 5" by simp_all
  have sp: "splat_to_nbytes 3 (word_of_nat n) = Inr ?dl" by (rule splat_small) simp
  have bounds: "\<not> 12 + length ?path > length A + 9" "\<not> 12 + length ?path \<ge> length A + 9 - 1"
    using lA by linarith+
  have "get_read_command_from_template deck sys cmd addr n = Inr (E @ ?path @ ?h @ [spw_calculate_crc_uint_F ?h])"
    unfolding get_read_command_from_template_def bytes spw t Let_def bindR_Inr option_deref.simps n idx
      s1 s2 sp s3 dropped taken s4
    by (simp only: bounds if_False)
  also have "\<dots> = Inr (spw_packet spw (rmap_header spw instr tid addr ?dl) [])"
    using E [of addr ?dl "spw_calculate_crc_uint_F ?h"] len crc
    by (simp add: spw_packet_def hdr del: be_bytes_numeral)
  finally show ?thesis .
qed

section \<open>The length check\<close>

lemma check_packet_complete_prefix:
  assumes "length rmap < 2 ^ 32" "12 \<le> k"
  shows "check_packet_complete (take k (get_spw_ether_header rmap @ rmap))"
proof -
  let ?p = "take k (get_spw_ether_header rmap @ rmap)"
  have low: "take 4 (drop 8 (get_spw_ether_header rmap)) = be_bytes 4 (ucast (word_of_nat (length rmap) :: u32))"
  proof -
    have b: "be_bytes 4 (word_of_nat m) = be_bytes 4 (ucast (word_of_nat m :: u32))" if "m < 2 ^ 32" for m
      using that by (intro arg_cong [of _ _ "be_bytes 4"])
        (simp add: word_unat_eq_iff unsigned_ucast_eq unsigned_of_nat take_bit_nat_eq_self)
    have "take 4 (drop 8 (get_spw_ether_header rmap)) = be_bytes 4 (word_of_nat (length rmap))"
      by (simp add: get_spw_ether_header_def size_bytes_eq)
    with b [OF assms(1)] show ?thesis by (simp only:)
  qed
  have "take 4 (drop 8 ?p) = take 4 (drop 8 (get_spw_ether_header rmap))"
    using assms(2) by (simp add: drop_take take_drop min_def)
  then have "unsplat_from_4bytes (take 4 (drop 8 ?p)) = word_of_nat (length rmap)"
    by (simp only: low unsplat_be_bytes)
  moreover have "unat (word_of_nat (length rmap) :: u32) = length rmap"
    using assms(1) by (simp add: unat_of_nat_small)
  moreover have "12 \<le> length ?p" "length (drop 12 ?p) \<le> length rmap" using assms(2) by auto
  ultimately show ?thesis by (simp add: check_packet_complete_def Let_def)
qed

definition cdte_spw_example :: spacewire where
  "cdte_spw_example = SpaceWire_static [0x07, 0x02] [0x00, 0x00, 0x06, 0x03] 0xfe 0xfe 0x02 CHR ''f'' 0 2000 2000 12 1"

definition read_example :: command where
  "read_example = set_spw_options 0x4d [0, 0, 0, 0x44] [] 12 (Command null_command ''read'' 0x81 True CMD_SPW)"

definition write_example :: command where
  "write_example = set_spw_options 0x7d [0, 0, 0, 0x10] [1, 2, 3] 0 (Command null_command ''write'' 0x80 False CMD_SPW)"

definition deck_example :: command_deck where
  "deck_example = insert_command 0x09 0x81 read_example
     (CommandDeck_default\<lparr>deck_systems := [System_spacewire ''cdte1'' 0x09 (Some cdte_spw_example)]\<rparr>)"

lemma cdte_spw_example_simps:
  "length (spw_target_path_address cdte_spw_example) = 2" "length (spw_reply_path_address cdte_spw_example) = 4"
  "spw_key cdte_spw_example = 0x02" "spw_crc_version cdte_spw_example = CHR ''f''"
  by (simp_all add: cdte_spw_example_def SpaceWire_static_def link_defs)

lemma command_example_simps:
  "cmd_read read_example" "cmd_type read_example = CMD_SPW" "cmd_spw_instruction read_example = 0x4d"
  "length (cmd_spw_address read_example) = 4"
  "\<not> cmd_read write_example" "cmd_spw_instruction write_example = 0x7d"
  "cmd_spw_address write_example = [0, 0, 0, 0x10]" "cmd_spw_write_data write_example = [1, 2, 3]"
  by (simp_all add: read_example_def write_example_def set_spw_options_def Command_def cmd_set_type_def null_command_def)

lemma deck_example_simps:
  "sys_spacewire (System_spacewire n h s) = s"
  "sys_spacewire (get_sys_for_code 0x09 deck_example) = Some cdte_spw_example"
  "get_command_for_sys_for_code 0x09 0x81 deck_example = read_example"
  by (simp_all add: deck_example_def System_spacewire_def System_interfaces_def insert_command_def
      get_sys_for_code_def get_command_for_sys_for_code_def CommandDeck_default_def)

lemmas example_simps = cdte_spw_example_simps command_example_simps deck_example_simps

section \<open>Properties\<close>

text \<open>C14. A write command reaches the receiver intact: the packet built for a SpaceWire write command
  (draft-F checksum, 4-byte address, fewer than \<open>2 ^ 24\<close> data bytes) passes the receiver's length,
  header-checksum and data-checksum checks and yields instruction, key, address and data.\<close>

theorem write_command_decodes:
  assumes "sys_spacewire sys = Some spw" and "spw_crc_version spw = CHR ''f''"
    and "\<not> cmd_read cmd" and "bit (cmd_spw_instruction cmd) 5" and "length (cmd_spw_address cmd) = 4"
    and "length (cmd_spw_write_data cmd) < 2 ^ 24"
    and "length (spw_target_path_address spw) + length (spw_reply_path_address spw) < 2 ^ 59"
  shows "\<exists>p. make_spw_packet_for_sys_for_command sys cmd = Inr p \<and>
    rmap_decode (length (spw_target_path_address spw)) (length (spw_reply_path_address spw)) p =
      Some (cmd_spw_instruction cmd, spw_key spw, 0, cmd_spw_address cmd,
        length (cmd_spw_write_data cmd), cmd_spw_write_data cmd)"
proof -
  have "crc_bitwise (cmd_spw_write_data cmd @ [spw_crc spw (cmd_spw_write_data cmd)]) = 0"
    using assms(2) by (simp add: crc_bitwise_residue)
  with assms show ?thesis
    by (simp add: make_spw_packet_eq rmap_decode_packet be_value_length_field
        del: be_bytes_numeral spw_crc_f)
qed

lemma write_command_decodes_witness:
  "\<exists>p. make_spw_packet_for_sys_for_command (System_spacewire ''cdte1'' 0x09 (Some cdte_spw_example)) write_example
      = Inr p \<and> rmap_decode 2 4 p = Some (0x7d, 0x02, 0, [0, 0, 0, 0x10], 3, [1, 2, 3])"
  using write_command_decodes [of "System_spacewire ''cdte1'' 0x09 (Some cdte_spw_example)" cdte_spw_example write_example]
  by (simp add: example_simps numeral_3_eq_3)

text \<open>C15. A memory read request carries the address, the length modulo \<open>2 ^ 24\<close> and the transaction
  identifier the caller gave, under the system's key, and passes the receiver's checks.\<close>

theorem read_request_decodes:
  assumes "sys_spacewire (get_sys_for_code sys deck) = Some spw" and "spw_crc_version spw = CHR ''f''"
    and "length addr = 4"
    and "length (spw_target_path_address spw) + length (spw_reply_path_address spw) < 2 ^ 59"
  shows "\<exists>p. get_read_command_for_sys_at_address_and_transaction_id deck sys addr n tid = Inr p \<and>
    rmap_decode (length (spw_target_path_address spw)) (length (spw_reply_path_address spw)) p =
      Some (0x4d, spw_key spw, unat tid, addr, n mod 2 ^ 24, [])"
proof -
  have "unat (ucast tid :: u64) = unat tid"
  proof -
    have "unat tid < 2 ^ 64" by (rule less_trans [OF unat_u16_less]) simp
    then show ?thesis by (simp only: unsigned_ucast_eq take_bit_nat_eq_self len_of_numeral_defs) (simp add: take_bit_nat_eq_self)
  qed
  then have "be_value (be_bytes 2 (ucast tid)) = unat tid"
    using unat_u16_less [of tid] by (simp add: be_value_be_bytes del: be_bytes_numeral be_value_simps)
  with assms show ?thesis
    by (simp add: read_command_id_eq rmap_decode_packet be_value_length_field
        del: be_bytes_numeral be_value_simps)
qed

lemma read_request_decodes_witness:
  "\<exists>p. get_read_command_for_sys_at_address_and_transaction_id deck_example 0x09 [0, 0x20, 0, 0] 1000 0x9001 = Inr p \<and>
    rmap_decode 2 4 p = Some (0x4d, 0x02, 0x9001, [0, 0x20, 0, 0], 1000, [])"
  using read_request_decodes [where sys = "0x09" and deck = deck_example and spw = cdte_spw_example
      and addr = "[0, 0x20, 0, 0]" and n = "1000" and tid = "0x9001"]
  by (simp add: example_simps)

text \<open>C39. The two ways of building a read request agree: patching the address and the length into a
  read command of the deck (instruction \<open>0x4d\<close>, 4-byte address) gives byte for byte the packet that
  is built directly, checksums and prefix included.\<close>

theorem template_equals_direct:
  assumes "sys_spacewire (get_sys_for_code sys deck) = Some spw" and "spw_crc_version spw = CHR ''f''"
    and "cmd_type (get_command_for_sys_for_code sys code deck) = CMD_SPW"
    and "cmd_read (get_command_for_sys_for_code sys code deck)"
    and "cmd_spw_instruction (get_command_for_sys_for_code sys code deck) = 0x4d"
    and "length (cmd_spw_address (get_command_for_sys_for_code sys code deck)) = 4"
    and "length addr = 4"
    and "length (spw_target_path_address spw) + length (spw_reply_path_address spw) < 2 ^ 59"
  shows "get_read_command_from_template deck sys code addr n = get_read_command_for_sys_at_address deck sys addr n"
proof -
  have "get_command_bytes_for_sys_for_code deck sys code = Inr (spw_packet spw (rmap_header spw 0x4d [0x00, 0x00]
      (cmd_spw_address (get_command_for_sys_for_code sys code deck))
      (be_bytes 3 (word_of_nat (cmd_spw_reply_length (get_command_for_sys_for_code sys code deck))))) [])"
    using assms by (simp add: get_command_bytes_for_sys_for_code_def make_spw_packet_eq Let_def del: be_bytes_numeral)
  from template_result [OF assms(2,1) this] assms show ?thesis
    by (simp add: read_command_eq del: be_bytes_numeral)
qed

lemma template_equals_direct_witness:
  "get_read_command_from_template deck_example 0x09 0x81 [0, 0x20, 0, 0] 1000
     = get_read_command_for_sys_at_address deck_example 0x09 [0, 0x20, 0, 0] 1000"
  using template_equals_direct [where sys = "0x09" and deck = deck_example and spw = cdte_spw_example
      and code = "0x81" and addr = "[0, 0x20, 0, 0]" and n = "1000"]
  by (simp add: example_simps)

text \<open>\<open>check_packet_complete\<close> does not detect a packet that is still arriving: it accepts every
  prefix of at least 12 bytes of a packet the deck builds, because it only rejects a remainder
  longer than the announced size.\<close>

theorem truncated_packet_accepted:
  assumes "length rmap < 2 ^ 32" and "12 \<le> k"
  shows "check_packet_complete (take k (get_spw_ether_header rmap @ rmap))"
  using assms by (rule check_packet_complete_prefix)

lemma truncated_packet_accepted_witness:
  "check_packet_complete (take 13 (get_spw_ether_header [1, 2, 3] @ [1, 2, 3]))"
  using truncated_packet_accepted [of "[1, 2, 3]" 13] by simp

end
