(* ===== verification/System_Manager.thy ===== *)
theory System_Manager
  imports Frame_Packetizer Commands
begin

text \<open>
  \<open>UplinkBufferElement\<close> and \<open>SystemManager\<close> of \<open>src/Buffers.cpp\<close>. A manager owns the packetizer and the
  framer of each data type (the code stores pointers to them; nothing else writes to the objects), the
  frame counters, the remote write pointers last seen, the error field, and the states of the loop.
  The queue of uplinked commands belongs to the transport layer and is not part of the record.
\<close>

section \<open>Uplink elements\<close>

record uplink_element =
  up_system :: "system option"
  up_command :: "command option"
  up_varargs :: bytes

definition UplinkBufferElement_direct :: "system option \<Rightarrow> command option \<Rightarrow> bytes \<Rightarrow> uplink_element" where
  "UplinkBufferElement_direct s c v = \<lparr>up_system = s, up_command = c, up_varargs = v\<rparr>"

definition UplinkBufferElement_default :: uplink_element where
  "UplinkBufferElement_default = \<lparr>up_system = None, up_command = None, up_varargs = []\<rparr>"

text \<open>From an uplinked byte string: the vector is first resized to the number of arguments, then the
  arguments are appended.\<close>

definition UplinkBufferElement :: "bytes \<Rightarrow> command_deck \<Rightarrow> uplink_element result" where
  "UplinkBufferElement raw_data deck =
     bindR (vec_at raw_data 0) (\<lambda>sys. bindR (vec_at raw_data 1) (\<lambda>code.
     bindR (vec_resize (sz_sub (length raw_data) 2) []) (\<lambda>varargs.
       Inr \<lparr>up_system = Some (get_sys_for_code sys deck),
            up_command = Some (get_command_for_sys_for_code sys code deck),
            up_varargs = varargs @ drop 2 raw_data\<rparr>)))"

definition uplink_copy :: "uplink_element \<Rightarrow> uplink_element" where
  "uplink_copy other = \<lparr>up_system = up_system other, up_command = up_command other, up_varargs = up_varargs other\<rparr>"

lemma uplink_copy_same: "uplink_copy u = u"
  by (simp add: uplink_copy_def)

definition uplink_set_varargs :: "bytes \<Rightarrow> uplink_element \<Rightarrow> uplink_element" where
  "uplink_set_varargs v u = u\<lparr>up_varargs := v\<rparr>"

definition uplink_to_string :: "uplink_element \<Rightarrow> string result" where
  "uplink_to_string u =
     bindR (option_deref (up_system u)) (\<lambda>sys. bindR (option_deref (up_command u)) (\<lambda>cmd. Inr (
     ''UplinkBufferElement::''
     @ newline @ tab @ ''system.name, .hex '' @ tab @ ''= '' @ sys_name sys @ '', '' @ dec_string (unat (sys_hex sys))
     @ newline @ tab @ ''command.name, .hex '' @ tab @ ''= '' @ cmd_name cmd @ '', '' @ dec_string (unat (cmd_hex cmd))
     @ newline @ tab @ ''varargs.size() '' @ tab @ tab @ ''= '' @ dec_string (length (up_varargs u))
     @ newline)))"

lemma uplink_varargs:
  "length rest \<le> vec_max \<Longrightarrow> UplinkBufferElement (s # c # rest) deck = Inr \<lparr>
     up_system = Some (get_sys_for_code s deck), up_command = Some (get_command_for_sys_for_code s c deck),
     up_varargs = replicate (length rest) 0 @ rest\<rparr>"
  by (simp add: UplinkBufferElement_def pad_to_def)

section \<open>System managers\<close>

record system_manager =
  sm_system :: system
  sm_timing :: "timing option"
  sm_flight_state :: flight_state
  sm_system_state :: system_state
  sm_errors :: u16
  sm_active_type :: ring_type
  sm_last_write_pointer :: "ring_type \<rightharpoonup> nat"
  sm_counter :: nat
  sm_enable :: u8
  sm_frame_packetizer :: "ring_type \<rightharpoonup> frame_packetizer"
  sm_packet_framer :: "ring_type \<rightharpoonup> packet_framer"
  sm_frame_count :: "ring_type \<rightharpoonup> u16"

text \<open>The constructor leaves the active type as it is in memory and the timing pointer unset.\<close>

definition SystemManager :: "ring_type \<Rightarrow> system \<Rightarrow> system_manager" where
  "SystemManager mem new_system = \<lparr>
     sm_system = new_system,
     sm_timing = None,
     sm_flight_state = FLIGHT_AWAIT,
     sm_system_state = SYS_OFF,
     sm_errors = 0x00,
     sm_active_type = mem,
     sm_last_write_pointer = Map.empty,
     sm_counter = 0,
     sm_enable = 0,
     sm_frame_packetizer = Map.empty,
     sm_packet_framer = Map.empty,
     sm_frame_count = Map.empty\<rparr>"

definition clear_errors :: "system_manager \<Rightarrow> system_manager" where
  "clear_errors sm = sm\<lparr>sm_errors := 0x00\<rparr>"

definition raise_error :: "errors_system \<Rightarrow> system_manager \<Rightarrow> system_manager" where
  "raise_error e sm = sm\<lparr>sm_errors := err_or (sm_errors sm) e\<rparr>"

definition drop_error :: "errors_system \<Rightarrow> system_manager \<Rightarrow> system_manager" where
  "drop_error e sm = sm\<lparr>sm_errors := err_clear (sm_errors sm) e\<rparr>"

definition has_error :: "system_manager \<Rightarrow> errors_system \<Rightarrow> bool" where
  "has_error sm e = err_set (sm_errors sm) e"

text \<open>\<open>lookup_frame_count.insert(pair(type, 0))\<close>, which keeps a count that is there.\<close>

definition insert_count :: "ring_type \<Rightarrow> u16 \<Rightarrow> system_manager \<Rightarrow> system_manager" where
  "insert_count t n sm =
     (if t \<in> dom (sm_frame_count sm) then sm
      else sm\<lparr>sm_frame_count := (sm_frame_count sm)(t \<mapsto> n)\<rparr>)"

definition add_frame_packetizer :: "ring_type \<Rightarrow> frame_packetizer \<Rightarrow> system_manager \<Rightarrow> system_manager" where
  "add_frame_packetizer new_type fp sm =
     insert_count new_type 0x00 (sm\<lparr>sm_frame_packetizer := (sm_frame_packetizer sm)(new_type \<mapsto> fp)\<rparr>)"

definition add_packet_framer :: "ring_type \<Rightarrow> packet_framer \<Rightarrow> system_manager \<Rightarrow> system_manager" where
  "add_packet_framer new_type pf sm =
     insert_count new_type 0x00 (sm\<lparr>sm_packet_framer := (sm_packet_framer sm)(new_type \<mapsto> pf)\<rparr>)"

definition add_timing :: "timing option \<Rightarrow> system_manager \<Rightarrow> system_manager" where
  "add_timing new_timing sm = sm\<lparr>sm_timing := new_timing\<rparr>"

definition get_packet_framer :: "ring_type \<Rightarrow> system_manager \<Rightarrow> packet_framer option \<times> system_manager" where
  "get_packet_framer t sm =
     (case sm_packet_framer sm t of
        Some pf \<Rightarrow> (Some pf, sm)
      | None \<Rightarrow> (None, raise_error buffer_lookup sm))"

definition get_frame_packetizer :: "ring_type \<Rightarrow> system_manager \<Rightarrow> frame_packetizer option \<times> system_manager" where
  "get_frame_packetizer t sm =
     (case sm_frame_packetizer sm t of
        Some fp \<Rightarrow> (Some fp, sm)
      | None \<Rightarrow> (None, raise_error buffer_lookup sm))"

definition get_frame_count :: "ring_type \<Rightarrow> system_manager \<Rightarrow> u16 \<times> system_manager" where
  "get_frame_count t sm =
     (case sm_frame_count sm t of
        Some n \<Rightarrow> (n, sm)
      | None \<Rightarrow> (0x00, raise_error buffer_lookup sm))"

definition increment_frame_count :: "ring_type \<Rightarrow> system_manager \<Rightarrow> system_manager" where
  "increment_frame_count t sm =
     (case sm_frame_count sm t of
        Some n \<Rightarrow> sm\<lparr>sm_frame_count := (sm_frame_count sm)(t \<mapsto> n + 1)\<rparr>
      | None \<Rightarrow> raise_error buffer_lookup sm)"

section \<open>Facts about managers\<close>

interpretation counts: first_wins_store sm_frame_count insert_count
proof
  show "sm_frame_count (insert_count k v m) k' =
      (if k' = k then (case sm_frame_count m k of None \<Rightarrow> Some v | Some w \<Rightarrow> Some w)
       else sm_frame_count m k')" for k v m k'
    by (auto simp: insert_count_def split: option.split)
qed

lemma has_error_raise [simp]: "has_error (raise_error e sm) f \<longleftrightarrow> e = f \<or> has_error sm f"
  by (simp add: has_error_def raise_error_def)

lemma has_error_drop [simp]: "has_error (drop_error e sm) f \<longleftrightarrow> e \<noteq> f \<and> has_error sm f"
  by (simp add: has_error_def drop_error_def)

lemma has_error_clear [simp]: "\<not> has_error (clear_errors sm) e"
  by (simp add: has_error_def clear_errors_def)

lemma raise_error_fields [simp]:
  "sm_system (raise_error e sm) = sm_system sm" "sm_timing (raise_error e sm) = sm_timing sm"
  "sm_frame_packetizer (raise_error e sm) = sm_frame_packetizer sm"
  "sm_packet_framer (raise_error e sm) = sm_packet_framer sm"
  "sm_frame_count (raise_error e sm) = sm_frame_count sm"
  "sm_last_write_pointer (raise_error e sm) = sm_last_write_pointer sm"
  by (simp_all add: raise_error_def)

lemma drop_error_fields [simp]:
  "sm_system (drop_error e sm) = sm_system sm" "sm_timing (drop_error e sm) = sm_timing sm"
  "sm_frame_packetizer (drop_error e sm) = sm_frame_packetizer sm"
  "sm_packet_framer (drop_error e sm) = sm_packet_framer sm"
  "sm_frame_count (drop_error e sm) = sm_frame_count sm"
  "sm_last_write_pointer (drop_error e sm) = sm_last_write_pointer sm"
  by (simp_all add: drop_error_def)

lemma counts_added [simp]:
  "sm_frame_count (add_frame_packetizer t fp sm) = sm_frame_count (insert_count t 0 sm)"
  "sm_frame_count (add_packet_framer t pf sm) = sm_frame_count (insert_count t 0 sm)"
  by (simp_all add: add_frame_packetizer_def add_packet_framer_def insert_count_def)

lemma increments:
  "sm_frame_count sm t = Some n \<Longrightarrow>
     sm_frame_count ((increment_frame_count t ^^ k) sm) t = Some (n + word_of_nat k)"
  by (induction k) (simp_all add: increment_frame_count_def ac_simps)

section \<open>Properties\<close>

text \<open>The uplink element's arguments are not the bytes after the second one: the vector is resized
  before they are appended, so as many zeros come first, for every uplinked string of at least two
  bytes.\<close>

theorem uplink_varargs_padded:
  assumes "length rest \<le> vec_max"
  shows "\<exists>u. UplinkBufferElement (s # c # rest) deck = Inr u \<and>
    up_system u = Some (get_sys_for_code s deck) \<and>
    up_command u = Some (get_command_for_sys_for_code s c deck) \<and>
    up_varargs u = replicate (length rest) 0 @ rest"
  using uplink_varargs [OF assms] by simp

lemma uplink_varargs_padded_witness:
  "\<exists>u. UplinkBufferElement [0x09, 0x81, 7, 8] CommandDeck_default = Inr u \<and> up_varargs u = [0, 0, 7, 8]"
  using uplink_varargs_padded [of "[7, 8]" "0x09" "0x81" CommandDeck_default] by (auto simp: vec_max_def)

text \<open>Frame counters: registering a packetizer or a framer starts the type's counter at 0 and never
  resets one that runs, and after \<open>k\<close> frames it has advanced by \<open>k\<close> modulo \<open>2 ^ 16\<close> without an error
  flag.\<close>

theorem frame_counter_counts:
  "sm_frame_count (add_packet_framer t pf sm) t =
     (case sm_frame_count sm t of None \<Rightarrow> Some 0 | Some n \<Rightarrow> Some n) \<and>
   fst (get_frame_count t ((increment_frame_count t ^^ k) (add_frame_packetizer t fp sm))) =
     (case sm_frame_count sm t of None \<Rightarrow> word_of_nat k | Some n \<Rightarrow> n + word_of_nat k)"
proof -
  have "sm_frame_count (add_frame_packetizer t fp sm) t =
      Some (case sm_frame_count sm t of None \<Rightarrow> 0 | Some n \<Rightarrow> n)"
    by (simp add: counts.lookup_add split: option.split)
  from increments [OF this, of k] show ?thesis
    by (simp add: counts.lookup_add get_frame_count_def split: option.split)
qed

end
