(* ===== verification/Ring_Buffer.thy ===== *)
theory Ring_Buffer
  imports Prelude
begin

text \<open>
  \<open>RingBufferInterface\<close> (\<open>src/RingBufferInterface.cpp\<close>): the two memory regions to read from a
  remote ring buffer for the blocks that end at its write pointer. \<open>long int\<close> is the 64-bit integer
  of the target; a sum that leaves it is undefined.
\<close>

section \<open>State and operations\<close>

record ring_buffer =
  rbi_start_address :: u32
  rbi_last_read_address :: u32
  rbi_size :: nat
  rbi_block_size :: nat
  rbi_read_count_blocks :: nat

definition RingBufferInterface_default :: ring_buffer where
  "RingBufferInterface_default = \<lparr>
     rbi_start_address = 0x00, rbi_last_read_address = 0x00, rbi_size = 1, rbi_block_size = 1,
     rbi_read_count_blocks = 1\<rparr>"

definition RingBufferInterface :: "u32 \<Rightarrow> nat \<Rightarrow> nat \<Rightarrow> nat \<Rightarrow> ring_buffer" where
  "RingBufferInterface new_start_address new_size new_block_size new_read_count_blocks = \<lparr>
     rbi_start_address = new_start_address, rbi_last_read_address = 0x00, rbi_size = new_size,
     rbi_block_size = new_block_size, rbi_read_count_blocks = new_read_count_blocks\<rparr>"

definition set_start_address :: "u32 \<Rightarrow> ring_buffer \<Rightarrow> ring_buffer" where
  "set_start_address new_start_address rb = rb\<lparr>rbi_start_address := new_start_address\<rparr>"

definition set_last_read_address :: "u32 \<Rightarrow> ring_buffer \<Rightarrow> ring_buffer" where
  "set_last_read_address new_last_read_address rb = rb\<lparr>rbi_last_read_address := new_last_read_address\<rparr>"

definition rbi_set_size :: "nat \<Rightarrow> ring_buffer \<Rightarrow> ring_buffer" where
  "rbi_set_size new_size rb = rb\<lparr>rbi_size := new_size\<rparr>"

definition rbi_set_block_size :: "nat \<Rightarrow> ring_buffer \<Rightarrow> ring_buffer" where
  "rbi_set_block_size new_block_size rb = rb\<lparr>rbi_block_size := new_block_size\<rparr>"

definition rbi_set_read_count_blocks :: "nat \<Rightarrow> ring_buffer \<Rightarrow> ring_buffer" where
  "rbi_set_read_count_blocks new_read_count_blocks rb = rb\<lparr>rbi_read_count_blocks := new_read_count_blocks\<rparr>"

text \<open>The conversion of a \<open>size_t\<close> to \<open>long int\<close>.\<close>

definition long_of_size :: "nat \<Rightarrow> int" where
  "long_of_size n = signed_take_bit 63 (int n)"

definition read_block_from :: "u32 \<Rightarrow> ring_buffer \<Rightarrow> (u32 \<times> ring_buffer) result" where
  "read_block_from read_address rb =
     (let dist_to_start = uint read_address - uint (rbi_start_address rb);
          end_address = uint (rbi_start_address rb) + long_of_size (rbi_size rb);
          dist_to_end = end_address - uint read_address
      in if 2 ^ 63 \<le> end_address \<or> dist_to_end < - (2 ^ 63) then Inl Undefined
         else if dist_to_start < 0 \<or> dist_to_end < 0 then Inr (0, rb)
         else
           let read_start_address =
                 word_of_nat (sz_sub (unat read_address) (sz_mul (rbi_block_size rb) (rbi_read_count_blocks rb)));
               last = (if rbi_start_address rb \<le> read_start_address then read_start_address
                       else word_of_nat (sz_sub (sz_add (unat (rbi_start_address rb)) (rbi_size rb))
                                           (unat (rbi_last_read_address rb))))
           in Inr (last, set_last_read_address last rb))"

definition get_spw_data :: "u32 \<Rightarrow> ring_buffer \<Rightarrow> (u32 list \<times> ring_buffer) result" where
  "get_spw_data read_address rb =
     bindR (read_block_from read_address rb) (\<lambda>(last_address, rb).
       Inr (if last_address < read_address then [last_address, read_address - last_address, 0, 0]
            else [last_address,
                  word_of_nat (sz_sub (sz_add (rbi_size rb) (unat (rbi_start_address rb))) (unat last_address)),
                  rbi_start_address rb,
                  read_address - rbi_start_address rb], rb))"

section \<open>Facts\<close>

lemma long_of_size_small [simp]: "n < 2 ^ 63 \<Longrightarrow> long_of_size n = int n"
  by (simp add: long_of_size_def signed_take_bit_int_eq_self)

text \<open>The read pointer lies in the buffer, which lies in the 32-bit address space.\<close>

definition in_buffer :: "u32 \<Rightarrow> ring_buffer \<Rightarrow> bool" where
  "in_buffer a rb \<longleftrightarrow> unat (rbi_start_address rb) \<le> unat a \<and>
     unat a \<le> unat (rbi_start_address rb) + rbi_size rb \<and> unat (rbi_start_address rb) + rbi_size rb < 2 ^ 32"

definition read_length :: "ring_buffer \<Rightarrow> nat" where
  "read_length rb = rbi_block_size rb * rbi_read_count_blocks rb"

lemma in_buffer_distances:
  assumes "in_buffer a rb"
  shows "uint (rbi_start_address rb) + long_of_size (rbi_size rb) < 2 ^ 63"
    and "uint (rbi_start_address rb) \<le> uint a"
    and "uint a \<le> uint (rbi_start_address rb) + long_of_size (rbi_size rb)"
proof -
  have "rbi_size rb < 2 ^ 63" using assms by (simp add: in_buffer_def)
  then have z: "long_of_size (rbi_size rb) = int (rbi_size rb)" by (rule long_of_size_small)
  have gen: "int s + int z < 2 ^ 63 \<and> int s \<le> int x \<and> int x \<le> int s + int z"
    if "s \<le> x" "x \<le> s + z" "s + z < 2 ^ 32" for s x z :: nat
    using that by auto
  have "int (unat (rbi_start_address rb)) + int (rbi_size rb) < 2 ^ 63 \<and>
      int (unat (rbi_start_address rb)) \<le> int (unat a) \<and>
      int (unat a) \<le> int (unat (rbi_start_address rb)) + int (rbi_size rb)"
    using assms by (intro gen) (simp_all only: in_buffer_def)
  then show "uint (rbi_start_address rb) + long_of_size (rbi_size rb) < 2 ^ 63"
    and "uint (rbi_start_address rb) \<le> uint a"
    and "uint a \<le> uint (rbi_start_address rb) + long_of_size (rbi_size rb)"
    unfolding z uint_nat by blast+
qed

lemma read_block_from_inside:
  assumes "in_buffer a rb"
  shows "read_block_from a rb =
    (let read_start = word_of_nat (sz_sub (unat a) (sz_mul (rbi_block_size rb) (rbi_read_count_blocks rb)));
         last = (if rbi_start_address rb \<le> read_start then read_start
                 else word_of_nat (sz_sub (sz_add (unat (rbi_start_address rb)) (rbi_size rb))
                                     (unat (rbi_last_read_address rb))))
     in Inr (last, set_last_read_address last rb))"
proof -
  have no_overflow: "\<not> (2 ^ 63 \<le> uint (rbi_start_address rb) + long_of_size (rbi_size rb) \<or>
      uint (rbi_start_address rb) + long_of_size (rbi_size rb) - uint a < - (2 ^ 63))"
    using in_buffer_distances [OF assms] by auto
  have inside: "\<not> (uint a - uint (rbi_start_address rb) < 0 \<or>
      uint (rbi_start_address rb) + long_of_size (rbi_size rb) - uint a < 0)"
    using in_buffer_distances [OF assms] by linarith
  show ?thesis
    unfolding read_block_from_def Let_def by (simp only: no_overflow inside if_False)
qed

lemma read_without_wrap:
  assumes "in_buffer a rb" and "0 < read_length rb"
    and "read_length rb \<le> unat a - unat (rbi_start_address rb)"
  shows "get_spw_data a rb =
    Inr ([a - word_of_nat (read_length rb), word_of_nat (read_length rb), 0, 0],
         set_last_read_address (a - word_of_nat (read_length rb)) rb)"
proof -
  from assms(1) have a: "unat (rbi_start_address rb) \<le> unat a" "unat a < 2 ^ 32" by (auto simp: in_buffer_def)
  with assms(3) have n: "read_length rb \<le> unat a" "read_length rb < 2 ^ 64" by auto
  have start: "word_of_nat (sz_sub (unat a) (sz_mul (rbi_block_size rb) (rbi_read_count_blocks rb)))
      = a - word_of_nat (read_length rb)"
    using n by (simp add: read_length_def [symmetric] of_nat_diff)
  have v: "unat (a - word_of_nat (read_length rb)) = unat a - read_length rb"
  proof -
    have "a - word_of_nat (read_length rb) = word_of_nat (unat a - read_length rb)"
      using n by (simp add: of_nat_diff)
    then show ?thesis using a by (simp add: unat_of_nat_small)
  qed
  have "rbi_start_address rb \<le> a - word_of_nat (read_length rb)"
    unfolding word_le_nat_alt v using a assms(3) by linarith
  moreover have "a - word_of_nat (read_length rb) < a"
    unfolding word_less_nat_alt v using assms(2) n by linarith
  ultimately show ?thesis
    unfolding get_spw_data_def read_block_from_inside [OF assms(1)] start by (simp add: Let_def)
qed

text \<open>When the blocks straddle the start of the buffer, the first region should begin
  \<open>read_length - (a - start)\<close> bytes before the end.\<close>

lemma read_with_wrap:
  assumes "in_buffer a rb" and "unat a - unat (rbi_start_address rb) < read_length rb"
    and "read_length rb \<le> unat a"
    and "unat (rbi_last_read_address rb) \<le> unat (rbi_start_address rb) + rbi_size rb"
  shows "read_block_from a rb =
    (let last = word_of_nat (unat (rbi_start_address rb) + rbi_size rb - unat (rbi_last_read_address rb))
     in Inr (last, set_last_read_address last rb))"
proof -
  from assms(1) have a: "unat (rbi_start_address rb) \<le> unat a" "unat a < 2 ^ 32"
    "unat (rbi_start_address rb) + rbi_size rb < 2 ^ 64" by (auto simp: in_buffer_def)
  with assms(3) have n: "read_length rb \<le> unat a" "read_length rb < 2 ^ 64" by auto
  have "sz_sub (unat a) (sz_mul (rbi_block_size rb) (rbi_read_count_blocks rb)) = unat a - read_length rb"
    using n by (simp add: read_length_def [symmetric])
  moreover have "\<not> rbi_start_address rb \<le> word_of_nat (unat a - read_length rb)"
  proof -
    have "unat (word_of_nat (unat a - read_length rb) :: u32) = unat a - read_length rb"
      using a by (intro unat_of_nat_small) simp
    then show ?thesis unfolding word_le_nat_alt using a n assms(2) by linarith
  qed
  ultimately show ?thesis
    unfolding read_block_from_inside [OF assms(1)] using a assms(4) by (simp add: Let_def)
qed

definition ring_example :: "u32 \<Rightarrow> ring_buffer" where
  "ring_example prev = set_last_read_address prev (RingBufferInterface 0x1000 0x100 0x10 2)"

section \<open>Properties\<close>

text \<open>Reading the blocks before the write pointer: for a pointer in a buffer inside the 32-bit
  address space with enough bytes before it, the one region returned is exactly the
  \<open>block_size * read_count_blocks\<close> bytes before the pointer, inside the buffer, and its start is
  remembered.\<close>

theorem ring_read_before_pointer:
  assumes "in_buffer a rb" and "0 < read_length rb"
    and "read_length rb \<le> unat a - unat (rbi_start_address rb)"
  shows "\<exists>first len rb'. get_spw_data a rb = Inr ([first, len, 0, 0], rb') \<and>
    unat first + unat len = unat a \<and> unat len = rbi_block_size rb * rbi_read_count_blocks rb \<and>
    rbi_start_address rb \<le> first \<and> rb' = rb\<lparr>rbi_last_read_address := first\<rparr>"
proof -
  from assms(1) have a: "unat (rbi_start_address rb) \<le> unat a" "unat a < 2 ^ 32" by (auto simp: in_buffer_def)
  with assms(3) have n: "read_length rb \<le> unat a" "read_length rb < 2 ^ 32" by auto
  have e: "a - word_of_nat (read_length rb) = word_of_nat (unat a - read_length rb)"
    using n by (simp add: of_nat_diff)
  have v: "unat (a - word_of_nat (read_length rb)) = unat a - read_length rb"
    using a unfolding e by (simp add: unat_of_nat_small)
  have "rbi_start_address rb \<le> a - word_of_nat (read_length rb)"
    unfolding word_le_nat_alt v using a assms(3) by linarith
  with v n show ?thesis
    unfolding read_without_wrap [OF assms]
    by (simp add: unat_of_nat_small set_last_read_address_def flip: read_length_def)
qed

lemma ring_read_before_pointer_witness:
  "\<exists>first len rb'. get_spw_data 0x1080 (ring_example 0) = Inr ([first, len, 0, 0], rb') \<and>
    unat first + unat len = 0x1080 \<and> unat len = 32"
  using ring_read_before_pointer [of "0x1080" "ring_example 0"]
  by (auto simp: in_buffer_def read_length_def ring_example_def RingBufferInterface_def set_last_read_address_def)

text \<open>When the blocks straddle the start of the buffer, the start of the first region does not
  depend on the pointer or on the number of bytes: it is the end of the buffer less the address that
  was read last, so two pointers give the same start.\<close>

theorem ring_wrap_ignores_pointer:
  assumes "in_buffer a rb" and "in_buffer b rb"
    and "unat a - unat (rbi_start_address rb) < read_length rb" and "read_length rb \<le> unat a"
    and "unat b - unat (rbi_start_address rb) < read_length rb" and "read_length rb \<le> unat b"
    and "unat (rbi_last_read_address rb) \<le> unat (rbi_start_address rb) + rbi_size rb"
  shows "\<exists>last. read_block_from a rb = Inr (last, rb\<lparr>rbi_last_read_address := last\<rparr>) \<and>
    read_block_from b rb = Inr (last, rb\<lparr>rbi_last_read_address := last\<rparr>) \<and>
    unat last = unat (rbi_start_address rb) + rbi_size rb - unat (rbi_last_read_address rb)"
proof -
  have "unat (rbi_start_address rb) + rbi_size rb - unat (rbi_last_read_address rb) < 2 ^ LENGTH(32)"
    using assms(1) by (auto simp: in_buffer_def)
  then show ?thesis
    unfolding read_with_wrap [OF assms(1,3,4,7)] read_with_wrap [OF assms(2,5,6,7)]
    by (simp add: Let_def set_last_read_address_def unat_of_nat_small)
qed

lemma ring_wrap_ignores_pointer_witness:
  "\<exists>last. read_block_from 0x1008 (ring_example 0x1000) = Inr (last, (ring_example 0x1000)\<lparr>rbi_last_read_address := last\<rparr>) \<and>
    read_block_from 0x1010 (ring_example 0x1000) = Inr (last, (ring_example 0x1000)\<lparr>rbi_last_read_address := last\<rparr>) \<and>
    unat last = 0x100"
  using ring_wrap_ignores_pointer [of "0x1008" "ring_example 0x1000" "0x1010"]
  by (auto simp: in_buffer_def read_length_def ring_example_def RingBufferInterface_def set_last_read_address_def)

end
