(* ===== verification/Fragments.thy ===== *)
theory Fragments
  imports Utilities
begin

text \<open>
  \<open>Fragmenter\<close> (\<open>src/Fragmenter.cpp\<close>): cutting a message into packets whose headers carry the number of
  bytes, the number of packets and the index, each in a third of the header.

  \<open>make_max_message_size\<close> shifts the \<open>int\<close> \<open>0xff\<close> by up to 56 places. The shift by 24 gives a negative
  \<open>int\<close>; for the shifts of 32 and more the standard fixes no value, and \<open>shl\<close> is the \<open>int\<close> the target
  computes for them. Every definition that builds a \<open>Fragmenter\<close> takes it as an argument.
\<close>

section \<open>State and construction\<close>

record fragmenter =
  fr_fragment_size :: nat
  fr_header_size :: nat
  fr_max_message_size :: u64
  fr_fragment_prefix :: bytes

definition shifted_ff :: "(nat \<Rightarrow> u32) \<Rightarrow> nat \<Rightarrow> u32" where
  "shifted_ff shl i = (if i * 8 < 32 then push_bit (i * 8) 0xff else shl (i * 8))"

definition make_max_message_size :: "(nat \<Rightarrow> u32) \<Rightarrow> fragmenter \<Rightarrow> fragmenter result" where
  "make_max_message_size shl fr =
     (let n_count = fr_header_size fr div 3
      in if 8 < n_count then Inl (Thrown ''Fragmenter error'')
         else Inr (fr\<lparr>fr_max_message_size :=
                foldl (\<lambda>r i. r OR scast (shifted_ff shl i)) 0 [0 ..< 8]\<rparr>))"

definition Fragmenter_default :: "(nat \<Rightarrow> u32) \<Rightarrow> fragmenter result" where
  "Fragmenter_default shl = make_max_message_size shl \<lparr>
     fr_fragment_size = 1, fr_header_size = 3, fr_max_message_size = 0, fr_fragment_prefix = []\<rparr>"

definition Fragmenter_prefixed :: "(nat \<Rightarrow> u32) \<Rightarrow> nat \<Rightarrow> nat \<Rightarrow> bytes \<Rightarrow> fragmenter result" where
  "Fragmenter_prefixed shl new_fragment_size new_header_size new_prefix =
     (if new_header_size mod 3 \<noteq> 0 then Inl (Thrown ''Fragmenter error'')
      else make_max_message_size shl \<lparr>
        fr_fragment_size = new_fragment_size, fr_header_size = new_header_size,
        fr_max_message_size = 0, fr_fragment_prefix = new_prefix\<rparr>)"

definition Fragmenter :: "(nat \<Rightarrow> u32) \<Rightarrow> nat \<Rightarrow> nat \<Rightarrow> fragmenter result" where
  "Fragmenter shl new_fragment_size new_header_size =
     (if new_header_size mod 3 \<noteq> 0 then Inl (Thrown ''Fragmenter error'')
      else make_max_message_size shl \<lparr>
        fr_fragment_size = new_fragment_size, fr_header_size = new_header_size,
        fr_max_message_size = 0, fr_fragment_prefix = []\<rparr>)"

text \<open>Copying and assignment take three fields and compute the fourth anew.\<close>

definition fr_copy :: "(nat \<Rightarrow> u32) \<Rightarrow> fragmenter \<Rightarrow> fragmenter result" where
  "fr_copy shl other = make_max_message_size shl \<lparr>
     fr_fragment_size = fr_fragment_size other, fr_header_size = fr_header_size other,
     fr_max_message_size = 0, fr_fragment_prefix = fr_fragment_prefix other\<rparr>"

definition fr_assign :: "(nat \<Rightarrow> u32) \<Rightarrow> fragmenter \<Rightarrow> fragmenter \<Rightarrow> fragmenter result" where
  "fr_assign shl this other = make_max_message_size shl (this\<lparr>
     fr_fragment_size := fr_fragment_size other, fr_header_size := fr_header_size other,
     fr_fragment_prefix := fr_fragment_prefix other\<rparr>)"

section \<open>Fragmenting\<close>

text \<open>The loop over the message; \<open>i\<close> is the offset, \<open>count\<close> the packets so far. A message fits in memory, so
  \<open>i + fragment_size\<close> stays a \<open>size_t\<close> while the loop runs.\<close>

function fragment_loop :: "nat \<Rightarrow> nat \<Rightarrow> bytes \<Rightarrow> bytes \<Rightarrow> nat \<Rightarrow> nat \<Rightarrow> bytes list result" where
  "fragment_loop fsize field head_packet_count message i count =
     (if fsize = 0 \<or> length message \<le> i then Inr []
      else
        let final = min (length message) (i + fsize) in
        bindR (splat_to_nbytes field (word_of_nat count)) (\<lambda>head_idx.
        bindR (splat_to_nbytes field (word_of_nat (final - i))) (\<lambda>head_byte_count.
        bindR (vec_slice i final message) (\<lambda>part.
        bindR (fragment_loop fsize field head_packet_count message (i + fsize) (count + 1)) (\<lambda>rest.
          Inr ((head_byte_count @ head_packet_count @ head_idx @ part) # rest))))))"
  by pat_completeness auto
termination
  by (relation "measure (\<lambda>(fsize, field, h, message, i, count). length message - i)") auto

declare fragment_loop.simps [simp del]

definition fragment :: "fragmenter \<Rightarrow> bytes \<Rightarrow> bytes list result" where
  "fragment fr message =
     (if unat (fr_max_message_size fr) < length message then Inl (Thrown ''Fragmenter error'')
      else if fr_fragment_size fr = 0 then Inl Undefined
      else
        let n_fragments = length message div fr_fragment_size fr
              + (if 0 < length message mod fr_fragment_size fr then 1 else 0)
        in bindR (splat_to_nbytes (fr_header_size fr div 3) (word_of_nat n_fragments)) (\<lambda>head_packet_count.
           fragment_loop (fr_fragment_size fr) (fr_header_size fr div 3) head_packet_count message 0 0))"

section \<open>Facts\<close>

lemma max_message_size_all_ones:
  "foldl (\<lambda>r i. r OR scast (shifted_ff shl i)) (0 :: u64) [0 ..< 8] = - 1"
proof -
  have s: "scast (shifted_ff shl 0) OR scast (shifted_ff shl 1) OR scast (shifted_ff shl 2)
      OR scast (shifted_ff shl 3) = (- 1 :: u64)"
    by (simp add: shifted_ff_def push_bit_eq_mult)
  have "[0 ..< 8] = [0, 1, 2, 3, 4, 5, 6, 7 :: nat]" by (simp add: upt_rec)
  then have "foldl (\<lambda>r i. r OR scast (shifted_ff shl i)) (0 :: u64) [0 ..< 8] =
      (scast (shifted_ff shl 0) OR scast (shifted_ff shl 1) OR scast (shifted_ff shl 2) OR scast (shifted_ff shl 3))
      OR scast (shifted_ff shl 4) OR scast (shifted_ff shl 5) OR scast (shifted_ff shl 6) OR scast (shifted_ff shl 7)"
    by (simp add: or.assoc)
  then show ?thesis unfolding s by simp
qed

lemma make_max_message_size_eq:
  "make_max_message_size shl fr =
     (if fr_header_size fr div 3 \<le> 8 then Inr (fr\<lparr>fr_max_message_size := - 1\<rparr>)
      else Inl (Thrown ''Fragmenter error''))"
  by (simp add: make_max_message_size_def max_message_size_all_ones Let_def)

fun numbered :: "nat \<Rightarrow> bytes \<Rightarrow> nat \<Rightarrow> bytes list \<Rightarrow> bytes list" where
  "numbered field head_packet_count k [] = []"
| "numbered field head_packet_count k (b # bs) =
     (be_bytes field (word_of_nat (length b)) @ head_packet_count @ be_bytes field (word_of_nat k) @ b)
     # numbered field head_packet_count (k + 1) bs"

lemma fragment_loop_blocks:
  assumes "0 < fsize" and "field \<le> 8"
  shows "fragment_loop fsize field h message i k = Inr (numbered field h k (blocks fsize (drop i message)))"
  using assms
proof (induction fsize field h message i k rule: fragment_loop.induct)
  case (1 fsize field h message i k)
  show ?case
  proof (cases "length message \<le> i")
    case False
    have part: "take (min (length message) (i + fsize) - i) (drop i message) = take fsize (drop i message)"
      using False by (simp add: min_def)
    have "min (length message) (i + fsize) - i = length (take fsize (drop i message))"
      using False by (auto simp: min_def)
    then have len: "word_of_nat (min (length message) (i + fsize) - i) =
        (word_of_nat (length (take fsize (drop i message))) :: u64)"
      by (rule arg_cong)
    have "fragment_loop fsize field h message (i + fsize) (k + 1)
        = Inr (numbered field h (k + 1) (blocks fsize (drop (i + fsize) message)))"
      using 1 False by simp
    then show ?thesis
      using False "1.prems" unfolding fragment_loop.simps [of fsize field h message i k] Let_def len
      by (simp add: blocks_step part add.commute [of fsize i] del: length_take)
  qed (use 1 in \<open>simp add: fragment_loop.simps\<close>)
qed

lemma length_numbered [simp]: "length (numbered field h k bs) = length bs"
  by (induction bs arbitrary: k) simp_all

lemma numbered_nth:
  "j < length bs \<Longrightarrow> numbered field h k bs ! j =
     be_bytes field (word_of_nat (length (bs ! j))) @ h @ be_bytes field (word_of_nat (k + j)) @ bs ! j"
  by (induction bs arbitrary: j k) (auto simp: nth_Cons add.assoc add.left_commute split: nat.split)

lemma be_value_field: "n < 256 ^ w \<Longrightarrow> n < 2 ^ 64 \<Longrightarrow> be_value (be_bytes w (word_of_nat n)) = n"
  by (simp add: be_value_be_bytes unat_of_nat_small)

lemma fragment_eq:
  assumes "fr_max_message_size fr = - 1" and "0 < fr_fragment_size fr" and "fr_header_size fr = 3 * w"
    and "w \<le> 8" and "length message \<le> vec_max"
  shows "fragment fr message = Inr (numbered w
    (be_bytes w (word_of_nat (ceil_div (length message) (fr_fragment_size fr)))) 0
    (blocks (fr_fragment_size fr) message))"
proof -
  have "length message < 2 ^ 64" using assms(5) by (simp add: vec_max_def)
  then have "\<not> unat (fr_max_message_size fr) < length message"
    using assms(1) by (simp add: unsigned_minus_1_eq_mask mask_eq_exp_minus_1)
  then show ?thesis
    using assms by (simp add: fragment_def fragment_loop_blocks ceil_div_def)
qed

lemma ceil_div_le_self: "0 < b \<Longrightarrow> ceil_div a b \<le> a"
proof -
  assume b: "0 < b"
  have "a div b \<le> a div b * b" using b by (cases b) simp_all
  then have "a div b + a mod b \<le> a div b * b + a mod b" by (rule add_right_mono)
  then have "a div b + a mod b \<le> a" by (simp only: div_mult_mod_eq)
  then show ?thesis by (cases "a mod b") (simp_all add: ceil_div_def)
qed

section \<open>Properties\<close>

text \<open>C36. Fragments reassemble: with a header of \<open>3 w\<close> bytes (\<open>w\<close> at most 8), a positive fragment size, and
  packet and byte counts that fit in \<open>w\<close> bytes, \<open>fragment\<close> succeeds; the parts behind the headers joined in
  order are the message, and each header holds the length of its part, the number of packets and the
  packet's index. This is what the code does; the comment on \<open>fragment\<close> in \<open>include/Fragmenter.h\<close> gives a prefix of
  packet length, fragment size and original length, and the one on \<open>fragment_size\<close> makes it the size of a whole
  fragment, while the code adds the header to it.\<close>

theorem fragments_reassemble:
  assumes "Fragmenter shl fsize (3 * w) = Inr fr" and "0 < fsize" and "length message \<le> vec_max"
    and "ceil_div (length message) fsize < 256 ^ w" and "fsize < 256 ^ w" and "fsize < 2 ^ 64"
  shows "\<exists>fs. fragment fr message = Inr fs \<and> length fs = ceil_div (length message) fsize \<and>
    concat (map (drop (3 * w)) fs) = message \<and>
    (\<forall>i < length fs. be_value (take w (fs ! i)) = length (drop (3 * w) (fs ! i)) \<and>
       length (drop (3 * w) (fs ! i)) \<le> fsize \<and>
       be_value (take w (drop w (fs ! i))) = length fs \<and> be_value (take w (drop (2 * w) (fs ! i))) = i)"
proof -
  have w: "w \<le> 8" and fr: "fr_max_message_size fr = - 1" "fr_fragment_size fr = fsize" "fr_header_size fr = 3 * w"
    using assms(1) by (auto simp: Fragmenter_def make_max_message_size_eq split: if_splits)
  define bs where "bs = blocks fsize message"
  define c where "c = ceil_div (length message) fsize"
  have len: "length bs = c" using assms(2) by (simp add: bs_def c_def length_blocks)
  have "c \<le> length message" using assms(2) by (simp add: c_def ceil_div_le_self)
  then have c: "c < 2 ^ 64" "c < 256 ^ w" using assms(3,4) by (auto simp: vec_max_def c_def)
  have nth: "numbered w (be_bytes w (word_of_nat c)) 0 bs ! i =
      be_bytes w (word_of_nat (length (bs ! i))) @ be_bytes w (word_of_nat c) @ be_bytes w (word_of_nat i) @ bs ! i"
    if "i < length bs" for i using numbered_nth [OF that, of w _ 0] by simp
  have b: "length (bs ! i) \<le> fsize" if "i < length bs" for i
    using that blocks_bounds [of "bs ! i" fsize message] by (simp add: bs_def)
  have drop3: "drop (3 * w) (numbered w (be_bytes w (word_of_nat c)) 0 bs ! i) = bs ! i" if "i < length bs" for i
    using that by (simp add: nth)
  let ?fs = "numbered w (be_bytes w (word_of_nat c)) 0 bs"
  have "map (drop (3 * w)) ?fs = bs"
    by (rule nth_equalityI) (simp_all add: drop3)
  then have joined: "concat (map (drop (3 * w)) ?fs) = message" using assms(2) by (simp add: bs_def)
  have fields: "be_value (take w (?fs ! i)) = length (bs ! i) \<and> be_value (take w (drop w (?fs ! i))) = c \<and>
      be_value (take w (drop (2 * w) (?fs ! i))) = i" if i: "i < c" for i
  proof -
    have "length (bs ! i) < 256 ^ w" "length (bs ! i) < 2 ^ 64" "i < 256 ^ w" "i < 2 ^ 64"
      using b [of i] assms(5,6) c i len by linarith+
    then have "be_value (be_bytes w (word_of_nat (length (bs ! i)))) = length (bs ! i)"
      "be_value (be_bytes w (word_of_nat c)) = c" "be_value (be_bytes w (word_of_nat i)) = i"
      using c by (simp_all only: be_value_field)
    then show ?thesis using i len by (simp add: nth)
  qed
  show ?thesis
  proof (intro exI [of _ ?fs] conjI allI impI)
    show "fragment fr message = Inr ?fs"
      using fragment_eq [OF fr(1) _ fr(3) w assms(3)] assms(2) fr(2) by (simp add: bs_def c_def)
    show "length ?fs = ceil_div (length message) fsize" by (simp add: len flip: c_def)
    show "concat (map (drop (3 * w)) ?fs) = message" by (rule joined)
    fix i assume "i < length ?fs"
    then have i: "i < c" "i < length bs" by (simp_all add: len)
    show "be_value (take w (?fs ! i)) = length (drop (3 * w) (?fs ! i))" using fields [OF i(1)] drop3 [OF i(2)] by simp
    show "length (drop (3 * w) (?fs ! i)) \<le> fsize" using b [OF i(2)] drop3 [OF i(2)] by simp
    show "be_value (take w (drop w (?fs ! i))) = length ?fs" using fields [OF i(1)] by (simp add: len)
    show "be_value (take w (drop (2 * w) (?fs ! i))) = i" using fields [OF i(1)] by simp
  qed
qed

definition fragmenter_example :: fragmenter where
  "fragmenter_example = \<lparr>
     fr_fragment_size = 2, fr_header_size = 3, fr_max_message_size = - 1, fr_fragment_prefix = []\<rparr>"

lemma fragments_reassemble_witness:
  "\<exists>fs. fragment fragmenter_example [10, 20, 30] = Inr fs \<and> length fs = 2 \<and>
    concat (map (drop 3) fs) = [10, 20, 30]"
proof -
  have "Fragmenter (\<lambda>n. 0) 2 (3 * 1) = Inr fragmenter_example"
    by (simp add: Fragmenter_def make_max_message_size_eq fragmenter_example_def)
  moreover have "ceil_div (length [10, 20, 30 :: u8]) 2 = 2" by (simp add: ceil_div_def)
  ultimately show ?thesis
    using fragments_reassemble [of "\<lambda>n. 0" 2 1 fragmenter_example "[10, 20, 30]"] by (auto simp: vec_max_def)
qed

text \<open>The size guard of \<open>fragment\<close> never fires: whatever the header width and whatever the target
  computes for the overlong shifts, a constructed \<open>Fragmenter\<close> allows messages of up to \<open>2 ^ 64 - 1\<close> bytes,
  so no message that fits in memory is refused, even when its packet count does not fit in the header.\<close>

theorem message_guard_never_fires:
  assumes "Fragmenter_prefixed shl fsize hsize prefix = Inr fr" and "length message \<le> vec_max" and "0 < fsize"
  shows "fr_max_message_size fr = - 1 \<and> hsize \<le> 24 \<and> (\<exists>fs. fragment fr message = Inr fs)"
proof -
  have w: "hsize = 3 * (hsize div 3)" "hsize div 3 \<le> 8"
    and fr: "fr_max_message_size fr = - 1" "fr_fragment_size fr = fsize" "fr_header_size fr = hsize"
    using assms(1) by (auto simp: Fragmenter_prefixed_def make_max_message_size_eq split: if_splits)
  then have "\<exists>fs. fragment fr message = Inr fs"
    using fragment_eq [OF fr(1) _ _ w(2) assms(2)] assms(3) by auto
  moreover have "hsize \<le> 24" using w by linarith
  ultimately show ?thesis using fr by simp
qed

lemma message_guard_never_fires_witness:
  "\<exists>fs. fragment \<lparr>fr_fragment_size = 1, fr_header_size = 0, fr_max_message_size = - 1, fr_fragment_prefix = [7]\<rparr> [1, 2]
     = Inr fs"
  using message_guard_never_fires [of "\<lambda>n. 0" 1 0 "[7]"
      "\<lparr>fr_fragment_size = 1, fr_header_size = 0, fr_max_message_size = - 1, fr_fragment_prefix = [7]\<rparr>" "[1, 2]"]
  by (simp add: Fragmenter_prefixed_def make_max_message_size_eq vec_max_def)

end
