(* ===== verification/Machine.thy ===== *)
theory Machine
  imports System_Manager "HOL-Library.Stream"
begin

text \<open>
  The state a \<open>TransportLayerMachine\<close> works on and its reads and sends (\<open>src/TransportLayer.cpp\<close>).

  Sockets, ports and the \<open>io_context\<close> are Boost's: the model sees them through two scripts. \<open>m_replies\<close> is
  what the peers deliver to the reads, in the order the program makes them: \<open>None\<close> is a read that times
  out, \<open>Some bs\<close> one that completes with the bytes \<open>bs\<close> (cut at the size asked for; fewer bytes when the
  connection fails). It is an infinite stream, so peers may answer forever; \<open>silence\<close> is the stream of those that
  never do. \<open>m_send_fails\<close> says which of the sends throw; past its end they succeed. \<open>m_sent\<close> records what was handed to each port.

  The queues of \<open>moodycamel\<close> are lists: one thread fills and drains them, so they are first-in first-out.
  The uplink queues stand in an \<open>unordered_map\<close> keyed by \<open>System\<close>.

  Operations take the \<open>SystemManager\<close> by reference: \<open>m_man\<close> is that manager. They can throw or run forever,
  and the state at a throw is seen by the handlers that catch it: an operation maps the machine to a
  result and a machine, or to \<open>None\<close> when it never returns.
\<close>

section \<open>State\<close>

type_synonym script = "bytes option stream"

definition silence :: script where
  "silence = sconst None"

lemma silence_simps [simp]: "shd silence = None" "stl silence = silence" "sset silence = {None}"
  by (simp_all add: silence_def)

datatype port = Tcp | Udp_Ground | Udp_Housekeeping | Uart_Local

record machine =
  m_deck :: command_deck
  m_man :: system_manager
  m_downlink :: "dbe list"
  m_uplink :: "(system \<times> uplink_element list) list"
  m_replies :: script
  m_send_fails :: "bool list"
  m_sent :: "(port \<times> bytes) list"
  m_logger_name :: string
  m_logs :: "(string \<times> bool option) list option"
  m_removed_logs :: "string list"

type_synonym ('s, 'a) op = "'s \<Rightarrow> ('a result \<times> 's) option"

type_synonym 'a io = "(machine, 'a) op"

section \<open>Sequencing\<close>

text \<open>These work on any state, so that the main loop uses them on its own.\<close>

named_theorems io_simps \<open>evaluation of operations on the machine\<close>

definition ret :: "'a \<Rightarrow> ('s, 'a) op" where
  "ret x m = Some (Inr x, m)"

definition liftR :: "'a result \<Rightarrow> ('s, 'a) op" where
  "liftR r m = Some (r, m)"

definition bindM :: "('s, 'a) op \<Rightarrow> ('a \<Rightarrow> ('s, 'b) op) \<Rightarrow> ('s, 'b) op" where
  "bindM f g m =
     (case f m of
        None \<Rightarrow> None
      | Some (Inl e, m') \<Rightarrow> Some (Inl e, m')
      | Some (Inr x, m') \<Rightarrow> g x m')"

definition getM :: "('s \<Rightarrow> 'a) \<Rightarrow> ('s, 'a) op" where
  "getM f m = Some (Inr (f m), m)"

definition modifyM :: "('s \<Rightarrow> 's) \<Rightarrow> ('s, unit) op" where
  "modifyM f m = Some (Inr (), f m)"

definition on_man :: "(system_manager \<Rightarrow> system_manager) \<Rightarrow> unit io" where
  "on_man f = modifyM (\<lambda>m. m\<lparr>m_man := f (m_man m)\<rparr>)"

text \<open>\<open>try ... catch\<close>: the handler runs on the faults that satisfy \<open>caught\<close>, in the state of the throw.\<close>

definition catchM :: "(fault \<Rightarrow> bool) \<Rightarrow> ('s, 'a) op \<Rightarrow> ('s, 'a) op \<Rightarrow> ('s, 'a) op" where
  "catchM caught f handler m =
     (case f m of
        Some (Inl e, m') \<Rightarrow> if caught e then handler m' else Some (Inl e, m')
      | r \<Rightarrow> r)"

text \<open>What \<open>catch (std::exception\<close> \<open>&)\<close> catches.\<close>

fun is_std_exception :: "fault \<Rightarrow> bool" where
  "is_std_exception Out_Of_Range = True"
| "is_std_exception Length_Error = True"
| "is_std_exception System_Error = True"
| "is_std_exception (Thrown s) = False"
| "is_std_exception Undefined = False"

lemma bindM_bind:
  "bindM f g m = Option.bind (f m) (\<lambda>p. case fst p of Inl e \<Rightarrow> Some (Inl e, snd p) | Inr x \<Rightarrow> g x (snd p))"
  by (cases "f m") (auto simp: bindM_def split: sum.split)

lemma bindM_mono [partial_function_mono]:
  assumes "\<And>m. mono_option (\<lambda>f. B f m)" and "\<And>y m. mono_option (\<lambda>f. C y f m)"
  shows "mono_option (\<lambda>f. bindM (B f) (\<lambda>y. C y f) m)"
  unfolding bindM_bind
proof (rule bind_mono)
  show "mono_option (\<lambda>f. B f m)" by (rule assms(1))
  show "mono_option (\<lambda>f. case fst p of Inl e \<Rightarrow> Some (Inl e, snd p) | Inr x \<Rightarrow> C x f (snd p))" for p
    using assms(2) by (cases "fst p") (simp_all add: option.const_mono)
qed

lemma if_apply_mono [partial_function_mono]:
  "mono_option (\<lambda>f. F f m) \<Longrightarrow> mono_option (\<lambda>f. G f m) \<Longrightarrow> mono_option (\<lambda>f. (if c then F f else G f) m)"
  by (cases c) simp_all

lemma ret_apply [simp, io_simps]: "ret x m = Some (Inr x, m)"
  by (simp add: ret_def)

lemma liftR_apply [simp, io_simps]: "liftR r m = Some (r, m)"
  by (simp add: liftR_def)

lemma getM_apply [simp, io_simps]: "getM f m = Some (Inr (f m), m)"
  by (simp add: getM_def)

lemma modifyM_apply [simp, io_simps]: "modifyM f m = Some (Inr (), f m)"
  by (simp add: modifyM_def)

lemma on_man_apply [simp, io_simps]: "on_man f m = Some (Inr (), m\<lparr>m_man := f (m_man m)\<rparr>)"
  by (simp add: on_man_def)

lemma bindM_steps [io_simps]:
  "f m = Some (Inr x, m') \<Longrightarrow> bindM f g m = g x m'"
  "f m = Some (Inl e, m') \<Longrightarrow> bindM f g m = Some (Inl e, m')"
  "f m = None \<Longrightarrow> bindM f g m = None"
  by (simp_all add: bindM_def)

lemma bindM_ret [simp, io_simps]: "bindM (ret x) g m = g x m"
  by (simp add: bindM_def)

lemma bindM_getM [simp, io_simps]: "bindM (getM f) g m = g (f m) m"
  by (simp add: bindM_def)

lemma bindM_modifyM [simp, io_simps]: "bindM (modifyM f) g m = g () (f m)"
  by (simp add: bindM_def)

lemma bindM_on_man [simp, io_simps]: "bindM (on_man f) g m = g () (m\<lparr>m_man := f (m_man m)\<rparr>)"
  by (simp add: bindM_def)

lemma bindM_liftR [simp, io_simps]:
  "bindM (liftR (Inr x)) g m = g x m" "bindM (liftR (Inl e)) g m = Some (Inl e, m)"
  by (simp_all add: bindM_def)

lemma bindM_assoc: "bindM (bindM f g) h = bindM f (\<lambda>x. bindM (g x) h)"
  by (rule ext) (simp add: bindM_def split: option.split prod.split sum.split)

lemma bindM_eq_Some_Inr:
  "bindM f g m = Some (Inr y, m'') \<longleftrightarrow> (\<exists>x m'. f m = Some (Inr x, m') \<and> g x m' = Some (Inr y, m''))"
  by (auto simp: bindM_def split: option.split prod.split sum.split)

section \<open>Sending\<close>

definition send :: "port \<Rightarrow> bytes \<Rightarrow> unit io" where
  "send p packet m =
     (let m' = m\<lparr>m_send_fails := tl (m_send_fails m)\<rparr>
      in if m_send_fails m \<noteq> [] \<and> hd (m_send_fails m) then Some (Inl System_Error, m')
         else Some (Inr (), m'\<lparr>m_sent := m_sent m @ [(p, packet)]\<rparr>))"

text \<open>No send fails.\<close>

definition sends_work :: "machine \<Rightarrow> bool" where
  "sends_work m \<longleftrightarrow> True \<notin> set (m_send_fails m)"

lemma send_works:
  "sends_work m \<Longrightarrow> send p packet m =
     Some (Inr (), m\<lparr>m_send_fails := tl (m_send_fails m), m_sent := m_sent m @ [(p, packet)]\<rparr>)"
  by (cases "m_send_fails m") (auto simp: send_def sends_work_def Let_def)

lemma bindM_send [io_simps]:
  "sends_work m \<Longrightarrow> bindM (send p packet) f m =
     f () (m\<lparr>m_send_fails := tl (m_send_fails m), m_sent := m_sent m @ [(p, packet)]\<rparr>)"
  using send_works [of m p packet] by (rule bindM_steps(1))

lemma sends_work_tl [simp]:
  "sends_work m \<Longrightarrow> sends_work (m\<lparr>m_send_fails := tl (m_send_fails m)\<rparr>)"
  by (cases "m_send_fails m") (auto simp: sends_work_def)

lemma sends_work_other [simp]:
  "sends_work (m\<lparr>m_sent := a\<rparr>) = sends_work m"
  "sends_work (m\<lparr>m_man := b\<rparr>) = sends_work m"
  "sends_work (m\<lparr>m_replies := c\<rparr>) = sends_work m"
  "sends_work (m\<lparr>m_downlink := d\<rparr>) = sends_work m"
  "sends_work (m\<lparr>m_uplink := u\<rparr>) = sends_work m"
  by (simp_all add: sends_work_def)

section \<open>Receiving\<close>

definition next_reply :: "bytes option io" where
  "next_reply m = Some (Inr (shd (m_replies m)), m\<lparr>m_replies := stl (m_replies m)\<rparr>)"

text \<open>The vector a read of \<open>receive_size\<close> bytes returns: empty on a timeout.\<close>

fun received :: "nat \<Rightarrow> bytes option \<Rightarrow> bytes" where
  "received receive_size None = []"
| "received receive_size (Some bs) = take receive_size bs"

definition sync_tcp_read :: "nat \<Rightarrow> bytes io" where
  "sync_tcp_read receive_size =
     bindM (liftR (vec_resize receive_size [])) (\<lambda>receive_data.
     bindM next_reply (\<lambda>out. ret (received receive_size out)))"

definition sync_tcp_read_some :: "bytes io" where
  "sync_tcp_read_some = bindM next_reply (\<lambda>out. ret (received 4096 out))"

definition sync_uart_read :: "nat \<Rightarrow> bytes io" where
  "sync_uart_read receive_size =
     bindM (liftR (vec_resize receive_size [])) (\<lambda>swap.
     bindM next_reply (\<lambda>out. ret (received receive_size out)))"

text \<open>A UDP read on either socket cancels the one of housekeeping when it times out. On the socket to the ground the
  \<open>run()\<close> behind that waits for a datagram, which is then thrown away; it never returns when none comes.\<close>

datatype udp_socket = Ground_Sock | Housekeeping_Sock

partial_function (option) late_datagram :: "script \<Rightarrow> script option" where
  "late_datagram replies = (if shd replies = None then late_datagram (stl replies) else Some (stl replies))"

definition await_late_datagram :: "bytes io" where
  "await_late_datagram m = map_option (\<lambda>script. (Inr [], m\<lparr>m_replies := script\<rparr>)) (late_datagram (m_replies m))"

definition sync_udp_read :: "udp_socket \<Rightarrow> nat \<Rightarrow> bytes io" where
  "sync_udp_read socket receive_size =
     bindM (liftR (vec_resize receive_size [])) (\<lambda>receive_data.
     bindM next_reply (\<lambda>out.
       if out = None \<and> socket \<noteq> Housekeeping_Sock then await_late_datagram
       else ret (received receive_size out)))"

lemma sync_udp_read_housekeeping:
  "sync_udp_read Housekeeping_Sock receive_size =
     bindM (liftR (vec_resize receive_size [])) (\<lambda>receive_data. bindM next_reply (\<lambda>out. ret (received receive_size out)))"
  by (simp add: sync_udp_read_def)

text \<open>The overload without a socket tries three times itself; a cancelled read reports 0 bytes.\<close>

fun sync_tcp_read_tries :: "nat \<Rightarrow> nat \<Rightarrow> bytes io" where
  "sync_tcp_read_tries 0 receive_size = ret []"
| "sync_tcp_read_tries (Suc i) receive_size =
     bindM next_reply (\<lambda>out.
       case out of
         Some bs \<Rightarrow> ret (received receive_size (Some bs))
       | None \<Rightarrow> sync_tcp_read_tries i receive_size)"

definition sync_tcp_read_plain :: "nat \<Rightarrow> bytes io" where
  "sync_tcp_read_plain receive_size =
     bindM (liftR (vec_resize receive_size [])) (\<lambda>swap. sync_tcp_read_tries 3 receive_size)"

text \<open>The loop of the four \<open>read\<close> functions and what they do with its outcome: the number of bytes and the
  caller's buffer, replaced by the reply when there is one.\<close>

fun read_retries :: "bytes io \<Rightarrow> nat \<Rightarrow> bytes io" where
  "read_retries attempt 0 = ret []"
| "read_retries attempt (Suc k) =
     bindM attempt (\<lambda>reply. if length reply = 0 then read_retries attempt k else ret reply)"

definition read_with :: "bytes io \<Rightarrow> bytes \<Rightarrow> (nat \<times> bytes) io" where
  "read_with attempt buffer =
     bindM (getM (\<lambda>m. sm_timing (m_man m))) (\<lambda>timing_pointer.
     bindM (liftR (option_deref timing_pointer)) (\<lambda>timing.
     bindM (read_retries attempt (unat (tm_retry_max_count timing))) (\<lambda>reply.
       if length reply = 0
       then bindM (on_man (raise_error reading_packet)) (\<lambda>_. ret (0, buffer))
       else bindM (on_man (drop_error reading_packet)) (\<lambda>_. ret (length reply, reply)))))"

definition read_tcp :: "bytes \<Rightarrow> (nat \<times> bytes) io" where
  "read_tcp buffer = read_with (sync_tcp_read (length buffer)) buffer"

definition read_some :: "bytes \<Rightarrow> (nat \<times> bytes) io" where
  "read_some buffer = read_with sync_tcp_read_some buffer"

definition read_uart :: "bytes \<Rightarrow> (nat \<times> bytes) io" where
  "read_uart buffer = read_with (sync_uart_read (length buffer)) buffer"

definition read_udp :: "udp_socket \<Rightarrow> bytes \<Rightarrow> (nat \<times> bytes) io" where
  "read_udp socket buffer = read_with (sync_udp_read socket (length buffer)) buffer"

section \<open>The reply a read finds\<close>

text \<open>At most \<open>k\<close> outcomes of the script are used; the first that is not empty is the reply.\<close>

fun first_reply :: "nat \<Rightarrow> nat \<Rightarrow> script \<Rightarrow> bytes \<times> script" where
  "first_reply n 0 replies = ([], replies)"
| "first_reply n (Suc k) replies =
     (if received n (shd replies) = [] then first_reply n k (stl replies) else (received n (shd replies), stl replies))"

definition read_result :: "nat \<Rightarrow> timing \<Rightarrow> bytes \<Rightarrow> machine \<Rightarrow> ((nat \<times> bytes) result \<times> machine) option" where
  "read_result n timing buffer m =
     (case first_reply n (unat (tm_retry_max_count timing)) (m_replies m) of (reply, script) \<Rightarrow>
        if reply = [] then
          Some (Inr (0, buffer), m\<lparr>m_replies := script, m_man := raise_error reading_packet (m_man m)\<rparr>)
        else
          Some (Inr (length reply, reply),
            m\<lparr>m_replies := script, m_man := drop_error reading_packet (m_man m)\<rparr>))"

lemma first_reply_silent [simp]: "first_reply n k silence = ([], silence)"
  by (induction k) simp_all

text \<open>What the four \<open>read\<close> functions need of the read of one try: it uses up one outcome of the script and delivers at most
  \<open>size n\<close> of its bytes, for a buffer of \<open>n\<close>.\<close>

locale timed_read =
  fixes attempt :: "nat \<Rightarrow> bytes io"
    and size :: "nat \<Rightarrow> nat"
  assumes delivers: "n \<le> vec_max \<Longrightarrow> attempt n m = bindM next_reply (\<lambda>out. ret (received (size n) out)) m"
begin

lemma retries:
  assumes "n \<le> vec_max"
  shows "read_retries (attempt n) k m = (case first_reply (size n) k (m_replies m) of (reply, script) \<Rightarrow>
     Some (Inr reply, m\<lparr>m_replies := script\<rparr>))"
proof (induction k arbitrary: m)
  case (Suc k)
  show ?case
    using Suc [of "m\<lparr>m_replies := stl (m_replies m)\<rparr>"]
    by (simp add: bindM_def delivers [OF assms] next_reply_def split: prod.split)
qed simp

lemma read_script:
  assumes "sm_timing (m_man m) = Some timing" and "length buffer \<le> vec_max"
  shows "read_with (attempt (length buffer)) buffer m = read_result (size (length buffer)) timing buffer m"
proof (cases "first_reply (size (length buffer)) (unat (tm_retry_max_count timing)) (m_replies m)")
  case (Pair reply script)
  have "read_retries (attempt (length buffer)) (unat (tm_retry_max_count timing)) m = Some (Inr reply, m\<lparr>m_replies := script\<rparr>)"
    using retries [OF assms(2)] by (simp add: Pair)
  then show ?thesis
    using assms(1) by (simp add: read_with_def read_result_def bindM_steps(1) Pair)
qed

end

interpretation tcp_link: timed_read sync_tcp_read "\<lambda>n. n"
  by unfold_locales (simp add: sync_tcp_read_def)

interpretation tcp_some_link: timed_read "\<lambda>n. sync_tcp_read_some" "\<lambda>n. 4096"
  by unfold_locales (simp add: sync_tcp_read_some_def)

interpretation uart_link: timed_read sync_uart_read "\<lambda>n. n"
  by unfold_locales (simp add: sync_uart_read_def)

interpretation housekeeping_link: timed_read "sync_udp_read Housekeeping_Sock" "\<lambda>n. n"
  by unfold_locales (simp add: sync_udp_read_def)

lemma reads_script [io_simps]:
  assumes "sm_timing (m_man m) = Some timing" and "length buffer \<le> vec_max"
  shows "read_some buffer m = read_result 4096 timing buffer m"
    and "read_tcp buffer m = read_result (length buffer) timing buffer m"
    and "read_uart buffer m = read_result (length buffer) timing buffer m"
    and "read_udp Housekeeping_Sock buffer m = read_result (length buffer) timing buffer m"
  unfolding read_some_def read_tcp_def read_uart_def read_udp_def
  using assms by (rule tcp_some_link.read_script tcp_link.read_script uart_link.read_script housekeeping_link.read_script)+

lemma late_datagram_comes:
  assumes "late_datagram replies = Some rest"
  shows "\<exists>bs. Some bs \<in> sset replies"
proof (rule late_datagram.raw_induct [of "\<lambda>replies rest. \<exists>bs. Some bs \<in> sset replies", OF _ assms])
  fix rec replies rest
  assume "\<And>replies rest. rec replies = Some rest \<Longrightarrow> \<exists>bs. Some bs \<in> sset replies"
    and "(if shd replies = None then rec (stl replies) else Some (stl replies)) = Some rest"
  then show "\<exists>bs. Some bs \<in> sset replies" by (cases replies) (fastforce split: if_splits)
qed

lemma no_late_datagram: "late_datagram silence = None"
  using late_datagram_comes [of silence] by (cases "late_datagram silence") auto

text \<open>On the socket to the ground the first try whose time runs out never ends when no datagram follows.\<close>

lemma ground_read_waits:
  assumes "sm_timing (m_man m) = Some timing" and "length buffer \<le> vec_max" and "0 < tm_retry_max_count timing"
    and "m_replies m = silence"
  shows "read_udp Ground_Sock buffer m = None"
proof -
  obtain k where k: "unat (tm_retry_max_count timing) = Suc k"
    using assms(3) by (metis not0_implies_Suc unat_gt_0 neq0_conv word_neq_0_conv)
  have "sync_udp_read Ground_Sock (length buffer) m = None"
    using assms(2,4) by (simp add: sync_udp_read_def bindM_def next_reply_def await_late_datagram_def no_late_datagram)
  then have "read_retries (sync_udp_read Ground_Sock (length buffer)) (Suc k) m = None" by (simp add: bindM_steps(3))
  then show ?thesis using assms(1) by (simp add: read_udp_def read_with_def k bindM_steps(3))
qed

lemma first_reply_length: "length (fst (first_reply n k replies)) \<le> n"
proof (induction k arbitrary: replies)
  case (Suc k)
  then show ?case by (cases "shd replies") auto
qed simp

lemma first_reply_script: "\<exists>used. replies = used @- snd (first_reply n k replies) \<and> length used \<le> k"
proof (induction k arbitrary: replies)
  case (Suc k)
  show ?case
  proof (cases "received n (shd replies) = []")
    case True
    from Suc obtain used where "stl replies = used @- snd (first_reply n k (stl replies))" "length used \<le> k" by blast
    with True show ?thesis by (intro exI [of _ "shd replies # used"]) (metis first_reply.simps(2) length_Cons not_less_eq_eq shift.simps(2) stream.collapse)
  next
    case False
    then show ?thesis by (intro exI [of _ "[shd replies]"]) simp
  qed
qed simp

lemma first_reply_immediate:
  "0 < k \<Longrightarrow> bs \<noteq> [] \<Longrightarrow> length bs \<le> n \<Longrightarrow> first_reply n k (Some bs ## rest) = (bs, rest)"
  by (cases k) auto

text \<open>A read changes the reply script and the manager's read flag, nothing else.\<close>

lemma read_result_cases:
  obtains (silent) script where
      "read_result n timing buffer m =
         Some (Inr (0, buffer), m\<lparr>m_replies := script, m_man := raise_error reading_packet (m_man m)\<rparr>)"
  | (reply) script bs where "bs \<noteq> []" and "length bs \<le> n" and
      "read_result n timing buffer m =
         Some (Inr (length bs, bs), m\<lparr>m_replies := script, m_man := drop_error reading_packet (m_man m)\<rparr>)"
proof (cases "first_reply n (unat (tm_retry_max_count timing)) (m_replies m)")
  case (Pair bs script)
  with first_reply_length [of n "unat (tm_retry_max_count timing)" "m_replies m"]
  show ?thesis using that by (cases "bs = []") (simp_all add: read_result_def)
qed

lemma read_result_silent:
  "m_replies m = silence \<Longrightarrow> read_result n timing buffer m =
     Some (Inr (0, buffer), m\<lparr>m_man := raise_error reading_packet (m_man m)\<rparr>)"
  by (cases m) (simp add: read_result_def)

lemma read_result_immediate:
  "m_replies m = Some bs ## script \<Longrightarrow> bs \<noteq> [] \<Longrightarrow> length bs \<le> n \<Longrightarrow> 0 < tm_retry_max_count timing \<Longrightarrow>
     read_result n timing buffer m =
     Some (Inr (length bs, bs), m\<lparr>m_replies := script, m_man := drop_error reading_packet (m_man m)\<rparr>)"
  by (simp add: read_result_def first_reply_immediate unat_gt_0 word_neq_0_conv)

section \<open>What an operation leaves alone\<close>

text \<open>\<open>keeps f p\<close>: the operation \<open>p\<close> always returns, normally or with a fault, and in both cases leaves the
  part \<open>f\<close> of the machine as it was. The collection \<open>keeps_intros\<close> derives it along the structure of an
  operation.\<close>

named_theorems keeps_intros \<open>derivation of what an operation keeps\<close>

definition keeps :: "('s \<Rightarrow> 'a) \<Rightarrow> ('s, 'b) op \<Rightarrow> bool" where
  "keeps f p \<longleftrightarrow> (\<forall>m. \<exists>r m'. p m = Some (r, m') \<and> f m' = f m)"

lemma keepsD: "keeps f p \<Longrightarrow> \<exists>r m'. p m = Some (r, m') \<and> f m' = f m"
  by (simp add: keeps_def)

lemma keeps_same: "keeps f p \<Longrightarrow> p m = Some (r, m') \<Longrightarrow> f m' = f m"
  using keepsD [of f p m] by auto

lemma keeps_basic [keeps_intros]: "keeps f (ret x)" "keeps f (liftR r)" "keeps f (getM g)"
  by (simp_all add: keeps_def)

lemma keeps_bind [keeps_intros]:
  assumes "keeps f p" and "\<And>x. keeps f (q x)"
  shows "keeps f (bindM p q)"
  unfolding keeps_def
proof
  fix m
  obtain r m1 where p: "p m = Some (r, m1)" "f m1 = f m" using keepsD [OF assms(1), of m] by blast
  show "\<exists>r m'. bindM p q m = Some (r, m') \<and> f m' = f m"
  proof (cases r)
    case (Inr x)
    with keepsD [OF assms(2), of x m1] p show ?thesis by (auto simp: bindM_def)
  qed (use p in \<open>simp add: bindM_def\<close>)
qed

lemma keeps_catch [keeps_intros]: "keeps f p \<Longrightarrow> keeps f h \<Longrightarrow> keeps f (catchM c p h)"
  unfolding keeps_def
proof
  fix m
  assume p: "\<forall>m. \<exists>r m'. p m = Some (r, m') \<and> f m' = f m" and h: "\<forall>m. \<exists>r m'. h m = Some (r, m') \<and> f m' = f m"
  from p obtain r m1 where m1: "p m = Some (r, m1)" "f m1 = f m" by blast
  from h obtain r2 m2 where "h m1 = Some (r2, m2)" "f m2 = f m1" by blast
  with m1 show "\<exists>r m'. catchM c p h m = Some (r, m') \<and> f m' = f m"
    by (cases r) (auto simp: catchM_def)
qed

lemma keeps_modify: "(\<And>m. f (g m) = f m) \<Longrightarrow> keeps f (modifyM g)"
  by (simp add: keeps_def)

lemma keeps_if [keeps_intros]: "(b \<Longrightarrow> keeps f p) \<Longrightarrow> (\<not> b \<Longrightarrow> keeps f q) \<Longrightarrow> keeps f (if b then p else q)"
  by simp

lemma keeps_prod [keeps_intros]: "(\<And>a b. x = (a, b) \<Longrightarrow> keeps f (p a b)) \<Longrightarrow> keeps f (case x of (a, b) \<Rightarrow> p a b)"
  by (cases x) simp

lemma keeps_option [keeps_intros]:
  "keeps f p \<Longrightarrow> (\<And>y. keeps f (q y)) \<Longrightarrow> keeps f (case x of None \<Rightarrow> p | Some y \<Rightarrow> q y)"
  by (cases x) simp_all

lemma keeps_list [keeps_intros]:
  "keeps f p \<Longrightarrow> (\<And>y ys. keeps f (q y ys)) \<Longrightarrow> keeps f (case x of [] \<Rightarrow> p | y # ys \<Rightarrow> q y ys)"
  by (cases x) simp_all

lemma keeps_let [keeps_intros]: "(\<And>y. keeps f (p y)) \<Longrightarrow> keeps f (let y = x in p y)"
  by (simp add: Let_def)

lemma keeps_command_type [keeps_intros]:
  "keeps f a \<Longrightarrow> keeps f b \<Longrightarrow> keeps f c \<Longrightarrow> keeps f d \<Longrightarrow> keeps f e \<Longrightarrow>
   keeps f (case t of CMD_SPW \<Rightarrow> a | CMD_SPI \<Rightarrow> b | CMD_ETHERNET \<Rightarrow> c | CMD_UART \<Rightarrow> d | CMD_NONE \<Rightarrow> e)"
  by (cases t) simp_all

text \<open>\<open>leaves f p\<close>: the same for operations that may run forever.\<close>

named_theorems leaves_intros \<open>derivation of what an operation leaves when it returns\<close>

definition leaves :: "('s \<Rightarrow> 'a) \<Rightarrow> ('s, 'b) op \<Rightarrow> bool" where
  "leaves f p \<longleftrightarrow> (\<forall>m r m'. p m = Some (r, m') \<longrightarrow> f m' = f m)"

lemma leavesD: "leaves f p \<Longrightarrow> p m = Some (r, m') \<Longrightarrow> f m' = f m"
  by (auto simp: leaves_def)

lemma keeps_leaves: "keeps f p \<Longrightarrow> leaves f p"
  using keeps_same by (auto simp: leaves_def)

lemma leaves_basic [leaves_intros]: "leaves f (ret x)" "leaves f (liftR r)" "leaves f (getM g)"
  by (simp_all add: leaves_def)

lemma leaves_bind [leaves_intros]:
  assumes "leaves f p" and "\<And>x. leaves f (q x)"
  shows "leaves f (bindM p q)"
  unfolding leaves_def bindM_def
proof (intro allI impI)
  fix m r m'
  assume *: "(case p m of None \<Rightarrow> None | Some (Inl e, m') \<Rightarrow> Some (Inl e, m') | Some (Inr x, m') \<Rightarrow> q x m') = Some (r, m')"
  then obtain y m1 where p: "p m = Some (y, m1)" by (cases "p m") auto
  show "f m' = f m"
    using * p leavesD [OF assms(1) p] leavesD [OF assms(2)] by (cases y) auto
qed

lemma leaves_if [leaves_intros]: "(b \<Longrightarrow> leaves f p) \<Longrightarrow> (\<not> b \<Longrightarrow> leaves f q) \<Longrightarrow> leaves f (if b then p else q)"
  by simp

lemma leaves_prod [leaves_intros]: "(\<And>a b. leaves f (p a b)) \<Longrightarrow> leaves f (case x of (a, b) \<Rightarrow> p a b)"
  by (cases x) simp

lemma leaves_option [leaves_intros]:
  "leaves f p \<Longrightarrow> (\<And>y. leaves f (q y)) \<Longrightarrow> leaves f (case x of None \<Rightarrow> p | Some y \<Rightarrow> q y)"
  by (cases x) simp_all

lemma leaves_list [leaves_intros]:
  "leaves f p \<Longrightarrow> (\<And>y ys. leaves f (q y ys)) \<Longrightarrow> leaves f (case x of [] \<Rightarrow> p | y # ys \<Rightarrow> q y ys)"
  by (cases x) simp_all

lemma leaves_let [leaves_intros]: "(\<And>y. leaves f (p y)) \<Longrightarrow> leaves f (let y = x in p y)"
  by (simp add: Let_def)

lemma leaves_modify: "(\<And>m. f (g m) = f m) \<Longrightarrow> leaves f (modifyM g)"
  by (simp add: leaves_def)

text \<open>The parts that commanding does not touch: of the manager, all but the error flags and the enable byte.\<close>

definition man_core :: "system_manager \<Rightarrow> system_manager" where
  "man_core sm = sm\<lparr>sm_errors := 0, sm_enable := 0\<rparr>"

lemma man_core_flags [simp]:
  "man_core (raise_error e sm) = man_core sm" "man_core (drop_error e sm) = man_core sm"
  by (simp_all add: man_core_def raise_error_def drop_error_def)

lemma man_coreD:
  assumes "man_core a = man_core b"
  shows "sm_system a = sm_system b" and "sm_timing a = sm_timing b" and "sm_active_type a = sm_active_type b"
    and "sm_last_write_pointer a = sm_last_write_pointer b" and "sm_counter a = sm_counter b"
    and "sm_system_state a = sm_system_state b"
  using assms by (cases a; cases b; simp add: man_core_def)+

definition buffers_of :: "machine \<Rightarrow> command_deck \<times> (system \<times> uplink_element list) list \<times> system_manager" where
  "buffers_of m = (m_deck m, m_uplink m, man_core (m_man m))"

definition queues_of :: "machine \<Rightarrow> dbe list \<times> command_deck \<times> (system \<times> uplink_element list) list" where
  "queues_of m = (m_downlink m, m_deck m, m_uplink m)"

lemma keeps_flags [keeps_intros]:
  "keeps buffers_of (on_man (raise_error e))" "keeps buffers_of (on_man (drop_error e))"
  "keeps queues_of (on_man g)"
  by (simp_all add: keeps_def buffers_of_def queues_of_def)

lemma keeps_send [keeps_intros]: "keeps buffers_of (send p packet)" "keeps queues_of (send p packet)"
  by (simp_all add: keeps_def buffers_of_def queues_of_def send_def Let_def)

lemma keeps_next_reply [keeps_intros]: "keeps buffers_of next_reply" "keeps queues_of next_reply"
  by (simp_all add: keeps_def buffers_of_def queues_of_def next_reply_def)

lemma keeps_single_reads [keeps_intros]:
  assumes "keeps f next_reply"
  shows "keeps f (sync_tcp_read n)" "keeps f sync_tcp_read_some" "keeps f (sync_uart_read n)"
    "keeps f (sync_udp_read Housekeeping_Sock n)"
  unfolding sync_tcp_read_def sync_tcp_read_some_def sync_uart_read_def sync_udp_read_housekeeping
  by (intro keeps_intros assms)+

lemma keeps_read_retries [keeps_intros]: "keeps f attempt \<Longrightarrow> keeps f (read_retries attempt k)"
  by (induction k) (simp_all add: keeps_intros)

lemma keeps_read_with [keeps_intros]:
  "keeps f attempt \<Longrightarrow> keeps f (on_man (raise_error reading_packet)) \<Longrightarrow>
   keeps f (on_man (drop_error reading_packet)) \<Longrightarrow> keeps f (read_with attempt buffer)"
  unfolding read_with_def by (intro keeps_intros)

lemma keeps_reads [keeps_intros]:
  "keeps buffers_of (read_tcp b)" "keeps buffers_of (read_some b)" "keeps buffers_of (read_uart b)"
  "keeps buffers_of (read_udp Housekeeping_Sock b)"
  "keeps queues_of (read_tcp b)" "keeps queues_of (read_some b)" "keeps queues_of (read_uart b)"
  "keeps queues_of (read_udp Housekeeping_Sock b)"
  unfolding read_tcp_def read_some_def read_uart_def read_udp_def
  by (intro keeps_intros)+

end
