(* ===== verification/Command_Dispatch.thy ===== *)
theory Command_Dispatch
  imports Machine Rmap_Packets
begin

text \<open>
  Commanding the subsystems (\<open>src/TransportLayer.cpp\<close>): the commands the Formatter answers itself, the
  dispatch of one command over the interface of its type with the SpaceWire write retries, and the
  forwarding of uplinked commands from the queue of a system.
\<close>

section \<open>Commands that are not forwarded\<close>

definition CDTE_FRAME_READ :: u8 where "CDTE_FRAME_READ = 0x8e"

definition CMOS_FRAME_READ :: u8 where "CMOS_FRAME_READ = 0x8e"

definition check_frame_read_cmd :: "u8 \<Rightarrow> u8 \<Rightarrow> bool" where
  "check_frame_read_cmd sys cmd =
     (if sys = 0x0e then cmd = CMOS_FRAME_READ \<or> cmd = 0x9f
      else if sys = 0x0f then cmd = CMOS_FRAME_READ \<or> cmd = 0x9f
      else if sys = 0x09 then cmd = CDTE_FRAME_READ
      else if sys = 0x0a then cmd = CDTE_FRAME_READ
      else if sys = 0x0b then cmd = CDTE_FRAME_READ
      else if sys = 0x0c then cmd = CDTE_FRAME_READ
      else False)"

definition check_formatter_intercept_cmd :: "u8 \<Rightarrow> u8 \<Rightarrow> bool" where
  "check_formatter_intercept_cmd sys cmd =
     (if sys = 0x02 then (if drop_bit 4 cmd = 0x03 then True else False) else False)"

definition clear_log :: "unit io" where
  "clear_log = modifyM (\<lambda>m. m\<lparr>m_removed_logs :=
     m_removed_logs m @ fst (clear_formatter_log (m_logger_name m) (m_logs m))\<rparr>)"

definition set_enable :: "u8 \<Rightarrow> system_manager \<Rightarrow> system_manager" where
  "set_enable code sys_man =
     (if code = 0x30 then sys_man\<lparr>sm_enable := 0x00\<rparr>
      else if 0x31 \<le> code \<and> code \<le> 0x34 then sys_man\<lparr>sm_enable := sm_enable sys_man OR (code AND 0x0f)\<rparr>
      else sys_man)"

definition handle_intercept_cmd :: "command \<Rightarrow> bool io" where
  "handle_intercept_cmd cmd =
     bindM (getM m_man) (\<lambda>sys_man.
       if \<not> check_formatter_intercept_cmd (sys_hex (sm_system sys_man)) (cmd_hex cmd) then ret False
       else if sys_name (sm_system sys_man) = ''housekeeping'' then
         (if 0x3f = cmd_hex cmd then bindM clear_log (\<lambda>_. ret True)
          else if sm_system_state sys_man \<noteq> SYS_DISCONNECT \<and> sm_system_state sys_man \<noteq> SYS_ABANDON
          then bindM (on_man (set_enable (cmd_hex cmd))) (\<lambda>_. ret True)
          else ret True)
       else ret True)"

section \<open>The data of a reply\<close>

definition get_reply_data :: "bytes \<Rightarrow> bytes" where
  "get_reply_data spw_reply =
     (let ether_prefix_length = 12; target_path_address_length = 0;
          data_length_start_offset = 9; data_length_length = 3
      in if ether_prefix_length + target_path_address_length + data_length_start_offset + data_length_length + 1
            > length spw_reply then []
         else
           let start = ether_prefix_length + target_path_address_length + data_length_start_offset;
               data_length_vec = 0x00 # take data_length_length (drop (start - 1) spw_reply);
               data_length = unat (unsplat_from_4bytes data_length_vec)
           in if length spw_reply < 1 + start + data_length_length + data_length then []
              else take data_length (drop (start + data_length_length) spw_reply))"

section \<open>Dispatch\<close>

text \<open>\<open>reply.resize(n)\<close>, a read into \<open>reply\<close>, and \<open>reply.resize\<close> to the bytes read.\<close>

definition read_reply :: "(bytes \<Rightarrow> (nat \<times> bytes) io) \<Rightarrow> nat \<Rightarrow> bytes \<Rightarrow> bytes io" where
  "read_reply reader expected_size reply =
     bindM (liftR (vec_resize expected_size reply)) (\<lambda>reply.
     bindM (reader reply) (\<lambda>(reply_size, reply). liftR (vec_resize reply_size reply)))"

text \<open>The loop over the tries of a SpaceWire command; \<open>k\<close> tries are left.\<close>

fun spw_tries :: "nat \<Rightarrow> bool \<Rightarrow> command \<Rightarrow> bytes \<Rightarrow> bytes \<Rightarrow> bytes io" where
  "spw_tries 0 write_again cmd packet reply = ret reply"
| "spw_tries (Suc k) write_again cmd packet reply =
     bindM (if write_again then send Tcp packet else ret ()) (\<lambda>_.
       if \<not> cmd_read cmd then
         (if check_spw_replies cmd then
            let expected_size = sz_add 12 (cmd_spw_reply_length cmd) in
            bindM (read_reply read_tcp expected_size reply) (\<lambda>reply.
              if length reply \<noteq> expected_size then
                bindM (on_man (raise_error writing_invalid))
                  (\<lambda>_. spw_tries k (length reply \<noteq> 0) cmd packet reply)
              else
                bindM (liftR (vec_at reply (sz_sub (length reply) 5))) (\<lambda>status.
                bindM (liftR (vec_at reply (sz_sub (length reply) 7))) (\<lambda>protocol_id.
                  if status = 0x00 then ret reply
                  else bindM (on_man (raise_error writing_invalid))
                         (\<lambda>_. spw_tries k write_again cmd packet reply))))
          else ret [])
       else
         bindM (getM (\<lambda>m. sys_spacewire (sm_system (m_man m)))) (\<lambda>spw_pointer.
         bindM (liftR (option_deref spw_pointer)) (\<lambda>spw.
           let expected_size = sz_add (sz_add (dl_static_header_size spw) (dl_static_footer_size spw))
                 (cmd_spw_reply_length cmd) in
           bindM (read_reply read_tcp expected_size reply) (\<lambda>reply.
             if length reply \<noteq> expected_size
             then bindM (on_man (raise_error reading_invalid)) (\<lambda>_. ret reply)
             else ret reply))))"

definition sync_send_command_to_system :: "command \<Rightarrow> bytes io" where
  "sync_send_command_to_system cmd =
     bindM (handle_intercept_cmd cmd) (\<lambda>intercepted.
       if intercepted then ret []
       else
         bindM (getM (\<lambda>m. get_command_bytes_for_sys_for_code (m_deck m)
                  (sys_hex (sm_system (m_man m))) (cmd_hex cmd))) (\<lambda>built.
         bindM (liftR built) (\<lambda>packet.
           case cmd_type cmd of
             CMD_SPW \<Rightarrow> spw_tries 8 True cmd packet []
           | CMD_ETHERNET \<Rightarrow>
               bindM (send Udp_Housekeeping packet) (\<lambda>_.
                 if cmd_read cmd then read_reply (read_udp Housekeeping_Sock) (cmd_eth_reply_length cmd) [] else ret [])
           | CMD_UART \<Rightarrow>
               bindM (send Uart_Local packet) (\<lambda>_.
                 if cmd_read cmd then read_reply read_uart (cmd_uart_reply_length cmd) [] else ret [])
           | _ \<Rightarrow> ret [])))"

section \<open>The uplink queues\<close>

text \<open>\<open>unordered_map::at\<close> and the update of the queue it refers to. Keys compare by \<open>System::operator==\<close>.\<close>

fun uplink_at :: "system \<Rightarrow> (system \<times> 'q) list \<Rightarrow> 'q option" where
  "uplink_at sys [] = None"
| "uplink_at sys ((key, q) # rest) = (if system_eq key sys then Some q else uplink_at sys rest)"

fun uplink_put :: "system \<Rightarrow> 'q \<Rightarrow> (system \<times> 'q) list \<Rightarrow> (system \<times> 'q) list" where
  "uplink_put sys q' [] = []"
| "uplink_put sys q' ((key, q) # rest) =
     (if system_eq key sys then (key, q') # rest else (key, q) # uplink_put sys q' rest)"

definition set_queue :: "system \<Rightarrow> uplink_element list \<Rightarrow> machine \<Rightarrow> machine" where
  "set_queue sys q m = m\<lparr>m_uplink := uplink_put sys q (m_uplink m)\<rparr>"

text \<open>\<open>downlink_buffer->enqueue\<close> copies the element.\<close>

definition enqueue_downlink :: "dbe \<Rightarrow> unit io" where
  "enqueue_downlink d =
     bindM (liftR (dbe_copy d)) (\<lambda>d. modifyM (\<lambda>m. m\<lparr>m_downlink := m_downlink m @ [d]\<rparr>))"

definition queue_reply :: "bytes \<Rightarrow> unit io" where
  "queue_reply reply =
     bindM (getM (\<lambda>m. DownlinkBufferElement (sm_system (m_man m))
              (get_sys_for_name ''gse'' (m_deck m)) REPLY)) (\<lambda>built.
     bindM (liftR built) (\<lambda>reply_dbe.
     bindM (liftR (dbe_set_this_packet_index 1 (dbe_set_packets_per_frame 1 reply_dbe))) (\<lambda>reply_dbe.
     bindM (liftR (dbe_set_payload reply reply_dbe)) (\<lambda>reply_dbe. enqueue_downlink reply_dbe))))"

definition forward_command :: "command \<Rightarrow> unit io" where
  "forward_command command =
     catchM is_std_exception
       (bindM (sync_send_command_to_system command) (\<lambda>reply.
          if length reply > 0 then queue_reply reply else ret ()))
       (ret ())"

definition sync_send_buffer_commands_to_system :: "unit io" where
  "sync_send_buffer_commands_to_system =
     bindM (getM (\<lambda>m. uplink_at (sm_system (m_man m)) (m_uplink m))) (\<lambda>queue.
       case queue of
         None \<Rightarrow> on_man (raise_error uplink_forwarding)
       | Some [] \<Rightarrow> ret ()
       | Some (element # rest) \<Rightarrow>
           bindM (getM (\<lambda>m. sm_system (m_man m))) (\<lambda>own.
           bindM (modifyM (set_queue own rest)) (\<lambda>_.
           bindM (liftR (option_deref (up_command element))) (\<lambda>command.
           bindM (liftR (option_deref (up_system element))) (\<lambda>system.
             if check_frame_read_cmd (sys_hex system) (cmd_hex command) then ret ()
             else forward_command command)))))"

section \<open>The single-shot senders\<close>

text \<open>They take the manager by value: the read flags they set are lost, so the caller's manager is put back.\<close>

definition with_copy :: "'a io \<Rightarrow> 'a io" where
  "with_copy f m =
     (case f m of None \<Rightarrow> None | Some (r, m') \<Rightarrow> Some (r, m'\<lparr>m_man := m_man m\<rparr>))"

text \<open>The unsized \<open>read_some\<close> replaces the buffer whatever its length.\<close>

definition sync_tcp_send_command_for_sys :: "command \<Rightarrow> bytes io" where
  "sync_tcp_send_command_for_sys cmd = with_copy (
     bindM (getM (\<lambda>m. get_command_bytes_for_sys_for_code (m_deck m)
              (sys_hex (sm_system (m_man m))) (cmd_hex cmd))) (\<lambda>built.
     bindM (liftR built) (\<lambda>packet.
     bindM (getM (\<lambda>m. sm_system (m_man m))) (\<lambda>system.
     bindM (liftR (if sys_type system = CMD_SPW
        then bindR (spw_print packet (sys_spacewire system)) (\<lambda>text. Inr ()) else Inr ())) (\<lambda>_.
     bindM (send Tcp packet) (\<lambda>_.
       if cmd_read cmd then read_reply read_some (cmd_spw_reply_length cmd) (replicate 4096 0)
       else ret []))))))"

definition sync_udp_send_command_for_housekeeping_sys :: "command \<Rightarrow> bytes io" where
  "sync_udp_send_command_for_housekeeping_sys cmd = with_copy (
     bindM (getM (\<lambda>m. get_command_bytes_for_sys_for_code (m_deck m)
              (sys_hex (sm_system (m_man m))) (cmd_hex cmd))) (\<lambda>built.
     bindM (liftR built) (\<lambda>packet.
     bindM (send Udp_Housekeeping packet) (\<lambda>_.
       if cmd_read cmd then read_reply (read_udp Housekeeping_Sock) (cmd_eth_reply_length cmd) (replicate 4096 0)
       else ret []))))"

definition sync_uart_send_command_for_sys :: "command \<Rightarrow> bytes io" where
  "sync_uart_send_command_for_sys cmd = with_copy (
     bindM (getM (\<lambda>m. get_command_bytes_for_sys_for_code (m_deck m)
              (sys_hex (sm_system (m_man m))) (cmd_hex cmd))) (\<lambda>built.
     bindM (liftR built) (\<lambda>packet.
     bindM (send Uart_Local packet) (\<lambda>_.
       if cmd_read cmd then read_reply read_uart (cmd_uart_reply_length cmd) (replicate 4096 0)
       else ret []))))"

text \<open>The housekeeping transaction uses the blocking \<open>receive_from\<close>, whose failures throw.\<close>

definition sync_udp_housekeeping_send :: "bytes \<Rightarrow> unit io" where
  "sync_udp_housekeeping_send data_to_send = send Udp_Housekeeping data_to_send"

definition sync_udp_housekeeping_transaction :: "bytes \<Rightarrow> bytes io" where
  "sync_udp_housekeeping_transaction data_to_send =
     bindM (send Udp_Housekeeping data_to_send) (\<lambda>_.
     bindM next_reply (\<lambda>out.
       case out of
         None \<Rightarrow> (\<lambda>m. None)
       | Some bs \<Rightarrow> ret (take 1024 bs)))"

section \<open>Facts about the dispatch\<close>

lemma read_reply_tcp_cases [consumes 2, case_names silent reply]:
  assumes "sm_timing (m_man m) = Some timing" and "n \<le> vec_max"
  obtains (silent) script where
      "read_reply read_tcp n reply m =
         Some (Inr [], m\<lparr>m_replies := script, m_man := raise_error reading_packet (m_man m)\<rparr>)"
  | (reply) script bs where "bs \<noteq> []" and "length bs \<le> n" and
      "read_reply read_tcp n reply m =
         Some (Inr bs, m\<lparr>m_replies := script, m_man := drop_error reading_packet (m_man m)\<rparr>)"
proof -
  have r: "read_tcp (pad_to n reply) m = read_result n timing (pad_to n reply) m"
    using reads_script(2) [OF assms(1), of "pad_to n reply"] assms(2) by simp
  show ?thesis
  proof (cases rule: read_result_cases [of n timing "pad_to n reply" m])
    case (silent script)
    then show ?thesis
      using that(1) assms(2) r by (simp add: read_reply_def bindM_steps(1))
  next
    case (reply script bs)
    then have "length bs \<le> vec_max" using assms(2) by simp
    with reply show ?thesis
      using that(2) assms(2) r by (simp add: read_reply_def bindM_steps(1))
  qed
qed

lemma read_reply_tcp_silent:
  assumes "sm_timing (m_man m) = Some timing" and "n \<le> vec_max" and "m_replies m = silence"
  shows "read_reply read_tcp n reply m =
    Some (Inr [], m\<lparr>m_man := raise_error reading_packet (m_man m)\<rparr>)"
proof -
  have "read_tcp (pad_to n reply) m = read_result n timing (pad_to n reply) m"
    using reads_script(2) [OF assms(1), of "pad_to n reply"] assms(2) by simp
  then show ?thesis
    using assms by (simp add: read_reply_def bindM_steps(1) read_result_silent)
qed

definition maybe_send :: "bool \<Rightarrow> bytes \<Rightarrow> machine \<Rightarrow> machine" where
  "maybe_send w packet m =
     (if w then m\<lparr>m_send_fails := tl (m_send_fails m), m_sent := m_sent m @ [(Tcp, packet)]\<rparr> else m)"

lemma maybe_send_step:
  "sends_work m \<Longrightarrow> bindM (if w then send Tcp packet else ret ()) f m = f () (maybe_send w packet m)"
  by (simp add: maybe_send_def bindM_send)

lemma maybe_send_fields [simp]:
  "m_man (maybe_send w packet m) = m_man m" "m_deck (maybe_send w packet m) = m_deck m"
  "m_replies (maybe_send w packet m) = m_replies m" "m_downlink (maybe_send w packet m) = m_downlink m"
  "m_uplink (maybe_send w packet m) = m_uplink m"
  "m_sent (maybe_send w packet m) = m_sent m @ replicate (if w then 1 else 0) (Tcp, packet)"
  by (simp_all add: maybe_send_def)

lemma maybe_send_works [simp]: "sends_work m \<Longrightarrow> sends_work (maybe_send w packet m)"
  by (simp add: maybe_send_def)

text \<open>A write that expects a reply.\<close>

definition confirmed_write :: "command \<Rightarrow> bool" where
  "confirmed_write cmd \<longleftrightarrow> \<not> cmd_read cmd \<and> check_spw_replies cmd \<and> cmd_spw_reply_length cmd + 12 \<le> vec_max"

definition write_confirmed :: "command \<Rightarrow> bytes \<Rightarrow> bool" where
  "write_confirmed cmd reply \<longleftrightarrow>
     length reply = 12 + cmd_spw_reply_length cmd \<and> reply ! (length reply - 5) = 0x00"

lemma confirmed_size:
  "confirmed_write cmd \<Longrightarrow> sz_add 12 (cmd_spw_reply_length cmd) = 12 + cmd_spw_reply_length cmd"
  by (simp add: confirmed_write_def vec_max_def)

lemma spw_tries_step:
  assumes "confirmed_write cmd" and "sends_work m"
  shows "spw_tries (Suc k) w cmd packet reply m =
    bindM (read_reply read_tcp (12 + cmd_spw_reply_length cmd) reply) (\<lambda>reply.
      if length reply \<noteq> 12 + cmd_spw_reply_length cmd then
        bindM (on_man (raise_error writing_invalid)) (\<lambda>_. spw_tries k (length reply \<noteq> 0) cmd packet reply)
      else
        bindM (liftR (vec_at reply (sz_sub (length reply) 5))) (\<lambda>status.
        bindM (liftR (vec_at reply (sz_sub (length reply) 7))) (\<lambda>protocol_id.
          if status = 0x00 then ret reply
          else bindM (on_man (raise_error writing_invalid)) (\<lambda>_. spw_tries k w cmd packet reply))))
      (maybe_send w packet m)"
  using assms(1) confirmed_size [OF assms(1)]
  by (simp add: confirmed_write_def maybe_send_step [OF assms(2)] Let_def)

lemma spw_tries_outcome:
  assumes "confirmed_write cmd" and "sm_timing (m_man m) = Some timing" and "sends_work m"
    and "k = 0 \<longrightarrow> has_error (m_man m) writing_invalid"
  shows "\<exists>reply' m' j. spw_tries k w cmd packet reply m = Some (Inr reply', m') \<and> j \<le> k \<and>
    (w \<and> 0 < k \<longrightarrow> 0 < j) \<and> m_sent m' = m_sent m @ replicate j (Tcp, packet) \<and>
    (write_confirmed cmd reply' \<or> has_error (m_man m') writing_invalid)"
  using assms
proof (induction k arbitrary: w reply m)
  case 0
  then show ?case by (intro exI [of _ reply] exI [of _ m] exI [of _ 0]) simp
next
  case (Suc k)
  let ?n = "12 + cmd_spw_reply_length cmd" and ?m = "maybe_send w packet m"
  have n: "sz_add 12 (cmd_spw_reply_length cmd) = ?n" "?n \<le> vec_max" "?n < 2 ^ 64"
    using confirmed_size [OF Suc.prems(1)] Suc.prems(1) by (auto simp: confirmed_write_def vec_max_def)
  have cmd: "\<not> cmd_read cmd" "check_spw_replies cmd" using Suc.prems(1) by (simp_all add: confirmed_write_def)
  have again: "\<exists>reply'' m' j. spw_tries k v cmd packet bs m1 = Some (Inr reply'', m') \<and> j \<le> Suc k \<and>
      (w \<and> 0 < Suc k \<longrightarrow> 0 < j) \<and> m_sent m' = m_sent m @ replicate j (Tcp, packet) \<and>
      (write_confirmed cmd reply'' \<or> has_error (m_man m') writing_invalid)"
    if "m1 = ?m\<lparr>m_replies := script, m_man := raise_error writing_invalid man\<rparr>" "sm_timing man = Some timing"
    for v bs m1 script man
  proof -
    have "sm_timing (m_man m1) = Some timing" "sends_work m1" "has_error (m_man m1) writing_invalid"
      "m_sent m1 = m_sent m @ replicate (if w then 1 else 0) (Tcp, packet)"
      using that Suc.prems(3) by simp_all
    with Suc.IH [OF Suc.prems(1), of m1 v bs] obtain reply'' m' j where
      "spw_tries k v cmd packet bs m1 = Some (Inr reply'', m')" "j \<le> k"
      "m_sent m' = m_sent m @ replicate ((if w then 1 else 0) + j) (Tcp, packet)"
      "write_confirmed cmd reply'' \<or> has_error (m_man m') writing_invalid"
      by (auto simp: replicate_add)
    then show ?thesis
      by (intro exI [of _ reply''] exI [of _ m'] exI [of _ "(if w then 1 else 0) + j"]) auto
  qed
  note step = spw_tries_step [OF Suc.prems(1,3)]
  have t: "sm_timing (m_man ?m) = Some timing" using Suc.prems(2) by simp
  from t n(2) show ?case
  proof (cases rule: read_reply_tcp_cases [where reply = reply])
    case (silent script)
    then show ?thesis
      unfolding step using again [OF refl, where man = "raise_error reading_packet (m_man m)" and script = script] Suc.prems(2)
      by (simp add: bindM_steps(1))
  next
    case (reply script bs)
    note r = this
    show ?thesis
    proof (cases "length bs = ?n")
      case False
      then show ?thesis
        unfolding step using again [OF refl, where man = "drop_error reading_packet (m_man m)" and script = script] Suc.prems(2) r
        by (simp add: bindM_steps(1))
    next
      case True
      show ?thesis
      proof (cases "bs ! (?n - 5) = 0")
        case ok: True
        then have "spw_tries (Suc k) w cmd packet reply m =
            Some (Inr bs, ?m\<lparr>m_replies := script, m_man := drop_error reading_packet (m_man m)\<rparr>)"
          unfolding step using r True by (simp add: bindM_steps(1))
        then show ?thesis
          using True ok by (intro exI [of _ bs] exI [of _ "?m\<lparr>m_replies := script, m_man := drop_error reading_packet (m_man m)\<rparr>"]
              exI [of _ "if w then 1 else 0"]) (simp add: write_confirmed_def)
      next
        case False
        then show ?thesis
          unfolding step using again [OF refl, where man = "drop_error reading_packet (m_man m)" and script = script] Suc.prems(2) r True
          by (simp add: bindM_steps(1))
      qed
    qed
  qed
qed

lemma spw_tries_silent:
  assumes "confirmed_write cmd" and "sm_timing (m_man m) = Some timing" and "sends_work m" and "m_replies m = silence"
  shows "\<exists>m'. spw_tries (Suc k) w cmd packet reply m = Some (Inr [], m') \<and>
    m_sent m' = m_sent m @ replicate (if w then 1 else 0) (Tcp, packet) \<and> has_error (m_man m') writing_invalid"
  using assms
proof (induction k arbitrary: w reply m)
  case (0 w reply m)
  have n: "12 + cmd_spw_reply_length cmd \<le> vec_max" using "0.prems"(1) by (simp add: confirmed_write_def)
  have r: "read_reply read_tcp (12 + cmd_spw_reply_length cmd) reply (maybe_send w packet m) =
      Some (Inr [], (maybe_send w packet m)\<lparr>m_man := raise_error reading_packet (m_man m)\<rparr>)"
    using read_reply_tcp_silent [OF _ n, of "maybe_send w packet m" timing reply] "0.prems" by simp
  show ?case
    unfolding spw_tries_step [OF "0.prems"(1,3)] by (simp add: bindM_steps(1) r)
next
  case (Suc k w reply m)
  let ?m = "maybe_send w packet m"
  let ?m1 = "?m\<lparr>m_man := raise_error writing_invalid (raise_error reading_packet (m_man m))\<rparr>"
  have n: "12 + cmd_spw_reply_length cmd \<le> vec_max" using Suc.prems(1) by (simp add: confirmed_write_def)
  have r: "read_reply read_tcp (12 + cmd_spw_reply_length cmd) reply ?m =
      Some (Inr [], ?m\<lparr>m_man := raise_error reading_packet (m_man m)\<rparr>)"
    using read_reply_tcp_silent [OF _ n, of ?m timing reply] Suc.prems by simp
  have "spw_tries (Suc (Suc k)) w cmd packet reply m = spw_tries (Suc k) False cmd packet [] ?m1"
    unfolding spw_tries_step [OF Suc.prems(1,3)] by (simp add: bindM_steps(1) r del: spw_tries.simps)
  moreover have "sm_timing (m_man ?m1) = Some timing" "sends_work ?m1" "m_replies ?m1 = silence"
    using Suc.prems by simp_all
  ultimately show ?case using Suc.IH [OF Suc.prems(1), of ?m1 False "[]"] by (auto simp del: spw_tries.simps)
qed

lemma handle_intercept_passes:
  "\<not> check_formatter_intercept_cmd (sys_hex (sm_system (m_man m))) (cmd_hex cmd) \<Longrightarrow>
     handle_intercept_cmd cmd m = Some (Inr False, m)"
  by (simp add: handle_intercept_cmd_def)

lemma dispatch_spw:
  assumes "\<not> check_formatter_intercept_cmd (sys_hex (sm_system (m_man m))) (cmd_hex cmd)"
    and "cmd_type cmd = CMD_SPW"
    and "get_command_bytes_for_sys_for_code (m_deck m) (sys_hex (sm_system (m_man m))) (cmd_hex cmd) = Inr packet"
  shows "sync_send_command_to_system cmd m = spw_tries 8 True cmd packet [] m"
  unfolding sync_send_command_to_system_def
  using assms by (simp add: bindM_steps(1) [OF handle_intercept_passes] del: spw_tries.simps)

lemma keeps_handle_intercept [keeps_intros]:
  "keeps buffers_of (handle_intercept_cmd cmd)" "keeps queues_of (handle_intercept_cmd cmd)"
proof -
  have k: "keeps buffers_of clear_log" "keeps queues_of clear_log" "keeps buffers_of (on_man (set_enable c))" for c
    by (simp_all add: keeps_def buffers_of_def queues_of_def clear_log_def set_enable_def man_core_def)
  show "keeps buffers_of (handle_intercept_cmd cmd)" "keeps queues_of (handle_intercept_cmd cmd)"
    unfolding handle_intercept_cmd_def by (intro keeps_intros k)+
qed

lemma keeps_read_reply [keeps_intros]: "(\<And>b. keeps f (reader b)) \<Longrightarrow> keeps f (read_reply reader n reply)"
  unfolding read_reply_def by (intro keeps_intros)

lemma keeps_spw_tries [keeps_intros]:
  "keeps buffers_of (spw_tries k w cmd packet reply)" "keeps queues_of (spw_tries k w cmd packet reply)"
  by (induction k arbitrary: w reply) (simp_all only: spw_tries.simps, (intro keeps_intros; assumption?)+)

lemma keeps_send_command [keeps_intros]:
  "keeps buffers_of (sync_send_command_to_system cmd)" "keeps queues_of (sync_send_command_to_system cmd)"
  unfolding sync_send_command_to_system_def by (intro keeps_intros)+

lemma keeps_queue_reply [keeps_intros]: "keeps buffers_of (queue_reply reply)"
proof -
  have "keeps buffers_of (enqueue_downlink d)" for d
    unfolding enqueue_downlink_def by (intro keeps_intros keeps_modify) (simp add: buffers_of_def)
  then show ?thesis unfolding queue_reply_def by (intro keeps_intros)
qed

lemma keeps_forward_command [keeps_intros]: "keeps buffers_of (forward_command cmd)"
  unfolding forward_command_def by (intro keeps_intros)

lemma forward_command_catches: "forward_command cmd m = Some (Inl e, m') \<Longrightarrow> \<not> is_std_exception e"
  by (auto simp: forward_command_def catchM_def split: option.splits prod.splits sum.splits if_splits)

lemma uplink_at_put: "uplink_at sys qs = Some q \<Longrightarrow> uplink_at sys (uplink_put sys q' qs) = Some q'"
  by (induction sys qs rule: uplink_at.induct) (auto split: if_splits)

lemma uplink_at_put_other:
  "\<not> system_eq sys other \<Longrightarrow> uplink_at other (uplink_put sys q' qs) = uplink_at other qs"
  by (induction other qs rule: uplink_at.induct) (auto simp: system_eq_def)

definition dispatch_timing :: timing where
  "dispatch_timing = (Timing_default 1000 0)\<lparr>tm_retry_max_count := 2\<rparr>"

definition confirmed_example :: command where
  "confirmed_example = set_spw_options 0x7d [0, 0, 0, 0x10] [1, 2, 3] 8 (Command null_command ''write'' 0x80 False CMD_SPW)"

definition dispatch_system :: system where
  "dispatch_system = System_spacewire ''cdte1'' 0x09 (Some cdte_spw_example)"

definition dispatch_deck :: command_deck where
  "dispatch_deck = insert_command 0x09 0x80 confirmed_example deck_example"

definition dispatch_packet :: bytes where
  "dispatch_packet = projr (get_command_bytes_for_sys_for_code dispatch_deck 0x09 0x80)"

definition machine_example :: "system \<Rightarrow> machine" where
  "machine_example sys = \<lparr>
     m_deck = dispatch_deck,
     m_man = add_timing (Some dispatch_timing) (SystemManager PC sys),
     m_downlink = [], m_uplink = [], m_replies = silence, m_send_fails = [], m_sent = [],
     m_logger_name = ''log'', m_logs = None, m_removed_logs = []\<rparr>"

lemma machine_example_simps:
  "m_deck (machine_example sys) = dispatch_deck" "sm_system (m_man (machine_example sys)) = sys"
  "sm_timing (m_man (machine_example sys)) = Some dispatch_timing" "m_replies (machine_example sys) = silence"
  "m_sent (machine_example sys) = []" "sends_work (machine_example sys)"
  by (simp_all add: machine_example_def add_timing_def SystemManager_def sends_work_def)

lemma dispatch_example:
  "cmd_type confirmed_example = CMD_SPW" "confirmed_write confirmed_example" "cmd_hex confirmed_example = 0x80"
  "sys_hex dispatch_system = 0x09"
  "get_command_bytes_for_sys_for_code dispatch_deck 0x09 0x80 = Inr dispatch_packet"
proof -
  show "cmd_type confirmed_example = CMD_SPW" "confirmed_write confirmed_example" "cmd_hex confirmed_example = 0x80"
    by (simp_all add: confirmed_example_def set_spw_options_def Command_def cmd_set_type_def null_command_def
        confirmed_write_def check_spw_replies_def vec_max_def)
  show "sys_hex dispatch_system = 0x09"
    by (simp add: dispatch_system_def System_spacewire_def System_interfaces_def)
  have "get_command_for_sys_for_code 0x09 0x80 dispatch_deck = confirmed_example"
    "sys_spacewire (get_sys_for_code 0x09 dispatch_deck) = Some cdte_spw_example"
    by (simp_all add: dispatch_deck_def deck_example_def System_spacewire_def System_interfaces_def insert_command_def
        get_sys_for_code_def get_command_for_sys_for_code_def CommandDeck_default_def)
  then have "\<exists>p. get_command_bytes_for_sys_for_code dispatch_deck 0x09 0x80 = Inr p"
    using \<open>cmd_type confirmed_example = CMD_SPW\<close>
    by (simp add: get_command_bytes_for_sys_for_code_def make_spw_packet_eq Let_def)
  then show "get_command_bytes_for_sys_for_code dispatch_deck 0x09 0x80 = Inr dispatch_packet"
    by (auto simp: dispatch_packet_def)
qed

lemma not_intercepted: "\<not> check_formatter_intercept_cmd 0x09 code"
  by (simp add: check_formatter_intercept_cmd_def)

section \<open>Properties\<close>

text \<open>C12. A SpaceWire write that expects a reply is never silently lost: whatever the peer sends or withholds,
  the dispatch returns, the packet goes out at least once and at most eight times and nothing else is
  sent, and either the returned reply has the announced size and a zero status byte or the manager's
  \<open>writing_invalid\<close> flag is set.\<close>

theorem spw_write_confirmed_or_flagged:
  assumes "cmd_type cmd = CMD_SPW" and "confirmed_write cmd" and "sends_work m"
    and "sm_timing (m_man m) = Some timing"
    and "\<not> check_formatter_intercept_cmd (sys_hex (sm_system (m_man m))) (cmd_hex cmd)"
    and "get_command_bytes_for_sys_for_code (m_deck m) (sys_hex (sm_system (m_man m))) (cmd_hex cmd) = Inr packet"
  shows "\<exists>reply m' j. sync_send_command_to_system cmd m = Some (Inr reply, m') \<and> 1 \<le> j \<and> j \<le> 8 \<and>
    m_sent m' = m_sent m @ replicate j (Tcp, packet) \<and>
    (write_confirmed cmd reply \<or> has_error (m_man m') writing_invalid)"
  using spw_tries_outcome [OF assms(2,4,3), of 8 True packet "[]"] dispatch_spw [OF assms(5,1,6)]
  by (auto simp: Suc_le_eq)

lemma spw_write_confirmed_or_flagged_witness:
  "\<exists>reply m' j. sync_send_command_to_system confirmed_example (machine_example dispatch_system) = Some (Inr reply, m') \<and>
    1 \<le> j \<and> j \<le> 8 \<and> m_sent m' = replicate j (Tcp, dispatch_packet) \<and>
    (write_confirmed confirmed_example reply \<or> has_error (m_man m') writing_invalid)"
  using spw_write_confirmed_or_flagged [of confirmed_example "machine_example dispatch_system" dispatch_timing dispatch_packet]
    dispatch_example machine_example_simps not_intercepted
  by simp

text \<open>Without any reply a write is sent exactly once: a try that receives nothing only waits again, and
  after the eighth the empty reply is returned with \<open>writing_invalid\<close> set.\<close>

theorem silent_write_sent_once:
  assumes "cmd_type cmd = CMD_SPW" and "confirmed_write cmd" and "sends_work m"
    and "sm_timing (m_man m) = Some timing" and "m_replies m = silence"
    and "\<not> check_formatter_intercept_cmd (sys_hex (sm_system (m_man m))) (cmd_hex cmd)"
    and "get_command_bytes_for_sys_for_code (m_deck m) (sys_hex (sm_system (m_man m))) (cmd_hex cmd) = Inr packet"
  shows "\<exists>m'. sync_send_command_to_system cmd m = Some (Inr [], m') \<and>
    m_sent m' = m_sent m @ [(Tcp, packet)] \<and> has_error (m_man m') writing_invalid"
  using spw_tries_silent [OF assms(2,4,3,5), of 7 True packet "[]"] dispatch_spw [OF assms(6,1,7)]
  by (simp del: spw_tries.simps)

lemma silent_write_sent_once_witness:
  "\<exists>m'. sync_send_command_to_system confirmed_example (machine_example dispatch_system) = Some (Inr [], m') \<and>
    m_sent m' = [(Tcp, dispatch_packet)] \<and> has_error (m_man m') writing_invalid"
  using silent_write_sent_once [of confirmed_example "machine_example dispatch_system" dispatch_timing dispatch_packet]
    dispatch_example machine_example_simps not_intercepted
  by simp

text \<open>C38. Commands the Formatter answers itself never reach a port: for the system with identifier 2 and a code
  \<open>0x30\<close> to \<open>0x3f\<close> nothing is sent or read and the reply is empty. For the housekeeping system, unless it is
  disconnected or abandoned, code \<open>0x30\<close> clears the enable byte, \<open>0x31\<close> to \<open>0x34\<close> set the bits of their low
  digit, and the other codes leave the manager alone.\<close>

theorem intercepted_commands:
  assumes "sys_hex (sm_system (m_man m)) = 0x02" and "drop_bit 4 (cmd_hex cmd) = 0x03"
  shows "\<exists>m'. sync_send_command_to_system cmd m = Some (Inr [], m') \<and>
    m_sent m' = m_sent m \<and> m_replies m' = m_replies m \<and> m_downlink m' = m_downlink m \<and>
    m_man m' = (if sys_name (sm_system (m_man m)) = ''housekeeping'' \<and> cmd_hex cmd \<noteq> 0x3f
        \<and> sm_system_state (m_man m) \<notin> {SYS_DISCONNECT, SYS_ABANDON}
      then (m_man m)\<lparr>sm_enable := (if cmd_hex cmd = 0x30 then 0
        else if 0x31 \<le> cmd_hex cmd \<and> cmd_hex cmd \<le> 0x34 then sm_enable (m_man m) OR (cmd_hex cmd AND 0x0f)
        else sm_enable (m_man m))\<rparr>
      else m_man m)"
  using assms
  by (auto simp: sync_send_command_to_system_def handle_intercept_cmd_def check_formatter_intercept_cmd_def
      clear_log_def set_enable_def bindM_def modifyM_def on_man_def)

lemma intercepted_commands_witness:
  "\<exists>m'. sync_send_command_to_system (null_command\<lparr>cmd_hex := 0x32\<rparr>)
      (machine_example (System_named ''housekeeping'' 2)) = Some (Inr [], m') \<and>
    m_sent m' = [] \<and> sm_enable (m_man m') = 0x02"
  using intercepted_commands [of "machine_example (System_named ''housekeeping'' 2)" "null_command\<lparr>cmd_hex := 0x32\<rparr>"]
  by (auto simp: machine_example_def SystemManager_def add_timing_def System_named_def)

text \<open>C33. Forwarding takes exactly one command off the system's uplink queue and always returns: no exception
  derived from \<open>std::exception\<close> escapes, the other systems' queues are untouched, and a command that reads a
  frame is dropped without anything being sent.\<close>

theorem forwarding_dequeues_one:
  assumes "uplink_at (sm_system (m_man m)) (m_uplink m) = Some (element # rest)"
    and "up_command element = Some cmd" and "up_system element = Some target"
  shows "\<exists>r m'. sync_send_buffer_commands_to_system m = Some (r, m') \<and>
    (\<forall>e. r = Inl e \<longrightarrow> \<not> is_std_exception e) \<and>
    m_uplink m' = uplink_put (sm_system (m_man m)) rest (m_uplink m) \<and>
    uplink_at (sm_system (m_man m)) (m_uplink m') = Some rest \<and>
    (\<not> system_eq (sm_system (m_man m)) other \<longrightarrow> uplink_at other (m_uplink m') = uplink_at other (m_uplink m)) \<and>
    (check_frame_read_cmd (sys_hex target) (cmd_hex cmd) \<longrightarrow> r = Inr () \<and> m_sent m' = m_sent m)"
proof -
  let ?own = "sm_system (m_man m)"
  let ?m = "set_queue ?own rest m"
  have run: "sync_send_buffer_commands_to_system m =
      (if check_frame_read_cmd (sys_hex target) (cmd_hex cmd) then Some (Inr (), ?m) else forward_command cmd ?m)"
    using assms by (simp add: sync_send_buffer_commands_to_system_def)
  from keepsD [OF keeps_forward_command, of cmd ?m] obtain r m' where
    f: "forward_command cmd ?m = Some (r, m')" "m_uplink m' = m_uplink ?m" by (auto simp: buffers_of_def)
  have q: "m_uplink ?m = uplink_put ?own rest (m_uplink m)" "m_sent ?m = m_sent m" by (simp_all add: set_queue_def)
  note put = uplink_at_put [OF assms(1)] uplink_at_put_other [of ?own other rest "m_uplink m"]
  show ?thesis
  proof (cases "check_frame_read_cmd (sys_hex target) (cmd_hex cmd)")
    case True
    with run q put show ?thesis by simp
  next
    case False
    moreover have "\<forall>e. r = Inl e \<longrightarrow> \<not> is_std_exception e" using forward_command_catches f(1) by blast
    ultimately show ?thesis using run q put f by (intro exI [of _ r] exI [of _ m']) simp
  qed
qed

lemma forwarding_dequeues_one_witness:
  "\<exists>r m'. sync_send_buffer_commands_to_system
      ((machine_example dispatch_system)\<lparr>m_uplink := [(dispatch_system,
         [UplinkBufferElement_direct (Some dispatch_system) (Some confirmed_example) []])]\<rparr>) = Some (r, m') \<and>
    m_uplink m' = [(dispatch_system, [])]"
  using forwarding_dequeues_one [of "(machine_example dispatch_system)\<lparr>m_uplink := [(dispatch_system,
         [UplinkBufferElement_direct (Some dispatch_system) (Some confirmed_example) []])]\<rparr>"
      "UplinkBufferElement_direct (Some dispatch_system) (Some confirmed_example) []" "[]" confirmed_example dispatch_system dispatch_system]
  by (auto simp: machine_example_def add_timing_def SystemManager_def UplinkBufferElement_direct_def system_eq_def)

end
