(* ===== verification/Remote_Buffer.thy ===== *)
theory Remote_Buffer
  imports Command_Dispatch
begin

text \<open>
  Reading a frame from a remote ring buffer and queueing it for the downlink
  (\<open>sync_remote_buffer_transaction\<close>, \<open>src/TransportLayer.cpp\<close>): read the write pointer, skip a frame that
  was read before, request packets until the framer has a frame, hand the frame to the packetizer and
  its elements to the downlink queue.

  The framer and the packetizer are objects behind pointers of the manager's maps, so an early return
  leaves in them what was done before it.
\<close>

section \<open>The transaction\<close>

text \<open>\<open>name.find(sub) != npos\<close>.\<close>

fun contains :: "string \<Rightarrow> string \<Rightarrow> bool" where
  "contains sub [] = (sub = [])"
| "contains sub (c # cs) = (take (length sub) (c # cs) = sub \<or> contains sub cs)"

definition set_framer :: "ring_type \<Rightarrow> packet_framer \<Rightarrow> system_manager \<Rightarrow> system_manager" where
  "set_framer t pf sm = sm\<lparr>sm_packet_framer := (sm_packet_framer sm)(t \<mapsto> pf)\<rparr>"

definition set_packetizer :: "ring_type \<Rightarrow> frame_packetizer \<Rightarrow> system_manager \<Rightarrow> system_manager" where
  "set_packetizer t fp sm = sm\<lparr>sm_frame_packetizer := (sm_frame_packetizer sm)(t \<mapsto> fp)\<rparr>"

text \<open>The address to read: CdTe systems have written the frame before the pointer, around the ring.\<close>

definition frame_address :: "system \<Rightarrow> ring_buffer_parameters \<Rightarrow> nat \<Rightarrow> nat" where
  "frame_address sys ring last_write_pointer =
     (if contains ''cdte'' (sys_name sys) then
        (if last_write_pointer = unat (rb_start_address ring)
         then sz_add last_write_pointer
                (sz_mul (sz_sub (rb_frames_per_ring ring) 1) (rb_frame_size_bytes ring))
         else sz_sub last_write_pointer (rb_frame_size_bytes ring))
      else last_write_pointer)"

text \<open>One round of the packet loop. The result says whether a packet was pushed.\<close>

definition frame_done :: "ring_type \<Rightarrow> bool io" where
  "frame_done t =
     bindM (getM (\<lambda>m. sm_packet_framer (m_man m) t)) (\<lambda>pointer.
     bindM (liftR (option_deref pointer)) (\<lambda>pf. ret (check_frame_done pf)))"

definition expected_packet_size :: "spacewire \<Rightarrow> ethernet \<Rightarrow> nat" where
  "expected_packet_size spw e =
     sz_add (sz_add (dl_static_footer_size spw) (dl_static_header_size spw)) (dl_max_payload_size e)"

definition push_reply :: "ring_type \<Rightarrow> bytes \<Rightarrow> unit io" where
  "push_reply t reply =
     bindM (getM (\<lambda>m. sm_packet_framer (m_man m) t)) (\<lambda>pointer.
     bindM (liftR (option_deref pointer)) (\<lambda>pf.
     bindM (liftR (push_to_frame reply pf)) (\<lambda>pf. on_man (set_framer t pf))))"

definition read_packet :: "ring_type \<Rightarrow> spacewire \<Rightarrow> u8 \<Rightarrow> nat \<Rightarrow> nat \<Rightarrow> bool io" where
  "read_packet t spw write_pointer_width last_write_pointer packet_counter =
     (let this_start_address = sz_add last_write_pointer (sz_mul packet_counter (dl_max_payload_size spw)) in
      bindM (liftR (splat_to_nbytes (unat write_pointer_width) (word_of_nat this_start_address))) (\<lambda>address.
      bindM (getM (\<lambda>m. (m_deck m, sm_system (m_man m)))) (\<lambda>(deck, sys).
      bindM (liftR (option_deref (sys_ethernet sys))) (\<lambda>e.
      bindM (liftR (get_read_command_for_sys_at_address deck (sys_hex sys) address (dl_max_payload_size e)))
        (\<lambda>buffer_read_command.
      bindM (send Tcp buffer_read_command) (\<lambda>_.
      bindM (read_reply read_tcp (expected_packet_size spw e) []) (\<lambda>reply.
        if length reply \<noteq> expected_packet_size spw e
        then bindM (on_man (raise_error reading_packet)) (\<lambda>_. ret False)
        else bindM (push_reply t reply) (\<lambda>_. ret True))))))))"

text \<open>The loop; the result is \<open>False\<close> for the early return.\<close>

partial_function (option) read_frame :: "ring_type \<Rightarrow> spacewire \<Rightarrow> u8 \<Rightarrow> nat \<Rightarrow> nat \<Rightarrow> machine \<Rightarrow>
    (bool result \<times> machine) option" where
  "read_frame t spw width start packet_counter m =
     bindM (frame_done t) (\<lambda>finished.
       if finished then ret True
       else bindM (read_packet t spw width start packet_counter) (\<lambda>pushed.
         if pushed then read_frame t spw width start (sz_add packet_counter 1) else ret False)) m"

text \<open>Handing the frame to the packetizer and draining it into the downlink queue.\<close>

definition queue_elements :: "ring_type \<Rightarrow> unit io" where
  "queue_elements t =
     bindM (getM (\<lambda>m. (sm_frame_packetizer (m_man m) t, sm_packet_framer (m_man m) t))) (\<lambda>(fp_pointer, pf_pointer).
     bindM (liftR (option_deref fp_pointer)) (\<lambda>fp.
     bindM (liftR (option_deref pf_pointer)) (\<lambda>pf.
       let fp = fp_set_frame (pf_frame pf) fp in
       bindM (getM (\<lambda>m. fst (get_frame_count t (m_man m)))) (\<lambda>count.
       bindM (if frame_emptied fp then ret () else on_man (\<lambda>sm. snd (get_frame_count t sm))) (\<lambda>_. \<lambda>m.
         case queue_frame count fp (m_downlink m) of
           None \<Rightarrow> None
         | Some (Inl e) \<Rightarrow> Some (Inl e, m)
         | Some (Inr (fp, queue)) \<Rightarrow>
             Some (Inr (), m\<lparr>m_downlink := queue, m_man := set_packetizer t fp (m_man m)\<rparr>))))))"

definition clear_framer :: "ring_type \<Rightarrow> unit io" where
  "clear_framer t =
     bindM (getM (\<lambda>m. sm_packet_framer (m_man m) t)) (\<lambda>pointer.
     bindM (liftR (option_deref pointer)) (\<lambda>pf. on_man (set_framer t (pf_clear_frame pf))))"

definition clear_read_errors :: "system_manager \<Rightarrow> system_manager" where
  "clear_read_errors sm =
     drop_error packet_framing (drop_error frame_packetizing (drop_error reading_invalid
     (drop_error reading_packet (drop_error reading_frame (drop_error downlink_buffering sm)))))"

text \<open>The write pointer: request, reply, and the four bytes of its data; \<open>None\<close> for the early returns.\<close>

definition read_write_pointer :: "ring_buffer_parameters \<Rightarrow> bytes option io" where
  "read_write_pointer ring =
     (let write_pointer_width = word_of_nat (rb_write_pointer_width_bytes ring) :: u8 in
      bindM (liftR (splat_to_nbytes (unat write_pointer_width) (ucast (rb_write_pointer_address ring)))) (\<lambda>address.
      bindM (getM (\<lambda>m. (m_deck m, sm_system (m_man m)))) (\<lambda>(deck, sys).
      bindM (liftR (get_read_command_for_sys_at_address deck (sys_hex sys) address (unat write_pointer_width)))
        (\<lambda>request.
      bindM (send Tcp request) (\<lambda>_.
      bindM (read_reply read_some 4096 []) (\<lambda>last_reply.
        if length last_reply < 26 then bindM (on_man (raise_error reading_invalid)) (\<lambda>_. ret None)
        else
          let pointer_bytes = get_reply_data last_reply in
          if length pointer_bytes \<noteq> 4 then bindM (on_man (raise_error reading_invalid)) (\<lambda>_. ret None)
          else if sys_hex sys = get_sys_code_for_name ''cmos1'' deck
                 \<or> sys_hex sys = get_sys_code_for_name ''cmos2'' deck
          then bindM (liftR (swap_endian4 pointer_bytes)) (\<lambda>swapped. ret (Some swapped))
          else ret (Some pointer_bytes)))))))"

text \<open>The lookups of the packetizer and the framer raise flags when they fail.\<close>

definition find_buffers :: "ring_type \<Rightarrow> bool io" where
  "find_buffers t =
     bindM (getM m_man) (\<lambda>sm.
     bindM (on_man (\<lambda>sm. snd (get_frame_packetizer t sm))) (\<lambda>_.
       if fst (get_frame_packetizer t sm) = None
       then bindM (on_man (raise_error frame_packetizing)) (\<lambda>_. ret False)
       else
         bindM (on_man (\<lambda>sm. snd (get_packet_framer t sm))) (\<lambda>_.
           if fst (get_packet_framer t sm) = None
           then bindM (on_man (raise_error packet_framing)) (\<lambda>_. ret False)
           else ret True)))"

definition read_and_queue :: "ring_type \<Rightarrow> spacewire \<Rightarrow> ring_buffer_parameters \<Rightarrow> nat \<Rightarrow> nat \<Rightarrow> nat io" where
  "read_and_queue t spw ring last_write_pointer prior_write_pointer =
     (if last_write_pointer = prior_write_pointer then ret prior_write_pointer
      else
        bindM (read_frame t spw (word_of_nat (rb_write_pointer_width_bytes ring)) last_write_pointer 0) (\<lambda>complete.
          if \<not> complete then ret prior_write_pointer
          else
            bindM (queue_elements t) (\<lambda>_.
            bindM (on_man (increment_frame_count t)) (\<lambda>_.
            bindM (clear_framer t) (\<lambda>_.
            bindM (on_man clear_read_errors) (\<lambda>_. ret last_write_pointer))))))"

definition sync_remote_buffer_transaction :: "ring_type \<Rightarrow> nat \<Rightarrow> nat io" where
  "sync_remote_buffer_transaction buffer_type prior_write_pointer =
     bindM (getM (\<lambda>m. sm_system (m_man m))) (\<lambda>sys.
       case sys_spacewire sys of
         None \<Rightarrow> ret prior_write_pointer
       | Some spw \<Rightarrow>
           if length (sys_ring_params sys) < unat (ring_code buffer_type) then ret prior_write_pointer
           else
             bindM (liftR (ring_params_at sys buffer_type)) (\<lambda>ring.
             bindM (read_write_pointer ring) (\<lambda>pointer.
               case pointer of
                 None \<Rightarrow> ret prior_write_pointer
               | Some last_write_pointer_bytes \<Rightarrow>
                   bindM (find_buffers buffer_type) (\<lambda>found.
                     if \<not> found then ret prior_write_pointer
                     else read_and_queue buffer_type spw ring
                       (frame_address sys ring (unat (unsplat_from_4bytes last_write_pointer_bytes)))
                       prior_write_pointer))))"

section \<open>The packet loop\<close>

text \<open>The framer takes the packets one by one, is not done before the last and done after it.\<close>

fun fills :: "bytes list \<Rightarrow> packet_framer \<Rightarrow> packet_framer \<Rightarrow> bool" where
  "fills [] pf pf' = (pf' = pf \<and> check_frame_done pf)"
| "fills (p # ps) pf pf' =
     (\<not> check_frame_done pf \<and> (case push_to_frame p pf of Inl _ \<Rightarrow> False | Inr pf1 \<Rightarrow> fills ps pf1 pf'))"

lemma fillsI:
  assumes "push_all ps pf = Inr pf'"
    and "\<And>k q. k \<le> length ps \<Longrightarrow> push_all (take k ps) pf = Inr q \<Longrightarrow> check_frame_done q \<longleftrightarrow> k = length ps"
  shows "fills ps pf pf'"
  using assms
proof (induction ps arbitrary: pf)
  case Nil
  from Nil(2) [of 0 pf] Nil(1) show ?case by simp
next
  case (Cons p ps)
  from Cons.prems(1) obtain pf1 where p: "push_to_frame p pf = Inr pf1" "push_all ps pf1 = Inr pf'"
    by (auto simp: bindR_eq_Inr)
  have "fills ps pf1 pf'"
  proof (rule Cons.IH [OF p(2)])
    fix k q assume "k \<le> length ps" "push_all (take k ps) pf1 = Inr q"
    then show "check_frame_done q \<longleftrightarrow> k = length ps" using Cons.prems(2) [of "Suc k" q] p(1) by simp
  qed
  with Cons.prems(2) [of 0 pf] p(1) show ?case by simp
qed

text \<open>The packets of a frame fill it when the payloads of all but the last leave room.\<close>

lemma reassembly_fills:
  assumes "pf_inv pf" "pf_frame pf = []" "initial_shape pf t" "list_all (subsequent_shape pf) ts"
    and "pf_frame_size pf \<le> length (concat (map payload_of (t # ts)))"
    and "length (concat (map payload_of (butlast (t # ts)))) < pf_frame_size pf"
  shows "\<exists>pf'. fills (map packet_of (t # ts)) pf pf' \<and>
    pf_frame pf' = take (pf_frame_size pf) (concat (map payload_of (t # ts)))"
proof -
  from reassembly [OF assms(1-4)] obtain pf' where all: "push_all (map packet_of (t # ts)) pf = Inr pf'"
    "pf_frame pf' = take (pf_frame_size pf) (concat (map payload_of (t # ts)))" by blast
  have "fills (map packet_of (t # ts)) pf pf'"
  proof (rule fillsI [OF all(1)])
    fix k q
    assume k: "k \<le> length (map packet_of (t # ts))" and q: "push_all (take k (map packet_of (t # ts))) pf = Inr q"
    show "check_frame_done q \<longleftrightarrow> k = length (map packet_of (t # ts))"
    proof (cases k)
      case 0
      with q assms(2,6) show ?thesis by (auto simp: check_frame_done_def)
    next
      case (Suc j)
      have sub: "list_all (subsequent_shape pf) (take j ts)" using assms(4) by (auto simp: list_all_iff dest: in_set_takeD)
      have "push_all (map packet_of (t # take j ts)) pf = Inr q" using q Suc by (simp add: take_map)
      with reassembly [OF assms(1-3) sub]
      have d: "check_frame_done q \<longleftrightarrow> pf_frame_size pf \<le> length (concat (map payload_of (t # take j ts)))" by auto
      show ?thesis
      proof (cases "j < length ts")
        case True
        have "butlast (t # ts) = (t # take j ts) @ drop j (butlast ts)"
          using True by (cases ts rule: rev_cases) (auto simp: butlast_append)
        then have "length (concat (map payload_of (t # take j ts))) \<le> length (concat (map payload_of (butlast (t # ts))))"
          by simp
        with d assms(6) True Suc show ?thesis by (simp only: length_map length_Cons) linarith
      next
        case False
        with d assms(5) Suc k show ?thesis by simp
      qed
    qed
  qed
  with all(2) show ?thesis by blast
qed

lemma read_command_total: "\<exists>p. get_read_command_for_sys_at_address deck sys a n = Inr p"
  by (simp add: get_read_command_for_sys_at_address_def Let_def del: be_bytes_numeral split: option.split)

text \<open>What the packet loop leaves as it was.\<close>

definition undisturbed :: "machine \<Rightarrow> machine \<Rightarrow> bool" where
  "undisturbed m m' \<longleftrightarrow> m_deck m' = m_deck m \<and> m_downlink m' = m_downlink m \<and> m_uplink m' = m_uplink m \<and>
     sm_system (m_man m') = sm_system (m_man m) \<and> sm_timing (m_man m') = sm_timing (m_man m) \<and>
     sm_frame_packetizer (m_man m') = sm_frame_packetizer (m_man m) \<and>
     sm_frame_count (m_man m') = sm_frame_count (m_man m)"

lemma undisturbed_refl [simp]: "undisturbed m m"
  by (simp add: undisturbed_def)

lemma undisturbed_trans: "undisturbed a b \<Longrightarrow> undisturbed b c \<Longrightarrow> undisturbed a c"
  by (simp add: undisturbed_def)

lemma set_framer_fields [simp]:
  "sm_packet_framer (set_framer t pf sm) = (sm_packet_framer sm)(t \<mapsto> pf)"
  "sm_system (set_framer t pf sm) = sm_system sm" "sm_timing (set_framer t pf sm) = sm_timing sm"
  "sm_frame_packetizer (set_framer t pf sm) = sm_frame_packetizer sm"
  "sm_frame_count (set_framer t pf sm) = sm_frame_count sm"
  "has_error (set_framer t pf sm) e = has_error sm e"
  by (simp_all add: set_framer_def has_error_def)

text \<open>The request for packet \<open>c\<close> of a frame.\<close>

definition frame_request :: "command_deck \<Rightarrow> u8 \<Rightarrow> spacewire \<Rightarrow> ethernet \<Rightarrow> u8 \<Rightarrow> nat \<Rightarrow> nat \<Rightarrow> bytes" where
  "frame_request deck hex spw e width start c = projr (get_read_command_for_sys_at_address deck hex
     (be_bytes (unat width) (word_of_nat (sz_add start (sz_mul c (dl_max_payload_size spw))))) (dl_max_payload_size e))"

lemma frame_request_eq: "get_read_command_for_sys_at_address deck hex
     (be_bytes (unat width) (word_of_nat (sz_add start (sz_mul c (dl_max_payload_size spw))))) (dl_max_payload_size e)
   = Inr (frame_request deck hex spw e width start c)"
proof -
  obtain p where "get_read_command_for_sys_at_address deck hex
     (be_bytes (unat width) (word_of_nat (sz_add start (sz_mul c (dl_max_payload_size spw))))) (dl_max_payload_size e) = Inr p"
    using read_command_total by blast
  then show ?thesis by (simp add: frame_request_def)
qed

text \<open>The link can be read: a retry count, an Ethernet description, sizes that are memory sizes.\<close>

definition readable :: "spacewire \<Rightarrow> ethernet \<Rightarrow> machine \<Rightarrow> bool" where
  "readable spw e m \<longleftrightarrow> sends_work m \<and> (\<exists>timing. sm_timing (m_man m) = Some timing \<and> 0 < tm_retry_max_count timing) \<and>
     sys_ethernet (sm_system (m_man m)) = Some e \<and>
     0 < expected_packet_size spw e \<and> expected_packet_size spw e \<le> vec_max"

lemma frame_done_eq:
  "sm_packet_framer (m_man m) t = Some pf \<Longrightarrow> frame_done t m = Some (Inr (check_frame_done pf), m)"
  by (simp add: frame_done_def)

lemma read_packet_ok:
  assumes "readable spw e m" and "unat width \<le> 8" and "sm_packet_framer (m_man m) t = Some pf"
    and "m_replies m = Some p ## script" and "length p = expected_packet_size spw e"
    and "push_to_frame p pf = Inr pf1"
  shows "read_packet t spw width start c m = Some (Inr True, m\<lparr>
    m_send_fails := tl (m_send_fails m),
    m_sent := m_sent m @ [(Tcp, frame_request (m_deck m) (sys_hex (sm_system (m_man m))) spw e width start c)],
    m_replies := script, m_man := set_framer t pf1 (drop_error reading_packet (m_man m))\<rparr>)"
proof -
  from assms(1) obtain timing where t: "sm_timing (m_man m) = Some timing" "0 < tm_retry_max_count timing"
    and e: "sys_ethernet (sm_system (m_man m)) = Some e" and w: "sends_work m"
    and size: "0 < expected_packet_size spw e" "expected_packet_size spw e \<le> vec_max"
    by (auto simp: readable_def)
  let ?cmd = "frame_request (m_deck m) (sys_hex (sm_system (m_man m))) spw e width start c"
  note cmd = frame_request_eq [of "m_deck m" "sys_hex (sm_system (m_man m))" width start c spw e]
  let ?m = "m\<lparr>m_send_fails := tl (m_send_fails m), m_sent := m_sent m @ [(Tcp, ?cmd)]\<rparr>"
  let ?m1 = "?m\<lparr>m_replies := script, m_man := drop_error reading_packet (m_man m)\<rparr>"
  have p: "p \<noteq> []" "length p \<le> length (pad_to (expected_packet_size spw e) [])" using assms(5) size(1) by auto
  have "read_tcp (pad_to (expected_packet_size spw e) []) ?m = Some (Inr (length p, p), ?m1)"
    using reads_script(2) [of ?m timing "pad_to (expected_packet_size spw e) []"] t(1) size(2)
      read_result_immediate [of ?m p script _ timing] assms(4) p t(2)
    by simp
  then have r: "read_reply read_tcp (expected_packet_size spw e) [] ?m = Some (Inr p, ?m1)"
    using size(2) pad_to_self [of p] unfolding assms(5) by (simp add: read_reply_def bindM_steps(1))
  have "read_packet t spw width start c m = Some (Inr True, ?m1\<lparr>m_man := set_framer t pf1 (m_man ?m1)\<rparr>)"
    using assms(2,3,6) e cmd assms(5)
    by (simp add: read_packet_def Let_def bindM_send [OF w] bindM_steps(1) r push_reply_def)
  then show ?thesis by simp
qed

text \<open>The requests for \<open>n\<close> packets from packet \<open>c\<close> on.\<close>

fun frame_requests :: "machine \<Rightarrow> spacewire \<Rightarrow> ethernet \<Rightarrow> u8 \<Rightarrow> nat \<Rightarrow> nat \<Rightarrow> nat \<Rightarrow> bytes list" where
  "frame_requests m spw e width start c 0 = []"
| "frame_requests m spw e width start c (Suc n) =
     frame_request (m_deck m) (sys_hex (sm_system (m_man m))) spw e width start c
     # frame_requests m spw e width start (sz_add c 1) n"

lemma frame_requests_same:
  "m_deck m' = m_deck m \<Longrightarrow> sm_system (m_man m') = sm_system (m_man m) \<Longrightarrow>
   frame_requests m' spw e width start c n = frame_requests m spw e width start c n"
  by (induction n arbitrary: c) simp_all

lemma length_frame_requests [simp]: "length (frame_requests m spw e width start c n) = n"
  by (induction n arbitrary: c) simp_all

lemma frame_requests_nth:
  "c + n < 2 ^ 64 \<Longrightarrow> j < n \<Longrightarrow> frame_requests m spw e width start c n ! j =
     frame_request (m_deck m) (sys_hex (sm_system (m_man m))) spw e width start (c + j)"
proof (induction n arbitrary: c j)
  case (Suc n)
  have "sz_add c 1 = Suc c" using Suc.prems(1) by (intro trans [OF sz_add_small]) simp_all
  with Suc show ?case by (cases j) simp_all
qed simp

lemma read_frame_fills:
  assumes "fills ps pf pf'" and "readable spw e m" and "unat width \<le> 8"
    and "sm_packet_framer (m_man m) t = Some pf" and "m_replies m = map Some ps @- script"
    and "\<forall>p \<in> set ps. length p = expected_packet_size spw e"
  shows "\<exists>m'. read_frame t spw width start c m = Some (Inr True, m') \<and> undisturbed m m' \<and> sends_work m' \<and>
    m_replies m' = script \<and> m_sent m' = m_sent m @ map (Pair Tcp) (frame_requests m spw e width start c (length ps)) \<and>
    sm_packet_framer (m_man m') = (sm_packet_framer (m_man m))(t \<mapsto> pf') \<and>
    (\<forall>e. has_error (m_man m') e \<longrightarrow> has_error (m_man m) e)"
  using assms
proof (induction ps arbitrary: pf m c)
  case Nil
  then have "read_frame t spw width start c m = Some (Inr True, m)"
    by (subst read_frame.simps) (simp add: bindM_steps(1) frame_done_eq)
  moreover have "(sm_packet_framer (m_man m))(t \<mapsto> pf') = sm_packet_framer (m_man m)"
    using Nil by (simp add: fun_upd_idem)
  moreover have "sends_work m" using Nil.prems(2) by (simp add: readable_def)
  ultimately show ?case using Nil.prems(5) by (intro exI [of _ m]) simp
next
  case (Cons p ps)
  then obtain pf1 where pf1: "push_to_frame p pf = Inr pf1" "fills ps pf1 pf'" "\<not> check_frame_done pf"
    by (auto split: sum.splits)
  let ?cmd = "frame_request (m_deck m) (sys_hex (sm_system (m_man m))) spw e width start c"
  have step: "read_packet t spw width start c m = Some (Inr True, m\<lparr>
      m_send_fails := tl (m_send_fails m), m_sent := m_sent m @ [(Tcp, ?cmd)],
      m_replies := map Some ps @- script, m_man := set_framer t pf1 (drop_error reading_packet (m_man m))\<rparr>)"
    (is "_ = Some (Inr True, ?m1)")
    using read_packet_ok [OF Cons.prems(2,3,4), of p "map Some ps @- script" pf1 start c] Cons.prems(5,6) pf1(1) by auto
  have unfold: "read_frame t spw width start c m = read_frame t spw width start (sz_add c 1) ?m1"
    using Cons.prems(4) pf1(3) by (subst read_frame.simps) (simp add: bindM_steps(1) frame_done_eq step)
  have w: "sends_work m" using Cons.prems(2) by (simp add: readable_def)
  then have w1: "sends_work ?m1" using sends_work_tl [OF w] by (simp add: sends_work_def)
  have "readable spw e ?m1" using Cons.prems(2) w1 by (simp add: readable_def)
  then obtain m' where m': "read_frame t spw width start (sz_add c 1) ?m1 = Some (Inr True, m')"
    "undisturbed ?m1 m'" "sends_work m'" "m_replies m' = script"
    "m_sent m' = m_sent ?m1 @ map (Pair Tcp) (frame_requests ?m1 spw e width start (sz_add c 1) (length ps))"
    "sm_packet_framer (m_man m') = (sm_packet_framer (m_man ?m1))(t \<mapsto> pf')"
    "\<forall>e. has_error (m_man m') e \<longrightarrow> has_error (m_man ?m1) e"
  proof -
    have "\<forall>p \<in> set ps. length p = expected_packet_size spw e" using Cons.prems(6) by simp
    moreover have "sm_packet_framer (m_man ?m1) t = Some pf1" "m_replies ?m1 = map Some ps @- script" by simp_all
    ultimately show thesis
      using Cons.IH [OF pf1(2) \<open>readable spw e ?m1\<close> Cons.prems(3)] that by blast
  qed
  moreover have "m_sent m' = m_sent m @ map (Pair Tcp) (frame_requests m spw e width start c (length (p # ps)))"
    using m'(5) frame_requests_same [of ?m1 m spw e width start "sz_add c 1" "length ps"]
    by simp
  moreover have "undisturbed m ?m1" by (simp add: undisturbed_def)
  ultimately show ?case
    unfolding unfold using undisturbed_trans [of m ?m1 m']
    by (intro exI [of _ m'] conjI) simp_all
qed

section \<open>The pointer and the queue\<close>

definition is_cmos :: "command_deck \<Rightarrow> system \<Rightarrow> bool" where
  "is_cmos deck sys \<longleftrightarrow> sys_hex sys = get_sys_code_for_name ''cmos1'' deck
     \<or> sys_hex sys = get_sys_code_for_name ''cmos2'' deck"

text \<open>The four data bytes of the reply, in the order the value is read.\<close>

definition pointer_bytes :: "command_deck \<Rightarrow> system \<Rightarrow> bytes \<Rightarrow> bytes" where
  "pointer_bytes deck sys reply =
     (if is_cmos deck sys then rev (get_reply_data reply) else get_reply_data reply)"

definition pointer_reply :: "bytes \<Rightarrow> bool" where
  "pointer_reply reply \<longleftrightarrow> 26 \<le> length reply \<and> length reply \<le> 4096 \<and> length (get_reply_data reply) = 4"

lemma swap_endian4_rev: "length bs = 4 \<Longrightarrow> swap_endian4 bs = Inr (rev bs)"
  by (auto simp: swap_endian4_def numeral_eq_Suc length_Suc_conv)

definition pointer_request :: "ring_buffer_parameters \<Rightarrow> machine \<Rightarrow> bytes" where
  "pointer_request ring m = projr (get_read_command_for_sys_at_address (m_deck m) (sys_hex (sm_system (m_man m)))
     (be_bytes (unat (word_of_nat (rb_write_pointer_width_bytes ring) :: u8)) (ucast (rb_write_pointer_address ring)))
     (unat (word_of_nat (rb_write_pointer_width_bytes ring) :: u8)))"

lemma read_write_pointer_ok:
  assumes "readable spw e m" and "unat (word_of_nat (rb_write_pointer_width_bytes ring) :: u8) \<le> 8"
    and "m_replies m = Some reply ## script" and "pointer_reply reply"
  shows "read_write_pointer ring m =
    Some (Inr (Some (pointer_bytes (m_deck m) (sm_system (m_man m)) reply)), m\<lparr>
      m_send_fails := tl (m_send_fails m), m_sent := m_sent m @ [(Tcp, pointer_request ring m)],
      m_replies := script, m_man := drop_error reading_packet (m_man m)\<rparr>)"
proof -
  let ?w = "word_of_nat (rb_write_pointer_width_bytes ring) :: u8"
  from assms(1) obtain timing where t: "sm_timing (m_man m) = Some timing" "0 < tm_retry_max_count timing"
    and w: "sends_work m" by (auto simp: readable_def)
  obtain cmd where cmd: "get_read_command_for_sys_at_address (m_deck m) (sys_hex (sm_system (m_man m)))
      (be_bytes (unat ?w) (ucast (rb_write_pointer_address ring))) (unat ?w) = Inr cmd"
    using read_command_total by blast
  then have request: "pointer_request ring m = cmd" by (simp add: pointer_request_def)
  let ?m = "m\<lparr>m_send_fails := tl (m_send_fails m), m_sent := m_sent m @ [(Tcp, cmd)]\<rparr>"
  let ?m1 = "?m\<lparr>m_replies := script, m_man := drop_error reading_packet (m_man m)\<rparr>"
  from assms(4) have p: "reply \<noteq> []" "length reply \<le> 4096" "length reply \<le> vec_max" "\<not> length reply < 26"
    "length (get_reply_data reply) = 4"
    by (auto simp: pointer_reply_def vec_max_def)
  have "read_some (pad_to 4096 []) ?m = Some (Inr (length reply, reply), ?m1)"
    using reads_script(1) [of ?m timing "pad_to 4096 []"] t(1)
      read_result_immediate [of ?m reply script 4096 timing] assms(3) p t(2)
    by (simp add: vec_max_def)
  then have r: "read_reply read_some 4096 [] ?m = Some (Inr reply, ?m1)"
    using p(3) by (simp add: read_reply_def bindM_steps(1) vec_resize_def vec_max_def)
  show ?thesis
    unfolding read_write_pointer_def Let_def
    using assms(2) cmd p(4,5)
    by (simp add: bindM_send [OF w] bindM_steps(1) r pointer_bytes_def is_cmos_def swap_endian4_rev request)
qed

lemma find_buffers_ok:
  "sm_packet_framer (m_man m) t = Some pf \<Longrightarrow> sm_frame_packetizer (m_man m) t = Some fp \<Longrightarrow>
     find_buffers t m = Some (Inr True, m)"
  by (simp add: find_buffers_def get_frame_packetizer_def get_packet_framer_def)

lemma frame_elements_facts:
  assumes "0 < fp_max_packet_size fp - 8"
  shows "concat (map dbe_payload (frame_elements n fp k)) = fp_frame fp"
    and "d \<in> set (frame_elements n fp k) \<Longrightarrow>
      dbe_frame_counter d = n \<and> dbe_system d = Some (fp_system fp) \<and> dbe_type d = fp_type fp"
  using assms by (auto simp: frame_elements_def in_set_conv_nth elements_from_nth element_of_def)

lemma queue_elements_ok:
  assumes "sm_packet_framer (m_man m) t = Some pf" and "sm_frame_packetizer (m_man m) t = Some fp"
    and "sm_frame_count (m_man m) t = Some n" and "fp_wf fp" and "fp_packets_per_frame fp < 2 ^ 64"
    and "ceil_div (length (pf_frame pf)) (fp_max_packet_size fp - 8) \<le> fp_packets_per_frame fp"
  shows "\<exists>fp'. queue_elements t m = Some (Inr (), m\<lparr>
    m_downlink := m_downlink m @ frame_elements n (fp_set_frame (pf_frame pf) fp) 0,
    m_man := set_packetizer t fp' (m_man m)\<rparr>)"
proof -
  let ?fp = "fp_set_frame (pf_frame pf) fp"
  have "\<exists>fp'. queue_frame n ?fp (m_downlink m) = Some (Inr (fp', m_downlink m @ frame_elements n ?fp 0)) \<and>
      fp_frame fp' = [] \<and> fp_packets_per_frame fp' = fp_packets_per_frame ?fp"
    using assms(4-6) by (intro queue_frame_elements) (simp_all add: fp_set_frame_def fp_wf_def)
  then obtain fp' where q: "queue_frame n ?fp (m_downlink m) = Some (Inr (fp', m_downlink m @ frame_elements n ?fp 0))"
    by blast
  have c: "get_frame_count t (m_man m) = (n, m_man m)" using assms(3) by (simp add: get_frame_count_def)
  show ?thesis
    using assms(1,2) c q by (intro exI [of _ fp']) (simp add: queue_elements_def bindM_def Let_def)
qed

text \<open>The set-up in which a frame can be read, and the packets of one frame.\<close>

definition frame_ready :: "ring_type \<Rightarrow> spacewire \<Rightarrow> ethernet \<Rightarrow> ring_buffer_parameters \<Rightarrow> packet_framer \<Rightarrow>
    frame_packetizer \<Rightarrow> u16 \<Rightarrow> machine \<Rightarrow> bool" where
  "frame_ready t spw e ring pf fp n m \<longleftrightarrow>
     sys_spacewire (sm_system (m_man m)) = Some spw \<and> readable spw e m \<and>
     ring_params_at (sm_system (m_man m)) t = Inr ring \<and>
     unat (ring_code t) \<le> length (sys_ring_params (sm_system (m_man m))) \<and>
     unat (word_of_nat (rb_write_pointer_width_bytes ring) :: u8) \<le> 8 \<and>
     sm_packet_framer (m_man m) t = Some pf \<and> pf_inv pf \<and> pf_frame pf = [] \<and>
     sm_frame_packetizer (m_man m) t = Some fp \<and> fp_wf fp \<and> fp_packets_per_frame fp < 2 ^ 16 \<and>
     ceil_div (pf_frame_size pf) (fp_max_packet_size fp - 8) \<le> fp_packets_per_frame fp \<and>
     sm_frame_count (m_man m) t = Some n"

fun frame_packets :: "packet_framer \<Rightarrow> nat \<Rightarrow> parts list \<Rightarrow> bool" where
  "frame_packets pf packet_size [] = False"
| "frame_packets pf packet_size (x # xs) \<longleftrightarrow>
     initial_shape pf x \<and> list_all (subsequent_shape pf) xs \<and>
     list_all (\<lambda>p. length (packet_of p) = packet_size) (x # xs) \<and>
     pf_frame_size pf \<le> length (concat (map payload_of (x # xs))) \<and>
     length (concat (map payload_of (butlast (x # xs)))) < pf_frame_size pf"

lemma clear_read_errors_flags [simp]:
  "has_error (clear_read_errors sm) f \<longleftrightarrow> has_error sm f \<and>
     f \<notin> {downlink_buffering, reading_frame, reading_packet, reading_invalid, frame_packetizing, packet_framing}"
  by (auto simp: clear_read_errors_def)

lemma clear_read_errors_fields [simp]:
  "sm_frame_count (clear_read_errors sm) = sm_frame_count sm"
  "sm_packet_framer (clear_read_errors sm) = sm_packet_framer sm"
  "sm_system (clear_read_errors sm) = sm_system sm"
  by (simp_all add: clear_read_errors_def)

lemma set_packetizer_fields [simp]:
  "sm_frame_count (set_packetizer t fp sm) = sm_frame_count sm"
  "sm_packet_framer (set_packetizer t fp sm) = sm_packet_framer sm"
  "has_error (set_packetizer t fp sm) e = has_error sm e"
  by (simp_all add: set_packetizer_def has_error_def)

lemma increment_frame_count_fields [simp]:
  "sm_packet_framer (increment_frame_count t sm) = sm_packet_framer sm"
  by (simp add: increment_frame_count_def raise_error_def split: option.split)

text \<open>Everything after the packet loop.\<close>

lemma finish_frame:
  assumes "sm_packet_framer (m_man m) t = Some pf" and "sm_frame_packetizer (m_man m) t = Some fp"
    and "sm_frame_count (m_man m) t = Some n" and "fp_wf fp" and "fp_packets_per_frame fp < 2 ^ 64"
    and "ceil_div (length (pf_frame pf)) (fp_max_packet_size fp - 8) \<le> fp_packets_per_frame fp"
    and "read_frame t spw (word_of_nat (rb_write_pointer_width_bytes ring)) start 0 m0 = Some (Inr True, m)"
    and "start \<noteq> prior"
  shows "\<exists>m'. read_and_queue t spw ring start prior m0 = Some (Inr start, m') \<and>
    m_downlink m' = m_downlink m @ frame_elements n (fp_set_frame (pf_frame pf) fp) 0 \<and>
    m_replies m' = m_replies m \<and> m_sent m' = m_sent m \<and> m_send_fails m' = m_send_fails m \<and> m_deck m' = m_deck m \<and>
    sm_frame_count (m_man m') t = Some (n + 1) \<and>
    sm_packet_framer (m_man m') t = Some (pf_clear_frame pf) \<and>
    (\<forall>e \<in> {downlink_buffering, reading_frame, reading_packet, reading_invalid, frame_packetizing, packet_framing}.
       \<not> has_error (m_man m') e)"
proof -
  from queue_elements_ok [OF assms(1-6)] obtain fp' where q: "queue_elements t m = Some (Inr (), m\<lparr>
      m_downlink := m_downlink m @ frame_elements n (fp_set_frame (pf_frame pf) fp) 0,
      m_man := set_packetizer t fp' (m_man m)\<rparr>)" by blast
  show ?thesis
    using assms(1,3,8)
    by (simp add: read_and_queue_def bindM_steps(1) assms(7) q clear_framer_def increment_frame_count_def)
qed

text \<open>The loop on the packets of one frame, after the pointer has been read.\<close>

lemma read_frame_of_packets:
  assumes "readable spw e m" and "unat width \<le> 8" and "sm_packet_framer (m_man m) t = Some pf"
    and "pf_inv pf" and "pf_frame pf = []" and "frame_packets pf (expected_packet_size spw e) xs"
    and "m_replies m = map (Some \<circ> packet_of) xs @- script"
  obtains pf' m' where "read_frame t spw width start 0 m = Some (Inr True, m')" and "undisturbed m m'"
    and "sends_work m'" and "m_replies m' = script"
    and "m_sent m' = m_sent m @ map (Pair Tcp) (frame_requests m spw e width start 0 (length xs))"
    and "sm_packet_framer (m_man m') t = Some pf'"
    and "pf_frame pf' = take (pf_frame_size pf) (concat (map payload_of xs))"
    and "length (pf_frame pf') = pf_frame_size pf"
proof -
  obtain x ys where xs: "xs = x # ys" using assms(6) by (cases xs) auto
  obtain pf' where fills: "fills (map packet_of xs) pf pf'"
    and frame: "pf_frame pf' = take (pf_frame_size pf) (concat (map payload_of xs))"
    using reassembly_fills [of pf x ys] assms(4-6) unfolding xs by auto
  have "\<forall>p \<in> set (map packet_of xs). length p = expected_packet_size spw e"
    using assms(6) by (auto simp: xs list_all_iff)
  then obtain m' where "read_frame t spw width start 0 m = Some (Inr True, m')" "undisturbed m m'"
    "sends_work m'" "m_replies m' = script"
    "m_sent m' = m_sent m @ map (Pair Tcp) (frame_requests m spw e width start 0 (length xs))"
    "sm_packet_framer (m_man m') = (sm_packet_framer (m_man m))(t \<mapsto> pf')"
    using read_frame_fills [OF fills assms(1-3), of script start 0] assms(7) by auto
  moreover have "pf_frame_size pf \<le> length (concat (map payload_of xs))"
    using assms(6) unfolding xs by (simp only: frame_packets.simps)
  then have "length (pf_frame pf') = pf_frame_size pf" unfolding frame by simp
  ultimately show thesis using that frame by simp
qed



section \<open>The transaction on one frame\<close>

lemma transaction_run:
  assumes "frame_ready t spw e ring pf fp n m"
    and "frame_packets pf (expected_packet_size spw e) xs" and "pointer_reply reply"
    and "m_replies m = Some reply ## map (Some \<circ> packet_of) xs @- script"
    and "start = frame_address (sm_system (m_man m)) ring
      (unat (unsplat_from_4bytes (pointer_bytes (m_deck m) (sm_system (m_man m)) reply)))"
    and "start \<noteq> prior"
  obtains pf1 m' where "sync_remote_buffer_transaction t prior m = Some (Inr start, m')"
    and "pf_frame pf1 = take (pf_frame_size pf) (concat (map payload_of xs))"
    and "length (pf_frame pf1) = pf_frame_size pf"
    and "m_downlink m' = m_downlink m @ frame_elements n (fp_set_frame (pf_frame pf1) fp) 0"
    and "m_sent m' = m_sent m @ map (Pair Tcp) (pointer_request ring m #
      frame_requests m spw e (word_of_nat (rb_write_pointer_width_bytes ring)) start 0 (length xs))"
    and "m_replies m' = script" and "sends_work m'" and "m_deck m' = m_deck m"
    and "sm_frame_count (m_man m') t = Some (n + 1)" and "sm_packet_framer (m_man m') t = Some (pf_clear_frame pf1)"
    and "\<forall>e \<in> {downlink_buffering, reading_frame, reading_packet, reading_invalid, frame_packetizing, packet_framing}.
       \<not> has_error (m_man m') e"
proof -
  let ?width = "word_of_nat (rb_write_pointer_width_bytes ring) :: u8"
  note ready = assms(1) [unfolded frame_ready_def]
  have cmd: "read_write_pointer ring m =
      Some (Inr (Some (pointer_bytes (m_deck m) (sm_system (m_man m)) reply)), m\<lparr>
        m_send_fails := tl (m_send_fails m), m_sent := m_sent m @ [(Tcp, pointer_request ring m)],
        m_replies := map (Some \<circ> packet_of) xs @- script, m_man := drop_error reading_packet (m_man m)\<rparr>)"
    (is "_ = Some (_, ?m1)")
    using read_write_pointer_ok [OF _ _ assms(4,3)] ready by blast
  have run: "sync_remote_buffer_transaction t prior m = read_and_queue t spw ring start prior ?m1"
    using ready assms(5) find_buffers_ok [of ?m1 t pf fp]
    by (simp add: sync_remote_buffer_transaction_def bindM_steps(1) cmd)
  have "sends_work ?m1" using ready sends_work_tl [of m] by (simp add: readable_def sends_work_def)
  then have "readable spw e ?m1" "sm_packet_framer (m_man ?m1) t = Some pf" using ready by (simp_all add: readable_def)
  with ready assms(2) obtain pf1 m2 where m2: "read_frame t spw ?width start 0 ?m1 = Some (Inr True, m2)"
    "undisturbed ?m1 m2" "sends_work m2" "m_replies m2 = script"
    "m_sent m2 = m_sent ?m1 @ map (Pair Tcp) (frame_requests ?m1 spw e ?width start 0 (length xs))"
    "sm_packet_framer (m_man m2) t = Some pf1"
    and frame: "pf_frame pf1 = take (pf_frame_size pf) (concat (map payload_of xs))"
      "length (pf_frame pf1) = pf_frame_size pf"
    by (elim conjE) (rule read_frame_of_packets [of spw e ?m1 ?width t pf xs script start]; simp)
  have two: "sm_frame_packetizer (m_man m2) t = Some fp" "sm_frame_count (m_man m2) t = Some n"
    "m_downlink m2 = m_downlink m" "m_deck m2 = m_deck m"
    using m2(2) ready by (simp_all add: undisturbed_def)
  have small: "ceil_div (length (pf_frame pf1)) (fp_max_packet_size fp - 8) \<le> fp_packets_per_frame fp"
    "fp_packets_per_frame fp < 2 ^ 64" using ready frame(2) by auto
  have wf: "fp_wf fp" using ready by blast
  from finish_frame [OF m2(6) two(1,2) wf small(2,1) m2(1) assms(6)] obtain m3 where
    m3: "read_and_queue t spw ring start prior ?m1 = Some (Inr start, m3)"
      "m_downlink m3 = m_downlink m2 @ frame_elements n (fp_set_frame (pf_frame pf1) fp) 0"
      "m_replies m3 = m_replies m2" "m_sent m3 = m_sent m2" "m_send_fails m3 = m_send_fails m2" "m_deck m3 = m_deck m2"
      "sm_frame_count (m_man m3) t = Some (n + 1)"
      "sm_packet_framer (m_man m3) t = Some (pf_clear_frame pf1)"
      "\<forall>e \<in> {downlink_buffering, reading_frame, reading_packet, reading_invalid, frame_packetizing, packet_framing}.
         \<not> has_error (m_man m3) e" by blast
  have "sends_work m3" using m2(3) m3(5) by (simp add: sends_work_def)
  moreover have "m_sent m3 = m_sent m @ map (Pair Tcp) (pointer_request ring m #
      frame_requests m spw e ?width start 0 (length xs))"
    using m2(5) m3(4) frame_requests_same [of ?m1 m spw e ?width start 0 "length xs"] by simp
  ultimately show thesis
    using that [of m3 pf1] run m2 m3 two frame by simp
qed

section \<open>An example\<close>

definition ring_example_parameters :: ring_buffer_parameters where
  "ring_example_parameters = RingBufferParameters 5 0x1000 4 0x44 4 PC"

definition read_system :: system where
  "read_system = dispatch_system\<lparr>
     sys_ethernet := Some (Ethernet_static ''192.168.1.8'' 10030 TP_TCP 1000 4 4 0 0),
     sys_ring_params := [(PC, ring_example_parameters)]\<rparr>"

definition read_framer :: packet_framer where
  "read_framer = framer_example\<lparr>pf_static_strip_header_size := 12, pf_system := read_system\<rparr>"

definition read_packetizer :: frame_packetizer where
  "read_packetizer = (FramePacketizer_sized read_system 10 3)\<lparr>fp_type := PC\<rparr>"

definition example_packets :: "parts list" where
  "example_packets = [(replicate 13 0, [1, 2, 3], [9]), (replicate 12 0, [4, 5, 6, 7], [9])]"

definition example_reply :: bytes where
  "example_reply = replicate 22 0 @ [4, 0] @ [0, 0, 0x20, 0] @ [0]"

definition read_machine :: "script \<Rightarrow> machine" where
  "read_machine script = (machine_example read_system)\<lparr>
     m_man := add_packet_framer PC read_framer (add_frame_packetizer PC read_packetizer
       (m_man (machine_example read_system))),
     m_replies := script\<rparr>"

definition example_ethernet :: ethernet where
  "example_ethernet = Ethernet_static ''192.168.1.8'' 10030 TP_TCP 1000 4 4 0 0"

lemma example_size: "expected_packet_size cdte_spw_example example_ethernet = 17"
  by (simp add: expected_packet_size_def cdte_spw_example_def example_ethernet_def SpaceWire_static_def Ethernet_static_def
      DataLinkLayer_static_def link_defs)

lemma read_machine_simps:
  "sm_system (m_man (read_machine script)) = read_system" "m_replies (read_machine script) = script"
  "m_deck (read_machine script) = dispatch_deck" "m_downlink (read_machine script) = []"
  "sm_packet_framer (m_man (read_machine script)) PC = Some read_framer"
  by (simp_all add: read_machine_def machine_example_def add_timing_def SystemManager_def add_packet_framer_def
      add_frame_packetizer_def insert_count_def)

lemma read_system_simps:
  "sys_name read_system = ''cdte1''" "sys_spacewire read_system = Some cdte_spw_example"
  "sys_ethernet read_system = Some example_ethernet" "sys_hex read_system = 0x09"
  "ring_params_at read_system PC = Inr ring_example_parameters"
  "length (sys_ring_params read_system) = 1"
  by (simp_all add: read_system_def dispatch_system_def System_spacewire_def System_interfaces_def example_ethernet_def
      ring_params_at_def)

lemma example_ready:
  "frame_ready PC cdte_spw_example example_ethernet ring_example_parameters read_framer read_packetizer 0 (read_machine script)"
proof -
  have "readable cdte_spw_example example_ethernet (read_machine script)"
    by (simp add: readable_def example_size read_machine_simps read_system_simps vec_max_def)
      (simp add: read_machine_def machine_example_def add_timing_def SystemManager_def add_packet_framer_def
        add_frame_packetizer_def insert_count_def sends_work_def dispatch_timing_def)
  moreover have "pf_inv read_framer" "pf_frame read_framer = []" "pf_frame_size read_framer = 5"
    by (simp_all add: read_framer_def framer_example_def pf_inv_def)
  moreover have "fp_wf read_packetizer" "fp_packets_per_frame read_packetizer = 3" "fp_max_packet_size read_packetizer = 10"
    by (simp_all add: read_packetizer_def FramePacketizer_sized_def fp_wf_def)
  moreover have "sm_frame_packetizer (m_man (read_machine script)) PC = Some read_packetizer"
    "sm_frame_count (m_man (read_machine script)) PC = Some 0"
    by (simp_all add: read_machine_def machine_example_def add_timing_def SystemManager_def add_packet_framer_def
      add_frame_packetizer_def insert_count_def)
  ultimately show ?thesis
    by (simp add: frame_ready_def read_machine_simps read_system_simps ring_example_parameters_def RingBufferParameters_def
        ceil_div_def)
qed

lemma example_reply_data: "get_reply_data example_reply = [0, 0, 0x20, 0]" "length example_reply = 29"
  by code_simp+

lemma example_packets_ok:
  "frame_packets read_framer 17 example_packets" "pf_frame_size read_framer = 5"
  "concat (map payload_of example_packets) = [1, 2, 3, 4, 5, 6, 7]" "pointer_reply example_reply"
  "length example_packets = 2"
  by (simp_all add: example_packets_def read_framer_def framer_example_def pointer_reply_def example_reply_data)

lemma example_address:
  "frame_address read_system ring_example_parameters
     (unat (unsplat_from_4bytes (pointer_bytes dispatch_deck read_system example_reply))) = 0x1ffb"
proof -
  have "find_name name (deck_systems dispatch_deck) = (if name = ''cdte1'' then dispatch_system else null_sys)" for name
    by (simp add: dispatch_deck_def deck_example_def CommandDeck_default_def insert_command_def dispatch_system_def
        System_spacewire_def System_interfaces_def)
  then have "\<not> is_cmos dispatch_deck read_system"
    by (simp add: is_cmos_def get_sys_code_for_name_def get_sys_for_name_def read_system_simps null_sys_def System_named_def)
  then show ?thesis
    by (simp add: frame_address_def read_system_simps pointer_bytes_def example_reply_data unsplat_cons
        ring_example_parameters_def RingBufferParameters_def push_bit_eq_mult)
qed

section \<open>Properties\<close>

text \<open>C13. A frame in a remote ring buffer reaches the downlink: in a machine whose manager has a fresh framer, a
  well-formed packetizer and a counter for the type, when the peer answers the pointer request and then
  delivers the packets of one frame, the transaction returns the address it read, different from the last
  one. It made one request per reply; the new elements at the end of the downlink queue carry the frame's
  counter, type and system, and their payloads joined are the packets' payloads cut at the frame size.
  The counter has advanced, the framer is empty again, and the reading flags are clear.\<close>

theorem remote_frame_downlinked:
  assumes "frame_ready t spw e ring pf fp n m"
    and "frame_packets pf (expected_packet_size spw e) xs" and "pointer_reply reply"
    and "m_replies m = Some reply ## map (Some \<circ> packet_of) xs @- script"
    and "start = frame_address (sm_system (m_man m)) ring
      (unat (unsplat_from_4bytes (pointer_bytes (m_deck m) (sm_system (m_man m)) reply)))"
    and "start \<noteq> prior"
  shows "\<exists>es m'. sync_remote_buffer_transaction t prior m = Some (Inr start, m') \<and>
    m_downlink m' = m_downlink m @ es \<and>
    concat (map dbe_payload es) = take (pf_frame_size pf) (concat (map payload_of xs)) \<and>
    (\<forall>d \<in> set es. dbe_frame_counter d = n \<and> dbe_system d = Some (fp_system fp) \<and> dbe_type d = fp_type fp) \<and>
    length (m_sent m') = length (m_sent m) + 1 + length xs \<and> m_replies m' = script \<and>
    sm_frame_count (m_man m') t = Some (n + 1) \<and>
    (\<exists>pf'. sm_packet_framer (m_man m') t = Some pf' \<and> pf_frame pf' = [] \<and> \<not> pf_frame_done pf') \<and>
    (\<forall>e \<in> {downlink_buffering, reading_frame, reading_packet, reading_invalid, frame_packetizing, packet_framing}.
       \<not> has_error (m_man m') e)"
proof -
  obtain pf1 m3 where r: "sync_remote_buffer_transaction t prior m = Some (Inr start, m3)"
    "pf_frame pf1 = take (pf_frame_size pf) (concat (map payload_of xs))"
    "m_downlink m3 = m_downlink m @ frame_elements n (fp_set_frame (pf_frame pf1) fp) 0"
    "m_sent m3 = m_sent m @ map (Pair Tcp) (pointer_request ring m #
      frame_requests m spw e (word_of_nat (rb_write_pointer_width_bytes ring)) start 0 (length xs))" "m_replies m3 = script"
    "sm_frame_count (m_man m3) t = Some (n + 1)" "sm_packet_framer (m_man m3) t = Some (pf_clear_frame pf1)"
    "\<forall>e \<in> {downlink_buffering, reading_frame, reading_packet, reading_invalid, frame_packetizing, packet_framing}.
       \<not> has_error (m_man m3) e"
    by (rule transaction_run [OF assms])
  have "0 < fp_max_packet_size (fp_set_frame (pf_frame pf1) fp) - 8"
    using assms(1) by (simp add: frame_ready_def fp_wf_def fp_set_frame_def)
  note facts = frame_elements_facts [OF this, where n = n and k = 0]
  show ?thesis
  proof (intro exI conjI)
    show "concat (map dbe_payload (frame_elements n (fp_set_frame (pf_frame pf1) fp) 0)) =
        take (pf_frame_size pf) (concat (map payload_of xs))"
      using facts(1) r(2) by (simp add: fp_set_frame_def)
    show "\<forall>d \<in> set (frame_elements n (fp_set_frame (pf_frame pf1) fp) 0).
        dbe_frame_counter d = n \<and> dbe_system d = Some (fp_system fp) \<and> dbe_type d = fp_type fp"
      using facts(2) by (simp add: fp_set_frame_def)
    show "pf_frame (pf_clear_frame pf1) = []" "\<not> pf_frame_done (pf_clear_frame pf1)" by (simp_all add: pf_clear_frame_def)
  qed (use r in simp_all)
qed

lemma remote_frame_downlinked_witness:
  "\<exists>es m'. sync_remote_buffer_transaction PC 0
      (read_machine (Some example_reply ## map (Some \<circ> packet_of) example_packets @- silence)) = Some (Inr 0x1ffb, m') \<and>
    m_downlink m' = es \<and> concat (map dbe_payload es) = [1, 2, 3, 4, 5] \<and>
    length (m_sent m') = 3 \<and> sm_frame_count (m_man m') PC = Some 1"
proof -
  have "frame_packets read_framer (expected_packet_size cdte_spw_example example_ethernet) example_packets"
    using example_packets_ok(1) by (simp only: example_size)
  from remote_frame_downlinked [OF example_ready this example_packets_ok(4), where script = silence and prior = 0,
      OF _ refl, of "Some example_reply ## map (Some \<circ> packet_of) example_packets @- silence"]
  show ?thesis
    by (simp add: read_machine_simps example_address example_packets_ok(2,3,5))
      (auto simp: read_machine_def machine_example_def numeral_eq_Suc)
qed



end
