(* ===== verification/Responder.thy ===== *)
theory Responder
  imports Remote_Buffer
begin

text \<open>
  The detector simulator, \<open>src/Foxsimile.cpp\<close>: \<open>foxsimile::Responder\<close>, which plays the detectors for a
  Formatter under test. It answers a request from a table, or reads it as an RMAP packet behind the 12-byte
  prefix and answers from the memory image of the system addressed; a timer moves the write pointers of the
  images forward.

  \<^item> The operations are computations \<open>(responder, 'a) op\<close> of \<open>Machine\<close>; a fault leaves the state of the
    throw. A \<open>throw\<close> of a string literal is not a \<open>std::exception\<close>, so the handlers do not catch it.
  \<^item> The asynchronous operations of the socket and the timer are counters of the handlers that wait. What
    they deliver (an error code and bytes) is the argument of the handler.
  \<^item> \<open>std::map\<close> and \<open>std::unordered_map\<close> are maps; the hash map \<open>ring_params\<close> is traversed in the order of its
    association list. The files read by the constructor are a function of their names (an unreadable file
    reads as no bytes).
  \<^item> \<open>make_reply\<close> reads element 1 of a vector of one element. What that read gives is the argument
    \<open>behind\<close>: \<open>Inl Undefined\<close> for the C++ standard, \<open>Inr b\<close> for a memory that holds \<open>b\<close> there.
  \<^item> The console output is not modelled.
\<close>

section \<open>State\<close>

datatype response_strategies = Strategy_Ignore | Strategy_Lookup | Strategy_Random | Strategy_Mmap

fun strategy_code :: "response_strategies \<Rightarrow> u8" where
  "strategy_code Strategy_Ignore = 0x00"
| "strategy_code Strategy_Lookup = 0x01"
| "strategy_code Strategy_Random = 0x02"
| "strategy_code Strategy_Mmap = 0x03"

type_synonym mmaps = "u8 \<rightharpoonup> bytes"

record responder =
  rs_response_lookup :: "bytes \<rightharpoonup> bytes"
  rs_mmap_files :: "(u8 \<times> string) list"
  rs_mmaps :: mmaps
  rs_strategy :: response_strategies
  rs_lookup :: bool
  rs_default_response :: bytes
  rs_read_buffer :: bytes
  rs_accumulator :: bytes
  rs_static_latency_us :: u64
  rs_bytewise_latency_us :: u64
  rs_frame_update_ms :: nat
  rs_managers :: "system_manager list"
  rs_deck :: command_deck
  rs_code_by_rmap_address :: "u8 \<rightharpoonup> u8"
  rs_accepts :: nat              \<comment> \<open>handlers waiting for a connection\<close>
  rs_receives :: nat             \<comment> \<open>handlers waiting for bytes\<close>
  rs_timers :: nat               \<comment> \<open>handlers waiting for the frame timer\<close>
  rs_sent :: "bytes list"
  rs_send_fails :: "bool list"   \<comment> \<open>whether the next calls of \<open>send\<close> throw\<close>

text \<open>\<open>std::map::insert\<close> keeps an entry that is there.\<close>

definition map_insert :: "'k \<Rightarrow> 'v \<Rightarrow> ('k \<rightharpoonup> 'v) \<Rightarrow> ('k \<rightharpoonup> 'v)" where
  "map_insert k v m = (if m k = None then m(k \<mapsto> v) else m)"

fun construct_rmap_lookup :: "system_manager list \<Rightarrow> (u8 \<rightharpoonup> u8) \<Rightarrow> (u8 \<rightharpoonup> u8)" where
  "construct_rmap_lookup [] codes = codes"
| "construct_rmap_lookup (man # managers) codes = construct_rmap_lookup managers
     (case sys_spacewire (sm_system man) of
        None \<Rightarrow> codes
      | Some spw \<Rightarrow> map_insert (spw_target_logical_address spw) (sys_hex (sm_system man)) codes)"

text \<open>The acceptor is opened on the Ethernet endpoint of the first system; \<open>opens\<close> says whether the address
  parses and the acceptor can listen there.\<close>

definition open_acceptor :: "(string \<Rightarrow> u16 \<Rightarrow> bool) \<Rightarrow> system_manager list \<Rightarrow> unit result" where
  "open_acceptor opens managers =
     (case managers of
        [] \<Rightarrow> Inl Undefined
      | man # _ \<Rightarrow> bindR (option_deref (sys_ethernet (sm_system man))) (\<lambda>e.
          if opens (eth_address e) (eth_port e) then Inr () else Inl System_Error))"

definition Responder_lookup ::
    "(string \<Rightarrow> u16 \<Rightarrow> bool) \<Rightarrow> (bytes \<rightharpoonup> bytes) \<Rightarrow> system_manager list \<Rightarrow> command_deck \<Rightarrow> responder result" where
  "Responder_lookup opens response_lookup managers deck =
     bindR (open_acceptor opens managers) (\<lambda>_. Inr \<lparr>
       rs_response_lookup = response_lookup,
       rs_mmap_files = [],
       rs_mmaps = Map.empty,
       rs_strategy = Strategy_Lookup,
       rs_lookup = True,
       rs_default_response = [0x00],
       rs_read_buffer = replicate 2048 0,
       rs_accumulator = [],
       rs_static_latency_us = 1000,
       rs_bytewise_latency_us = 10,
       rs_frame_update_ms = 250,
       rs_managers = managers,
       rs_deck = deck,
       rs_code_by_rmap_address = construct_rmap_lookup managers Map.empty,
       rs_accepts = 2,
       rs_receives = 0,
       rs_timers = 0,
       rs_sent = [],
       rs_send_fails = []\<rparr>)"

fun load_mmaps :: "(string \<Rightarrow> bytes) \<Rightarrow> (u8 \<times> string) list \<Rightarrow> mmaps \<Rightarrow> mmaps" where
  "load_mmaps files [] mmaps = mmaps"
| "load_mmaps files ((hex, name) # ps) mmaps = load_mmaps files ps (map_insert hex (files name) mmaps)"

definition Responder_mmap ::
    "(string \<Rightarrow> u16 \<Rightarrow> bool) \<Rightarrow> (string \<Rightarrow> bytes) \<Rightarrow> (u8 \<times> string) list \<Rightarrow> system_manager list \<Rightarrow> command_deck
      \<Rightarrow> responder result" where
  "Responder_mmap opens files mmap_files managers deck =
     bindR (open_acceptor opens managers) (\<lambda>_. Inr \<lparr>
       rs_response_lookup = Map.empty,
       rs_mmap_files = mmap_files,
       rs_mmaps = load_mmaps files mmap_files Map.empty,
       rs_strategy = Strategy_Mmap,
       rs_lookup = False,
       rs_default_response = [0x00],
       rs_read_buffer = replicate 2048 0,
       rs_accumulator = [],
       rs_static_latency_us = 1000,
       rs_bytewise_latency_us = 10,
       rs_frame_update_ms = 250,
       rs_managers = managers,
       rs_deck = deck,
       rs_code_by_rmap_address = construct_rmap_lookup managers Map.empty,
       rs_accepts = 1,
       rs_receives = 0,
       rs_timers = 1,
       rs_sent = [],
       rs_send_fails = []\<rparr>)"

definition add_response :: "bytes \<Rightarrow> bytes \<Rightarrow> responder \<Rightarrow> bool \<times> responder" where
  "add_response message response s =
     (rs_response_lookup s message = None,
      s\<lparr>rs_response_lookup := map_insert message response (rs_response_lookup s)\<rparr>)"

definition add_default_response :: "bytes \<Rightarrow> responder \<Rightarrow> responder" where
  "add_default_response message s = s\<lparr>rs_default_response := message\<rparr>"

section \<open>Messages without a logger\<close>

text \<open>The simulator never sets up the logger of \<open>Utilities\<close>. Whatever reports an error to it (a lookup in the deck that
  finds nothing, a checksum of an unsupported version, an integer of fewer than four bytes) writes through a null
  pointer.\<close>

definition unlogged_sys_for_code :: "u8 \<Rightarrow> command_deck \<Rightarrow> system result" where
  "unlogged_sys_for_code code deck =
     (if list_ex (\<lambda>sys. sys_hex sys = code) (deck_systems deck) then Inr (get_sys_for_code code deck) else Inl Undefined)"

definition unlogged_crc :: "spacewire \<Rightarrow> bytes \<Rightarrow> u8 result" where
  "unlogged_crc spw data = (if spw_crc_version spw = CHR ''f'' then Inr (spw_crc spw data) else Inl Undefined)"

definition unlogged_unsplat :: "bytes \<Rightarrow> u32 result" where
  "unlogged_unsplat data = (if length data < 4 then Inl Undefined else Inr (unsplat_from_4bytes data))"

section \<open>Memory images\<close>

text \<open>\<open>mem.at(base + i) = src.at(i)\<close> for the indices in turn; a fault leaves what was stored before.\<close>

fun store_bytes :: "nat \<Rightarrow> bytes \<Rightarrow> nat list \<Rightarrow> bytes \<Rightarrow> unit result \<times> bytes" where
  "store_bytes base src [] mem = (Inr (), mem)"
| "store_bytes base src (i # is) mem =
     (case bindR (vec_at src i) (\<lambda>b. vec_set (i + base) b mem) of
        Inl e \<Rightarrow> (Inl e, mem)
      | Inr mem' \<Rightarrow> store_bytes base src is mem')"

definition is_ring_buffer :: "system \<Rightarrow> nat \<Rightarrow> nat \<Rightarrow> ring_type" where
  "is_ring_buffer sys address offset =
     (let first = address; last = sz_add address offset in
      if contains ''cdte1'' (sys_name sys) then
        (if 0x00400000 \<le> first \<and> last < 0x022a2df0 then PC else RB_NONE)
      else if contains ''cdte2'' (sys_name sys) then
        (if 0x02300000 \<le> first \<and> last < 0x041a2df0 then PC else RB_NONE)
      else if contains ''cdte3'' (sys_name sys) then
        (if 0x04200000 \<le> first \<and> last < 0x060a2df0 then PC else RB_NONE)
      else if contains ''cdte4'' (sys_name sys) then
        (if 0x06100000 \<le> first \<and> last < 0x07fa2df0 then PC else RB_NONE)
      else if contains ''cmos'' (sys_name sys) then
        (if 0x1000 \<le> first \<and> last < 0x04401000 then QL
         else if 0x04401000 \<le> first \<and> last < 0x07a01000 then PC
         else RB_NONE)
      else RB_NONE)"

text \<open>\<open>operator[]\<close> of the two hash maps inserts a default value for a missing key.\<close>

definition ring_params_index :: "ring_type \<Rightarrow> system \<Rightarrow> ring_buffer_parameters \<times> system" where
  "ring_params_index t sys =
     (case map_of (sys_ring_params sys) t of
        Some r \<Rightarrow> (r, sys)
      | None \<Rightarrow> (RingBufferParameters_default,
          sys\<lparr>sys_ring_params := sys_ring_params sys @ [(t, RingBufferParameters_default)]\<rparr>))"

definition mmap_index :: "u8 \<Rightarrow> mmaps \<Rightarrow> bytes \<times> mmaps" where
  "mmap_index hex maps = (case maps hex of Some mem \<Rightarrow> (mem, maps) | None \<Rightarrow> ([], maps(hex \<mapsto> [])))"

text \<open>Stride, length and start of the ring, all \<open>uint32_t\<close>.\<close>

definition ring_geometry :: "system \<Rightarrow> ring_type \<Rightarrow> (u32 \<times> u32 \<times> u32) result" where
  "ring_geometry sys t =
     (if contains ''cdte'' (sys_name sys) then
        bindR (ring_params_at sys t) (\<lambda>r.
          let stride = word_of_nat (rb_frame_size_bytes r)
          in Inr (stride, 980 * stride, rb_start_address r))
      else if contains ''cmos'' (sys_name sys) then
        (if t = PC then bindR (ring_params_at sys t) (\<lambda>r. Inr (0x1b0000, 32 * 0x1b0000, rb_start_address r))
         else if t = QL then bindR (ring_params_at sys t) (\<lambda>r. Inr (0x220000, 32 * 0x220000, rb_start_address r))
         else Inr (0, 0, 0))
      else Inl (Thrown ''Trying to advance write pointer for wrong system!''))"

definition next_write_pointer :: "u32 \<times> u32 \<times> u32 \<Rightarrow> u32 \<Rightarrow> u32" where
  "next_write_pointer geometry current =
     (case geometry of (stride, mod_size, start) \<Rightarrow>
       let new = stride + current in if new > mod_size + start then start else new)"

definition advance_write_pointer :: "ring_type \<Rightarrow> (system \<times> mmaps, unit) op" where
  "advance_write_pointer t =
     bindM (getM fst) (\<lambda>sys.
     bindM (liftR (ring_geometry sys t)) (\<lambda>geometry.
     bindM (modifyM (\<lambda>(sys, maps). (snd (ring_params_index t sys), maps))) (\<lambda>_.
     bindM (modifyM (\<lambda>(sys, maps). (sys, snd (mmap_index (sys_hex sys) maps)))) (\<lambda>_.
     let r = fst (ring_params_index t sys);
         width = rb_write_pointer_width_bytes r;
         start = unat (rb_write_pointer_address r) in
     bindM (getM (\<lambda>(sys, maps). fst (mmap_index (sys_hex sys) maps))) (\<lambda>mem.
     bindM (liftR (vec_slice start (start + width) mem)) (\<lambda>current_bytes.
     bindM (liftR (unlogged_unsplat current_bytes)) (\<lambda>current.
     bindM (liftR (splat_to_nbytes 4 (ucast (next_write_pointer geometry current)))) (\<lambda>new_bytes.
     case store_bytes start new_bytes [0..<width] mem of (r, mem') \<Rightarrow>
       bindM (modifyM (\<lambda>(sys, maps). (sys, maps(sys_hex sys \<mapsto> mem')))) (\<lambda>_. liftR r)))))))))"

text \<open>The overload for a manager, in the responder: manager \<open>i\<close> of its list and the images.\<close>

definition on_manager :: "nat \<Rightarrow> (system \<times> mmaps, 'a) op \<Rightarrow> (responder, 'a) op" where
  "on_manager i f s =
     (case f (sm_system (rs_managers s ! i), rs_mmaps s) of
        None \<Rightarrow> None
      | Some (r, sys, maps) \<Rightarrow> Some (r, s\<lparr>rs_mmaps := maps,
          rs_managers := (rs_managers s)[i := (rs_managers s ! i)\<lparr>sm_system := sys\<rparr>]\<rparr>))"

fun for_each :: "('b \<Rightarrow> ('s, unit) op) \<Rightarrow> 'b list \<Rightarrow> ('s, unit) op" where
  "for_each f [] = ret ()"
| "for_each f (x # xs) = bindM (f x) (\<lambda>_. for_each f xs)"

definition handle_frame_timer :: "(responder, unit) op" where
  "handle_frame_timer =
     bindM (catchM is_std_exception
       (bindM (getM (\<lambda>s. length (rs_managers s))) (\<lambda>n.
        for_each (\<lambda>i. bindM (getM (\<lambda>s. map fst (sys_ring_params (sm_system (rs_managers s ! i))))) (\<lambda>types.
          for_each (\<lambda>t. on_manager i (advance_write_pointer t)) types)) [0..<n]))
       (ret ()))
     (\<lambda>_. modifyM (\<lambda>s. s\<lparr>rs_timers := Suc (rs_timers s)\<rparr>))"

section \<open>Answers from the memory images\<close>

text \<open>The search for a target address from the front of the message.\<close>

fun first_index :: "'a \<Rightarrow> 'a list \<Rightarrow> nat" where
  "first_index a [] = 0"
| "first_index a (x # xs) = (if x = a then 0 else Suc (first_index a xs))"

fun sender_indices :: "bytes \<Rightarrow> system_manager list \<Rightarrow> nat list result" where
  "sender_indices message [] = Inr []"
| "sender_indices message (man # managers) =
     bindR (option_deref (sys_spacewire (sm_system man))) (\<lambda>spw.
       if spw_target_logical_address spw < 10
       then Inl (Thrown ''target logical address collides with port numbering'')
       else bindR (sender_indices message managers) (\<lambda>ks.
         Inr (first_index (spw_target_logical_address spw) message # ks)))"

definition identify_sender :: "responder \<Rightarrow> bytes \<Rightarrow> u8 result" where
  "identify_sender s message =
     (case message of
        [] \<Rightarrow> Inl Undefined
      | b # _ \<Rightarrow>
          if b \<noteq> 0 then Inl (Thrown ''message starts wrong'')
          else if length message < 33 then Inl (Thrown ''message size way too short'')
          else bindR (sender_indices message (rs_managers s)) (\<lambda>sys_k.
            if sys_k = [] then Inl Undefined
            else let k = Min (set sys_k);
                     candidate = (if k < length message - 4 \<and> message ! (k + 1) = 0x01 \<and> message ! (k + 3) = 0x02
                                  then message ! k else 0)
                 in Inr (case rs_code_by_rmap_address s candidate of None \<Rightarrow> 0xff | Some code \<Rightarrow> code)))"

text \<open>The fields of a request, read from the RMAP packet behind the prefix. The iterator ranges are unchecked,
  the single bytes are read with \<open>at\<close>.\<close>

record rmap_request =
  rq_instruction :: u8
  rq_key :: u8
  rq_reply_path :: bytes
  rq_initiator :: u8
  rq_transaction_id :: bytes
  rq_extended_address :: u8
  rq_address :: nat
  rq_data_length_bytes :: bytes
  rq_data_length :: nat

text \<open>The padding zeros in front of the reply path are dropped (a path of zeros stays whole).\<close>

definition trim_reply_path :: "bytes \<Rightarrow> bytes" where
  "trim_reply_path path = (if \<forall>b \<in> set path. b = 0 then path else dropWhile (\<lambda>b. b = 0) path)"

definition instruction_reply_size :: "u8 \<Rightarrow> nat" where
  "instruction_reply_size instruction = unat (4 * (instruction AND 0x03))"

text \<open>Shifts of a byte promoted to \<open>int\<close>, masked; the high byte is masked to \<open>unsigned int\<close>.\<close>

definition address_of :: "bytes \<Rightarrow> nat" where
  "address_of b = unat (((push_bit 24 (ucast (b ! 0)) AND 0xff000000) OR (push_bit 16 (ucast (b ! 1)) AND 0x00ff0000)
     OR (push_bit 8 (ucast (b ! 2)) AND 0x0000ff00) OR (ucast (b ! 3) AND 0x000000ff)) :: u32)"

definition data_length_of :: "bytes \<Rightarrow> nat" where
  "data_length_of b = unat (((push_bit 16 (ucast (b ! 0)) AND 0xff0000) OR (push_bit 8 (ucast (b ! 1)) AND 0x00ff00)
     OR (ucast (b ! 2) AND 0x0000ff)) :: u32)"

definition parse_request :: "nat \<Rightarrow> bytes \<Rightarrow> rmap_request result" where
  "parse_request path_size tail =
     bindR (vec_at tail (path_size + 2)) (\<lambda>instruction.
     bindR (vec_at tail (path_size + 3)) (\<lambda>key.
     let reply_size = instruction_reply_size instruction;
         base = path_size + 4 + reply_size in
     bindR (vec_slice (path_size + 4) base tail) (\<lambda>reply_path.
     bindR (vec_at tail base) (\<lambda>initiator.
     bindR (vec_slice (base + 1) (base + 1 + 1) tail) (\<lambda>transaction_id.
     bindR (vec_at tail (base + 3)) (\<lambda>extended_address.
     bindR (vec_slice (base + 4) (base + 4 + 4) tail) (\<lambda>address_bytes.
     bindR (vec_slice (base + 8) (base + 8 + 3) tail) (\<lambda>data_length_bytes.
       Inr \<lparr>rq_instruction = instruction,
            rq_key = key,
            rq_reply_path = trim_reply_path reply_path,
            rq_initiator = initiator,
            rq_transaction_id = transaction_id,
            rq_extended_address = extended_address,
            rq_address = address_of address_bytes,
            rq_data_length_bytes = data_length_bytes,
            rq_data_length = data_length_of data_length_bytes\<rparr>))))))))"

text \<open>The reply to a read: prefix with the length, RMAP header with its checksum, the bytes and theirs.\<close>

definition memory_reply :: "u8 result \<Rightarrow> spacewire \<Rightarrow> rmap_request \<Rightarrow> bytes \<Rightarrow> bytes result" where
  "memory_reply behind spw rq mem =
     bindR (vec_slice (rq_address rq) (rq_address rq + rq_data_length rq) mem) (\<lambda>read_data.
     bindR behind (\<lambda>transaction_id_1.
     let header = [rq_initiator rq, 0x01, (rq_instruction rq AND 0x03) OR 0x08, 0x00,
                   spw_source_logical_address spw, rq_transaction_id rq ! 0, transaction_id_1, 0x00]
           @ rq_data_length_bytes rq in
     bindR (unlogged_crc spw header) (\<lambda>header_crc.
     bindR (unlogged_crc spw read_data) (\<lambda>data_crc.
     let packet = header @ [header_crc] @ read_data @ [data_crc] in
     bindR (splat_to_nbytes 4 (word_of_nat (length packet))) (\<lambda>size_bytes.
       Inr (replicate 8 0 @ size_bytes @ packet))))))"

text \<open>The access to the image of the system: a write, or a read.\<close>

definition serve_request :: "u8 result \<Rightarrow> system \<Rightarrow> spacewire \<Rightarrow> bytes \<Rightarrow> rmap_request \<Rightarrow> (responder, bytes) op" where
  "serve_request behind sys spw tail rq =
     bindM (liftR (option_at (ring_name (is_ring_buffer sys (rq_address rq) (rq_data_length rq))))) (\<lambda>_.
     bindM (getM rs_mmaps) (\<lambda>maps.
     case maps (sys_hex sys) of
       None \<Rightarrow> ret []
     | Some mem \<Rightarrow>
         if bit (rq_instruction rq) 5 then
           (let base = length (spw_target_path_address spw) + 4 + instruction_reply_size (rq_instruction rq) + 12 in
            bindM (liftR (vec_slice base (base + rq_data_length rq) tail)) (\<lambda>data_bytes.
            case store_bytes (rq_address rq) data_bytes [0..<rq_data_length rq] mem of (r, mem') \<Rightarrow>
            bindM (modifyM (\<lambda>s. s\<lparr>rs_mmaps := (rs_mmaps s)(sys_hex sys \<mapsto> mem')\<rparr>)) (\<lambda>_.
            bindM (liftR r) (\<lambda>_.
            if bit (rq_instruction rq) 3 then ret [] else ret [0x01, 0x01, 0x01, 0x01]))))
         else if \<not> bit (rq_instruction rq) 3 then ret []
         else liftR (memory_reply behind spw rq mem)))"

definition make_reply :: "u8 result \<Rightarrow> bytes \<Rightarrow> (responder, bytes) op" where
  "make_reply behind message =
     bindM (liftR (option_deref (case message of [] \<Rightarrow> None | b # _ \<Rightarrow> Some b))) (\<lambda>first.
     if first \<noteq> 0 then liftR (Inl (Thrown ''message starts wrong''))
     else if length message < 12 then liftR (Inl (Thrown ''message size way too short''))
     else bindM (liftR (vec_slice 7 11 message)) (\<lambda>tail_size_bytes.
     if length message - 12 < unat (unsplat_from_4bytes tail_size_bytes)
     then liftR (Inl (Thrown ''message too short''))
     else let tail = drop 12 message in
     bindM (getM (\<lambda>s. identify_sender s message)) (\<lambda>sender.
     bindM (liftR sender) (\<lambda>code.
     bindM (getM rs_deck) (\<lambda>deck.
     bindM (liftR (unlogged_sys_for_code code deck)) (\<lambda>sys.
     case sys_spacewire sys of
       None \<Rightarrow> ret []
     | Some spw \<Rightarrow>
         bindM (liftR (parse_request (length (spw_target_path_address spw)) tail)) (\<lambda>rq.
         serve_request behind sys spw tail rq)))))))"

section \<open>Handlers\<close>

definition get_response :: "u8 result \<Rightarrow> bytes \<Rightarrow> (responder, bytes) op" where
  "get_response behind message =
     catchM is_std_exception
       (bindM (getM (\<lambda>s. (rs_lookup s, rs_response_lookup s message))) (\<lambda>(lookup, response).
        if lookup then liftR (option_at response) else make_reply behind message))
       (ret [])"

definition send_response :: "bytes \<Rightarrow> (responder, unit) op" where
  "send_response response s =
     (if response = [] then Some (Inr (), s)
      else let s' = s\<lparr>rs_send_fails := tl (rs_send_fails s)\<rparr> in
        if rs_send_fails s \<noteq> [] \<and> hd (rs_send_fails s) then Some (Inl System_Error, s')
        else Some (Inr (), s'\<lparr>rs_sent := rs_sent s @ [response]\<rparr>))"

definition async_receive :: "(responder, unit) op" where
  "async_receive = modifyM (\<lambda>s. s\<lparr>rs_receives := Suc (rs_receives s)\<rparr>)"

definition async_accept :: "(responder, unit) op" where
  "async_accept = modifyM (\<lambda>s. s\<lparr>rs_accepts := Suc (rs_accepts s)\<rparr>)"

text \<open>The first argument says whether there is an error.\<close>

definition handle_accept :: "bool \<Rightarrow> (responder, unit) op" where
  "handle_accept err = (if \<not> err then async_receive else ret ())"

definition end_session :: "(responder, unit) op" where
  "end_session = async_accept"

datatype receive_error = No_Error | Eof | Connection_Aborted | Connection_Reset | Other_Error

definition clear_accumulator :: "(responder, unit) op" where
  "clear_accumulator = modifyM (\<lambda>s. s\<lparr>rs_accumulator := []\<rparr>)"

text \<open>A message is taken from the accumulator when the length its prefix announces has arrived, or two bytes of
  which the first is not 0; whatever follows it in the accumulator is dropped.\<close>

definition take_message :: "u8 result \<Rightarrow> (responder, unit) op" where
  "take_message behind =
     bindM (getM rs_accumulator) (\<lambda>acc.
       if 12 \<le> length acc then
         (let foot = drop 12 acc;
              purported_length = unat (unsplat_from_4bytes (take 4 (drop 8 acc))) in
          if purported_length \<le> length foot then
            (let working_buffer = take (12 + purported_length) acc in
             bindM (modifyM (\<lambda>s. s\<lparr>rs_accumulator := drop purported_length acc\<rparr>)) (\<lambda>_.
             bindM (get_response behind working_buffer) (\<lambda>response.
             bindM (send_response response) (\<lambda>_. clear_accumulator))))
          else ret ())
       else if length acc = 2 \<and> acc ! 0 \<noteq> 0x00 then
         bindM (get_response behind acc) (\<lambda>response.
         bindM (send_response response) (\<lambda>_. clear_accumulator))
       else ret ())"

definition await_full_buffer :: "u8 result \<Rightarrow> receive_error \<Rightarrow> nat \<Rightarrow> (responder, unit) op" where
  "await_full_buffer behind err byte_count =
     (if err \<in> {Eof, Connection_Aborted, Connection_Reset} then end_session
      else
        bindM (getM rs_read_buffer) (\<lambda>buffer.
        bindM (liftR (vec_resize byte_count buffer)) (\<lambda>buffer.
        bindM (modifyM (\<lambda>s. s\<lparr>rs_read_buffer := buffer, rs_accumulator := rs_accumulator s @ buffer\<rparr>)) (\<lambda>_.
        bindM (take_message behind) (\<lambda>_.
        bindM (modifyM (\<lambda>s. s\<lparr>rs_read_buffer := replicate 2048 0\<rparr>)) (\<lambda>_. async_receive))))))"

text \<open>What runs a handler: a connection (or its failure), bytes in the read buffer (at most its size) or an error,
  the timer. A handler runs when one of its kind waits.\<close>

datatype event =
    Accepted bool
  | Received receive_error bytes "u8 result"
  | Frame_Timer

fun waits :: "event \<Rightarrow> responder \<Rightarrow> bool" where
  "waits (Accepted _) s = (0 < rs_accepts s)"
| "waits (Received _ data _) s = (0 < rs_receives s \<and> length data \<le> length (rs_read_buffer s))"
| "waits Frame_Timer s = (0 < rs_timers s)"

fun dispatch :: "event \<Rightarrow> (responder, unit) op" where
  "dispatch (Accepted err) =
     bindM (modifyM (\<lambda>s. s\<lparr>rs_accepts := rs_accepts s - 1\<rparr>)) (\<lambda>_. handle_accept err)"
| "dispatch (Received err data behind) =
     bindM (modifyM (\<lambda>s. s\<lparr>rs_receives := rs_receives s - 1,
       rs_read_buffer := data @ drop (length data) (rs_read_buffer s)\<rparr>)) (\<lambda>_.
     await_full_buffer behind err (length data))"
| "dispatch Frame_Timer =
     bindM (modifyM (\<lambda>s. s\<lparr>rs_timers := rs_timers s - 1\<rparr>)) (\<lambda>_. handle_frame_timer)"

inductive handles :: "responder \<Rightarrow> event list \<Rightarrow> responder \<Rightarrow> bool" where
  handles_none: "handles s [] s"
| handles_event: "waits e s \<Longrightarrow> dispatch e s = Some (Inr (), s') \<Longrightarrow> handles s' es s'' \<Longrightarrow> handles s (e # es) s''"

code_pred (modes: i \<Rightarrow> i \<Rightarrow> o \<Rightarrow> bool) handles .

inductive_simps handles_simps [simp]: "handles s [] s'" "handles s (e # es) s'"

end
