(* ===== verification/Traffic.thy ===== *)
theory Traffic
  imports Command_Dispatch
begin

text \<open>
  Ground traffic (\<open>src/TransportLayer.cpp\<close>): sending the downlink queue, receiving uplinked commands into
  the queues of their systems, waiting for the start command, and the options of the serial ports.
\<close>

section \<open>Downlink\<close>

text \<open>\<open>try_dequeue\<close> assigns the first element of the queue to the variable and removes it.\<close>

definition set_downlink :: "dbe list \<Rightarrow> unit io" where
  "set_downlink q = modifyM (\<lambda>m. m\<lparr>m_downlink := q\<rparr>)"

text \<open>The loop, after an element was dequeued into \<open>dbel\<close>; \<open>queue\<close> is what is left. The result is
  \<open>has_data\<close>.\<close>

fun downlink_loop :: "dbe list \<Rightarrow> dbe \<Rightarrow> bool io" where
  "downlink_loop [] dbel =
     bindM (liftR (option_deref (dbe_system dbel))) (\<lambda>sys.
       if sys_hex sys = 0x05 then ret True
       else bindM (liftR (dbe_get_packet dbel)) (\<lambda>packet.
            bindM (send Udp_Ground packet) (\<lambda>_. ret False)))"
| "downlink_loop (d # queue) dbel =
     bindM (liftR (option_deref (dbe_system dbel))) (\<lambda>sys.
       if sys_hex sys = 0x05 then ret True
       else bindM (liftR (dbe_get_packet dbel)) (\<lambda>packet.
            bindM (send Udp_Ground packet) (\<lambda>_.
            bindM (set_downlink queue) (\<lambda>_. downlink_loop queue (dbe_assign dbel d)))))"

definition gse_packet_size :: "ethernet \<Rightarrow> nat" where
  "gse_packet_size e =
     sz_add (sz_add (dl_max_payload_size e) (dl_static_header_size e)) (dl_static_footer_size e)"

definition sync_udp_send_all_downlink_buffer :: "bool io" where
  "sync_udp_send_all_downlink_buffer =
     bindM (getM (\<lambda>m. get_sys_for_name ''gse'' (m_deck m))) (\<lambda>gse.
     bindM (liftR (option_deref (sys_ethernet gse))) (\<lambda>e.
     bindM (liftR (DownlinkBufferElement_sized (Some gse) (gse_packet_size e))) (\<lambda>dbel.
     bindM (getM m_downlink) (\<lambda>queue.
       case queue of
         [] \<Rightarrow> ret False
       | d # queue \<Rightarrow> bindM (set_downlink queue) (\<lambda>_. downlink_loop queue (dbe_assign dbel d))))))"

text \<open>The other variant starts from a default element and sends to the end of the queue.\<close>

fun async_downlink_loop :: "dbe list \<Rightarrow> dbe \<Rightarrow> unit io" where
  "async_downlink_loop [] dbel = ret ()"
| "async_downlink_loop (d # queue) dbel =
     bindM (set_downlink queue) (\<lambda>_.
     bindM (liftR (dbe_get_packet (dbe_assign dbel d))) (\<lambda>packet.
     bindM (send Udp_Ground packet) (\<lambda>_. async_downlink_loop queue (dbe_assign dbel d))))"

definition async_udp_send_downlink_buffer :: "unit io" where
  "async_udp_send_downlink_buffer =
     bindM (liftR DownlinkBufferElement_default) (\<lambda>dbel.
     bindM (getM m_downlink) (\<lambda>queue. async_downlink_loop queue dbel))"

section \<open>Uplink\<close>

definition is_out_of_range :: "fault \<Rightarrow> bool" where
  "is_out_of_range e \<longleftrightarrow> e = Out_Of_Range"

text \<open>Building the element and putting it into the queue of its system, inside the \<open>try\<close>.\<close>

definition store_uplink :: "bytes \<Rightarrow> u8 \<Rightarrow> bool io" where
  "store_uplink reply sys_code =
     bindM (getM (\<lambda>m. UplinkBufferElement reply (m_deck m))) (\<lambda>built.
     bindM (liftR built) (\<lambda>new_uplink.
     bindM (getM (\<lambda>m. get_sys_for_code sys_code (m_deck m))) (\<lambda>sys.
     bindM (getM (\<lambda>m. uplink_at sys (m_uplink m))) (\<lambda>queue.
     bindM (liftR (option_at queue)) (\<lambda>queue.
     bindM (modifyM (set_queue sys (queue @ [new_uplink]))) (\<lambda>_. ret True))))))"

definition count_one :: "system_manager \<Rightarrow> system_manager" where
  "count_one sm = sm\<lparr>sm_counter := sz_add (sm_counter sm) 1\<rparr>"

text \<open>At most eight commands; the buffer of a round is the reply of the round before.\<close>

fun uart_receive_loop :: "nat \<Rightarrow> bytes \<Rightarrow> unit io" where
  "uart_receive_loop 0 reply = ret ()"
| "uart_receive_loop (Suc k) reply =
     bindM (read_uart reply) (\<lambda>(reply_size, reply).
       if reply_size = 0 then ret ()
       else
         bindM (liftR (vec_at reply 0)) (\<lambda>sys_code.
         bindM (catchM is_out_of_range
                  (bindM (store_uplink reply sys_code) (\<lambda>stored.
                   bindM (on_man count_one) (\<lambda>_. ret stored)))
                  (bindM (on_man (raise_error uplink_forwarding)) (\<lambda>_. ret False))) (\<lambda>stored.
           if stored then uart_receive_loop k reply else ret ())))"

definition sync_uart_receive_to_uplink_buffer :: "unit io" where
  "sync_uart_receive_to_uplink_buffer = uart_receive_loop 8 [0, 0]"

fun udp_receive_loop :: "nat \<Rightarrow> bytes \<Rightarrow> unit io" where
  "udp_receive_loop 0 reply = ret ()"
| "udp_receive_loop (Suc k) reply =
     bindM (read_udp Ground_Sock reply) (\<lambda>(reply_size, reply).
       if reply_size = 0 then ret ()
       else
         bindM (liftR (vec_at reply 0)) (\<lambda>sys_code.
         bindM (catchM is_out_of_range (store_uplink reply sys_code)
                  (bindM (on_man (raise_error reading_packet)) (\<lambda>_. ret False))) (\<lambda>stored.
           if stored then bindM (on_man (drop_error reading_packet)) (\<lambda>_. udp_receive_loop k reply)
           else ret ())))"

definition sync_udp_receive_to_uplink_buffer :: "unit io" where
  "sync_udp_receive_to_uplink_buffer = udp_receive_loop 8 [0, 0]"

text \<open>The handler of the asynchronous receive, for a swap buffer and a byte count; commands for the
  formatter are dropped. A count of 0 makes \<open>uplink_swap[0]\<close> undefined.\<close>

definition async_udp_receive_push_to_uplink_buffer :: "bytes \<Rightarrow> nat \<Rightarrow> unit io" where
  "async_udp_receive_push_to_uplink_buffer uplink_swap byte_count =
     (if uplink_swap = [] then ret ()
      else
        bindM (liftR (vec_resize byte_count uplink_swap)) (\<lambda>swap.
        bindM (liftR (case swap of [] \<Rightarrow> Inl Undefined | b # _ \<Rightarrow> Inr b)) (\<lambda>sys_code.
        bindM (getM (\<lambda>m. get_sys_name_for_code sys_code (m_deck m))) (\<lambda>name.
          if name = ''formatter'' then ret ()
          else catchM is_out_of_range
                 (bindM (store_uplink swap sys_code) (\<lambda>_. ret ())) (ret ())))))"

text \<open>\<open>await_loop_begin\<close>: the datagrams overwrite the start of an 8-byte buffer. \<open>None\<close> is waiting for a
  datagram that never comes.\<close>

fun await_loop :: "bytes list \<Rightarrow> bytes \<Rightarrow> u8 \<Rightarrow> u8 \<Rightarrow> (u8 \<times> u8) option" where
  "await_loop datagrams uplink_msg sys cmd =
     (if sys \<noteq> 0x01 \<and> cmd \<noteq> 0x0f then
        (case datagrams of
           [] \<Rightarrow> None
         | d # rest \<Rightarrow>
             let msg = take 8 d @ drop (length (take 8 d)) uplink_msg
             in await_loop rest msg (msg ! 0) (msg ! 1))
      else Some (sys, cmd))"

declare await_loop.simps [simp del]

definition await_loop_begin :: "bytes list \<Rightarrow> (u8 \<times> u8) option" where
  "await_loop_begin datagrams = await_loop datagrams (replicate 8 0) 0x00 0x00"

section \<open>Serial options\<close>

datatype parity = Parity_None | Parity_Odd | Parity_Even

datatype stop_bits = Stop_One | Stop_Two

datatype serial_option = Baud_Rate u32 | Character_Size nat | Parity parity | Stop_Bits stop_bits

text \<open>The options \<open>set_local_serial_options\<close> and \<open>set_uplink_serial_options\<close> set, in order; values out of
  range are logged and leave the port as it is.\<close>

definition serial_options :: "nat \<Rightarrow> u32 \<Rightarrow> nat \<Rightarrow> nat \<Rightarrow> serial_option list" where
  "serial_options data_bits baud parity_code stop =
     [Baud_Rate baud, Character_Size data_bits]
     @ (if parity_code = 0 then [Parity Parity_None]
        else if parity_code = 1 then [Parity Parity_Odd]
        else if parity_code = 2 then [Parity Parity_Even] else [])
     @ (if stop = 1 then [Stop_Bits Stop_One] else if stop = 2 then [Stop_Bits Stop_Two] else [])"

section \<open>Facts\<close>

lemma dbe_assign_copies [simp]: "dbe_assign a b = b"
  by (simp add: dbe_assign_def)

lemma set_downlink_apply [simp]: "bindM (set_downlink q) f m = f () (m\<lparr>m_downlink := q\<rparr>)"
  by (simp add: set_downlink_def)

text \<open>An element that is sent: a system other than the marker, and a packet.\<close>

definition downlinks_as :: "dbe \<Rightarrow> bytes \<Rightarrow> bool" where
  "downlinks_as d packet \<longleftrightarrow> (\<exists>s. dbe_system d = Some s \<and> sys_hex s \<noteq> 0x05) \<and> dbe_get_packet d = Inr packet"

lemma downlink_loop_step:
  assumes "sends_work m" and "downlinks_as d packet"
  shows "downlink_loop [] d m = Some (Inr False,
      m\<lparr>m_send_fails := tl (m_send_fails m), m_sent := m_sent m @ [(Udp_Ground, packet)]\<rparr>)"
    and "downlink_loop (d' # queue) d m = downlink_loop queue d'
      (m\<lparr>m_send_fails := tl (m_send_fails m), m_sent := m_sent m @ [(Udp_Ground, packet)], m_downlink := queue\<rparr>)"
  using assms by (auto simp: downlinks_as_def bindM_send)

lemma downlink_loop_marker:
  "dbe_system d = Some s \<Longrightarrow> sys_hex s = 0x05 \<Longrightarrow> downlink_loop queue d m = Some (Inr True, m)"
  by (cases queue) simp_all

lemma downlink_loop_all:
  assumes "list_all2 downlinks_as (d # ds) packets" and "sends_work m" and "m_downlink m = ds"
  shows "\<exists>m'. downlink_loop ds d m = Some (Inr False, m') \<and> m_downlink m' = [] \<and>
    m_sent m' = m_sent m @ map (Pair Udp_Ground) packets"
  using assms
proof (induction ds arbitrary: d packets m)
  case Nil
  then obtain p where p: "packets = [p]" "downlinks_as d p" by (auto simp: list_all2_Cons1)
  with downlink_loop_step(1) [OF Nil.prems(2) p(2)] Nil.prems(3) show ?case by simp
next
  case (Cons d2 ds)
  then obtain p ps where p: "packets = p # ps" "downlinks_as d p" "list_all2 downlinks_as (d2 # ds) ps"
    by (auto simp: list_all2_Cons1)
  let ?m1 = "m\<lparr>m_send_fails := tl (m_send_fails m), m_sent := m_sent m @ [(Udp_Ground, p)], m_downlink := ds\<rparr>"
  have "sends_work ?m1" using sends_work_tl [OF Cons.prems(2)] by (simp add: sends_work_def)
  from Cons.IH [OF p(3) this] show ?case
    unfolding downlink_loop_step(2) [OF Cons.prems(2) p(2)] p(1) by simp
qed

lemma downlink_loop_reaches:
  assumes "list_all2 downlinks_as (d # ds) packets" and "sends_work m" and "m_downlink m = ds @ x # rest"
  shows "\<exists>m'. downlink_loop (ds @ x # rest) d m = downlink_loop rest x m' \<and> m_downlink m' = rest \<and>
    m_sent m' = m_sent m @ map (Pair Udp_Ground) packets"
  using assms
proof (induction ds arbitrary: d packets m)
  case Nil
  then obtain p where p: "packets = [p]" "downlinks_as d p" by (auto simp: list_all2_Cons1)
  show ?case
    unfolding append_Nil downlink_loop_step(2) [OF Nil.prems(2) p(2)] p(1)
    by (rule exI, rule conjI, rule refl) simp
next
  case (Cons d2 ds)
  then obtain p ps where p: "packets = p # ps" "downlinks_as d p" "list_all2 downlinks_as (d2 # ds) ps"
    by (auto simp: list_all2_Cons1)
  let ?m1 = "m\<lparr>m_send_fails := tl (m_send_fails m), m_sent := m_sent m @ [(Udp_Ground, p)],
    m_downlink := ds @ x # rest\<rparr>"
  have "sends_work ?m1" using sends_work_tl [OF Cons.prems(2)] by (simp add: sends_work_def)
  from Cons.IH [OF p(3) this] show ?case
    unfolding append_Cons downlink_loop_step(2) [OF Cons.prems(2) p(2)] p(1) by simp
qed

text \<open>The ground station is configured: the loop's variable can be built.\<close>

definition ground_ready :: "machine \<Rightarrow> bool" where
  "ground_ready m \<longleftrightarrow> (\<exists>e. sys_ethernet (get_sys_for_name ''gse'' (m_deck m)) = Some e \<and> 8 \<le> gse_packet_size e)"

lemma send_all_start:
  assumes "ground_ready m"
  shows "sync_udp_send_all_downlink_buffer m =
    (case m_downlink m of [] \<Rightarrow> Some (Inr False, m) | d # queue \<Rightarrow> downlink_loop queue d (m\<lparr>m_downlink := queue\<rparr>))"
  using assms
  by (auto simp: ground_ready_def sync_udp_send_all_downlink_buffer_def DownlinkBufferElement_sized_def split: list.split)

lemma send_all_prefix:
  assumes "ground_ready m" and "sends_work m" and "list_all2 downlinks_as ds packets"
  shows "m_downlink m = ds \<Longrightarrow> \<exists>m'. sync_udp_send_all_downlink_buffer m = Some (Inr False, m') \<and>
      m_downlink m' = [] \<and> m_sent m' = m_sent m @ map (Pair Udp_Ground) packets"
    and "m_downlink m = ds @ x # rest \<Longrightarrow> dbe_system x = Some s \<Longrightarrow> sys_hex s = 0x05 \<Longrightarrow>
      \<exists>m'. sync_udp_send_all_downlink_buffer m = Some (Inr True, m') \<and>
      m_downlink m' = rest \<and> m_sent m' = m_sent m @ map (Pair Udp_Ground) packets"
proof -
  show "\<exists>m'. sync_udp_send_all_downlink_buffer m = Some (Inr False, m') \<and>
      m_downlink m' = [] \<and> m_sent m' = m_sent m @ map (Pair Udp_Ground) packets" if q: "m_downlink m = ds"
  proof (cases ds)
    case Nil
    with assms q show ?thesis by (simp add: send_all_start)
  next
    case (Cons d ds')
    with downlink_loop_all [of d ds' packets "m\<lparr>m_downlink := ds'\<rparr>"] assms q
    show ?thesis by (simp add: send_all_start)
  qed
  show "\<exists>m'. sync_udp_send_all_downlink_buffer m = Some (Inr True, m') \<and>
      m_downlink m' = rest \<and> m_sent m' = m_sent m @ map (Pair Udp_Ground) packets"
    if q: "m_downlink m = ds @ x # rest" and x: "dbe_system x = Some s" "sys_hex s = 0x05"
  proof (cases ds)
    case Nil
    with assms q x show ?thesis by (simp add: send_all_start downlink_loop_marker)
  next
    case (Cons d ds')
    with downlink_loop_reaches [of d ds' packets "m\<lparr>m_downlink := ds' @ x # rest\<rparr>" x rest] assms q
    obtain m' where "sync_udp_send_all_downlink_buffer m = downlink_loop rest x m'" "m_downlink m' = rest"
      "m_sent m' = m_sent m @ map (Pair Udp_Ground) packets" by (auto simp: send_all_start)
    with downlink_loop_marker [OF x, of rest m'] show ?thesis by simp
  qed
qed

section \<open>Uplinked commands and their queues\<close>

definition uplinked :: "command_deck \<Rightarrow> u8 \<times> u8 \<Rightarrow> uplink_element" where
  "uplinked deck sc = \<lparr>up_system = Some (get_sys_for_code (fst sc) deck),
     up_command = Some (get_command_for_sys_for_code (fst sc) (snd sc) deck), up_varargs = []\<rparr>"

fun queue_all :: "command_deck \<Rightarrow> (u8 \<times> u8) list \<Rightarrow> (system \<times> uplink_element list) list \<Rightarrow>
    (system \<times> uplink_element list) list" where
  "queue_all deck [] qs = qs"
| "queue_all deck (sc # scs) qs =
     (let sys = get_sys_for_code (fst sc) deck
      in queue_all deck scs (uplink_put sys ((case uplink_at sys qs of None \<Rightarrow> [] | Some q \<Rightarrow> q) @ [uplinked deck sc]) qs))"

definition has_queue :: "command_deck \<Rightarrow> (system \<times> uplink_element list) list \<Rightarrow> u8 \<times> u8 \<Rightarrow> bool" where
  "has_queue deck qs sc \<longleftrightarrow> uplink_at (get_sys_for_code (fst sc) deck) qs \<noteq> None"

lemma system_eq_sym: "system_eq a b \<longleftrightarrow> system_eq b a"
  by (auto simp: system_eq_def)

lemma uplink_at_cong: "system_eq a b \<Longrightarrow> uplink_at a qs = uplink_at b qs"
  by (induction qs) (auto simp: system_eq_def)

lemma uplink_at_put_eq:
  "uplink_at other (uplink_put sys q' qs) =
     (if system_eq other sys then map_option (\<lambda>_. q') (uplink_at other qs) else uplink_at other qs)"
  by (induction qs) (auto simp: system_eq_def)

lemma uplink_at_queue_all:
  assumes "list_all (has_queue deck qs) scs"
  shows "uplink_at sys (queue_all deck scs qs) =
    map_option (\<lambda>q. q @ map (uplinked deck) (filter (\<lambda>sc. system_eq sys (get_sys_for_code (fst sc) deck)) scs))
      (uplink_at sys qs)"
  using assms
proof (induction scs arbitrary: qs)
  case Nil
  then show ?case by (cases "uplink_at sys qs") simp_all
next
  case (Cons sc scs)
  let ?target = "get_sys_for_code (fst sc) deck"
  from Cons.prems obtain q where q: "uplink_at ?target qs = Some q" by (auto simp: has_queue_def)
  let ?qs = "uplink_put ?target (q @ [uplinked deck sc]) qs"
  have "list_all (has_queue deck ?qs) scs"
    using Cons.prems by (auto simp: list_all_iff has_queue_def uplink_at_put_eq)
  from Cons.IH [OF this] show ?case
    using q uplink_at_cong [of sys ?target qs] by (simp add: uplink_at_put_eq Let_def)
qed

lemma store_uplink_ok:
  assumes "uplink_at (get_sys_for_code (fst sc) (m_deck m)) (m_uplink m) = Some q"
  shows "store_uplink [fst sc, snd sc] (fst sc) m = Some (Inr True,
    m\<lparr>m_uplink := uplink_put (get_sys_for_code (fst sc) (m_deck m)) (q @ [uplinked (m_deck m) sc]) (m_uplink m)\<rparr>)"
  using uplink_varargs [of "[]" "fst sc" "snd sc" "m_deck m"] assms
  by (simp add: store_uplink_def set_queue_def uplinked_def)

lemma uart_receive_script:
  assumes "length scs \<le> k" and "length buffer = 2" and "sm_timing (m_man m) = Some timing"
    and "0 < tm_retry_max_count timing" and "m_replies m = map (\<lambda>sc. Some [fst sc, snd sc]) scs @- silence"
    and "list_all (has_queue (m_deck m) (m_uplink m)) scs" and "sm_counter (m_man m) + length scs < 2 ^ 64"
  shows "\<exists>m'. uart_receive_loop k buffer m = Some (Inr (), m') \<and>
    m_uplink m' = queue_all (m_deck m) scs (m_uplink m) \<and> m_sent m' = m_sent m \<and>
    sm_counter (m_man m') = sm_counter (m_man m) + length scs"
  using assms
proof (induction k arbitrary: scs buffer m)
  case 0
  then show ?case by simp
next
  case (Suc k)
  have read: "read_uart buffer m = read_result 2 timing buffer m"
    using reads_script(3) [OF Suc.prems(3), of buffer] Suc.prems(2) by (simp add: vec_max_def)
  show ?case
  proof (cases scs)
    case Nil
    then show ?thesis
      using Suc.prems(5) by (simp add: bindM_steps(1) read read_result_silent raise_error_def)
  next
    case (Cons sc scs')
    let ?sys = "get_sys_for_code (fst sc) (m_deck m)"
    from Cons Suc.prems(6) obtain q where q: "uplink_at ?sys (m_uplink m) = Some q" by (auto simp: has_queue_def)
    let ?m1 = "m\<lparr>m_replies := map (\<lambda>sc. Some [fst sc, snd sc]) scs' @- silence, m_man := drop_error reading_packet (m_man m)\<rparr>"
    let ?m2 = "?m1\<lparr>m_uplink := uplink_put ?sys (q @ [uplinked (m_deck m) sc]) (m_uplink m),
      m_man := count_one (m_man ?m1)\<rparr>"
    have r: "read_uart buffer m = Some (Inr (2, [fst sc, snd sc]), ?m1)"
      using read read_result_immediate [of m "[fst sc, snd sc]" "map (\<lambda>sc. Some [fst sc, snd sc]) scs' @- silence" 2 timing buffer]
        Suc.prems(4,5) Cons by simp
    have "store_uplink [fst sc, snd sc] (fst sc) ?m1 =
        Some (Inr True, ?m1\<lparr>m_uplink := uplink_put ?sys (q @ [uplinked (m_deck m) sc]) (m_uplink m)\<rparr>)"
      using store_uplink_ok [of sc ?m1 q] q by simp
    then have step: "uart_receive_loop (Suc k) buffer m = uart_receive_loop k [fst sc, snd sc] ?m2"
      by (simp add: bindM_steps(1) r catchM_def)
    have counter: "sm_counter (m_man ?m2) = sm_counter (m_man m) + 1"
      using Suc.prems(7) Cons by (simp add: count_one_def drop_error_def)
    have "list_all (has_queue (m_deck ?m2) (m_uplink ?m2)) scs'"
      using Suc.prems(6) Cons by (auto simp: list_all_iff has_queue_def uplink_at_put_eq)
    moreover have "sm_timing (m_man ?m2) = Some timing" "sm_counter (m_man ?m2) + length scs' < 2 ^ 64"
      using Suc.prems(3,7) Cons counter by (simp_all add: count_one_def)
    ultimately have "\<exists>m'. uart_receive_loop k [fst sc, snd sc] ?m2 = Some (Inr (), m') \<and>
        m_uplink m' = queue_all (m_deck ?m2) scs' (m_uplink ?m2) \<and> m_sent m' = m_sent ?m2 \<and>
        sm_counter (m_man m') = sm_counter (m_man ?m2) + length scs'"
      using Suc.prems(1,4) Cons by (intro Suc.IH) simp_all
    then show ?thesis
      unfolding step using q Cons counter by (simp add: Let_def)
  qed
qed

text \<open>Receiving from the ground over UDP waits for the ground.\<close>

lemma silent_ground_waits:
  assumes "m_replies m = silence" and "sm_timing (m_man m) = Some timing" and "0 < tm_retry_max_count timing"
  shows "sync_udp_receive_to_uplink_buffer m = None"
proof -
  have "read_udp Ground_Sock [0, 0] m = None"
    by (rule ground_read_waits [OF assms(2) _ assms(3,1)]) (simp add: vec_max_def)
  then have "udp_receive_loop (Suc k) [0, 0] m = None" for k by (simp add: bindM_steps(3))
  from this [of 7] show ?thesis by (simp add: sync_udp_receive_to_uplink_buffer_def)
qed

definition ground_deck :: command_deck where
  "ground_deck = CommandDeck_default\<lparr>deck_systems :=
     [(System_named ''gse'' 0x20)\<lparr>sys_ethernet := Some (Ethernet_static ''192.168.1.118'' 9999 TP_UDP 1000 100 100 0 0)\<rparr>,
      System_named ''cdte1'' 0x09, System_named ''cmos1'' 0x0e]\<rparr>"

definition element_example :: "u8 \<Rightarrow> dbe" where
  "element_example sys = \<lparr>dbe_max_packet_size = 10, dbe_payload = [1], dbe_system = Some (System_named ''x'' sys),
     dbe_packets_per_frame = 1, dbe_this_packet_index = 1, dbe_type = HK, dbe_frame_counter = 0\<rparr>"

definition ground_machine :: machine where
  "ground_machine = (machine_example (System_named ''uplink'' 0x01))\<lparr>m_deck := ground_deck\<rparr>"

lemma ground_machine_ready: "ground_ready (ground_machine\<lparr>m_downlink := q\<rparr>)" "sends_work (ground_machine\<lparr>m_downlink := q\<rparr>)"
  by (simp_all add: ground_ready_def ground_machine_def ground_deck_def get_sys_for_name_def System_named_def
      gse_packet_size_def Ethernet_static_def DataLinkLayer_static_def link_defs sends_work_def machine_example_def)

lemma element_example_packet: "downlinks_as (element_example 0x09) [0x09, 0, 1, 0, 1, 0x10, 0, 0, 1]"
  by (simp add: downlinks_as_def element_example_def System_named_def dbe_get_packet_def dbe_get_header_def)

section \<open>Properties\<close>

text \<open>C32. The downlink loop sends the queue in order, up to the first element of the system with identifier
  \<open>0x05\<close>: without such an element every packet goes out, the queue ends up empty and the result is false;
  with one, that element is taken off the queue but never sent, the elements behind it stay, and the
  result is true.\<close>

theorem downlink_order:
  assumes "ground_ready m" and "sends_work m" and "list_all2 downlinks_as ds packets"
  shows "(m_downlink m = ds \<longrightarrow> (\<exists>m'. sync_udp_send_all_downlink_buffer m = Some (Inr False, m') \<and>
      m_downlink m' = [] \<and> m_sent m' = m_sent m @ map (Pair Udp_Ground) packets)) \<and>
    (m_downlink m = ds @ x # rest \<and> map_option sys_hex (dbe_system x) = Some 0x05 \<longrightarrow>
      (\<exists>m'. sync_udp_send_all_downlink_buffer m = Some (Inr True, m') \<and>
      m_downlink m' = rest \<and> m_sent m' = m_sent m @ map (Pair Udp_Ground) packets))"
  using send_all_prefix [OF assms] by auto

lemma downlink_order_witness:
  "\<exists>m'. sync_udp_send_all_downlink_buffer
      (ground_machine\<lparr>m_downlink := [element_example 0x09, element_example 0x05, element_example 0x0e]\<rparr>) = Some (Inr True, m') \<and>
    m_downlink m' = [element_example 0x0e] \<and> m_sent m' = [(Udp_Ground, [0x09, 0, 1, 0, 1, 0x10, 0, 0, 1])]"
  using downlink_order [of "ground_machine\<lparr>m_downlink := [element_example 0x09, element_example 0x05, element_example 0x0e]\<rparr>"
      "[element_example 0x09]" "[[0x09, 0, 1, 0, 1, 0x10, 0, 0, 1]]" "element_example 0x05" "[element_example 0x0e]"]
    ground_machine_ready element_example_packet
  by (auto simp: element_example_def System_named_def ground_machine_def machine_example_def)

text \<open>C26. Uplinked commands reach the queue of their system: for at most eight two-byte commands waiting on the
  port, each for a system that has a queue, the receive loop appends to every queue exactly the commands
  addressed to its system, in their order, sends nothing, and counts them.\<close>

theorem uplink_reaches_queues:
  assumes "length scs \<le> 8" and "sm_timing (m_man m) = Some timing" and "0 < tm_retry_max_count timing"
    and "m_replies m = map (\<lambda>sc. Some [fst sc, snd sc]) scs @- silence"
    and "list_all (has_queue (m_deck m) (m_uplink m)) scs" and "sm_counter (m_man m) + length scs < 2 ^ 64"
  shows "\<exists>m'. sync_uart_receive_to_uplink_buffer m = Some (Inr (), m') \<and>
    uplink_at sys (m_uplink m') = map_option
      (\<lambda>q. q @ map (uplinked (m_deck m)) (filter (\<lambda>sc. system_eq sys (get_sys_for_code (fst sc) (m_deck m))) scs))
      (uplink_at sys (m_uplink m)) \<and>
    m_sent m' = m_sent m \<and> sm_counter (m_man m') = sm_counter (m_man m) + length scs"
proof -
  obtain m' where "uart_receive_loop 8 [0, 0] m = Some (Inr (), m')"
    "m_uplink m' = queue_all (m_deck m) scs (m_uplink m)" "m_sent m' = m_sent m"
    "sm_counter (m_man m') = sm_counter (m_man m) + length scs"
    using uart_receive_script [OF assms(1) _ assms(2-6), of "[0, 0]"] by auto
  then show ?thesis
    using uplink_at_queue_all [OF assms(5), of sys]
    by (intro exI [of _ m']) (simp add: sync_uart_receive_to_uplink_buffer_def)
qed

lemma uplink_reaches_queues_witness:
  "\<exists>m'. sync_uart_receive_to_uplink_buffer (ground_machine\<lparr>
      m_replies := Some [0x09, 0x10] ## Some [0x0e, 0x11] ## Some [0x09, 0x12] ## silence,
      m_uplink := [(System_named ''cdte1'' 0x09, []), (System_named ''cmos1'' 0x0e, [])]\<rparr>) = Some (Inr (), m') \<and>
    uplink_at (System_named ''cdte1'' 0x09) (m_uplink m') =
      Some [uplinked ground_deck (0x09, 0x10), uplinked ground_deck (0x09, 0x12)] \<and>
    sm_counter (m_man m') = 3"
  using uplink_reaches_queues [of "[(0x09, 0x10), (0x0e, 0x11), (0x09, 0x12)]" "ground_machine\<lparr>
      m_replies := Some [0x09, 0x10] ## Some [0x0e, 0x11] ## Some [0x09, 0x12] ## silence,
      m_uplink := [(System_named ''cdte1'' 0x09, []), (System_named ''cmos1'' 0x0e, [])]\<rparr>" dispatch_timing
      "System_named ''cdte1'' 0x09"]
  by (auto simp: ground_machine_def machine_example_def add_timing_def SystemManager_def dispatch_timing_def
      has_queue_def ground_deck_def get_sys_for_code_def System_named_def system_eq_def numeral_3_eq_3)

text \<open>The wait for the start command ends at the first datagram whose first byte is \<open>0x01\<close> or whose second
  byte is \<open>0x0f\<close>; one of the two is enough, the other byte can be anything.\<close>

theorem await_ends_on_either_byte:
  assumes "list_all (\<lambda>d. \<exists>a b r. d = a # b # r \<and> a \<noteq> 0x01 \<and> b \<noteq> 0x0f) before"
    and "s = 0x01 \<or> c = 0x0f"
  shows "await_loop_begin (before @ (s # c # r) # rest) = Some (s, c)"
proof -
  have "await_loop (before @ (s # c # r) # rest) msg a b = Some (s, c)" if "a \<noteq> 0x01" "b \<noteq> 0x0f" for msg a b
    using assms(1) that
  proof (induction before arbitrary: msg a b)
    case Nil
    then show ?case using assms(2)
      by (auto simp: await_loop.simps [of "(s # c # r) # rest"] Let_def numeral_eq_Suc await_loop.simps [of rest])
  next
    case (Cons d before)
    then show ?case
      by (auto simp: await_loop.simps [of "(_ # _ # _) # _"] Let_def numeral_eq_Suc)
  qed
  then show ?thesis by (simp add: await_loop_begin_def)
qed

lemma await_ends_on_either_byte_witness:
  "await_loop_begin [[0x02, 0x00], [0x01, 0x77]] = Some (0x01, 0x77)"
  using await_ends_on_either_byte [of "[[0x02, 0x00]]" "0x01" "0x77" "[]" "[]"] by simp

end
