(* ===== verification/Ground_Path.thy ===== *)
theory Ground_Path
  imports Remote_Buffer Traffic
begin

text \<open>
  The path of a frame, across the components: from a remote ring buffer through the framer, the packetizer
  and the downlink queue to the datagrams the ground station reads, and its abstract view, the copy of a
  block of the remote memory.
\<close>

section \<open>From the ring buffer to the ground\<close>

text \<open>The elements of a frame go out as packets the ground station can read.\<close>

definition ready_element :: "system \<Rightarrow> ring_type \<Rightarrow> u16 \<Rightarrow> dbe \<Rightarrow> bool" where
  "ready_element sys t n d \<longleftrightarrow> dbe_system d = Some sys \<and> sys_hex sys \<noteq> 0x05 \<and> dbe_frame_counter d = n \<and>
     dbe_type d = t \<and> length (dbe_payload d) + 8 \<le> dbe_max_packet_size d"

definition ground_view :: "system \<Rightarrow> ring_type \<Rightarrow> u16 \<Rightarrow> dbe \<Rightarrow> (u8 \<times> u16 \<times> u16 \<times> u8 \<times> u16 \<times> bytes) option" where
  "ground_view sys t n d =
     Some (sys_hex sys, dbe_packets_per_frame d, dbe_this_packet_index d, ring_code t, n, dbe_payload d)"

lemma element_downlinks:
  "ready_element sys t n d \<Longrightarrow> \<exists>p. downlinks_as d p \<and> parse_packet p = ground_view sys t n d"
  using word16_be_bytes
  by (auto simp: ready_element_def downlinks_as_def ground_view_def dbe_get_packet_def dbe_get_header_eq)

lemma elements_downlink:
  "list_all (ready_element sys t n) ds \<Longrightarrow>
   \<exists>packets. list_all2 downlinks_as ds packets \<and> map parse_packet packets = map (ground_view sys t n) ds"
proof (induction ds)
  case (Cons d ds)
  then obtain p packets where "downlinks_as d p" "parse_packet p = ground_view sys t n d"
    "list_all2 downlinks_as ds packets" "map parse_packet packets = map (ground_view sys t n) ds"
    using element_downlinks [of sys t n d] by auto
  then show ?case by (intro exI [of _ "p # packets"]) simp
qed simp

lemma frame_elements_ready:
  assumes "fp_wf fp" and "sys_hex (fp_system fp) \<noteq> 0x05"
  shows "list_all (ready_element (fp_system fp) (fp_type fp) n) (frame_elements n fp k)"
proof -
  have "length b + 8 \<le> fp_max_packet_size fp" if "b \<in> set (blocks (fp_max_packet_size fp - 8) (fp_frame fp))" for b
    using blocks_bounds [OF that] assms(1) by (auto simp: fp_wf_def)
  then show ?thesis
    using assms(2)
    by (auto simp: list_all_length frame_elements_def elements_from_nth element_of_def ready_element_def)
qed

lemma ground_run:
  assumes "frame_ready t spw e ring pf fp n m"
    and "frame_packets pf (expected_packet_size spw e) xs" and "pointer_reply reply"
    and "m_replies m = Some reply ## map (Some \<circ> packet_of) xs @- script"
    and "start = frame_address (sm_system (m_man m)) ring
      (unat (unsplat_from_4bytes (pointer_bytes (m_deck m) (sm_system (m_man m)) reply)))"
    and "start \<noteq> prior" and "m_downlink m = []" and "ground_ready m" and "sys_hex (fp_system fp) \<noteq> 0x05"
  obtains m' packets views where
    "bindM (sync_remote_buffer_transaction t prior) (\<lambda>_. sync_udp_send_all_downlink_buffer) m = Some (Inr False, m')"
    and "m_sent m' = m_sent m @ map (Pair Tcp) (pointer_request ring m # frame_requests m spw e
      (word_of_nat (rb_write_pointer_width_bytes ring)) start 0 (length xs)) @ map (Pair Udp_Ground) packets"
    and "m_downlink m' = []" and "map parse_packet packets = map (\<lambda>(count, i, payload).
      Some (sys_hex (fp_system fp), count, i, ring_code (fp_type fp), n, payload)) views"
    and "concat (map (snd \<circ> snd) views) = take (pf_frame_size pf) (concat (map payload_of xs))"
proof -
  obtain pf1 :: packet_framer and m1 where r: "sync_remote_buffer_transaction t prior m = Some (Inr start, m1)"
    "pf_frame pf1 = take (pf_frame_size pf) (concat (map payload_of xs))"
    "m_downlink m1 = m_downlink m @ frame_elements n (fp_set_frame (pf_frame pf1) fp) 0"
    "m_sent m1 = m_sent m @ map (Pair Tcp) (pointer_request ring m # frame_requests m spw e
      (word_of_nat (rb_write_pointer_width_bytes ring)) start 0 (length xs))" "sends_work m1" "m_deck m1 = m_deck m"
    by (rule transaction_run [OF assms(1-6)]) blast
  let ?fp = "fp_set_frame (pf_frame pf1) fp" and ?es = "frame_elements n (fp_set_frame (pf_frame pf1) fp) 0"
  have fp: "fp_wf ?fp" "fp_system ?fp = fp_system fp" "fp_type ?fp = fp_type fp" "fp_frame ?fp = pf_frame pf1"
    using assms(1) by (simp_all add: frame_ready_def fp_wf_def fp_set_frame_def)
  then obtain packets where p: "list_all2 downlinks_as ?es packets"
    "map parse_packet packets = map (ground_view (fp_system fp) (fp_type fp) n) ?es"
    using elements_downlink [OF frame_elements_ready [of ?fp n 0]] assms(9) by auto
  have "ground_ready m1" using assms(8) r(6) by (simp add: ground_ready_def)
  from send_all_prefix(1) [OF this r(5) p(1)] r(3) assms(7) obtain m2 where
    m2: "sync_udp_send_all_downlink_buffer m1 = Some (Inr False, m2)" "m_downlink m2 = []"
      "m_sent m2 = m_sent m1 @ map (Pair Udp_Ground) packets" by auto
  have "concat (map dbe_payload ?es) = pf_frame pf1"
    using frame_elements_facts(1) [of ?fp n 0] fp by (simp add: fp_wf_def)
  then show thesis
    using that [of m2 packets "map (\<lambda>d. (dbe_packets_per_frame d, dbe_this_packet_index d, dbe_payload d)) ?es"]
      r m2 p(2) by (simp add: bindM_steps(1) ground_view_def comp_def)
qed

section \<open>The remote memory\<close>

text \<open>The abstract view of a frame: a block of the peer's memory. A peer that answers with its memory gives the packets
  of a frame the bytes of successive blocks as payloads.\<close>

definition memory_at :: "(nat \<Rightarrow> u8) \<Rightarrow> nat \<Rightarrow> nat \<Rightarrow> bytes" where
  "memory_at memory start n = map memory [start..<start + n]"

definition answers :: "(nat \<Rightarrow> u8) \<Rightarrow> nat \<Rightarrow> nat \<Rightarrow> parts list \<Rightarrow> bool" where
  "answers memory start n xs \<longleftrightarrow> map payload_of xs = map (\<lambda>k. memory_at memory (start + k * n) n) [0..<length xs]"

lemma memory_blocks: "concat (map (\<lambda>k. memory_at memory (start + k * n) n) [0..<j]) = memory_at memory start (j * n)"
proof (induction j)
  case (Suc j)
  have "[start..<start + (j * n + n)] = [start..<start + j * n] @ [start + j * n..<start + j * n + n]"
    using upt_add_eq_append [of start "start + j * n" n] by (simp add: add.assoc)
  then have "memory_at memory start (Suc j * n) = memory_at memory start (j * n) @ memory_at memory (start + j * n) n"
    by (simp add: memory_at_def add.commute [of n])
  with Suc show ?case by simp
qed (simp add: memory_at_def)

lemma take_memory: "k \<le> n \<Longrightarrow> take k (memory_at memory start n) = memory_at memory start k"
  by (simp add: memory_at_def take_map take_upt)

lemma answers_size:
  assumes "answers memory start P xs" and "frame_packets pf packet_size xs"
  shows "take (pf_frame_size pf) (concat (map payload_of xs)) = memory_at memory start (pf_frame_size pf)"
    and "k < length xs \<Longrightarrow> k * P < pf_frame_size pf"
    and "0 < P \<Longrightarrow> length xs \<le> pf_frame_size pf"
proof -
  obtain x ys where xs: "xs = x # ys" using assms(2) by (cases xs) auto
  have whole: "concat (map payload_of xs) = memory_at memory start (length xs * P)"
    using assms(1) by (simp add: answers_def memory_blocks)
  have "map payload_of (butlast xs) = map (\<lambda>k. memory_at memory (start + k * P) P) [0..<length ys]"
    using arg_cong [OF assms(1) [unfolded answers_def], of butlast] by (auto simp: xs map_butlast split: if_splits)
  then have "concat (map payload_of (butlast xs)) = memory_at memory start (length ys * P)" by (simp add: memory_blocks)
  then have last: "length ys * P < pf_frame_size pf" "pf_frame_size pf \<le> length xs * P"
    using assms(2) arg_cong [OF whole, of length] by (simp_all add: xs memory_at_def del: butlast.simps)
  show "take (pf_frame_size pf) (concat (map payload_of xs)) = memory_at memory start (pf_frame_size pf)"
    using whole last(2) by (simp add: take_memory)
  show *: "k * P < pf_frame_size pf" if "k < length xs" for k
    using that last(1) by (simp add: xs less_Suc_eq_le le_less_trans [OF mult_le_mono1])
  show "length xs \<le> pf_frame_size pf" if "0 < P"
    using last(1) that by (simp add: xs Suc_le_eq le_less_trans [of "length ys" "length ys * P"])
qed

definition frame_deck :: command_deck where
  "frame_deck = dispatch_deck\<lparr>deck_systems := deck_systems ground_deck\<rparr>"

section \<open>Properties\<close>

text \<open>C1. End to end: a frame in a remote ring buffer reaches the ground. In the set-up of a readable frame, with an
  empty downlink queue and a configured ground station, when the peer delivers the write pointer and the
  packets of one frame, reading the frame and emptying the queue sends only requests to the remote system
  and then one datagram per element to the ground. Every datagram reads back as the system's identifier,
  the data type and the frame's counter, and the payloads joined are the packets' payloads cut at the frame
  size. The queue is empty again.\<close>

theorem frame_reaches_ground:
  assumes "frame_ready t spw e ring pf fp n m"
    and "frame_packets pf (expected_packet_size spw e) xs" and "pointer_reply reply"
    and "m_replies m = Some reply ## map (Some \<circ> packet_of) xs @- script"
    and "start = frame_address (sm_system (m_man m)) ring
      (unat (unsplat_from_4bytes (pointer_bytes (m_deck m) (sm_system (m_man m)) reply)))"
    and "start \<noteq> prior" and "m_downlink m = []" and "ground_ready m" and "sys_hex (fp_system fp) \<noteq> 0x05"
  shows "\<exists>m' requests packets views.
    bindM (sync_remote_buffer_transaction t prior) (\<lambda>_. sync_udp_send_all_downlink_buffer) m = Some (Inr False, m') \<and>
    m_sent m' = m_sent m @ map (Pair Tcp) requests @ map (Pair Udp_Ground) packets \<and>
    length requests = 1 + length xs \<and> m_downlink m' = [] \<and>
    map parse_packet packets = map (\<lambda>(count, i, payload).
      Some (sys_hex (fp_system fp), count, i, ring_code (fp_type fp), n, payload)) views \<and>
    concat (map (snd \<circ> snd) views) = take (pf_frame_size pf) (concat (map payload_of xs))"
proof -
  obtain m' packets views where
    "bindM (sync_remote_buffer_transaction t prior) (\<lambda>_. sync_udp_send_all_downlink_buffer) m = Some (Inr False, m')"
    "m_sent m' = m_sent m @ map (Pair Tcp) (pointer_request ring m # frame_requests m spw e
      (word_of_nat (rb_write_pointer_width_bytes ring)) start 0 (length xs)) @ map (Pair Udp_Ground) packets"
    "m_downlink m' = []" "map parse_packet packets = map (\<lambda>(count, i, payload).
      Some (sys_hex (fp_system fp), count, i, ring_code (fp_type fp), n, payload)) views"
    "concat (map (snd \<circ> snd) views) = take (pf_frame_size pf) (concat (map payload_of xs))"
    by (rule ground_run [OF assms])
  then show ?thesis
    by (intro exI [of _ m'] exI [of _ packets] exI [of _ views] exI [of _ "pointer_request ring m # frame_requests m spw e
      (word_of_nat (rb_write_pointer_width_bytes ring)) start 0 (length xs)"]) simp
qed

lemma ground_frame_deck:
  "ground_ready (m\<lparr>m_deck := frame_deck\<rparr>)" "\<not> is_cmos frame_deck read_system"
  "frame_ready t spw e ring pf fp n (m\<lparr>m_deck := d\<rparr>) = frame_ready t spw e ring pf fp n m"
proof -
  show "ground_ready (m\<lparr>m_deck := frame_deck\<rparr>)" "\<not> is_cmos frame_deck read_system"
    by (simp_all add: ground_ready_def frame_deck_def ground_deck_def get_sys_for_name_def System_named_def gse_packet_size_def
      Ethernet_static_def DataLinkLayer_static_def link_defs is_cmos_def get_sys_code_for_name_def read_system_simps null_sys_def)
  show "frame_ready t spw e ring pf fp n (m\<lparr>m_deck := d\<rparr>) = frame_ready t spw e ring pf fp n m"
    by (simp add: frame_ready_def readable_def sends_work_def)
qed

lemma frame_reaches_ground_witness:
  "\<exists>m' packets. bindM (sync_remote_buffer_transaction PC 0) (\<lambda>_. sync_udp_send_all_downlink_buffer)
      ((read_machine (Some example_reply ## map (Some \<circ> packet_of) example_packets @- silence))\<lparr>m_deck := frame_deck\<rparr>) =
      Some (Inr False, m') \<and>
    filter (\<lambda>(port, _). port = Udp_Ground) (m_sent m') = map (Pair Udp_Ground) packets \<and>
    concat (map (\<lambda>p. case parse_packet p of Some (_, _, _, _, _, payload) \<Rightarrow> payload | None \<Rightarrow> []) packets) = [1, 2, 3, 4, 5]"
proof -
  let ?m = "(read_machine (Some example_reply ## map (Some \<circ> packet_of) example_packets @- silence))\<lparr>m_deck := frame_deck\<rparr>"
  have ready: "frame_ready PC cdte_spw_example example_ethernet ring_example_parameters read_framer read_packetizer 0 ?m"
    using example_ready ground_frame_deck(3) by simp
  have size: "frame_packets read_framer (expected_packet_size cdte_spw_example example_ethernet) example_packets"
    using example_packets_ok(1) by (simp only: example_size)
  have address: "0x1ffb = frame_address (sm_system (m_man ?m)) ring_example_parameters
      (unat (unsplat_from_4bytes (pointer_bytes (m_deck ?m) (sm_system (m_man ?m)) example_reply)))"
    using ground_frame_deck(2)
    by (simp add: read_machine_simps frame_address_def read_system_simps pointer_bytes_def example_reply_data unsplat_cons
        ring_example_parameters_def RingBufferParameters_def push_bit_eq_mult)
  have hex: "sys_hex (fp_system read_packetizer) \<noteq> 0x05"
    by (simp add: read_packetizer_def FramePacketizer_sized_def read_system_simps)
  obtain m' requests packets views where r: "bindM (sync_remote_buffer_transaction PC 0) (\<lambda>_. sync_udp_send_all_downlink_buffer) ?m
      = Some (Inr False, m')" "m_sent m' = m_sent ?m @ map (Pair Tcp) requests @ map (Pair Udp_Ground) packets"
    "map parse_packet packets = map (\<lambda>(count, i, payload).
      Some (sys_hex (fp_system read_packetizer), count, i, ring_code (fp_type read_packetizer), 0, payload)) views"
    "concat (map (snd \<circ> snd) views) = take (pf_frame_size read_framer) (concat (map payload_of example_packets))"
    using frame_reaches_ground [OF ready size example_packets_ok(4) _ address, of silence 0] ground_frame_deck(1) hex
    by (auto simp: read_machine_simps)
  have "map (\<lambda>p. case parse_packet p of Some (_, _, _, _, _, payload) \<Rightarrow> payload | None \<Rightarrow> []) packets =
      map (\<lambda>v. case v of Some (_, _, _, _, _, payload) \<Rightarrow> payload | None \<Rightarrow> []) (map parse_packet packets)"
    by simp
  also have "\<dots> = map (snd \<circ> snd) views" unfolding r(3) by (simp add: case_prod_beta comp_def)
  finally have "concat (map (\<lambda>p. case parse_packet p of Some (_, _, _, _, _, payload) \<Rightarrow> payload | None \<Rightarrow> []) packets) =
      [1, 2, 3, 4, 5]" using r(4) by (simp add: example_packets_ok)
  moreover have "m_sent ?m = []" by (simp add: read_machine_def machine_example_def)
  ultimately show ?thesis
    using r(1,2) by (intro exI [of _ m'] exI [of _ packets]) (simp add: filter_map comp_def)
qed

text \<open>C2. Refinement of the memory read: as far as the ground can tell, reading a frame is copying a block of the remote
  memory. When the peer answers the \<open>k\<close>-th request with the bytes of its memory from \<open>start + k * P\<close> on, where \<open>P\<close>
  is the payload size of both links, every request decodes, at a receiver that checks lengths and checksums, as
  a read of exactly that block, and the payloads the ground receives joined are the frame's bytes of the memory,
  from \<open>start\<close> on.\<close>

theorem ring_memory_reaches_ground:
  assumes "frame_ready t spw e ring pf fp n m"
    and "frame_packets pf (expected_packet_size spw e) xs" and "pointer_reply reply"
    and "m_replies m = Some reply ## map (Some \<circ> packet_of) xs @- script"
    and "start = frame_address (sm_system (m_man m)) ring
      (unat (unsplat_from_4bytes (pointer_bytes (m_deck m) (sm_system (m_man m)) reply)))"
    and "start \<noteq> prior" and "m_downlink m = []" and "ground_ready m" and "sys_hex (fp_system fp) \<noteq> 0x05"
    and "answers memory start (dl_max_payload_size e) xs" and "dl_max_payload_size spw = dl_max_payload_size e"
    and "0 < dl_max_payload_size e" and "dl_max_payload_size e < 2 ^ 24"
    and "start + pf_frame_size pf < 2 ^ 32" and "rb_write_pointer_width_bytes ring = 4"
    and "sys_spacewire (get_sys_for_code (sys_hex (sm_system (m_man m))) (m_deck m)) = Some spw"
    and "spw_crc_version spw = CHR ''f''"
    and "length (spw_target_path_address spw) + length (spw_reply_path_address spw) < 2 ^ 59"
  shows "\<exists>m' cmd requests packets views.
    bindM (sync_remote_buffer_transaction t prior) (\<lambda>_. sync_udp_send_all_downlink_buffer) m = Some (Inr False, m') \<and>
    m_sent m' = m_sent m @ map (Pair Tcp) (cmd # requests) @ map (Pair Udp_Ground) packets \<and>
    map (rmap_decode (length (spw_target_path_address spw)) (length (spw_reply_path_address spw))) requests =
      map (\<lambda>k. Some (0x4d, spw_key spw, 0, be_bytes 4 (word_of_nat (start + k * dl_max_payload_size e)),
        dl_max_payload_size e, [])) [0..<length xs] \<and>
    map parse_packet packets = map (\<lambda>(count, i, payload).
      Some (sys_hex (fp_system fp), count, i, ring_code (fp_type fp), n, payload)) views \<and>
    concat (map (snd \<circ> snd) views) = memory_at memory start (pf_frame_size pf)"
proof -
  let ?P = "dl_max_payload_size e" and ?reqs = "frame_requests m spw e (word_of_nat 4) start 0 (length xs)"
  let ?decode = "rmap_decode (length (spw_target_path_address spw)) (length (spw_reply_path_address spw))"
  obtain m' packets views where run:
    "bindM (sync_remote_buffer_transaction t prior) (\<lambda>_. sync_udp_send_all_downlink_buffer) m = Some (Inr False, m')"
    "m_sent m' = m_sent m @ map (Pair Tcp) (pointer_request ring m # ?reqs) @ map (Pair Udp_Ground) packets"
    "map parse_packet packets = map (\<lambda>(count, i, payload).
      Some (sys_hex (fp_system fp), count, i, ring_code (fp_type fp), n, payload)) views"
    "concat (map (snd \<circ> snd) views) = take (pf_frame_size pf) (concat (map payload_of xs))"
    by (rule ground_run [OF assms(1-9), unfolded assms(15)])
  note all = answers_size [OF assms(10) assms(2)]
  have "?decode (?reqs ! k) = Some (0x4d, spw_key spw, 0, be_bytes 4 (word_of_nat (start + k * ?P)), ?P, [])"
    if k: "k < length xs" for k
  proof -
    have small: "k * ?P < pf_frame_size pf" "k \<le> k * ?P" using all(2) [OF k] assms(12) by simp_all
    then have "length xs < 2 ^ 64" using all(3) assms(12,14) by simp
    with k have "?reqs ! k = frame_request (m_deck m) (sys_hex (sm_system (m_man m))) spw e (word_of_nat 4) start k"
      using frame_requests_nth [of 0 "length xs" k m spw e "word_of_nat 4" start] by simp
    moreover have "sz_add start (sz_mul k (dl_max_payload_size spw)) = start + k * ?P"
      using small assms(11,14) by (simp add: sz_add_def sz_mul_def)
    moreover have "unat (word_of_nat 4 :: u8) = 4" by simp
    ultimately show ?thesis
      using read_command_decodes [OF assms(16,17) _ assms(18) frame_request_eq [where width = "word_of_nat 4" and start = start
          and c = k and e = e and spw = spw]] assms(13)
      by (simp del: be_bytes_numeral of_nat_add of_nat_mult)
  qed
  then have "map ?decode ?reqs = map (\<lambda>k. Some (0x4d, spw_key spw, 0, be_bytes 4 (word_of_nat (start + k * ?P)), ?P, []))
      [0..<length xs]" by (intro nth_equalityI) simp_all
  with run all(1) show ?thesis
    by (intro exI [of _ m'] exI [of _ "pointer_request ring m"] exI [of _ ?reqs] exI [of _ packets] exI [of _ views]) simp
qed

definition memory_spw :: spacewire where
  "memory_spw = cdte_spw_example\<lparr>dl_max_payload_size := 4\<rparr>"

definition memory_system :: system where
  "memory_system = read_system\<lparr>sys_spacewire := Some memory_spw\<rparr>"

definition memory_framer :: packet_framer where
  "memory_framer = read_framer\<lparr>pf_initial_strip_header_size := 0\<rparr>"

definition memory_packets :: "parts list" where
  "memory_packets = [(replicate 12 0, [0xfb, 0xfc, 0xfd, 0xfe], [9]), (replicate 12 0, [0xff, 0, 1, 2], [9])]"

definition memory_machine :: machine where
  "memory_machine = (read_machine (Some example_reply ## map (Some \<circ> packet_of) memory_packets @- silence))\<lparr>
     m_deck := ground_deck\<lparr>deck_systems := memory_system # deck_systems ground_deck\<rparr>,
     m_man := add_packet_framer PC memory_framer (add_frame_packetizer PC read_packetizer
       (m_man (machine_example memory_system)))\<rparr>"

lemma memory_links:
  "dl_max_payload_size example_ethernet = 4" "dl_max_payload_size memory_spw = 4"
  "expected_packet_size memory_spw example_ethernet = 17" "spw_crc_version memory_spw = CHR ''f''"
  "spw_key memory_spw = 0x02" "length (spw_target_path_address memory_spw) = 2" "length (spw_reply_path_address memory_spw) = 4"
  by (simp_all add: memory_spw_def cdte_spw_example_def example_ethernet_def SpaceWire_static_def Ethernet_static_def
      DataLinkLayer_static_def link_defs expected_packet_size_def)

lemma memory_machine_simps:
  "sm_system (m_man memory_machine) = memory_system" "m_downlink memory_machine = []" "m_sent memory_machine = []"
  "m_replies memory_machine = Some example_reply ## map (Some \<circ> packet_of) memory_packets @- silence"
  "m_deck memory_machine = ground_deck\<lparr>deck_systems := memory_system # deck_systems ground_deck\<rparr>"
  "sys_hex memory_system = 0x09" "sys_name memory_system = ''cdte1''" "sys_spacewire memory_system = Some memory_spw"
  "sys_ethernet memory_system = Some example_ethernet" "ring_params_at memory_system PC = Inr ring_example_parameters"
  "sys_spacewire (get_sys_for_code 0x09 (m_deck memory_machine)) = Some memory_spw"
  using read_system_simps
  by (simp_all add: memory_machine_def read_machine_def machine_example_def add_timing_def SystemManager_def
      add_packet_framer_def add_frame_packetizer_def insert_count_def memory_system_def get_sys_for_code_def ring_params_at_def)

lemma memory_ready:
  "frame_ready PC memory_spw example_ethernet ring_example_parameters memory_framer read_packetizer 0 memory_machine"
proof -
  have "readable memory_spw example_ethernet memory_machine"
    using memory_machine_simps memory_links(3)
    by (simp add: readable_def vec_max_def)
      (simp add: memory_machine_def read_machine_def machine_example_def add_timing_def SystemManager_def
        add_packet_framer_def add_frame_packetizer_def insert_count_def sends_work_def dispatch_timing_def)
  moreover have "pf_inv memory_framer" "pf_frame memory_framer = []" "pf_frame_size memory_framer = 5"
    by (simp_all add: memory_framer_def read_framer_def framer_example_def pf_inv_def)
  moreover have "fp_wf read_packetizer" "fp_packets_per_frame read_packetizer = 3" "fp_max_packet_size read_packetizer = 10"
    by (simp_all add: read_packetizer_def FramePacketizer_sized_def fp_wf_def)
  moreover have "sm_packet_framer (m_man memory_machine) PC = Some memory_framer"
    "sm_frame_packetizer (m_man memory_machine) PC = Some read_packetizer"
    "sm_frame_count (m_man memory_machine) PC = Some 0" "sys_ring_params memory_system = sys_ring_params read_system"
    by (simp_all add: memory_machine_def machine_example_def add_timing_def SystemManager_def add_packet_framer_def
      add_frame_packetizer_def insert_count_def memory_system_def)
  ultimately show ?thesis
    using memory_machine_simps read_system_simps(6)
    by (simp add: frame_ready_def ring_example_parameters_def RingBufferParameters_def ceil_div_def)
qed

lemma memory_packets_ok:
  "frame_packets memory_framer 17 memory_packets" "pf_frame_size memory_framer = 5" "length memory_packets = 2"
  "answers word_of_nat 0x1ffb 4 memory_packets"
  by (simp_all add: memory_packets_def memory_framer_def read_framer_def framer_example_def answers_def memory_at_def upt_conv_Cons)

lemma memory_address:
  "0x1ffb = frame_address memory_system ring_example_parameters
     (unat (unsplat_from_4bytes (pointer_bytes (m_deck memory_machine) memory_system example_reply)))"
proof -
  have "\<not> is_cmos (m_deck memory_machine) memory_system"
    using memory_machine_simps
    by (simp add: is_cmos_def get_sys_code_for_name_def get_sys_for_name_def ground_deck_def System_named_def null_sys_def)
  then show ?thesis
    using memory_machine_simps(7)
    by (simp add: frame_address_def pointer_bytes_def example_reply_data unsplat_cons
        ring_example_parameters_def RingBufferParameters_def push_bit_eq_mult)
qed

lemma ring_memory_reaches_ground_witness:
  "\<exists>m' cmd requests packets views.
    bindM (sync_remote_buffer_transaction PC 0) (\<lambda>_. sync_udp_send_all_downlink_buffer) memory_machine = Some (Inr False, m') \<and>
    m_sent m' = map (Pair Tcp) (cmd # requests) @ map (Pair Udp_Ground) packets \<and>
    map (rmap_decode 2 4) requests =
      [Some (0x4d, 0x02, 0, [0, 0, 0x1f, 0xfb], 4, []), Some (0x4d, 0x02, 0, [0, 0, 0x1f, 0xff], 4, [])] \<and>
    map parse_packet packets = map (\<lambda>(count, i, payload).
      Some (sys_hex (fp_system read_packetizer), count, i, ring_code (fp_type read_packetizer), 0, payload)) views \<and>
    concat (map (snd \<circ> snd) views) = [0xfb, 0xfc, 0xfd, 0xfe, 0xff]"
proof -
  have size: "frame_packets memory_framer (expected_packet_size memory_spw example_ethernet) memory_packets"
    using memory_packets_ok(1) by (simp only: memory_links)
  have hex: "sys_hex (fp_system read_packetizer) \<noteq> 0x05"
    by (simp add: read_packetizer_def FramePacketizer_sized_def read_system_simps)
  have ground: "ground_ready memory_machine"
    using memory_machine_simps(7)
    by (simp add: ground_ready_def memory_machine_simps(5) ground_deck_def get_sys_for_name_def System_named_def
      gse_packet_size_def Ethernet_static_def DataLinkLayer_static_def link_defs)
  have ring: "rb_write_pointer_width_bytes ring_example_parameters = 4"
    by (simp add: ring_example_parameters_def RingBufferParameters_def)
  note main = ring_memory_reaches_ground [OF memory_ready size example_packets_ok(4) _ _ _ memory_machine_simps(2) ground hex, of silence "0x1ffb" 0 word_of_nat]
  have run: "\<exists>m' cmd requests packets views.
    bindM (sync_remote_buffer_transaction PC 0) (\<lambda>_. sync_udp_send_all_downlink_buffer) memory_machine = Some (Inr False, m') \<and>
    m_sent m' = m_sent memory_machine @ map (Pair Tcp) (cmd # requests) @ map (Pair Udp_Ground) packets \<and>
    map (rmap_decode 2 4) requests =
      map (\<lambda>k. Some (0x4d, 0x02, 0, be_bytes 4 (word_of_nat (0x1ffb + k * 4)), 4, [])) [0..<length memory_packets] \<and>
    map parse_packet packets = map (\<lambda>(count, i, payload).
      Some (sys_hex (fp_system read_packetizer), count, i, ring_code (fp_type read_packetizer), 0, payload)) views \<and>
    concat (map (snd \<circ> snd) views) = memory_at word_of_nat 0x1ffb 5"
    using main memory_address memory_packets_ok memory_links memory_machine_simps ring
    by (simp del: be_bytes_numeral)
  have bytes: "memory_at word_of_nat 0x1ffb 5 = [0xfb, 0xfc, 0xfd, 0xfe, 0xff]"
    by (simp add: memory_at_def upt_conv_Cons)
  have two: "map (\<lambda>k. Some (0x4d, 0x02, 0, be_bytes 4 (word_of_nat (0x1ffb + k * 4)), 4, [])) [0..<2] =
      [Some (0x4d :: u8, 0x02 :: u8, 0 :: nat, [0, 0, 0x1f, 0xfb], 4 :: nat, [] :: bytes),
       Some (0x4d, 0x02, 0, [0, 0, 0x1f, 0xff], 4, [])]"
  proof -
    have "[0..<2] = [0, 1 :: nat]" by (simp add: upt_conv_Cons)
    then show ?thesis by simp
  qed
  show ?thesis
    using run unfolding memory_packets_ok(3) memory_machine_simps(3) two bytes append_Nil .
qed

end
