(* ===== verification/Responder_Properties.thy ===== *)
theory Responder_Properties
  imports Responder Ground_Path
begin

text \<open>
  What the simulator of \<open>Responder\<close> guarantees, and how it fits the flight software: reads and writes of the
  memory images by the packets the command deck builds. \<open>Responder_Steps\<close> has its handlers, \<open>Write_Pointers\<close> its timer,
  \<open>Closed_Loop\<close> the flight software that talks to it.
\<close>

section \<open>Memory images\<close>

lemma store_bytes_length [simp]: "length (snd (store_bytes base src is mem)) = length mem"
proof (induction "is" arbitrary: mem)
  case (Cons i "is")
  show ?case
  proof (cases "bindR (vec_at src i) (\<lambda>b. vec_set (i + base) b mem)")
    case (Inr mem')
    then have "length mem' = length mem" by (auto simp: bindR_eq_Inr vec_set_def split: if_splits)
    with Cons [of mem'] Inr show ?thesis by simp
  qed simp
qed simp

lemma store_bytes_from:
  "n \<le> length src \<Longrightarrow> base + n \<le> length mem \<Longrightarrow> j \<le> n \<Longrightarrow>
   store_bytes base src [j..<n] mem = (Inr (), take (base + j) mem @ take (n - j) (drop j src) @ drop (base + n) mem)"
proof (induction "n - j" arbitrary: j mem)
  case (Suc k)
  then have j: "j < n" "k = n - Suc j" by simp_all
  then have "[j..<n] = j # [Suc j..<n]" by (simp add: upt_conv_Cons)
  moreover have "vec_set (j + base) (src ! j) mem = Inr (mem[j + base := src ! j])" using Suc.prems j by simp
  moreover have "store_bytes base src [Suc j..<n] (mem[j + base := src ! j]) = (Inr (),
      take (base + Suc j) (mem[j + base := src ! j]) @ take (n - Suc j) (drop (Suc j) src) @ drop (base + n) mem)"
    using Suc.hyps(1) [OF j(2), of "mem[j + base := src ! j]"] Suc.prems j by simp
  moreover have "take (base + Suc j) (mem[j + base := src ! j]) = take (base + j) mem @ [src ! j]"
    using Suc.prems j by (simp add: take_Suc_conv_app_nth add.commute)
  moreover have "take (n - j) (drop j src) = src ! j # take (n - Suc j) (drop (Suc j) src)"
    using Suc.prems j by (simp add: Suc_diff_Suc flip: Cons_nth_drop_Suc)
      (metis Cons_nth_drop_Suc Suc_diff_Suc order_less_le_trans take_Suc_Cons)
  ultimately show ?case using Suc.prems j by simp
qed simp

lemma store_bytes_all:
  "n \<le> length src \<Longrightarrow> base + n \<le> length mem \<Longrightarrow>
   store_bytes base src [0..<n] mem = (Inr (), take base mem @ take n src @ drop (base + n) mem)"
  using store_bytes_from [of n src base mem 0] by simp

section \<open>Reading a request\<close>

lemma byte_mask: "(ucast (b :: u8) :: u32) AND 0xff = ucast b"
proof -
  have "(ucast b :: u32) AND 0xff = take_bit 8 (ucast b)" by (simp add: take_bit_eq_mask mask_eq_exp_minus_1)
  also have "\<dots> = ucast b" by (intro bit_word_eqI) (auto simp: bit_take_bit_iff bit_unsigned_iff dest: bit_imp_le_length)
  finally show ?thesis .
qed

lemma byte_masks:
  "0x1000000 * ucast (b :: u8) AND 0xff000000 = (0x1000000 * ucast b :: u32)"
  "0x10000 * ucast b AND 0xff0000 = (0x10000 * ucast b :: u32)"
  "0x100 * ucast b AND 0xff00 = (0x100 * ucast b :: u32)"
proof -
  have "push_bit k (ucast b) AND push_bit k 0xff = (push_bit k (ucast b) :: u32)" for k
    by (simp only: push_bit_and [symmetric] byte_mask)
  from this [of 24] this [of 16] this [of 8] show
    "0x1000000 * ucast (b :: u8) AND 0xff000000 = (0x1000000 * ucast b :: u32)"
    "0x10000 * ucast b AND 0xff0000 = (0x10000 * ucast b :: u32)"
    "0x100 * ucast b AND 0xff00 = (0x100 * ucast b :: u32)"
    by (simp_all add: push_bit_eq_mult mult.commute)
qed

lemma byte_masks_right:
  "ucast (b :: u8) * 0x10000 AND 0xff0000 = (ucast b * 0x10000 :: u32)"
  "ucast b * 0x100 AND 0xff00 = (ucast b * 0x100 :: u32)"
  using byte_masks(2,3) [of b] by (simp_all only: mult.commute)

lemma unsplat_be_value: "unat (unsplat_from_4bytes [a, b, c, d]) = be_value [a, b, c, d]"
proof -
  let ?w = "unsplat_from_4bytes [a, b, c, d]"
  have "be_value (be_bytes 4 (ucast ?w)) = be_value [a, b, c, d]" by (simp only: be_bytes_unsplat)
  moreover have "unat ?w < 256 ^ 4" using unsigned_less [of ?w, where 'a = nat] by simp
  then have "unat (ucast ?w :: u64) mod 256 ^ 4 = unat ?w" by (simp add: unsigned_ucast_eq take_bit_nat_eq_self)
  ultimately show ?thesis by (simp only: be_value_be_bytes)
qed

lemma word_of_nat_unat_32: "(word_of_nat (unat (w :: u32)) :: u64) = ucast w"
  by (simp add: word_unat_eq_iff unsigned_of_nat unsigned_ucast_eq)

lemma address_of_be_value: "length b = 4 \<Longrightarrow> address_of b = be_value b"
  by (auto simp: numeral_eq_Suc length_Suc_conv address_of_def byte_masks byte_mask
      unsplat_be_value [symmetric] unsplat_cons or.assoc simp del: be_value_simps)

lemma data_length_of_be_value: "length b = 3 \<Longrightarrow> data_length_of b = be_value b"
proof -
  assume "length b = 3"
  then obtain b0 b1 b2 where b: "b = [b0, b1, b2]" by (auto simp: numeral_eq_Suc length_Suc_conv)
  have "data_length_of b = unat (unsplat_from_4bytes [0, b0, b1, b2])"
    by (simp add: b data_length_of_def byte_masks_right byte_mask unsplat_cons or.assoc push_bit_eq_mult)
  also have "\<dots> = be_value b" unfolding unsplat_be_value by (simp add: b)
  finally show ?thesis .
qed

lemma first_index_append:
  "first_index a (xs @ ys) = (if a \<in> set xs then first_index a xs else length xs + first_index a ys)"
  by (induction xs) auto

definition addressable :: "responder \<Rightarrow> spacewire \<Rightarrow> u8 \<Rightarrow> bytes \<Rightarrow> bool" where
  "addressable s spw code prefix \<longleftrightarrow>
     rs_code_by_rmap_address s (spw_target_logical_address spw) = Some code \<and>
     (\<exists>man \<in> set (rs_managers s). \<exists>w. sys_spacewire (sm_system man) = Some w \<and>
       spw_target_logical_address w = spw_target_logical_address spw) \<and>
     (\<forall>man \<in> set (rs_managers s). \<exists>w. sys_spacewire (sm_system man) = Some w \<and>
       \<not> spw_target_logical_address w < 10 \<and> spw_target_logical_address w \<notin> set prefix)"

definition address_index :: "bytes \<Rightarrow> system_manager \<Rightarrow> nat" where
  "address_index message man = first_index (spw_target_logical_address (the (sys_spacewire (sm_system man)))) message"

lemma sender_indices_eq:
  "\<forall>man \<in> set managers. \<exists>w. sys_spacewire (sm_system man) = Some w \<and> \<not> spw_target_logical_address w < 10 \<and> P w \<Longrightarrow>
   sender_indices message managers = Inr (map (address_index message) managers)"
  by (induction managers) (auto simp: address_index_def)

lemma identify_sender_ok:
  assumes "addressable s spw code prefix" and "prefix = 0 # prefix'"
    and "message = prefix @ [spw_target_logical_address spw, 0x01, instruction, 0x02] @ rest"
    and "33 \<le> length message" and "rest \<noteq> []"
  shows "identify_sender s message = Inr code"
proof -
  let ?a = "spw_target_logical_address spw"
  have ks: "sender_indices message (rs_managers s) = Inr (map (address_index message) (rs_managers s))"
    using assms(1) unfolding addressable_def by (intro sender_indices_eq) auto
  have idx: "length prefix \<le> address_index message man" if "man \<in> set (rs_managers s)" for man
    using assms(1,3) that by (auto simp: addressable_def address_index_def first_index_append dest!: bspec [OF _ that])
  obtain man where man: "man \<in> set (rs_managers s)" "address_index message man = length prefix"
    using assms(1,3) by (fastforce simp: addressable_def address_index_def first_index_append)
  have min: "Min (set (map (address_index message) (rs_managers s))) = length prefix"
    using idx man by (intro Min_eqI) force+
  have nth: "message ! length prefix = ?a" "message ! (length prefix + 1) = 0x01" "message ! (length prefix + 3) = 0x02"
    using assms(3) by (simp_all add: nth_append)
  have "length prefix < length message - 4" using assms(3,5) by (cases rest) simp_all
  moreover obtain tl where "message = 0 # tl" using assms(2,3) by simp
  moreover have "map (address_index message) (rs_managers s) \<noteq> []" using man(1) by auto
  moreover have "rs_code_by_rmap_address s ?a = Some code" using assms(1) by (simp add: addressable_def)
  ultimately show ?thesis
    using ks min nth assms(4) by (simp add: identify_sender_def Let_def)
qed

section \<open>Requests of the command deck\<close>

text \<open>The packet of \<open>spw_packet\<close>, behind its prefix.\<close>

definition rmap_tail :: "spacewire \<Rightarrow> bytes \<Rightarrow> bytes \<Rightarrow> bytes" where
  "rmap_tail spw header rest = spw_target_path_address spw @ header @ [spw_crc spw header] @ rest"

definition request_of :: "spacewire \<Rightarrow> u8 \<Rightarrow> bytes \<Rightarrow> bytes \<Rightarrow> bytes \<Rightarrow> rmap_request" where
  "request_of spw instr tid addr dl = \<lparr>
     rq_instruction = instr,
     rq_key = spw_key spw,
     rq_reply_path = trim_reply_path (spw_reply_path_address spw),
     rq_initiator = spw_source_logical_address spw,
     rq_transaction_id = take 1 tid,
     rq_extended_address = 0,
     rq_address = be_value addr,
     rq_data_length_bytes = dl,
     rq_data_length = be_value dl\<rparr>"

lemma vec_at_middle: "length xs = n \<Longrightarrow> vec_at (xs @ y # ys) n = Inr y"
  by (simp add: vec_at_def nth_append)

lemma vec_slice_middle: "length xs = n \<Longrightarrow> n + length ys = k \<Longrightarrow> vec_slice n k (xs @ ys @ zs) = Inr ys"
  by (auto simp: vec_slice_def)

lemma parse_request_packet:
  assumes "length tid = 2" and "length addr = 4" and "length dl = 3"
    and "length (spw_reply_path_address spw) = instruction_reply_size instr"
  shows "parse_request (length (spw_target_path_address spw)) (rmap_tail spw (rmap_header spw instr tid addr dl) rest)
    = Inr (request_of spw instr tid addr dl)"
proof -
  let ?p = "spw_target_path_address spw" and ?r = "spw_reply_path_address spw"
  let ?a = "spw_target_logical_address spw" and ?src = "spw_source_logical_address spw"
  let ?n = "length ?p" and ?b = "length ?p + 4 + length ?r"
  let ?rest = "spw_crc spw (rmap_header spw instr tid addr dl) # rest"
  obtain t0 t1 where t: "tid = [t0, t1]" using assms(1) by (auto simp: numeral_2_eq_2 length_Suc_conv)
  define tail where "tail = rmap_tail spw (rmap_header spw instr tid addr dl) rest"
  have forms: "tail = (?p @ [?a, 1]) @ instr # spw_key spw # ?r @ ?src # tid @ [0] @ addr @ dl @ ?rest"
    "tail = (?p @ [?a, 1, instr]) @ spw_key spw # ?r @ ?src # tid @ [0] @ addr @ dl @ ?rest"
    "tail = (?p @ [?a, 1, instr, spw_key spw]) @ ?r @ ?src # tid @ [0] @ addr @ dl @ ?rest"
    "tail = (?p @ [?a, 1, instr, spw_key spw] @ ?r) @ ?src # tid @ [0] @ addr @ dl @ ?rest"
    "tail = (?p @ [?a, 1, instr, spw_key spw] @ ?r @ [?src]) @ [t0] @ t1 # [0] @ addr @ dl @ ?rest"
    "tail = (?p @ [?a, 1, instr, spw_key spw] @ ?r @ [?src, t0, t1]) @ 0 # addr @ dl @ ?rest"
    "tail = (?p @ [?a, 1, instr, spw_key spw] @ ?r @ [?src, t0, t1, 0]) @ addr @ dl @ ?rest"
    "tail = (?p @ [?a, 1, instr, spw_key spw] @ ?r @ [?src, t0, t1, 0] @ addr) @ dl @ ?rest"
    by (simp_all add: tail_def rmap_tail_def rmap_header_def t)
  have f: "vec_at tail (?n + 2) = Inr instr" "vec_at tail (?n + 3) = Inr (spw_key spw)"
    "vec_slice (?n + 4) ?b tail = Inr ?r" "vec_at tail ?b = Inr ?src"
    "vec_slice (?b + 1) (?b + 1 + 1) tail = Inr [t0]" "vec_at tail (?b + 3) = Inr 0"
    "vec_slice (?b + 4) (?b + 4 + 4) tail = Inr addr" "vec_slice (?b + 8) (?b + 8 + 3) tail = Inr dl"
    subgoal unfolding forms(1) by (rule vec_at_middle) simp
    subgoal unfolding forms(2) by (rule vec_at_middle) simp
    subgoal unfolding forms(3) by (rule vec_slice_middle) simp_all
    subgoal unfolding forms(4) by (rule vec_at_middle) simp
    subgoal unfolding forms(5) by (rule vec_slice_middle) simp_all
    subgoal unfolding forms(6) by (rule vec_at_middle) simp
    subgoal unfolding forms(7) by (rule vec_slice_middle) (simp_all add: assms(2))
    subgoal unfolding forms(8) by (rule vec_slice_middle) (simp_all add: assms(2,3))
    done
  show ?thesis
    unfolding tail_def [symmetric] parse_request_def
    by (simp only: f bindR_Inr Let_def assms(4) [symmetric])
      (simp add: request_of_def t address_of_be_value [OF assms(2)] data_length_of_be_value [OF assms(3)])
qed

lemma spw_packet_tail: "spw_packet spw h rest = get_spw_ether_header (rmap_tail spw h rest) @ rmap_tail spw h rest"
  by (simp add: spw_packet_def rmap_tail_def Let_def)

text \<open>The length check of the simulator reads the bytes before the last as the length, which is never too much.\<close>

lemma prefix_bytes: "get_spw_ether_header p =
   0 # 0 # 0 # 0 # be_bytes 8 (word_of_nat (length p))"
  by (simp add: get_spw_ether_header_def size_bytes_eq del: be_bytes_numeral)

lemma prefix_length_check:
  assumes "length p < 2 ^ 64"
  shows "\<exists>b. vec_slice 7 11 (get_spw_ether_header p @ p) = Inr b \<and> unat (unsplat_from_4bytes b) \<le> length p"
proof -
  let ?w = "word_of_nat (length p) :: u64"
  have "vec_slice 7 11 (get_spw_ether_header p @ p) = Inr (be_bytes 4 (drop_bit 8 ?w))"
    unfolding prefix_bytes by (simp add: vec_slice_def)
  moreover have "unat (unsplat_from_4bytes (be_bytes 4 (drop_bit 8 ?w))) \<le> length p"
  proof -
    have "unat (unsplat_from_4bytes (be_bytes 4 (drop_bit 8 ?w))) = be_value (be_bytes 4 (drop_bit 8 ?w))"
      unfolding be_bytes_4 by (rule unsplat_be_value)
    also have "\<dots> \<le> unat (drop_bit 8 ?w)" by (simp only: be_value_be_bytes mod_less_eq_dividend)
    also have "unat (drop_bit 8 ?w) = drop_bit 8 (unat ?w)" by (rule unat_drop_bit_eq)
    also have "\<dots> = unat ?w div 2 ^ 8" by (simp only: drop_bit_eq_div)
    also have "\<dots> \<le> unat ?w" by (rule div_le_dividend)
    finally show ?thesis using assms by (simp add: unat_of_nat_small)
  qed
  ultimately show ?thesis by blast
qed

lemma found_by_code: "sys_spacewire (get_sys_for_code code deck) = Some spw \<Longrightarrow> sys_hex (get_sys_for_code code deck) = code"
proof -
  have "sys_spacewire (find_code code ss) = Some spw \<Longrightarrow> sys_hex (find_code code ss) = code" for ss
    by (induction ss) (auto simp: null_sys_def System_named_def)
  then show "sys_spacewire (get_sys_for_code code deck) = Some spw \<Longrightarrow> sys_hex (get_sys_for_code code deck) = code"
    by (simp add: get_sys_for_code_def)
qed

lemma unlogged_found:
  "sys_spacewire (get_sys_for_code code deck) = Some spw \<Longrightarrow> unlogged_sys_for_code code deck = Inr (get_sys_for_code code deck)"
proof -
  have "sys_spacewire (find_code code ss) = Some spw \<Longrightarrow> list_ex (\<lambda>sys. sys_hex sys = code) ss" for ss
    by (induction ss) (auto simp: null_sys_def System_named_def split: if_splits)
  then show "sys_spacewire (get_sys_for_code code deck) = Some spw \<Longrightarrow> ?thesis"
    by (simp add: get_sys_for_code_def unlogged_sys_for_code_def)
qed

text \<open>The set-up in which the simulator plays a system: it is in the deck with the link \<open>spw\<close>, its image is loaded, its
  key is the one the simulator looks for, and its requests are told apart by the address.\<close>

definition simulates :: "responder \<Rightarrow> u8 \<Rightarrow> spacewire \<Rightarrow> bytes \<Rightarrow> bool" where
  "simulates s code spw mem \<longleftrightarrow>
     sys_spacewire (get_sys_for_code code (rs_deck s)) = Some spw \<and> rs_mmaps s code = Some mem \<and> spw_key spw = 0x02"

lemma make_reply_request:
  assumes "simulates s code spw mem" and "length tid = 2" and "length addr = 4" and "length dl = 3"
    and "length (spw_reply_path_address spw) = instruction_reply_size instr"
    and "h = rmap_header spw instr tid addr dl" and "length (rmap_tail spw h rest) < 2 ^ 64"
    and "21 \<le> length (rmap_tail spw h rest)"
    and "addressable s spw code (get_spw_ether_header (rmap_tail spw h rest) @ spw_target_path_address spw)"
  shows "make_reply behind (spw_packet spw h rest) s =
     serve_request behind (get_sys_for_code code (rs_deck s)) spw (rmap_tail spw h rest) (request_of spw instr tid addr dl) s"
proof -
  let ?t = "rmap_tail spw h rest" and ?p = "spw_packet spw h rest"
  let ?prefix = "get_spw_ether_header ?t @ spw_target_path_address spw"
  have key: "spw_key spw = 0x02" using assms(1) by (simp add: simulates_def)
  have shape: "?p = ?prefix @ [spw_target_logical_address spw, 0x01, instr, 0x02]
      @ (spw_reply_path_address spw @ [spw_source_logical_address spw] @ tid @ [0] @ addr @ dl @ [spw_crc spw h] @ rest)"
    unfolding spw_packet_tail by (simp add: rmap_tail_def assms(6) rmap_header_def key)
  have len: "length ?p = 12 + length ?t" by (simp add: spw_packet_tail)
  obtain p' where prefix: "?prefix = 0 # p'" unfolding prefix_bytes by simp
  have id: "identify_sender s ?p = Inr code"
    by (rule identify_sender_ok [OF assms(9) prefix shape]) (use len assms(8) in simp_all)
  obtain b where b: "vec_slice 7 11 ?p = Inr b" "unat (unsplat_from_4bytes b) \<le> length ?t"
    using prefix_length_check [OF assms(7)] by (auto simp: spw_packet_tail)
  have first: "\<exists>tl. ?p = 0 # tl" using prefix shape by simp
  have spw: "sys_spacewire (get_sys_for_code code (rs_deck s)) = Some spw" using assms(1) by (simp add: simulates_def)
  have drop: "drop 12 ?p = ?t" by (simp add: spw_packet_tail)
  have parse: "parse_request (length (spw_target_path_address spw)) ?t = Inr (request_of spw instr tid addr dl)"
    unfolding assms(6) by (rule parse_request_packet [OF assms(2-5)])
  from first obtain tl where tl: "?p = 0 # tl" by blast
  have "make_reply behind ?p s = make_reply behind (0 # tl) s" by (simp only: tl)
  then show ?thesis
    using id b len spw drop parse unlogged_found [OF spw] unfolding make_reply_def Let_def tl by (simp add: bindM_steps(1))
qed

text \<open>A request whose sender is not recognised ends the simulator: the failed lookup of the code \<open>0xff\<close> is logged.\<close>

theorem unknown_sender_undefined:
  assumes "identify_sender s message = Inr code" and "code \<notin> sys_hex ` set (deck_systems (rs_deck s))"
    and "vec_slice 7 11 message = Inr n" and "unat (unsplat_from_4bytes n) \<le> length message - 12"
  shows "make_reply behind message s = Some (Inl Undefined, s)"
proof -
  from assms(1) obtain rest where message: "message = 0 # rest" "33 \<le> length message"
    by (auto simp: identify_sender_def split: list.splits if_splits)
  have "unlogged_sys_for_code code (rs_deck s) = Inl Undefined"
    using assms(2) by (auto simp: unlogged_sys_for_code_def list_ex_iff)
  then show ?thesis
    using assms(1,3,4) message(2) by (simp add: make_reply_def message(1) Let_def bindM_steps)
qed

text \<open>The bytes of a packet before the address are not an address of a system.\<close>

definition routable :: "responder \<Rightarrow> u8 \<Rightarrow> spacewire \<Rightarrow> bytes \<Rightarrow> bool" where
  "routable s code spw p \<longleftrightarrow> addressable s spw code (take (12 + length (spw_target_path_address spw)) p)"

lemma routable_packet: "routable s code spw (spw_packet spw h rest) \<longleftrightarrow>
    addressable s spw code (get_spw_ether_header (rmap_tail spw h rest) @ spw_target_path_address spw)"
  by (simp add: routable_def spw_packet_tail rmap_tail_def)

text \<open>The reply to a read: 24 bytes, the block, its checksum.\<close>

definition reply_parts :: "spacewire \<Rightarrow> u8 \<Rightarrow> u8 \<Rightarrow> u8 \<Rightarrow> bytes \<Rightarrow> bytes \<Rightarrow> parts" where
  "reply_parts spw instr t0 t1 dl block =
     (let header = [spw_source_logical_address spw, 0x01, (instr AND 0x03) OR 0x08, 0x00,
            spw_source_logical_address spw, t0, t1, 0x00] @ dl
      in (replicate 8 0 @ be_bytes 4 (word_of_nat (13 + length block)) @ header @ [spw_crc spw header],
          block, [spw_crc spw block]))"

lemma reply_parts_simps:
  "payload_of (reply_parts spw instr t0 t1 dl block) = block"
  "length dl = 3 \<Longrightarrow> length (packet_of (reply_parts spw instr t0 t1 dl block)) = 25 + length block"
  by (simp_all add: reply_parts_def Let_def)

lemma reply_parts_data:
  assumes "length block < 2 ^ 24"
  shows "get_reply_data (packet_of (reply_parts spw instr t0 t1 (be_bytes 3 (word_of_nat (length block))) block)) = block"
proof -
  let ?dl = "be_bytes 3 (word_of_nat (length block))"
  have "\<exists>d0 d1 d2. ?dl = [d0, d1, d2]" by simp
  then obtain d0 d1 d2 where dl: "?dl = [d0, d1, d2]" by blast
  define p where "p = packet_of (reply_parts spw instr t0 t1 ?dl block)"
  have "\<exists>c0 c1. p = replicate 8 0 @ be_bytes 4 (word_of_nat (13 + length block)) @ [spw_source_logical_address spw, 0x01,
      (instr AND 0x03) OR 0x08, 0x00, spw_source_logical_address spw, t0, t1, 0x00, d0, d1, d2, c0] @ block @ [c1]"
    by (simp add: p_def reply_parts_def Let_def dl del: be_bytes_numeral)
  then obtain c0 c1 where "p = replicate 8 0 @ be_bytes 4 (word_of_nat (13 + length block)) @ [spw_source_logical_address spw, 0x01,
      (instr AND 0x03) OR 0x08, 0x00, spw_source_logical_address spw, t0, t1, 0x00, d0, d1, d2, c0] @ block @ [c1]"
    by blast
  moreover have "\<exists>s0 s1 s2 s3. be_bytes 4 (word_of_nat (13 + length block)) = [s0, s1, s2, s3]" by simp
  then obtain s0 s1 s2 s3 where "be_bytes 4 (word_of_nat (13 + length block)) = [s0, s1, s2, s3]" by blast
  ultimately have p: "p = [0, 0, 0, 0, 0, 0, 0, 0, s0, s1, s2, s3, spw_source_logical_address spw, 0x01,
      (instr AND 0x03) OR 0x08, 0x00, spw_source_logical_address spw, t0, t1, 0x00, d0, d1, d2, c0] @ block @ [c1]"
    by (simp add: numeral_eq_Suc)
  have "unat (unsplat_from_4bytes [0, d0, d1, d2]) = be_value ?dl" unfolding unsplat_be_value dl by simp
  also have "\<dots> = length block" using assms by (simp only: be_value_length_field) simp
  finally have "unat (unsplat_from_4bytes [0, d0, d1, d2]) = length block" .
  then show ?thesis unfolding p_def [symmetric] p by (simp add: get_reply_data_def Let_def)
qed

text \<open>With checksums of another version than \<open>f\<close> every read that finds its bytes ends the simulator.\<close>

lemma unsupported_checksum_undefined:
  assumes "spw_crc_version spw \<noteq> CHR ''f''" and "vec_slice (rq_address rq) (rq_address rq + rq_data_length rq) mem = Inr block"
  shows "memory_reply (Inr b) spw rq mem = Inl Undefined"
  using assms by (simp add: memory_reply_def unlogged_crc_def Let_def)

lemma read_served:
  assumes "simulates s code spw mem" and "\<not> bit instr 5" and "bit instr 3" and "length dl = 3"
    and "be_value addr + be_value dl \<le> length mem" and "tid = [t0, t0']" and "spw_crc_version spw = CHR ''f''"
  shows "serve_request behind (get_sys_for_code code (rs_deck s)) spw tail (request_of spw instr tid addr dl) s =
    Some (bindR behind (\<lambda>t1. Inr (packet_of (reply_parts spw instr t0 t1 dl
      (take (be_value dl) (drop (be_value addr) mem))))), s)"
proof -
  let ?sys = "get_sys_for_code code (rs_deck s)" and ?rq = "request_of spw instr tid addr dl"
  from assms(1) have mem: "rs_mmaps s (sys_hex ?sys) = Some mem"
    using found_by_code [of code "rs_deck s" spw] by (simp add: simulates_def)
  obtain name where "ring_name (is_ring_buffer ?sys (rq_address ?rq) (rq_data_length ?rq)) = Some name"
    using ring_name_total by blast
  moreover have "unlogged_crc spw data = Inr (spw_crc spw data)" for data
    using assms(7) by (simp add: unlogged_crc_def)
  ultimately show ?thesis
    using mem assms(2-6)
    by (simp add: serve_request_def request_of_def memory_reply_def reply_parts_def Let_def min_def
        del: be_bytes_numeral be_value_simps cong: if_cong)
qed

lemma write_served:
  assumes "simulates s code spw mem" and "bit instr 5" and "be_value dl = length data"
    and "be_value addr + length data \<le> length mem" and "length tid = 2" and "length addr = 4" and "length dl = 3"
    and "length (spw_reply_path_address spw) = instruction_reply_size instr"
  shows "serve_request behind (get_sys_for_code code (rs_deck s)) spw
      (rmap_tail spw (rmap_header spw instr tid addr dl) (data @ rest)) (request_of spw instr tid addr dl) s =
    Some (Inr (if bit instr 3 then [] else [1, 1, 1, 1]), s\<lparr>rs_mmaps := (rs_mmaps s)(code \<mapsto>
      take (be_value addr) mem @ data @ drop (be_value addr + length data) mem)\<rparr>)"
proof -
  let ?sys = "get_sys_for_code code (rs_deck s)" and ?rq = "request_of spw instr tid addr dl"
  let ?base = "length (spw_target_path_address spw) + 4 + instruction_reply_size instr + 12"
  let ?h = "rmap_header spw instr tid addr dl"
  from assms(1) have mem: "rs_mmaps s code = Some mem" "sys_hex ?sys = code"
    using found_by_code [of code "rs_deck s" spw] by (simp_all add: simulates_def)
  obtain name where name: "ring_name (is_ring_buffer ?sys (be_value addr) (length data)) = Some name"
    using ring_name_total by blast
  have "rmap_tail spw ?h (data @ rest) = (spw_target_path_address spw @ ?h @ [spw_crc spw ?h]) @ data @ rest"
    by (simp add: rmap_tail_def)
  moreover have "length (spw_target_path_address spw @ ?h @ [spw_crc spw ?h]) = ?base"
    using assms(5-8) by (simp add: rmap_header_def)
  ultimately have slice: "vec_slice ?base (?base + length data) (rmap_tail spw ?h (data @ rest)) = Inr data"
    using vec_slice_middle [of "spw_target_path_address spw @ ?h @ [spw_crc spw ?h]" ?base data] by simp
  have "store_bytes (be_value addr) data [0..<length data] mem =
      (Inr (), take (be_value addr) mem @ data @ drop (be_value addr + length data) mem)"
    using store_bytes_all [of "length data" data "be_value addr" mem] assms(4) by simp
  then show ?thesis
    using mem name slice assms(2,3)
    by (simp add: serve_request_def request_of_def Let_def bindM_steps(1) add.assoc del: be_value_simps)
qed

text \<open>Both kinds of command of the deck, as packets.\<close>

lemma read_request_served:
  assumes "simulates s code spw mem" and "sys_spacewire (get_sys_for_code code deck) = Some spw"
    and "length (spw_reply_path_address spw) = 4" and "length addr = 4" and "n < 2 ^ 24"
    and "get_read_command_for_sys_at_address deck code addr n = Inr p" and "routable s code spw p"
    and "spw_target_path_address spw \<noteq> []" and "length (spw_target_path_address spw) < 2 ^ 60"
    and "be_value addr + n \<le> length mem" and "spw_crc_version spw = CHR ''f''"
  shows "make_reply behind p s = Some (bindR behind (\<lambda>t1. Inr (packet_of (reply_parts spw 0x4d 0 t1
      (be_bytes 3 (word_of_nat n)) (take n (drop (be_value addr) mem))))), s)"
proof -
  let ?h = "rmap_header spw 0x4d [0x00, 0x00] addr (be_bytes 3 (word_of_nat n))"
  have p: "p = spw_packet spw ?h []" using assms(2,6) by (simp add: read_command_eq del: be_bytes_numeral)
  have n: "be_value (be_bytes 3 (word_of_nat n)) = n" using assms(5) by (simp only: be_value_length_field) simp
  have len: "length (rmap_tail spw ?h []) = length (spw_target_path_address spw) + 20"
    using assms(3,4) by (simp add: rmap_tail_def rmap_header_def del: be_bytes_numeral)
  have reply: "instruction_reply_size 0x4d = 4" by (simp add: instruction_reply_size_def)
  have "make_reply behind p s = serve_request behind (get_sys_for_code code (rs_deck s)) spw (rmap_tail spw ?h [])
      (request_of spw 0x4d [0, 0] addr (be_bytes 3 (word_of_nat n))) s"
    unfolding p
  proof (rule make_reply_request [OF assms(1) _ assms(4) _ _ refl])
    show "length (rmap_tail spw ?h []) < 2 ^ 64" "21 \<le> length (rmap_tail spw ?h [])"
      using len assms(8,9) by (simp_all add: Suc_le_eq)
    show "addressable s spw code (get_spw_ether_header (rmap_tail spw ?h []) @ spw_target_path_address spw)"
      using assms(7) unfolding p routable_packet .
  qed (use assms(3) reply in \<open>simp_all del: be_bytes_numeral\<close>)
  also have "\<dots> = Some (bindR behind (\<lambda>t1. Inr (packet_of (reply_parts spw 0x4d 0 t1
      (be_bytes 3 (word_of_nat n)) (take n (drop (be_value addr) mem))))), s)"
    using read_served [OF assms(1), of "0x4d" "be_bytes 3 (word_of_nat n)" addr "[0, 0]" 0 0 behind] assms(10,11)
    unfolding n by (simp del: be_bytes_numeral be_value_simps)
  finally show ?thesis .
qed

lemma write_request_served:
  assumes "simulates s code spw mem" and "sys_spacewire (get_sys_for_code code deck) = Some spw"
    and "cmd = get_command_for_sys_for_code code c deck" and "cmd_type cmd = CMD_SPW" and "\<not> cmd_read cmd"
    and "bit (cmd_spw_instruction cmd) 5"
    and "length (spw_reply_path_address spw) = 4" and "instruction_reply_size (cmd_spw_instruction cmd) = 4"
    and "length (cmd_spw_address cmd) = 4" and "length (cmd_spw_write_data cmd) < 2 ^ 24"
    and "get_command_bytes_for_sys_for_code deck code c = Inr p" and "routable s code spw p"
    and "spw_target_path_address spw \<noteq> []" and "length (spw_target_path_address spw) < 2 ^ 60"
    and "be_value (cmd_spw_address cmd) + length (cmd_spw_write_data cmd) \<le> length mem"
  shows "make_reply behind p s = Some (Inr (if bit (cmd_spw_instruction cmd) 3 then [] else [1, 1, 1, 1]),
      s\<lparr>rs_mmaps := (rs_mmaps s)(code \<mapsto> take (be_value (cmd_spw_address cmd)) mem @ cmd_spw_write_data cmd
        @ drop (be_value (cmd_spw_address cmd) + length (cmd_spw_write_data cmd)) mem)\<rparr>)"
proof -
  let ?data = "cmd_spw_write_data cmd" and ?instr = "cmd_spw_instruction cmd"
  let ?dl = "be_bytes 3 (word_of_nat (length ?data))" and ?rest = "?data @ [spw_crc spw ?data]"
  let ?h = "rmap_header spw ?instr [0x00, 0x00] (cmd_spw_address cmd) ?dl"
  have p: "p = spw_packet spw ?h ?rest"
    using assms(3-5,11) make_spw_packet_eq [OF assms(2), of cmd]
    by (simp add: get_command_bytes_for_sys_for_code_def Let_def del: be_bytes_numeral)
  have n: "be_value ?dl = length ?data" using assms(10) by (simp only: be_value_length_field) simp
  have len: "length (rmap_tail spw ?h ?rest) =
      length (spw_target_path_address spw) + 21 + length ?data"
    using assms(7,9) by (simp add: rmap_tail_def rmap_header_def del: be_bytes_numeral)
  have "make_reply behind p s = serve_request behind (get_sys_for_code code (rs_deck s)) spw (rmap_tail spw ?h ?rest)
      (request_of spw ?instr [0, 0] (cmd_spw_address cmd) ?dl) s"
    unfolding p
  proof (rule make_reply_request [OF assms(1) _ assms(9) _ _ refl])
    show "length (rmap_tail spw ?h ?rest) < 2 ^ 64"
      using len assms(10,14) by simp
    show "21 \<le> length (rmap_tail spw ?h ?rest)" using len by simp
    show "addressable s spw code (get_spw_ether_header (rmap_tail spw ?h ?rest) @ spw_target_path_address spw)"
      using assms(12) unfolding p routable_packet .
  qed (use assms(7,8) in \<open>simp_all del: be_bytes_numeral\<close>)
  also have "\<dots> = Some (Inr (if bit ?instr 3 then [] else [1, 1, 1, 1]),
      s\<lparr>rs_mmaps := (rs_mmaps s)(code \<mapsto> take (be_value (cmd_spw_address cmd)) mem @ ?data
        @ drop (be_value (cmd_spw_address cmd) + length ?data) mem)\<rparr>)"
    by (rule write_served [OF assms(1,6) n assms(15) _ assms(9)]) (use assms(7,8) in \<open>simp_all del: be_bytes_numeral\<close>)
  finally show ?thesis .
qed

section \<open>An example\<close>

definition sim_spw :: spacewire where
  "sim_spw = memory_spw\<lparr>dl_static_header_size := 24\<rparr>"

definition sim_system :: system where
  "sim_system = memory_system\<lparr>sys_spacewire := Some sim_spw\<rparr>"

definition sim_deck :: command_deck where
  "sim_deck = insert_command 0x09 0x80 write_example (CommandDeck_default\<lparr>deck_systems := [sim_system]\<rparr>)"

definition simulator :: "bytes \<Rightarrow> responder" where
  "simulator mem = projr (Responder_mmap (\<lambda>_ _. True) (\<lambda>_. mem) [(0x09, ''cdte1.mmap'')]
     [SystemManager RB_NONE sim_system] sim_deck)"

lemma sim_spw_simps:
  "spw_target_path_address sim_spw = [0x07, 0x02]" "spw_reply_path_address sim_spw = [0x00, 0x00, 0x06, 0x03]"
  "spw_target_logical_address sim_spw = 0xfe" "spw_key sim_spw = 0x02" "spw_source_logical_address sim_spw = 0xfe"
  "spw_crc_version sim_spw = CHR ''f''" "dl_max_payload_size sim_spw = 4" "dl_static_header_size sim_spw = 24"
  "dl_static_footer_size sim_spw = 1"
  by (simp_all add: sim_spw_def memory_spw_def cdte_spw_example_def SpaceWire_static_def DataLinkLayer_static_def link_defs)

lemma sim_system_simps:
  "sys_spacewire sim_system = Some sim_spw" "sys_hex sim_system = 0x09" "sys_ethernet sim_system = Some example_ethernet"
  "sys_name sim_system = ''cdte1''"
  using memory_machine_simps(6,7,9) by (simp_all add: sim_system_def)

lemma sim_deck_simps:
  "get_sys_for_code 0x09 sim_deck = sim_system" "get_command_for_sys_for_code 0x09 0x80 sim_deck = write_example"
  by (simp_all add: sim_deck_def insert_command_def get_sys_for_code_def get_command_for_sys_for_code_def
      CommandDeck_default_def sim_system_simps)

lemma simulator_simps:
  "rs_mmaps (simulator mem) = [0x09 \<mapsto> mem]" "rs_managers (simulator mem) = [SystemManager RB_NONE sim_system]"
  "rs_deck (simulator mem) = sim_deck" "rs_code_by_rmap_address (simulator mem) = [0xfe \<mapsto> 0x09]"
  "rs_lookup (simulator mem) = False"
  by (simp_all add: simulator_def Responder_mmap_def open_acceptor_def SystemManager_def sim_system_simps sim_spw_simps
      map_insert_def)

lemma sim_simulates: "simulates (simulator mem) 0x09 sim_spw mem"
  by (simp add: simulates_def simulator_simps sim_deck_simps sim_system_simps sim_spw_simps)

lemma sim_routable:
  assumes "length (rmap_tail sim_spw h rest) \<in> {22, 26}"
  shows "routable (simulator mem) 0x09 sim_spw (spw_packet sim_spw h rest)"
  using assms unfolding routable_packet addressable_def simulator_simps prefix_bytes
  by (auto simp: sim_system_simps sim_spw_simps SystemManager_def)

text \<open>The packets of the write command of the deck and of a read of the bytes written.\<close>

definition sim_write :: bytes where
  "sim_write = spw_packet sim_spw (rmap_header sim_spw 0x7d [0, 0] [0, 0, 0, 0x10] (be_bytes 3 (word_of_nat 3)))
     ([1, 2, 3] @ [spw_crc sim_spw [1, 2, 3]])"

definition sim_read :: bytes where
  "sim_read = spw_packet sim_spw (rmap_header sim_spw 0x4d [0, 0] [0, 0, 0, 0x10] (be_bytes 3 (word_of_nat 3))) []"

lemma write_example_type: "cmd_type write_example = CMD_SPW"
  by (simp add: write_example_def set_spw_options_def Command_def cmd_set_type_def)

lemma sim_packets:
  "get_command_bytes_for_sys_for_code sim_deck 0x09 0x80 = Inr sim_write"
  "get_read_command_for_sys_at_address sim_deck 0x09 [0, 0, 0, 0x10] 3 = Inr sim_read"
  "routable (simulator mem) 0x09 sim_spw sim_write" "routable (simulator mem) 0x09 sim_spw sim_read"
proof -
  have spw: "sys_spacewire (get_sys_for_code 0x09 sim_deck) = Some sim_spw"
    by (simp add: sim_deck_simps sim_system_simps)
  show "get_command_bytes_for_sys_for_code sim_deck 0x09 0x80 = Inr sim_write"
    using make_spw_packet_eq [of sim_system sim_spw write_example]
    by (simp add: sim_write_def get_command_bytes_for_sys_for_code_def sim_deck_simps sim_system_simps write_example_type
        command_example_simps Let_def del: be_bytes_numeral)
  show "get_read_command_for_sys_at_address sim_deck 0x09 [0, 0, 0, 0x10] 3 = Inr sim_read"
    using read_command_eq [OF spw, of "[0, 0, 0, 0x10]" 3] by (simp add: sim_read_def)
  show "routable (simulator mem) 0x09 sim_spw sim_write" "routable (simulator mem) 0x09 sim_spw sim_read"
    unfolding sim_write_def sim_read_def
    by (intro sim_routable; simp add: rmap_tail_def rmap_header_def sim_spw_simps del: be_bytes_numeral)+
qed

section \<open>Properties\<close>

lemma unknown_sender_undefined_witness:
  "make_reply (Inr 0) (replicate 33 0) (simulator (replicate 32 0)) = Some (Inl Undefined, simulator (replicate 32 0))"
proof (rule unknown_sender_undefined)
  show "identify_sender (simulator (replicate 32 0)) (replicate 33 0) = Inr 0xff" by code_simp
  show "vec_slice 7 11 (replicate 33 (0 :: u8)) = Inr [0, 0, 0, 0]" by code_simp
  show "unat (unsplat_from_4bytes [0, 0, 0, 0]) \<le> length (replicate 33 (0 :: u8)) - 12" by code_simp
  show "0xff \<notin> sys_hex ` set (deck_systems (rs_deck (simulator (replicate 32 0))))" by code_simp
qed

text \<open>C18. Memory of the simulator: a write command of the deck, then a read command for the same bytes. The simulator
  stores the data at the address and changes nothing else; the read leaves the state alone and its reply
  carries the data written, as the flight software extracts them. The link's checksums are of version \<open>f\<close>: any other
  makes the reply report an error to a logger the simulator does not have. The reply needs a byte the simulator reads behind
  the end of a vector: by the letter of the C++ standard every read is undefined.\<close>

theorem written_bytes_read_back:
  assumes "simulates s code spw mem" and "sys_spacewire (get_sys_for_code code deck) = Some spw"
    and "cmd = get_command_for_sys_for_code code c deck" and "cmd_type cmd = CMD_SPW" and "\<not> cmd_read cmd"
    and "bit (cmd_spw_instruction cmd) 5"
    and "length (spw_reply_path_address spw) = 4" and "instruction_reply_size (cmd_spw_instruction cmd) = 4"
    and "length (cmd_spw_address cmd) = 4" and "length (cmd_spw_write_data cmd) < 2 ^ 24"
    and "spw_target_path_address spw \<noteq> []" and "length (spw_target_path_address spw) < 2 ^ 60"
    and "be_value (cmd_spw_address cmd) + length (cmd_spw_write_data cmd) \<le> length mem"
    and "get_command_bytes_for_sys_for_code deck code c = Inr write" and "routable s code spw write"
    and "get_read_command_for_sys_at_address deck code (cmd_spw_address cmd) (length (cmd_spw_write_data cmd)) = Inr read"
    and "routable s code spw read" and "spw_crc_version spw = CHR ''f''"
  shows "\<exists>s' answer.
    make_reply behind write s = Some (Inr (if bit (cmd_spw_instruction cmd) 3 then [] else [1, 1, 1, 1]), s') \<and>
    s' = s\<lparr>rs_mmaps := (rs_mmaps s)(code \<mapsto> take (be_value (cmd_spw_address cmd)) mem @ cmd_spw_write_data cmd
      @ drop (be_value (cmd_spw_address cmd) + length (cmd_spw_write_data cmd)) mem)\<rparr> \<and>
    (\<forall>b. make_reply (Inr b) read s' = Some (Inr (answer b), s') \<and> get_reply_data (answer b) = cmd_spw_write_data cmd) \<and>
    make_reply (Inl Undefined) read s' = Some (Inl Undefined, s')"
proof -
  let ?a = "be_value (cmd_spw_address cmd)" and ?data = "cmd_spw_write_data cmd"
  let ?mem = "take ?a mem @ ?data @ drop (?a + length ?data) mem"
  let ?s = "s\<lparr>rs_mmaps := (rs_mmaps s)(code \<mapsto> ?mem)\<rparr>"
  have s': "simulates ?s code spw ?mem" "routable ?s code spw read"
    using assms(1,17) by (simp_all add: simulates_def routable_def addressable_def)
  have data: "take (length ?data) (drop ?a ?mem) = ?data" using assms(13) by simp
  have served: "make_reply behind read ?s = Some (bindR behind (\<lambda>t1. Inr (packet_of
      (reply_parts spw 0x4d 0 t1 (be_bytes 3 (word_of_nat (length ?data))) ?data))), ?s)" for behind
    using read_request_served [OF s'(1) assms(2,7,9,10,16) s'(2) assms(11,12), of behind] assms(13,18)
    unfolding data by simp
  show ?thesis
    using write_request_served [OF assms(1-10,14,15,11-13), of behind]
    by (intro exI [of _ ?s] exI [of _ "\<lambda>b. packet_of (reply_parts spw 0x4d 0 b (be_bytes 3 (word_of_nat (length ?data))) ?data)"])
      (simp only: served bindR_Inr bindR_Inl reply_parts_data [OF assms(10)] simp_thms)
qed

lemma written_bytes_read_back_witness:
  "\<exists>storing read s' answer.
    get_command_bytes_for_sys_for_code sim_deck 0x09 0x80 = Inr storing \<and>
    get_read_command_for_sys_at_address sim_deck 0x09 [0, 0, 0, 0x10] 3 = Inr read \<and>
    make_reply (Inr 0) storing (simulator (replicate 32 0)) = Some (Inr [], s') \<and>
    rs_mmaps s' 0x09 = Some (replicate 16 0 @ [1, 2, 3] @ replicate 13 0) \<and>
    make_reply (Inr 0) read s' = Some (Inr answer, s') \<and> get_reply_data answer = [1, 2, 3]"
proof -
  have spw: "sys_spacewire (get_sys_for_code 0x09 sim_deck) = Some sim_spw"
    by (simp add: sim_deck_simps sim_system_simps)
  have cmd: "write_example = get_command_for_sys_for_code 0x09 0x80 sim_deck" by (simp add: sim_deck_simps)
  have e: "\<not> cmd_read write_example" "bit (cmd_spw_instruction write_example) 5" "bit (cmd_spw_instruction write_example) 3"
    "instruction_reply_size (cmd_spw_instruction write_example) = 4" "length (cmd_spw_address write_example) = 4"
    "length (cmd_spw_write_data write_example) = 3" "be_value (cmd_spw_address write_example) = 16"
    "length (spw_reply_path_address sim_spw) = 4" "spw_target_path_address sim_spw \<noteq> []"
    "length (spw_target_path_address sim_spw) < 2 ^ 60"
    by (simp_all add: command_example_simps instruction_reply_size_def sim_spw_simps)
  have "\<exists>s' answer.
      make_reply (Inr 0) sim_write (simulator (replicate 32 0)) =
        Some (Inr (if bit (cmd_spw_instruction write_example) 3 then [] else [1, 1, 1, 1]), s') \<and>
      s' = simulator (replicate 32 0)\<lparr>rs_mmaps := (rs_mmaps (simulator (replicate 32 0)))(0x09 \<mapsto>
        take (be_value (cmd_spw_address write_example)) (replicate 32 0) @ cmd_spw_write_data write_example
        @ drop (be_value (cmd_spw_address write_example) + length (cmd_spw_write_data write_example)) (replicate 32 0))\<rparr> \<and>
      (\<forall>b. make_reply (Inr b) sim_read s' = Some (Inr (answer b), s') \<and>
        get_reply_data (answer b) = cmd_spw_write_data write_example) \<and>
      make_reply (Inl Undefined) sim_read s' = Some (Inl Undefined, s')"
    by (rule written_bytes_read_back [OF sim_simulates spw cmd write_example_type e(1,2,8,4,5) _ e(9,10) _
          sim_packets(1,3) _ sim_packets(4) sim_spw_simps(6)])
      (use e(6,7) sim_packets(2) in \<open>simp_all add: command_example_simps(7)\<close>)
  moreover have "replicate 32 0 = replicate 16 0 @ (replicate 16 0 :: bytes)" by (simp flip: replicate_add)
  ultimately show ?thesis
    using sim_packets(1,2) e(3) unfolding e(6,7) command_example_simps(8) by (auto simp: replicate_add simp del: be_bytes_numeral)
qed

end
