(* ===== verification/Runs.thy ===== *)
theory Runs
  imports Machine
begin

text \<open>
  What an operation keeps: a calculus of invariants for the computations of \<open>Machine\<close>, over any state. The main
  loop and the simulator use it.
\<close>

section \<open>Operations that run within an invariant\<close>

text \<open>\<open>runs b P p\<close>: started in \<open>P\<close>, the operation \<open>p\<close> ends in \<open>P\<close>, normally or with a fault; with
  \<open>b\<close> it moreover always ends. The collection \<open>runs_intros\<close> derives it along the structure of \<open>p\<close>.\<close>

named_theorems runs_intros \<open>derivation of what holds around an operation\<close>

definition runs :: "bool \<Rightarrow> ('s \<Rightarrow> bool) \<Rightarrow> ('s, 'a) op \<Rightarrow> bool" where
  "runs b P p \<longleftrightarrow> (\<forall>m. P m \<longrightarrow> (case p m of None \<Rightarrow> \<not> b | Some (r, m') \<Rightarrow> P m'))"

lemma runsD: "runs b P p \<Longrightarrow> P m \<Longrightarrow> p m = Some (r, m') \<Longrightarrow> P m'"
  by (auto simp: runs_def)

lemma runs_returns: "runs True P p \<Longrightarrow> P m \<Longrightarrow> \<exists>r m'. p m = Some (r, m') \<and> P m'"
  by (cases "p m") (auto simp: runs_def)

lemma runs_basic [runs_intros]: "runs b P (ret x)" "runs b P (liftR r)" "runs b P (getM g)"
  by (simp_all add: runs_def)

lemma runs_bind [runs_intros]:
  assumes "runs b P p" and "\<And>x. runs b P (q x)"
  shows "runs b P (bindM p q)"
  unfolding runs_def
proof (intro allI impI)
  fix m assume m: "P m"
  show "case bindM p q m of None \<Rightarrow> \<not> b | Some (r, m') \<Rightarrow> P m'"
  proof (cases "p m")
    case None
    with assms(1) m show ?thesis by (auto simp: runs_def bindM_def)
  next
    case (Some a)
    obtain r m1 where a: "a = (r, m1)" by (cases a)
    with runsD [OF assms(1) m] Some have "P m1" by simp
    with assms(2) Some a show ?thesis by (cases r) (simp_all add: runs_def bindM_def)
  qed
qed

text \<open>A value that was read has what the invariant says of it.\<close>

lemma runs_read: "(\<And>m. P m \<Longrightarrow> runs b P (q (f m))) \<Longrightarrow> runs b P (bindM (getM f) q)"
  by (simp add: runs_def)

lemma runs_catch [runs_intros]: "runs b P p \<Longrightarrow> runs b P h \<Longrightarrow> runs b P (catchM c p h)"
  unfolding runs_def
proof (intro allI impI)
  fix m assume p: "\<forall>m. P m \<longrightarrow> (case p m of None \<Rightarrow> \<not> b | Some (r, m') \<Rightarrow> P m')"
    and h: "\<forall>m. P m \<longrightarrow> (case h m of None \<Rightarrow> \<not> b | Some (r, m') \<Rightarrow> P m')" and m: "P m"
  show "case catchM c p h m of None \<Rightarrow> \<not> b | Some (r, m') \<Rightarrow> P m'"
  proof (cases "p m")
    case None
    with p m show ?thesis by (auto simp: catchM_def)
  next
    case (Some a)
    obtain r m1 where a: "a = (r, m1)" by (cases a)
    with p m Some have "P m1" by fastforce
    with h Some a show ?thesis by (cases r) (simp_all add: catchM_def)
  qed
qed

lemma runs_if [runs_intros]: "(c \<Longrightarrow> runs b P p) \<Longrightarrow> (\<not> c \<Longrightarrow> runs b P q) \<Longrightarrow> runs b P (if c then p else q)"
  by simp

lemma runs_prod [runs_intros]: "(\<And>x y. runs b P (p x y)) \<Longrightarrow> runs b P (case z of (x, y) \<Rightarrow> p x y)"
  by (cases z) simp

lemma runs_option [runs_intros]:
  "runs b P p \<Longrightarrow> (\<And>y. runs b P (q y)) \<Longrightarrow> runs b P (case x of None \<Rightarrow> p | Some y \<Rightarrow> q y)"
  by (cases x) simp_all

lemma runs_list [runs_intros]:
  "runs b P p \<Longrightarrow> (\<And>y ys. runs b P (q y ys)) \<Longrightarrow> runs b P (case x of [] \<Rightarrow> p | y # ys \<Rightarrow> q y ys)"
  by (cases x) simp_all

lemma runs_let [runs_intros]: "(\<And>y. runs b P (p y)) \<Longrightarrow> runs b P (let y = x in p y)"
  by (simp add: Let_def)

lemma runs_modify: "(\<And>m. P m \<Longrightarrow> P (g m)) \<Longrightarrow> runs b P (modifyM g)"
  by (simp add: runs_def)

end
