(* ===== verification/Responder_Steps.thy ===== *)
theory Responder_Steps
  imports Responder_Properties Runs
begin

text \<open>
  The handlers of the simulator as a transition system: the reassembly of requests from the pieces TCP delivers,
  and what every sequence of handlers keeps.
\<close>

section \<open>Messages in the accumulator\<close>

definition announced :: "bytes \<Rightarrow> nat" where
  "announced acc = unat (unsplat_from_4bytes (take 4 (drop 8 acc)))"

definition incomplete :: "bytes \<Rightarrow> bool" where
  "incomplete acc \<longleftrightarrow> (if 12 \<le> length acc then length acc - 12 < announced acc else length acc = 2 \<longrightarrow> acc ! 0 = 0)"

definition whole_message :: "bytes \<Rightarrow> bool" where
  "whole_message m \<longleftrightarrow> 12 \<le> length m \<and> announced m = length m - 12 \<and> m ! 0 = 0"

lemma prefix_incomplete: "whole_message (acc @ rest) \<Longrightarrow> rest \<noteq> [] \<Longrightarrow> incomplete acc"
proof -
  assume w: "whole_message (acc @ rest)" and "rest \<noteq> []"
  then have len: "length acc < length (acc @ rest)" by simp
  show "incomplete acc"
  proof (cases "12 \<le> length acc")
    case True
    then have "announced (acc @ rest) = announced acc" by (simp add: announced_def)
    with w True diff_less_mono [OF len True] show ?thesis by (simp add: whole_message_def incomplete_def)
  next
    case False
    with w show ?thesis by (auto simp: whole_message_def incomplete_def nth_append split: if_splits)
  qed
qed

text \<open>The bytes of one delivery and the state the handler finds.\<close>

definition delivered :: "bytes \<Rightarrow> responder \<Rightarrow> responder" where
  "delivered data s = s\<lparr>rs_receives := rs_receives s - 1, rs_read_buffer := data,
     rs_accumulator := rs_accumulator s @ data\<rparr>"

definition listening :: "responder \<Rightarrow> responder" where
  "listening s = s\<lparr>rs_read_buffer := replicate 2048 0, rs_receives := Suc (rs_receives s)\<rparr>"

lemma dispatch_received:
  assumes "length data \<le> length (rs_read_buffer s)" and "length (rs_read_buffer s) \<le> vec_max"
  shows "dispatch (Received err data behind) s =
    (if err \<in> {Eof, Connection_Aborted, Connection_Reset}
     then Some (Inr (), s\<lparr>rs_receives := rs_receives s - 1, rs_accepts := Suc (rs_accepts s),
       rs_read_buffer := data @ drop (length data) (rs_read_buffer s)\<rparr>)
     else bindM (take_message behind) (\<lambda>_. modifyM listening) (delivered data s))"
  using assms
  by (simp add: await_full_buffer_def end_session_def async_accept_def vec_resize_def pad_to_def delivered_def)
    (simp add: listening_def async_receive_def bindM_def split: option.split sum.split)

lemma take_message_incomplete: "incomplete (rs_accumulator s) \<Longrightarrow> take_message behind s = Some (Inr (), s)"
  by (auto simp: take_message_def incomplete_def announced_def not_le)

lemma received_part:
  assumes "incomplete (rs_accumulator s @ data)" and "length data \<le> length (rs_read_buffer s)"
    and "length (rs_read_buffer s) = 2048" and "0 < rs_receives s" and "err = No_Error"
  shows "dispatch (Received err data behind) s =
     Some (Inr (), s\<lparr>rs_accumulator := rs_accumulator s @ data, rs_read_buffer := replicate 2048 0\<rparr>)"
proof -
  have "2048 \<le> vec_max" by (simp add: vec_max_def)
  then show ?thesis
    using assms dispatch_received [of data s err behind] take_message_incomplete [of "delivered data s" behind]
    by (simp add: bindM_steps(1) delivered_def listening_def)
qed

text \<open>The answer does not depend on the buffers of the socket.\<close>

definition with_buffers :: "bytes \<Rightarrow> bytes \<Rightarrow> nat \<Rightarrow> responder \<Rightarrow> responder" where
  "with_buffers acc buffer receives s =
     s\<lparr>rs_accumulator := acc, rs_read_buffer := buffer, rs_receives := receives\<rparr>"

definition buffer_blind :: "(responder, 'a) op \<Rightarrow> bool" where
  "buffer_blind f \<longleftrightarrow> (\<forall>s a b n. f (with_buffers a b n s) = map_option (map_prod id (with_buffers a b n)) (f s))"

named_theorems blind_intros \<open>operations that do not look at the socket's buffers\<close>

lemma blind_steps [blind_intros]:
  "buffer_blind (ret x)" "buffer_blind (liftR r)"
  "(\<And>s a b n. g (with_buffers a b n s) = g s) \<Longrightarrow> buffer_blind (getM g)"
  "(\<And>s a b n. h (with_buffers a b n s) = with_buffers a b n (h s)) \<Longrightarrow> buffer_blind (modifyM h)"
  by (simp_all add: buffer_blind_def)

lemma blind_bind [blind_intros]:
  assumes "buffer_blind f" and "\<And>x. buffer_blind (g x)"
  shows "buffer_blind (bindM f g)"
  unfolding buffer_blind_def
proof (intro allI)
  fix s a b n
  show "bindM f g (with_buffers a b n s) = map_option (map_prod id (with_buffers a b n)) (bindM f g s)"
    using assms unfolding buffer_blind_def
    by (cases "f s") (auto simp: bindM_def split: sum.split)
qed

lemma blind_catch [blind_intros]:
  assumes "buffer_blind f" and "buffer_blind g"
  shows "buffer_blind (catchM caught f g)"
  unfolding buffer_blind_def
proof (intro allI)
  fix s a b n
  show "catchM caught f g (with_buffers a b n s) = map_option (map_prod id (with_buffers a b n)) (catchM caught f g s)"
    using assms unfolding buffer_blind_def
    by (cases "f s") (auto simp: catchM_def split: sum.split)
qed

lemma blind_cases [blind_intros]:
  "(c \<Longrightarrow> buffer_blind f) \<Longrightarrow> (\<not> c \<Longrightarrow> buffer_blind g) \<Longrightarrow> buffer_blind (if c then f else g)"
  "buffer_blind f' \<Longrightarrow> (\<And>x. buffer_blind (g' x)) \<Longrightarrow> buffer_blind (case o' of None \<Rightarrow> f' | Some x \<Rightarrow> g' x)"
  "(\<And>x y. buffer_blind (k x y)) \<Longrightarrow> buffer_blind (case p of (x, y) \<Rightarrow> k x y)"
  by (auto split: option.split prod.split)

lemma identify_sender_with_buffers [simp]: "identify_sender (with_buffers a b n s) m = identify_sender s m"
proof -
  have "rs_managers (with_buffers a b n s) = rs_managers s"
    "rs_code_by_rmap_address (with_buffers a b n s) = rs_code_by_rmap_address s" by (simp_all add: with_buffers_def)
  then show ?thesis unfolding identify_sender_def by (simp only:)
qed

lemma with_buffers_fields [simp]:
  "rs_mmaps (with_buffers a b n s) = rs_mmaps s" "rs_deck (with_buffers a b n s) = rs_deck s"
  "rs_lookup (with_buffers a b n s) = rs_lookup s" "rs_response_lookup (with_buffers a b n s) = rs_response_lookup s"
  "with_buffers a b n s\<lparr>rs_mmaps := x\<rparr> = with_buffers a b n (s\<lparr>rs_mmaps := x\<rparr>)"
  by (simp_all add: with_buffers_def)

lemma blind_serve: "buffer_blind (serve_request behind sys spw tail rq)"
  unfolding serve_request_def Let_def by (intro blind_intros; simp)

lemma blind_reply: "buffer_blind (make_reply behind message)"
  unfolding make_reply_def Let_def by (intro blind_intros blind_serve; simp)

lemma blind_response: "buffer_blind (get_response behind message)"
  unfolding get_response_def by (intro blind_intros blind_reply; simp)

definition answer_sent :: "bytes \<Rightarrow> responder \<Rightarrow> responder" where
  "answer_sent response s = (if response = [] then s else
     s\<lparr>rs_send_fails := tl (rs_send_fails s), rs_sent := rs_sent s @ [response]\<rparr>)"

lemma received_last:
  assumes "rs_accumulator s @ data = m" and "whole_message m" and "length data \<le> length (rs_read_buffer s)"
    and "length (rs_read_buffer s) = 2048" and "0 < rs_receives s"
    and "get_response behind m s = Some (Inr response, s1)" and "rs_send_fails s1 = []"
  shows "dispatch (Received No_Error data behind) s =
     Some (Inr (), with_buffers [] (replicate 2048 0) (rs_receives s) (answer_sent response s1))"
proof -
  let ?r = "delivered data s" and ?rest = "drop (announced m) m"
  let ?s0 = "with_buffers ?rest data (rs_receives s - 1) s"
  have "2048 \<le> vec_max" by (simp add: vec_max_def)
  then have d: "dispatch (Received No_Error data behind) s = bindM (take_message behind) (\<lambda>_. modifyM listening) ?r"
    using assms(3,4) by (subst dispatch_received) simp_all
  have acc: "rs_accumulator ?r = m" "?r\<lparr>rs_accumulator := ?rest\<rparr> = ?s0"
    using assms(1) by (simp_all add: delivered_def with_buffers_def)
  have m: "12 \<le> length m" "unat (unsplat_from_4bytes (take 4 (drop 8 m))) = length m - 12" "announced m = length m - 12"
    using assms(2) by (simp_all add: whole_message_def announced_def)
  have "get_response behind m ?s0 = Some (Inr response, with_buffers ?rest data (rs_receives s - 1) s1)"
    using blind_response [of behind m] assms(6) by (simp add: buffer_blind_def)
  then have "take_message behind ?r = bindM (send_response response) (\<lambda>_. clear_accumulator)
      (with_buffers ?rest data (rs_receives s - 1) s1)"
    using acc m by (simp add: take_message_def Let_def bindM_steps(1))
  also have "\<dots> = Some (Inr (), with_buffers [] data (rs_receives s - 1) (answer_sent response s1))"
    using assms(7) by (simp add: send_response_def answer_sent_def clear_accumulator_def with_buffers_def bindM_def)
  finally show ?thesis
    using assms(5) unfolding d by (simp add: bindM_steps(1) listening_def with_buffers_def answer_sent_def)
qed

lemma pieces_handled:
  assumes "whole_message (rs_accumulator s @ concat chunks)" and "chunks \<noteq> []"
    and "\<forall>c \<in> set chunks. c \<noteq> [] \<and> length c \<le> 2048" and "length (rs_read_buffer s) = 2048" and "0 < rs_receives s"
    and "get_response behind (rs_accumulator s @ concat chunks) s = Some (Inr response, s1)" and "rs_send_fails s1 = []"
  shows "handles s (map (\<lambda>c. Received No_Error c behind) chunks) s' \<longleftrightarrow>
    s' = with_buffers [] (replicate 2048 0) (rs_receives s) (answer_sent response s1)"
  using assms
proof (induction chunks arbitrary: s s1)
  case (Cons c cs)
  have c: "length c \<le> length (rs_read_buffer s)" "c \<noteq> []" using Cons.prems(3,4) by simp_all
  show ?case
  proof (cases "cs = []")
    case True
    then have "dispatch (Received No_Error c behind) s =
        Some (Inr (), with_buffers [] (replicate 2048 0) (rs_receives s) (answer_sent response s1))"
      using received_last [OF _ Cons.prems(1) c(1) Cons.prems(4,5,6,7)] by simp
    with True c(1) Cons.prems(5) show ?thesis by auto
  next
    case False
    let ?s = "with_buffers (rs_accumulator s @ c) (replicate 2048 0) (rs_receives s) s"
    have "concat cs \<noteq> []" using False Cons.prems(3) by (cases cs) auto
    then have "incomplete (rs_accumulator s @ c)"
      using prefix_incomplete [of "rs_accumulator s @ c" "concat cs"] Cons.prems(1) by simp
    then have first: "dispatch (Received No_Error c behind) s = Some (Inr (), ?s)"
      using received_part [OF _ c(1) Cons.prems(4,5) refl] by (simp add: with_buffers_def)
    have "get_response behind (rs_accumulator s @ concat (c # cs)) ?s = Some (Inr response,
        with_buffers (rs_accumulator s @ c) (replicate 2048 0) (rs_receives s) s1)"
      using blind_response [of behind "rs_accumulator s @ concat (c # cs)"] Cons.prems(6) by (simp add: buffer_blind_def)
    then have "handles ?s (map (\<lambda>c. Received No_Error c behind) cs) s' \<longleftrightarrow> s' = with_buffers [] (replicate 2048 0)
        (rs_receives s) (answer_sent response (with_buffers (rs_accumulator s @ c) (replicate 2048 0) (rs_receives s) s1))"
      using Cons.IH [of ?s "with_buffers (rs_accumulator s @ c) (replicate 2048 0) (rs_receives s) s1"] False Cons.prems
      by (simp add: with_buffers_def)
    with first c(1) Cons.prems(5) show ?thesis
      by (auto simp: with_buffers_def answer_sent_def)
  qed
qed simp

section \<open>What the handlers keep\<close>

text \<open>The images keep their sizes, the tables stay, the replies sent only grow, the waiting handlers are counted.\<close>

type_synonym waiting = "nat \<times> nat \<times> nat"

definition waiting_handlers :: "responder \<Rightarrow> waiting" where
  "waiting_handlers s = (rs_accepts s, rs_receives s, rs_timers s)"

definition images_keep :: "mmaps \<Rightarrow> mmaps \<Rightarrow> bool" where
  "images_keep m0 m \<longleftrightarrow> (\<forall>hex mem. m0 hex = Some mem \<longrightarrow> (\<exists>mem'. m hex = Some mem' \<and> length mem' = length mem))"

lemma images_keep_trans: "images_keep a b \<Longrightarrow> images_keep b c \<Longrightarrow> images_keep a c"
  unfolding images_keep_def by (metis (no_types))

lemma images_keep_self: "images_keep m m"
  by (simp add: images_keep_def)

lemma images_keep_stored: "m hex = Some mem \<Longrightarrow> length mem' = length mem \<Longrightarrow> images_keep m (m(hex \<mapsto> mem'))"
  by (simp add: images_keep_def)

definition plays :: "responder \<Rightarrow> waiting \<Rightarrow> responder \<Rightarrow> bool" where
  "plays s0 c s \<longleftrightarrow>
     images_keep (rs_mmaps s0) (rs_mmaps s) \<and>
     (rs_deck s, rs_code_by_rmap_address s, rs_lookup s, rs_response_lookup s) =
       (rs_deck s0, rs_code_by_rmap_address s0, rs_lookup s0, rs_response_lookup s0) \<and>
     length (rs_managers s) = length (rs_managers s0) \<and> waiting_handlers s = c \<and>
     (\<exists>more. rs_sent s = rs_sent s0 @ more)"

lemma plays_self: "plays s (waiting_handlers s) s"
  by (simp add: plays_def images_keep_self)

lemma plays_image:
  "plays s0 c s \<Longrightarrow> rs_mmaps s hex = Some mem \<Longrightarrow> length mem' = length mem \<Longrightarrow>
   plays s0 c (s\<lparr>rs_mmaps := (rs_mmaps s)(hex \<mapsto> mem')\<rparr>)"
  using images_keep_trans [OF _ images_keep_stored [of "rs_mmaps s" hex mem mem']]
  by (simp add: plays_def waiting_handlers_def)

lemma runs_serve: "runs True (plays s0 c) (serve_request behind sys spw tail rq)"
  unfolding runs_def
proof (intro allI impI)
  fix s assume s: "plays s0 c s"
  show "case serve_request behind sys spw tail rq s of None \<Rightarrow> \<not> True | Some (r, s') \<Rightarrow> plays s0 c s'"
  proof (cases "rs_mmaps s (sys_hex sys)")
    case None
    with s show ?thesis
      by (cases "ring_name (is_ring_buffer sys (rq_address rq) (rq_data_length rq))")
        (simp_all add: serve_request_def bindM_steps(2))
  next
    case (Some mem)
    let ?b = "length (spw_target_path_address spw) + 4 + instruction_reply_size (rq_instruction rq) + 12"
    let ?store = "\<lambda>data. store_bytes (rq_address rq) data [0..<rq_data_length rq] mem"
    have stored: "plays s0 c (s\<lparr>rs_mmaps := (rs_mmaps s)(sys_hex sys \<mapsto> snd (?store data))\<rparr>)" for data
      by (rule plays_image [OF s Some]) simp
    obtain name where name: "ring_name (is_ring_buffer sys (rq_address rq) (rq_data_length rq)) = Some name"
      using ring_name_total by blast
    show ?thesis
    proof (cases "bit (rq_instruction rq) 5")
      case False
      with s Some name show ?thesis by (simp add: serve_request_def)
    next
      case True
      show ?thesis
      proof (cases "vec_slice ?b (?b + rq_data_length rq) tail")
        case (Inl e)
        with s Some name True show ?thesis by (simp add: serve_request_def Let_def bindM_steps(2))
      next
        case (Inr data)
        obtain r mem' where store: "?store data = (r, mem')" by (cases "?store data")
        with Inr Some name True stored [of data] show ?thesis
          by (cases r) (simp_all add: serve_request_def Let_def bindM_steps(1,2))
      qed
    qed
  qed
qed

lemma runs_reply: "runs True (plays s0 c) (get_response behind message)"
  unfolding get_response_def make_reply_def by (intro runs_intros runs_serve)

lemma plays_fields:
  "plays s0 c s \<Longrightarrow> plays s0 c (s\<lparr>rs_accumulator := acc\<rparr>)" "plays s0 c s \<Longrightarrow> plays s0 c (s\<lparr>rs_read_buffer := buf\<rparr>)"
  by (simp_all add: plays_def waiting_handlers_def)

lemma runs_answer: "runs True (plays s0 c) (send_response response)"
  by (auto simp: runs_def send_response_def plays_def waiting_handlers_def Let_def)

lemma runs_take: "runs True (plays s0 c) (take_message behind)"
  unfolding take_message_def clear_accumulator_def
  by (intro runs_intros runs_reply runs_answer runs_modify plays_fields)

lemma ring_params_index_hex [simp]: "sys_hex (snd (ring_params_index t sys)) = sys_hex sys"
  by (simp add: ring_params_index_def split: option.split)

lemma mmap_index_same [simp]:
  "fst (mmap_index hex (snd (mmap_index hex maps))) = fst (mmap_index hex maps)"
  by (simp add: mmap_index_def split: option.split)

lemma advance_eq:
  "advance_write_pointer t (sys, maps) =
     (case ring_geometry sys t of
        Inl e \<Rightarrow> Some (Inl e, sys, maps)
      | Inr geometry \<Rightarrow>
          let r = fst (ring_params_index t sys); sys' = snd (ring_params_index t sys);
              mem = fst (mmap_index (sys_hex sys) maps); maps' = snd (mmap_index (sys_hex sys) maps);
              start = unat (rb_write_pointer_address r); width = rb_write_pointer_width_bytes r
          in (case vec_slice start (start + width) mem of
                Inl e \<Rightarrow> Some (Inl e, sys', maps')
              | Inr bytes \<Rightarrow>
                  (case unlogged_unsplat bytes of
                     Inl e \<Rightarrow> Some (Inl e, sys', maps')
                   | Inr current \<Rightarrow>
                       (case store_bytes start (be_bytes 4 (ucast (next_write_pointer geometry current)))
                          [0..<width] mem of (r, mem') \<Rightarrow> Some (r, sys', maps'(sys_hex sys \<mapsto> mem'))))))"
  by (simp add: advance_write_pointer_def bindM_def Let_def del: be_bytes_numeral split: sum.split prod.split)

lemma mmap_index_keeps: "images_keep maps (snd (mmap_index hex maps))"
  and mmap_index_found: "snd (mmap_index hex maps) hex = Some (fst (mmap_index hex maps))"
  by (auto simp: mmap_index_def images_keep_def split: option.split)

lemma advance_keeps: "\<exists>r sys' maps'. advance_write_pointer t (sys, maps) = Some (r, sys', maps') \<and> images_keep maps maps'"
proof (cases "ring_geometry sys t")
  case (Inl e)
  then show ?thesis by (simp add: advance_eq images_keep_self)
next
  case (Inr geometry)
  let ?r = "fst (ring_params_index t sys)" and ?mem = "fst (mmap_index (sys_hex sys) maps)"
  let ?start = "unat (rb_write_pointer_address ?r)" and ?width = "rb_write_pointer_width_bytes ?r"
  show ?thesis
  proof (cases "vec_slice ?start (?start + ?width) ?mem")
    case (Inl e)
    with Inr show ?thesis by (simp add: advance_eq Let_def mmap_index_keeps)
  next
    case slice: (Inr bytes)
    show ?thesis
    proof (cases "unlogged_unsplat bytes")
      case (Inl e)
      with Inr slice show ?thesis by (simp add: advance_eq Let_def mmap_index_keeps)
    next
      case current: (Inr current)
      let ?new = "be_bytes 4 (ucast (next_write_pointer geometry current))"
      obtain r mem' where store: "store_bytes ?start ?new [0..<?width] ?mem = (r, mem')"
        by (cases "store_bytes ?start ?new [0..<?width] ?mem")
      then have "length mem' = length ?mem" using store_bytes_length [of ?start ?new "[0..<?width]" ?mem] by simp
      then have "images_keep maps ((snd (mmap_index (sys_hex sys) maps))(sys_hex sys \<mapsto> mem'))"
        using images_keep_trans [OF mmap_index_keeps images_keep_stored [OF mmap_index_found]] by blast
      with Inr slice current store show ?thesis by (simp add: advance_eq Let_def del: be_bytes_numeral)
    qed
  qed
qed

lemma runs_advance: "runs True (plays s0 c) (on_manager i (advance_write_pointer t))"
  unfolding runs_def
proof (intro allI impI)
  fix s assume s: "plays s0 c s"
  obtain r sys' maps' where a: "advance_write_pointer t (sm_system (rs_managers s ! i), rs_mmaps s) = Some (r, sys', maps')"
    and "images_keep (rs_mmaps s) maps'" using advance_keeps by blast
  then have "images_keep (rs_mmaps s0) maps'" using images_keep_trans s by (auto simp: plays_def)
  with s show "case on_manager i (advance_write_pointer t) s of None \<Rightarrow> \<not> True | Some (r, s') \<Rightarrow> plays s0 c s'"
    by (simp add: on_manager_def a plays_def waiting_handlers_def)
qed

lemma runs_for_each [runs_intros]: "(\<And>x. runs b P (f x)) \<Longrightarrow> runs b P (for_each f xs)"
  by (induction xs) (auto intro: runs_intros)

definition at_rest :: "responder \<Rightarrow> bool" where
  "at_rest s \<longleftrightarrow> incomplete (rs_accumulator s) \<and> length (rs_read_buffer s) = 2048"

text \<open>The body of the timer's handler.\<close>

definition timer_body :: "(responder, unit) op" where
  "timer_body = bindM (getM (\<lambda>s. length (rs_managers s))) (\<lambda>n.
     for_each (\<lambda>i. bindM (getM (\<lambda>s. map fst (sys_ring_params (sm_system (rs_managers s ! i))))) (\<lambda>types.
       for_each (\<lambda>t. on_manager i (advance_write_pointer t)) types)) [0..<n])"

lemma runs_timer_body: "runs True (plays s0 c) timer_body"
  unfolding timer_body_def by (intro runs_intros runs_advance)

lemma runs_timer_rest: "runs True at_rest timer_body"
proof -
  have "runs True at_rest (on_manager i (advance_write_pointer t))" for i t
    unfolding runs_def
  proof (intro allI impI)
    fix s assume "at_rest s"
    moreover obtain r sys' maps' where
      "advance_write_pointer t (sm_system (rs_managers s ! i), rs_mmaps s) = Some (r, sys', maps')"
      using advance_keeps by blast
    ultimately show "case on_manager i (advance_write_pointer t) s of None \<Rightarrow> \<not> True | Some (r, s') \<Rightarrow> at_rest s'"
      by (simp add: on_manager_def at_rest_def)
  qed
  then show ?thesis unfolding timer_body_def by (intro runs_intros)
qed

lemma plays_trans: "plays s0 c0 s \<Longrightarrow> plays s c s' \<Longrightarrow> plays s0 c s'"
  using images_keep_trans by (auto simp: plays_def)

lemma empty_incomplete [simp]: "incomplete []"
  by (simp add: incomplete_def)

lemma take_message_rest:
  assumes "take_message behind s = Some (Inr (), s')"
  shows "incomplete (rs_accumulator s')"
proof (cases "incomplete (rs_accumulator s)")
  case True
  with assms show ?thesis by (simp add: take_message_incomplete)
next
  case False
  have cleared: "rs_accumulator s2 = []" if "bindM f (\<lambda>x. bindM (g x) (\<lambda>_. clear_accumulator)) s1 = Some (Inr (), s2)"
    for f :: "(responder, bytes) op" and g s1 s2
    using that by (auto simp: bindM_def clear_accumulator_def split: option.splits sum.splits)
  from False assms have "rs_accumulator s' = []"
    by (auto simp: take_message_def incomplete_def announced_def Let_def bindM_steps(1) not_less
        split: if_splits dest!: cleared)
  then show ?thesis by simp
qed

lemma take_message_buffer: "take_message behind s = Some (r, s') \<Longrightarrow> plays s (waiting_handlers s) s'"
  using runsD [OF runs_take plays_self] by blast

fun handlers_after :: "event \<Rightarrow> waiting \<Rightarrow> waiting" where
  "handlers_after (Accepted err) (a, r, t) = (a - 1, if err then r else Suc r, t)"
| "handlers_after (Received err data behind) (a, r, t) =
     (if err \<in> {Eof, Connection_Aborted, Connection_Reset} then (Suc a, r - 1, t) else (a, r, t))"
| "handlers_after Frame_Timer c = c"

lemma dispatch_keeps:
  assumes "waits e s" and "at_rest s" and "dispatch e s = Some (Inr (), s')"
  shows "at_rest s' \<and> plays s (handlers_after e (waiting_handlers s)) s'"
proof (cases e)
  case (Accepted err)
  with assms show ?thesis
    by (cases err) (auto simp: handle_accept_def async_receive_def at_rest_def plays_def waiting_handlers_def images_keep_self)
next
  case (Received err data behind)
  have fits: "length data \<le> length (rs_read_buffer s)" "length (rs_read_buffer s) = 2048" "0 < rs_receives s"
    using assms(1,2) Received by (simp_all add: at_rest_def)
  have "2048 \<le> vec_max" by (simp add: vec_max_def)
  note d = dispatch_received [OF fits(1), of err behind]
  show ?thesis
  proof (cases "err \<in> {Eof, Connection_Aborted, Connection_Reset}")
    case True
    with assms(2,3) fits d \<open>2048 \<le> vec_max\<close> show ?thesis
      by (auto simp: Received at_rest_def plays_def waiting_handlers_def images_keep_self)
  next
    case False
    then obtain s1 where s1: "take_message behind (delivered data s) = Some (Inr (), s1)" "s' = listening s1"
      using assms(3) fits d \<open>2048 \<le> vec_max\<close>
      by (auto simp: Received bindM_def split: option.splits sum.splits)
    have "plays (delivered data s) (waiting_handlers (delivered data s)) s1" by (rule take_message_buffer [OF s1(1)])
    moreover have "incomplete (rs_accumulator s1)" by (rule take_message_rest [OF s1(1)])
    ultimately show ?thesis
      using fits(3) False
      by (auto simp: Received s1(2) listening_def delivered_def plays_def waiting_handlers_def at_rest_def)
  qed
next
  case Frame_Timer
  let ?s = "s\<lparr>rs_timers := rs_timers s - 1\<rparr>"
  obtain r s1 where s1: "timer_body ?s = Some (r, s1)" "plays ?s (waiting_handlers ?s) s1"
    using runs_returns [OF runs_timer_body plays_self] by blast
  moreover have "at_rest s1" using runsD [OF runs_timer_rest _ s1(1)] assms(2) by (simp add: at_rest_def)
  moreover have "s' = s1\<lparr>rs_timers := Suc (rs_timers s1)\<rparr>"
    using assms(3) s1(1) by (cases r) (auto simp: Frame_Timer handle_frame_timer_def timer_body_def [symmetric] catchM_def
        bindM_def split: if_splits)
  moreover have "0 < rs_timers s" using assms(1) Frame_Timer by simp
  ultimately show ?thesis by (auto simp: Frame_Timer at_rest_def plays_def waiting_handlers_def)
qed

section \<open>Properties\<close>

text \<open>C19. Reassembly: TCP may deliver a request in any pieces (each at most the buffer, the last one ending the request).
  The handlers then have exactly one outcome: the one answer to the whole request is sent, whatever the pieces were,
  the accumulator is empty and the socket is listening again.\<close>

theorem request_reassembled:
  assumes "whole_message (concat chunks)" and "\<forall>c \<in> set chunks. c \<noteq> [] \<and> length c \<le> 2048"
    and "rs_accumulator s = []" and "length (rs_read_buffer s) = 2048" and "0 < rs_receives s"
    and "get_response behind (concat chunks) s = Some (Inr response, s1)" and "rs_send_fails s1 = []"
  shows "handles s (map (\<lambda>c. Received No_Error c behind) chunks) s' \<longleftrightarrow>
    s' = (answer_sent response s1)\<lparr>rs_accumulator := [], rs_read_buffer := replicate 2048 0, rs_receives := rs_receives s\<rparr>"
proof -
  have "chunks \<noteq> []" using assms(1) by (auto simp: whole_message_def)
  then show ?thesis
    using pieces_handled [of s chunks behind response s1 s'] assms by (simp add: with_buffers_def)
qed

definition lookup_message :: bytes where
  "lookup_message = [0, 0, 0, 0, 0, 0, 0, 0, 0, 0, 0, 2, 5, 6]"

definition lookup_simulator :: responder where
  "lookup_simulator = (projr (Responder_lookup (\<lambda>_ _. True) [lookup_message \<mapsto> [7, 8]]
     [SystemManager RB_NONE sim_system] sim_deck))\<lparr>rs_receives := 1\<rparr>"

lemma lookup_simulator_simps:
  "rs_lookup lookup_simulator" "rs_response_lookup lookup_simulator = [lookup_message \<mapsto> [7, 8]]"
  "rs_accumulator lookup_simulator = []" "rs_read_buffer lookup_simulator = replicate 2048 0"
  "rs_receives lookup_simulator = 1" "rs_send_fails lookup_simulator = []" "rs_sent lookup_simulator = []"
  "rs_accepts lookup_simulator = 2" "rs_timers lookup_simulator = 0"
  by (simp_all add: lookup_simulator_def Responder_lookup_def open_acceptor_def SystemManager_def sim_system_simps)

lemma request_reassembled_witness:
  "\<exists>s'. handles lookup_simulator (map (\<lambda>c. Received No_Error c (Inl Undefined)) [[0, 0], [0, 0, 0, 0, 0, 0, 0, 0, 0], [2, 5], [6]]) s' \<and>
    rs_sent s' = [[7, 8]] \<and> rs_accumulator s' = [] \<and> rs_receives s' = 1"
proof -
  let ?chunks = "[[0, 0], [0, 0, 0, 0, 0, 0, 0, 0, 0], [2, 5], [6 :: u8]]"
  have m: "concat ?chunks = lookup_message" by (simp add: lookup_message_def)
  have whole: "whole_message (concat ?chunks)"
    unfolding m by (simp add: whole_message_def announced_def lookup_message_def unsplat_cons)
  have answer: "get_response (Inl Undefined) (concat ?chunks) lookup_simulator = Some (Inr [7, 8], lookup_simulator)"
    unfolding m by (simp add: get_response_def catchM_def bindM_steps(1) lookup_simulator_simps)
  show ?thesis
    using request_reassembled [OF whole _ lookup_simulator_simps(3) _ _ answer lookup_simulator_simps(6)]
    by (simp add: lookup_simulator_simps answer_sent_def del: handles_simps list.map)
qed

text \<open>C20. What every run of the simulator's handlers keeps, whatever arrives: no complete request is left in the
  accumulator, every memory image keeps its size, the tables stay, answers are only added, the frame timer keeps
  waiting, and the number of handlers that wait for the socket only shrinks by failed accepts, so that the simulator
  never stops listening.\<close>

theorem simulator_keeps_playing:
  assumes "handles s es s'" and "at_rest s"
  shows "at_rest s' \<and> images_keep (rs_mmaps s) (rs_mmaps s') \<and> (\<exists>more. rs_sent s' = rs_sent s @ more) \<and>
    rs_deck s' = rs_deck s \<and> rs_code_by_rmap_address s' = rs_code_by_rmap_address s \<and>
    rs_response_lookup s' = rs_response_lookup s \<and> rs_timers s' = rs_timers s \<and>
    rs_accepts s' + rs_receives s' + length (filter (\<lambda>e. e = Accepted True) es) = rs_accepts s + rs_receives s"
  using assms
proof (induction rule: handles.induct)
  case (handles_none s)
  then show ?case by (simp add: images_keep_self)
next
  case (handles_event e s s' es s'')
  from dispatch_keeps [OF handles_event.hyps(1) handles_event.prems handles_event.hyps(2)]
  have one: "at_rest s'" "plays s (handlers_after e (waiting_handlers s)) s'" by simp_all
  have "rs_timers s' = rs_timers s \<and> rs_accepts s' + rs_receives s' + (if e = Accepted True then 1 else 0) =
      rs_accepts s + rs_receives s"
    using one(2) handles_event.hyps(1) by (cases e) (auto simp: plays_def waiting_handlers_def split: if_splits)
  moreover have "images_keep (rs_mmaps s) (rs_mmaps s'')"
    using images_keep_trans one handles_event.IH by (auto simp: plays_def)
  ultimately show ?case using one handles_event.IH by (auto simp: plays_def)
qed

lemma simulator_keeps_playing_witness:
  "\<exists>s'. handles lookup_simulator [Received No_Error [0, 0] (Inl Undefined), Received Eof [] (Inl Undefined), Accepted True] s' \<and>
    rs_accepts s' + rs_receives s' + 1 = 3 \<and> at_rest s'"
proof -
  have rest: "at_rest lookup_simulator" by (simp add: at_rest_def lookup_simulator_simps)
  let ?es = "[Received No_Error [0, 0] (Inl Undefined), Received Eof [] (Inl Undefined), Accepted True]"
  have "dispatch (Received No_Error [0, 0] (Inl Undefined)) lookup_simulator =
      Some (Inr (), lookup_simulator\<lparr>rs_accumulator := [0, 0], rs_read_buffer := replicate 2048 0\<rparr>)"
    using received_part [of lookup_simulator "[0, 0]" No_Error "Inl Undefined"]
    by (simp add: incomplete_def lookup_simulator_simps)
  then obtain s' where "handles lookup_simulator ?es s'"
    by (simp add: await_full_buffer_def end_session_def async_accept_def handle_accept_def lookup_simulator_simps
        del: dispatch.simps(2)) (simp add: await_full_buffer_def end_session_def async_accept_def lookup_simulator_simps)
  from this simulator_keeps_playing [OF this rest] show ?thesis by (auto simp: lookup_simulator_simps)
qed

end
