(* ===== verification/Closed_Loop.thy ===== *)
theory Closed_Loop
  imports Responder_Steps
begin

text \<open>
  The flight software against the simulator: every request of a ring-buffer transaction is answered by
  \<open>foxsimile\<close>'s \<open>make_reply\<close> from its memory image, and the frame that arrives at the ground is the block of
  the image.
\<close>

section \<open>The answers of the simulator\<close>

definition answer_of :: "u8 \<Rightarrow> responder \<Rightarrow> bytes \<Rightarrow> bytes" where
  "answer_of b s request = (case make_reply (Inr b) request s of Some (Inr reply, _) \<Rightarrow> reply | _ \<Rightarrow> [])"

text \<open>All reads of one system have the same prefix.\<close>

definition reads_routed :: "responder \<Rightarrow> u8 \<Rightarrow> spacewire \<Rightarrow> bool" where
  "reads_routed s code spw \<longleftrightarrow> addressable s spw code
     (get_spw_ether_header (replicate (length (spw_target_path_address spw) + 20) 0) @ spw_target_path_address spw)"

definition block_parts :: "u8 \<Rightarrow> spacewire \<Rightarrow> bytes \<Rightarrow> nat \<Rightarrow> nat \<Rightarrow> parts" where
  "block_parts b spw mem from n =
     reply_parts spw 0x4d 0 b (be_bytes 3 (word_of_nat n)) (take n (drop from mem))"

text \<open>The link of both sides: a reply path of four nodes, a target path, and checksums of version \<open>f\<close>, without which
  the reply of the simulator is undefined.\<close>

definition linked :: "responder \<Rightarrow> u8 \<Rightarrow> spacewire \<Rightarrow> command_deck \<Rightarrow> bytes \<Rightarrow> bool" where
  "linked s code spw deck mem \<longleftrightarrow>
     simulates s code spw mem \<and> reads_routed s code spw \<and> sys_spacewire (get_sys_for_code code deck) = Some spw \<and>
     length (spw_reply_path_address spw) = 4 \<and> spw_target_path_address spw \<noteq> [] \<and>
     length (spw_target_path_address spw) < 2 ^ 60 \<and> length mem \<le> 2 ^ 32 \<and>
     spw_crc_version spw = CHR ''f''"

lemma answer_block:
  assumes "linked s code spw deck mem" and "from + n \<le> length mem" and "n < 2 ^ 24" and "0 < n"
    and "get_read_command_for_sys_at_address deck code (be_bytes 4 (word_of_nat from)) n = Inr request"
  shows "make_reply (Inr b) request s = Some (Inr (packet_of (block_parts b spw mem from n)), s)"
    and "answer_of b s request = packet_of (block_parts b spw mem from n)"
proof -
  note link = assms(1) [unfolded linked_def]
  let ?h = "rmap_header spw 0x4d [0x00, 0x00] (be_bytes 4 (word_of_nat from)) (be_bytes 3 (word_of_nat n))"
  have p: "request = spw_packet spw ?h []" using link assms(5) by (simp add: read_command_eq del: be_bytes_numeral)
  have "length (rmap_tail spw ?h []) = length (spw_target_path_address spw) + 20"
    using link by (simp add: rmap_tail_def rmap_header_def del: be_bytes_numeral)
  then have "get_spw_ether_header (rmap_tail spw ?h []) =
      get_spw_ether_header (replicate (length (spw_target_path_address spw) + 20) 0)"
    by (intro ether_header_length_only) simp
  then have route: "routable s code spw request" using link by (simp add: p routable_packet reads_routed_def)
  have "from < 2 ^ 32" using link assms(2,4) by linarith
  then have "unat (word_of_nat from :: u64) mod 256 ^ 4 = from" by (simp add: unat_of_nat_small)
  then have addr: "be_value (be_bytes 4 (word_of_nat from)) = from" by (simp only: be_value_be_bytes)
  show *: "make_reply (Inr b) request s = Some (Inr (packet_of (block_parts b spw mem from n)), s)"
    using read_request_served [of s code spw mem deck "be_bytes 4 (word_of_nat from)" n request "Inr b"] link assms(2,3,5) route
    unfolding addr by (simp add: block_parts_def del: be_bytes_numeral)
  show "answer_of b s request = packet_of (block_parts b spw mem from n)" by (simp add: answer_of_def *)
qed

lemma block_parts_simps:
  "from + n \<le> length mem \<Longrightarrow> length (packet_of (block_parts b spw mem from n)) = 25 + n"
  "payload_of (block_parts b spw mem from n) = take n (drop from mem)"
  by (simp_all add: block_parts_def reply_parts_simps del: be_bytes_numeral)

text \<open>What the framer is configured to strip.\<close>

definition strips_replies :: "packet_framer \<Rightarrow> bool" where
  "strips_replies pf \<longleftrightarrow>
     pf_initial_strip_header_size pf + pf_static_strip_header_size pf = 24 \<and>
     pf_initial_strip_footer_size pf + pf_static_strip_footer_size pf = 1 \<and>
     pf_static_strip_header_size pf + pf_subsequent_strip_header_size pf = 24 \<and>
     pf_static_strip_footer_size pf + pf_subsequent_strip_footer_size pf = 1"

lemma blocks_joined: "concat (map (\<lambda>i. take n (drop (from + i * n) mem)) [0..<k]) = take (k * n) (drop from mem)"
proof (induction k)
  case (Suc k)
  have "take (k * n + n) (drop from mem) = take (k * n) (drop from mem) @ take n (drop (from + k * n) mem)"
    by (simp only: take_add drop_drop add.commute [of "from"])
  moreover have "Suc k * n = k * n + n" by simp
  ultimately show ?case using Suc by (simp del: mult_Suc)
qed simp

lemma block_shapes:
  assumes "strips_replies pf" and "0 < n" and "n \<le> pf_frame_size pf" and "n < 2 ^ 24" and "from + n \<le> length mem"
  shows "initial_shape pf (block_parts b spw mem from n)" and "subsequent_shape pf (block_parts b spw mem from n)"
proof -
  obtain h f where parts: "block_parts b spw mem from n = (h, take n (drop from mem), f)" "length h = 24" "length f = 1"
    by (simp add: block_parts_def reply_parts_def Let_def del: be_bytes_numeral)
  moreover have "length (take n (drop from mem)) = n" using assms(5) by simp
  ultimately show "initial_shape pf (block_parts b spw mem from n)" "subsequent_shape pf (block_parts b spw mem from n)"
    using assms(1-4) by (auto simp: strips_replies_def)
qed

lemma ceil_div_tight: "0 < a \<Longrightarrow> 0 < b \<Longrightarrow> (ceil_div a b - 1) * b < a"
proof -
  assume "0 < a" "0 < b"
  have eq: "a div b * b + a mod b = a" by (rule div_mult_mod_eq)
  show ?thesis
  proof (cases "a mod b = 0")
    case True
    then have "(ceil_div a b - 1) * b = a - b" using eq by (simp add: ceil_div_def diff_mult_distrib)
    with \<open>0 < a\<close> \<open>0 < b\<close> show ?thesis by simp
  next
    case False
    then have "(ceil_div a b - 1) * b = a div b * b" by (simp add: ceil_div_def)
    with False eq show ?thesis by linarith
  qed
qed

lemma blocks_frame:
  assumes "strips_replies pf" and "0 < n" and "n \<le> pf_frame_size pf" and "n < 2 ^ 24"
    and "k = ceil_div (pf_frame_size pf) n" and "from + k * n \<le> length mem"
  shows "frame_packets pf (25 + n) (map (\<lambda>i. block_parts b spw mem (from + i * n) n) [0..<k])"
proof -
  let ?p = "\<lambda>i. block_parts b spw mem (from + i * n) n"
  have frame: "pf_frame_size pf \<le> k * n" "(k - 1) * n < pf_frame_size pf"
    using mult_ceil_div_ge [of n "pf_frame_size pf"] ceil_div_tight [of "pf_frame_size pf" n] assms(2,3,5) by simp_all
  then have k: "0 < k" using assms(2,3) by (cases k) simp_all
  have fit: "from + i * n + n \<le> length mem" if "i < k" for i
  proof -
    have "Suc i * n \<le> k * n" using that by (intro mult_right_mono) simp_all
    with assms(6) show ?thesis by simp
  qed
  note shapes = block_shapes [OF assms(1-4) fit]
  have joined: "length (concat (map (payload_of \<circ> ?p) [0..<j])) = j * n" if "j \<le> k" for j
  proof -
    have le: "j * n \<le> k * n" using that by simp
    then have "concat (map (payload_of \<circ> ?p) [0..<j]) = take (j * n) (drop from mem)"
      using blocks_joined [of n "from" mem j] by (simp add: comp_def block_parts_simps)
    moreover have "j * n \<le> length mem - from" using assms(6) le by linarith
    ultimately show ?thesis by simp
  qed
  obtain k' where k': "k = Suc k'" using k by (cases k) auto
  have split: "map ?p [0..<k] = ?p 0 # map ?p [1..<k]" using k by (simp add: upt_conv_Cons)
  have "map payload_of (butlast (map ?p [0..<k])) = map (payload_of \<circ> ?p) [0..<k']" by (simp add: k' map_butlast comp_def)
  then have "length (concat (map payload_of (butlast (map ?p [0..<k])))) < pf_frame_size pf"
    using joined [of k'] frame(2) k' by simp
  moreover have "pf_frame_size pf \<le> length (concat (map payload_of (map ?p [0..<k])))"
    using joined [of k] frame(1) by simp
  moreover have "list_all (\<lambda>x. length (packet_of x) = 25 + n) (map ?p [0..<k])"
    using block_parts_simps(1) [OF fit] by (simp add: list_all_length)
  moreover have "initial_shape pf (?p 0)" "list_all (subsequent_shape pf) (map ?p [1..<k])"
    using shapes(1) [of 0] shapes(2) k by (simp_all add: list_all_iff)
  ultimately show ?thesis unfolding split frame_packets.simps by simp
qed

section \<open>Properties\<close>

text \<open>C3. The loop is closed: a ring-buffer transaction and the downlink after it, run against the simulator. When the
  pointer request and the requests of the frame are answered by the simulator, from its image of the system, with the
  framer configured for its replies, these requests are all that is sent to the remote system, the transaction
  succeeds, and the payloads of the datagrams at the ground, joined, are the bytes of the image from the frame's start
  on. The start is the frame the write pointer in the image stands for.\<close>

theorem simulator_feeds_ground:
  fixes ring :: ring_buffer_parameters and pf :: packet_framer
  defines "F \<equiv> pf_frame_size pf" and "pointer_address \<equiv> unat (rb_write_pointer_address ring)"
  assumes "frame_ready t spw e ring pf fp n m" and "hex = sys_hex (sm_system (m_man m))"
    and "linked s hex spw (m_deck m) mem" and "strips_replies pf"
    and "P = dl_max_payload_size e" and "dl_max_payload_size spw = P" and "expected_packet_size spw e = 25 + P"
    and "0 < P" and "P \<le> F" and "P < 2 ^ 24" and "k = ceil_div F P"
    and "rb_write_pointer_width_bytes ring = 4" and "pointer_address + 4 \<le> length mem"
    and "pointer = take 4 (drop pointer_address mem)"
    and "start = frame_address (sm_system (m_man m)) ring (unat (unsplat_from_4bytes
      (if is_cmos (m_deck m) (sm_system (m_man m)) then rev pointer else pointer)))"
    and "start + k * P \<le> length mem" and "start \<noteq> prior"
    and "requests = pointer_request ring m # frame_requests m spw e 4 start 0 k"
    and "m_replies m = map (Some \<circ> answer_of b s) requests @- script"
    and "m_downlink m = []" and "ground_ready m" and "sys_hex (fp_system fp) \<noteq> 0x05"
  shows "\<exists>m' packets views.
    bindM (sync_remote_buffer_transaction t prior) (\<lambda>_. sync_udp_send_all_downlink_buffer) m = Some (Inr False, m') \<and>
    m_sent m' = m_sent m @ map (Pair Tcp) requests @ map (Pair Udp_Ground) packets \<and>
    (\<forall>request \<in> set requests. make_reply (Inr b) request s = Some (Inr (answer_of b s request), s)) \<and>
    map parse_packet packets = map (\<lambda>(count, i, payload).
      Some (sys_hex (fp_system fp), count, i, ring_code (fp_type fp), n, payload)) views \<and>
    concat (map (snd \<circ> snd) views) = take F (drop start mem)"
proof -
  let ?p = "\<lambda>i. block_parts b spw mem (start + i * P) P" and ?xs = "map (\<lambda>i. block_parts b spw mem (start + i * P) P) [0..<k]"
  let ?ptr = "block_parts b spw mem pointer_address 4"
  have width: "unat (4 :: u8) = 4" "word_of_nat (rb_write_pointer_width_bytes ring) = (4 :: u8)"
    using assms(14) by simp_all
  have small: "length mem < 2 ^ 64" using assms(5) by (simp add: linked_def)
  have k: "k \<le> k * P" using assms(10) by simp
  obtain q where "get_read_command_for_sys_at_address (m_deck m) hex (be_bytes 4 (ucast (rb_write_pointer_address ring))) 4 = Inr q"
    using read_command_total by blast
  then have "get_read_command_for_sys_at_address (m_deck m) hex (be_bytes 4 (word_of_nat pointer_address)) 4 =
      Inr (pointer_request ring m)"
    unfolding pointer_request_def width assms(4) pointer_address_def word_of_nat_unat_32 by simp
  then have ptr: "make_reply (Inr b) (pointer_request ring m) s = Some (Inr (packet_of ?ptr), s)"
    "answer_of b s (pointer_request ring m) = packet_of ?ptr"
    using answer_block [OF assms(5), of pointer_address 4 "pointer_request ring m" b] assms(15) by simp_all
  have block: "make_reply (Inr b) (frame_requests m spw e 4 start 0 k ! i) s = Some (Inr (packet_of (?p i)), s)"
    "answer_of b s (frame_requests m spw e 4 start 0 k ! i) = packet_of (?p i)" if i: "i < k" for i
  proof -
    have "Suc i * P \<le> k * P" using i by (intro mult_right_mono) simp_all
    then have fits: "start + i * P + P \<le> length mem" using assms(18) by simp
    have "k < 2 ^ 64" using k assms(18) small by linarith
    then have nth: "frame_requests m spw e 4 start 0 k ! i = frame_request (m_deck m) hex spw e 4 start i"
      using frame_requests_nth [of 0 k i m spw e 4 start] i assms(4) by simp
    have "i * P + start < 2 ^ 64" using fits small by linarith
    then have at: "sz_add start (sz_mul i (dl_max_payload_size spw)) = start + i * P"
      using assms(8) by (simp add: sz_add_def sz_mul_def)
    have "get_read_command_for_sys_at_address (m_deck m) hex (be_bytes 4 (word_of_nat (start + i * P))) P =
        Inr (frame_requests m spw e 4 start 0 k ! i)"
      unfolding nth using frame_request_eq [of "m_deck m" hex 4 start i spw e] by (simp only: at width(1) assms(7))
    from answer_block [OF assms(5) fits assms(12,10) this]
    show "make_reply (Inr b) (frame_requests m spw e 4 start 0 k ! i) s = Some (Inr (packet_of (?p i)), s)"
      "answer_of b s (frame_requests m spw e 4 start 0 k ! i) = packet_of (?p i)" .
  qed
  have answers: "map (answer_of b s) (frame_requests m spw e 4 start 0 k) = map packet_of ?xs"
    by (rule nth_equalityI) (simp_all add: block(2))
  have script: "m_replies m = Some (packet_of ?ptr) ## map (Some \<circ> packet_of) ?xs @- script"
    using assms(21) arg_cong [OF answers, of "map Some"] by (simp add: assms(20) ptr(2) comp_assoc)
  have "get_reply_data (packet_of ?ptr) = pointer"
    using reply_parts_data [of "take 4 (drop pointer_address mem)"] assms(15,16) by (simp add: block_parts_def del: be_bytes_numeral)
  then have reply: "pointer_reply (packet_of ?ptr)" and bytes: "pointer_bytes (m_deck m) (sm_system (m_man m)) (packet_of ?ptr) =
      (if is_cmos (m_deck m) (sm_system (m_man m)) then rev pointer else pointer)"
    using block_parts_simps(1) [OF assms(15)] assms(15,16) by (simp_all add: pointer_reply_def pointer_bytes_def)
  have frame: "frame_packets pf (expected_packet_size spw e) ?xs"
    unfolding assms(9) by (rule blocks_frame [OF assms(6,10) _ assms(12) _ assms(18)]) (use assms(11,13) F_def in simp_all)
  have joined: "take F (concat (map payload_of ?xs)) = take F (drop start mem)"
  proof -
    have "F \<le> k * P" using mult_ceil_div_ge [OF assms(10), of F] assms(13) by simp
    then show ?thesis using blocks_joined [of P start mem k] by (simp add: comp_def block_parts_simps min_def)
  qed
  obtain m' packets views where run:
    "bindM (sync_remote_buffer_transaction t prior) (\<lambda>_. sync_udp_send_all_downlink_buffer) m = Some (Inr False, m')"
    "m_sent m' = m_sent m @ map (Pair Tcp) (pointer_request ring m # frame_requests m spw e
      (word_of_nat (rb_write_pointer_width_bytes ring)) start 0 (length ?xs)) @ map (Pair Udp_Ground) packets"
    "map parse_packet packets = map (\<lambda>(count, i, payload).
      Some (sys_hex (fp_system fp), count, i, ring_code (fp_type fp), n, payload)) views"
    "concat (map (snd \<circ> snd) views) = take (pf_frame_size pf) (concat (map payload_of ?xs))"
    by (rule ground_run [OF assms(3) frame reply script assms(17)[folded bytes] assms(19,22-24)])
  have "\<forall>request \<in> set requests. make_reply (Inr b) request s = Some (Inr (answer_of b s request), s)"
    using ptr block by (auto simp: assms(20) in_set_conv_nth)
  with run joined show ?thesis
    unfolding width(2) by (intro exI [of _ m'] exI [of _ packets] exI [of _ views]) (simp add: assms(20) F_def)
qed

definition sim_framer :: packet_framer where
  "sim_framer = memory_framer\<lparr>pf_static_strip_header_size := 24\<rparr>"

definition sim_image :: bytes where
  "sim_image = replicate 68 0 @ [0, 0, 0, 0x50] @ [1, 2, 3, 4, 5, 6, 7, 8, 9, 10, 11, 12]"

definition sim_machine :: "script \<Rightarrow> machine" where
  "sim_machine replies = (read_machine replies)\<lparr>
     m_deck := ground_deck\<lparr>deck_systems := sim_system # deck_systems ground_deck\<rparr>,
     m_man := add_packet_framer PC sim_framer (add_frame_packetizer PC read_packetizer (m_man (machine_example sim_system)))\<rparr>"

definition sim_requests :: "bytes list" where
  "sim_requests = pointer_request ring_example_parameters (sim_machine silence)
     # frame_requests (sim_machine silence) sim_spw example_ethernet 4 75 0 2"

definition sim_replies :: script where
  "sim_replies = map (Some \<circ> answer_of 0 (simulator sim_image)) sim_requests @- silence"

lemma sim_machine_simps:
  "sm_system (m_man (sim_machine replies)) = sim_system" "m_downlink (sim_machine replies) = []"
  "m_sent (sim_machine replies) = []" "m_replies (sim_machine replies) = replies"
  "m_deck (sim_machine replies) = ground_deck\<lparr>deck_systems := sim_system # deck_systems ground_deck\<rparr>"
  "get_sys_for_code 0x09 (m_deck (sim_machine replies)) = sim_system"
  "ring_params_at sim_system PC = Inr ring_example_parameters"
  using memory_machine_simps(10)
  by (simp_all add: sim_machine_def read_machine_def machine_example_def add_timing_def SystemManager_def
      add_packet_framer_def add_frame_packetizer_def insert_count_def get_sys_for_code_def sim_system_simps
      ring_params_at_def) (simp add: sim_system_def)

lemma sim_same:
  "pointer_request ring (sim_machine replies) = pointer_request ring (sim_machine silence)"
  "frame_requests (sim_machine replies) spw e w start c k = frame_requests (sim_machine silence) spw e w start c k"
  by (simp add: pointer_request_def sim_machine_simps) (rule frame_requests_same; simp add: sim_machine_simps)

lemma sim_ready:
  "frame_ready PC sim_spw example_ethernet ring_example_parameters sim_framer read_packetizer 0 (sim_machine replies)"
proof -
  have "expected_packet_size sim_spw example_ethernet = 29"
    by (simp add: expected_packet_size_def sim_spw_simps memory_links)
  then have "readable sim_spw example_ethernet (sim_machine replies)"
    using sim_machine_simps sim_system_simps
    by (simp add: readable_def vec_max_def)
      (simp add: sim_machine_def read_machine_def machine_example_def add_timing_def SystemManager_def
        add_packet_framer_def add_frame_packetizer_def insert_count_def sends_work_def dispatch_timing_def)
  moreover have "pf_inv sim_framer" "pf_frame sim_framer = []" "pf_frame_size sim_framer = 5"
    by (simp_all add: sim_framer_def memory_framer_def read_framer_def framer_example_def pf_inv_def)
  moreover have "fp_wf read_packetizer" "fp_packets_per_frame read_packetizer = 3" "fp_max_packet_size read_packetizer = 10"
    by (simp_all add: read_packetizer_def FramePacketizer_sized_def fp_wf_def)
  moreover have "sm_packet_framer (m_man (sim_machine replies)) PC = Some sim_framer"
    "sm_frame_packetizer (m_man (sim_machine replies)) PC = Some read_packetizer"
    "sm_frame_count (m_man (sim_machine replies)) PC = Some 0"
    by (simp_all add: sim_machine_def machine_example_def add_timing_def SystemManager_def add_packet_framer_def
      add_frame_packetizer_def insert_count_def)
  ultimately show ?thesis
    using sim_machine_simps sim_system_simps
    by (simp add: frame_ready_def ring_example_parameters_def RingBufferParameters_def ceil_div_def)
qed

lemma sim_linked: "linked (simulator sim_image) 0x09 sim_spw (m_deck (sim_machine replies)) sim_image"
proof -
  have "reads_routed (simulator sim_image) 0x09 sim_spw"
    unfolding reads_routed_def addressable_def simulator_simps prefix_bytes
    by (simp add: sim_system_simps sim_spw_simps SystemManager_def)
  then show ?thesis
    using sim_simulates [of sim_image] sim_machine_simps(6) [of replies]
    by (simp add: linked_def sim_system_simps sim_spw_simps) (simp add: sim_image_def)
qed

lemma sim_sizes:
  "strips_replies sim_framer" "pf_frame_size sim_framer = 5" "expected_packet_size sim_spw example_ethernet = 25 + 4"
  "unat (rb_write_pointer_address ring_example_parameters) = 68" "rb_write_pointer_width_bytes ring_example_parameters = 4"
  "take 4 (drop 68 sim_image) = [0, 0, 0, 0x50]" "length sim_image = 84" "take 5 (drop 75 sim_image) = [4, 5, 6, 7, 8]"
  by (simp_all add: strips_replies_def sim_framer_def memory_framer_def read_framer_def framer_example_def
      expected_packet_size_def sim_spw_simps memory_links ring_example_parameters_def RingBufferParameters_def sim_image_def)

lemma sim_start:
  "75 = frame_address sim_system ring_example_parameters (unat (unsplat_from_4bytes
     (if is_cmos (m_deck (sim_machine replies)) sim_system then rev [0, 0, 0, 0x50] else [0, 0, 0, 0x50])))"
proof -
  have "\<not> is_cmos (m_deck (sim_machine replies)) sim_system"
    by (simp add: sim_machine_simps sim_system_simps is_cmos_def get_sys_code_for_name_def get_sys_for_name_def ground_deck_def
        System_named_def null_sys_def)
  then show ?thesis
    by (simp add: frame_address_def sim_system_simps unsplat_cons ring_example_parameters_def RingBufferParameters_def)
qed

lemma simulator_feeds_ground_witness:
  "\<exists>m' packets views.
    bindM (sync_remote_buffer_transaction PC 0) (\<lambda>_. sync_udp_send_all_downlink_buffer) (sim_machine sim_replies) =
      Some (Inr False, m') \<and>
    m_sent m' = map (Pair Tcp) sim_requests @ map (Pair Udp_Ground) packets \<and>
    map parse_packet packets = map (\<lambda>(count, i, payload).
      Some (sys_hex (fp_system read_packetizer), count, i, ring_code (fp_type read_packetizer), 0, payload)) views \<and>
    concat (map (snd \<circ> snd) views) = [4, 5, 6, 7, 8]"
proof -
  let ?m = "sim_machine sim_replies"
  have hex: "sys_hex (fp_system read_packetizer) \<noteq> 0x05"
    by (simp add: read_packetizer_def FramePacketizer_sized_def read_system_simps)
  have ground: "ground_ready ?m"
    by (simp add: ground_ready_def sim_machine_simps(5) sim_system_simps ground_deck_def get_sys_for_name_def System_named_def
        gse_packet_size_def Ethernet_static_def DataLinkLayer_static_def link_defs)
  have requests: "sim_requests = pointer_request ring_example_parameters ?m
      # frame_requests ?m sim_spw example_ethernet 4 75 0 2"
    unfolding sim_requests_def sim_same(1) [of _ sim_replies] sim_same(2) [where replies = sim_replies] ..
  have replies: "m_replies ?m = map (Some \<circ> answer_of 0 (simulator sim_image)) sim_requests @- silence"
    by (simp add: sim_machine_simps(4) sim_replies_def)
  have code: "0x09 = sys_hex (sm_system (m_man ?m))" by (simp add: sim_machine_simps(1) sim_system_simps)
  have p: "4 = dl_max_payload_size example_ethernet" "(0 :: nat) < 4" "4 \<le> pf_frame_size sim_framer" "(4 :: nat) < 2 ^ 24"
    "2 = ceil_div (pf_frame_size sim_framer) 4" "unat (rb_write_pointer_address ring_example_parameters) + 4 \<le> length sim_image"
    "[0, 0, 0, 0x50] = take 4 (drop (unat (rb_write_pointer_address ring_example_parameters)) sim_image)"
    "75 + 2 * 4 \<le> length sim_image" "(75 :: nat) \<noteq> 0"
    by (simp_all add: sim_sizes memory_links ceil_div_def)
  have start: "75 = frame_address (sm_system (m_man ?m)) ring_example_parameters (unat (unsplat_from_4bytes
     (if is_cmos (m_deck ?m) (sm_system (m_man ?m)) then rev [0, 0, 0, 0x50] else [0, 0, 0, 0x50])))"
    unfolding sim_machine_simps(1) by (rule sim_start)
  from simulator_feeds_ground [OF sim_ready code sim_linked sim_sizes(1) p(1) sim_spw_simps(7) sim_sizes(3) p(2-5)
      sim_sizes(5) p(6,7) start p(8,9) requests replies sim_machine_simps(2) ground hex]
  show ?thesis unfolding sim_sizes(2,8) sim_machine_simps(3) append_Nil by blast
qed

end
