(* ===== verification/Circle.thy ===== *)
theory Circle
  imports Remote_Buffer Traffic
begin

text \<open>
  The main loop (\<open>src/Circle.cpp\<close>): one subsystem per turn, in the order of \<open>system_order\<close>. A turn
  receives uplinked commands, empties the TCP socket, queues the health packet, and then serves the
  current system: forwards its commands, reads its data, queues replies, and sends the downlink queue.

  \<open>c_managers\<close> is \<open>system_order\<close> (the managers are shared objects); a call that takes a manager by
  reference runs with that manager in the machine's \<open>m_man\<close> and writes it back. \<open>manage_systems\<close> also
  copies seven managers at its start, and what is done to a copy is lost. The clock gives the values of
  the successive time calls. The waits between commands are not modelled. Queued elements hold their system
  by value here; in the code they hold a pointer to the system that a manager, or its copy, refers to. These
  are systems of the deck and of \<open>main\<close>, which live as long as the loop.
\<close>

section \<open>State and access to the managers\<close>

record circle =
  c_link :: machine
  c_managers :: "system_manager list"
  c_current :: nat
  c_clock :: "nat \<Rightarrow> u64"
  c_ticks :: nat
  c_uart_open :: bool

type_synonym 'a loop = "(circle, 'a) op"

definition HOUSEKEEPING_LOOP_EVERY :: nat where "HOUSEKEEPING_LOOP_EVERY = 2"

text \<open>\<open>get_sys_man_for_name\<close> and \<open>get_sys_man_for_hex\<close> give the position of the first match.\<close>

fun get_sys_man_for_name :: "string \<Rightarrow> system_manager list \<Rightarrow> nat option" where
  "get_sys_man_for_name name [] = None"
| "get_sys_man_for_name name (sm # sms) =
     (if sys_name (sm_system sm) = name then Some 0
      else map_option Suc (get_sys_man_for_name name sms))"

fun get_sys_man_for_hex :: "u8 \<Rightarrow> system_manager list \<Rightarrow> nat option" where
  "get_sys_man_for_hex hex [] = None"
| "get_sys_man_for_hex hex (sm # sms) =
     (if sys_hex (sm_system sm) = hex then Some 0 else map_option Suc (get_sys_man_for_hex hex sms))"

definition on_link :: "'a io \<Rightarrow> 'a loop" where
  "on_link p c = (case p (c_link c) of None \<Rightarrow> None | Some (r, m) \<Rightarrow> Some (r, c\<lparr>c_link := m\<rparr>))"

definition at_manager :: "nat \<Rightarrow> 'a io \<Rightarrow> 'a loop" where
  "at_manager i p c =
     (if i < length (c_managers c) then
        (case p ((c_link c)\<lparr>m_man := c_managers c ! i\<rparr>) of
           None \<Rightarrow> None
         | Some (r, m) \<Rightarrow> Some (r, c\<lparr>c_link := m, c_managers := (c_managers c)[i := m_man m]\<rparr>))
      else Some (Inl Undefined, c))"

definition with_manager :: "string \<Rightarrow> 'a io \<Rightarrow> 'a loop" where
  "with_manager name p =
     bindM (getM (\<lambda>c. get_sys_man_for_name name (c_managers c))) (\<lambda>found.
     bindM (liftR (option_deref found)) (\<lambda>i. at_manager i p))"

definition with_manager_copy :: "system_manager \<Rightarrow> 'a io \<Rightarrow> 'a loop" where
  "with_manager_copy sm p = on_link (\<lambda>m. p (m\<lparr>m_man := sm\<rparr>))"

definition copy_manager :: "string \<Rightarrow> system_manager loop" where
  "copy_manager name =
     bindM (getM (\<lambda>c. get_sys_man_for_name name (c_managers c))) (\<lambda>found.
     bindM (liftR (option_deref found)) (\<lambda>i. getM (\<lambda>c. c_managers c ! i)))"

definition read_clock :: "u64 loop" where
  "read_clock = bindM (getM (\<lambda>c. c_clock c (c_ticks c))) (\<lambda>t.
     bindM (modifyM (\<lambda>c. c\<lparr>c_ticks := c_ticks c + 1\<rparr>)) (\<lambda>_. ret t))"

section \<open>Commands and queued data\<close>

text \<open>\<open>sync_send_command_to_system(man, get_command_for_sys_for_code(man.system.hex, code))\<close>.\<close>

definition send_code :: "u8 \<Rightarrow> bytes io" where
  "send_code code =
     bindM (getM (\<lambda>m. get_command_for_sys_for_code (sys_hex (sm_system (m_man m))) code (m_deck m)))
       sync_send_command_to_system"

definition set_state :: "system_state \<Rightarrow> unit io" where
  "set_state s = on_man (\<lambda>sm. sm\<lparr>sm_system_state := s\<rparr>)"

text \<open>A new element for the ground station, for some types numbered as the only packet of its frame.\<close>

definition queue_data :: "bool \<Rightarrow> system \<Rightarrow> ring_type \<Rightarrow> bytes \<Rightarrow> unit io" where
  "queue_data single sys t payload =
     bindM (getM (\<lambda>m. DownlinkBufferElement sys (get_sys_for_name ''gse'' (m_deck m)) t)) (\<lambda>built.
     bindM (liftR built) (\<lambda>dbel.
     bindM (liftR (if single then dbe_set_this_packet_index 1 (dbe_set_packets_per_frame 1 dbel) else Inr dbel)) (\<lambda>dbel.
     bindM (liftR (dbe_set_payload payload dbel)) (\<lambda>dbel. enqueue_downlink dbel))))"

text \<open>The transaction for a type, with the stored pointer before and after it.\<close>

definition read_remote :: "ring_type \<Rightarrow> unit io" where
  "read_remote t =
     bindM (getM (\<lambda>m. sm_last_write_pointer (m_man m) t)) (\<lambda>stored.
     bindM (liftR (option_at stored)) (\<lambda>prior.
     bindM (sync_remote_buffer_transaction t prior) (\<lambda>pointer.
       on_man (\<lambda>sm. sm\<lparr>sm_last_write_pointer := (sm_last_write_pointer sm)(t \<mapsto> pointer)\<rparr>))))"

section \<open>The health packet\<close>

definition health_entry :: "system_manager \<Rightarrow> bytes" where
  "health_entry sm = [sys_hex (sm_system sm), system_state_code (sm_system_state sm),
     ucast (drop_bit 8 (sm_errors sm) AND 0xff), ucast (sm_errors sm AND 0xff)]"

definition make_global_health_packet :: "bytes loop" where
  "make_global_health_packet =
     bindM (getM c_managers) (\<lambda>system_order.
     bindM read_clock (\<lambda>this_time.
     bindM (liftR (splat_to_nbytes 4 (this_time AND 0xffffffff))) (\<lambda>time_bytes.
     bindM (copy_manager ''uplink'') (\<lambda>uplink.
       ret (time_bytes @ [0x00] @ [word_of_nat (sm_counter uplink mod 256)]
            @ concat (map health_entry system_order))))))"

definition send_global_health :: "unit loop" where
  "send_global_health =
     bindM make_global_health_packet (\<lambda>data.
     bindM (copy_manager ''housekeeping'') (\<lambda>hk.
       on_link (queue_data False (sm_system hk) PING data)))"

definition record_uplink :: "unit loop" where
  "record_uplink = with_manager ''uplink'' sync_uart_receive_to_uplink_buffer"

definition flush :: "unit loop" where
  "flush = on_link (bindM sync_tcp_read_some (\<lambda>_. ret ()))"

section \<open>The turns of the systems\<close>

text \<open>Housekeeping of a system with a SpaceWire reply, asked through the copy of its manager; the result
  says whether it was queued.\<close>

definition read_housekeeping :: "bool \<Rightarrow> system_manager \<Rightarrow> u8 \<Rightarrow> bool loop" where
  "read_housekeeping single sm code =
     bindM (with_manager_copy sm (send_code code)) (\<lambda>hk.
       if length hk > 0
       then bindM (on_link (queue_data single (sm_system sm) HK (get_reply_data hk))) (\<lambda>_. ret True)
       else ret False)"

text \<open>A CdTe canister; the result tells whether data is left and whether housekeeping was queued.\<close>

definition manage_canister :: "string \<Rightarrow> bool \<Rightarrow> system_manager \<Rightarrow> (bool \<times> bool) loop" where
  "manage_canister name single copy =
     bindM (with_manager ''cdtede'' sync_send_buffer_commands_to_system) (\<lambda>_.
     bindM (with_manager name sync_send_buffer_commands_to_system) (\<lambda>_.
     bindM (with_manager name (read_remote PC)) (\<lambda>_.
     bindM (read_housekeeping single copy 0xbf) (\<lambda>queued.
     bindM (on_link sync_udp_send_all_downlink_buffer) (\<lambda>has_data. ret (has_data, queued))))))"

text \<open>\<open>did_queue_hk\<close> is only assigned when housekeeping was queued; \<open>mem\<close> is what it holds otherwise: \<open>None\<close> for the
  C++ standard, where reading it is undefined, \<open>Some b\<close> for a memory that holds \<open>b\<close> there. It is not read when
  there is data left.\<close>

definition manage_cdte1 :: "bool option \<Rightarrow> system_manager \<Rightarrow> unit loop" where
  "manage_cdte1 mem copy =
     bindM (manage_canister ''cdte1'' False copy) (\<lambda>(has_data, queued).
       let did_queue_hk = (if queued then Some True else mem) in
       bindM (if has_data then ret True
              else bindM (liftR (option_deref did_queue_hk)) (\<lambda>did_queue_hk. ret (\<not> did_queue_hk))) (\<lambda>flagged.
         if flagged then with_manager ''cdte1'' (on_man (raise_error downlink_buffering))
         else ret ()))"

definition manage_cdtede :: "system_manager \<Rightarrow> unit loop" where
  "manage_cdtede copy =
     bindM (with_manager ''cdtede'' sync_send_buffer_commands_to_system) (\<lambda>_.
     bindM (read_housekeeping False copy 0xaf) (\<lambda>_. ret ()))"

text \<open>The CMOS cameras read their two buffers in turn.\<close>

definition alternate_read :: "unit io" where
  "alternate_read =
     bindM (getM (\<lambda>m. sm_active_type (m_man m))) (\<lambda>active.
       if active = PC
       then bindM (read_remote PC) (\<lambda>_. on_man (\<lambda>sm. sm\<lparr>sm_active_type := QL\<rparr>))
       else bindM (read_remote QL) (\<lambda>_. on_man (\<lambda>sm. sm\<lparr>sm_active_type := PC\<rparr>)))"

definition manage_cmos :: "string \<Rightarrow> system_manager \<Rightarrow> unit loop" where
  "manage_cmos name copy =
     bindM (with_manager name sync_send_buffer_commands_to_system) (\<lambda>_.
     bindM (with_manager name alternate_read) (\<lambda>_.
     bindM (read_housekeeping False copy 0x88) (\<lambda>_.
     bindM (on_link sync_udp_send_all_downlink_buffer) (\<lambda>_. ret ()))))"

text \<open>Timepix: the replies are padded to their announced lengths and joined.\<close>

definition uart_length :: "u8 \<Rightarrow> nat io" where
  "uart_length code =
     getM (\<lambda>m. cmd_uart_reply_length (get_command_for_sys_for_code (sys_hex (sm_system (m_man m))) code (m_deck m)))"

definition queue_timepix :: "ring_type \<Rightarrow> bytes \<Rightarrow> unit io" where
  "queue_timepix t payload =
     bindM (getM (\<lambda>m. get_sys_for_name ''timepix'' (m_deck m))) (\<lambda>sys. queue_data True sys t payload)"

definition timepix_packets :: "bytes \<Rightarrow> bytes \<Rightarrow> bytes \<Rightarrow> bytes \<Rightarrow> bytes \<Rightarrow> unit io" where
  "timepix_packets request_time flags hk rates pcap =
     bindM (uart_length 0x8a) (\<lambda>flags_length. bindM (uart_length 0x88) (\<lambda>hk_length.
     bindM (uart_length 0x81) (\<lambda>rates_length. bindM (uart_length 0xa5) (\<lambda>pcap_length.
     bindM (liftR (vec_resize flags_length flags)) (\<lambda>flags.
     bindM (liftR (vec_resize hk_length hk)) (\<lambda>hk.
     bindM (liftR (vec_resize rates_length rates)) (\<lambda>rates.
     bindM (getM (\<lambda>m. sys_hex (sm_system (m_man m)))) (\<lambda>hex.
     bindM (queue_timepix TPX ([hex, 0x00] @ request_time @ flags @ hk @ rates)) (\<lambda>_.
       if length pcap = pcap_length then queue_timepix PCAP ([hex, 0x00] @ pcap) else ret ())))))))))"

definition manage_timepix :: "unit loop" where
  "manage_timepix =
     bindM (with_manager ''timepix'' sync_send_buffer_commands_to_system) (\<lambda>_.
     bindM read_clock (\<lambda>now.
     bindM (liftR (splat_to_nbytes 4 (now AND 0xffffffff))) (\<lambda>request_time.
     bindM (with_manager ''timepix'' (send_code 0x8a)) (\<lambda>flags.
     bindM (with_manager ''timepix'' (send_code 0x88)) (\<lambda>hk.
     bindM (with_manager ''timepix'' (send_code 0x81)) (\<lambda>rates.
     bindM (with_manager ''timepix'' (send_code 0xa5)) (\<lambda>pcap.
       if length flags + length hk + length rates = 0 then ret ()
       else
         bindM (with_manager ''timepix'' (timepix_packets request_time flags hk rates pcap)) (\<lambda>_.
         bindM (on_link sync_udp_send_all_downlink_buffer) (\<lambda>_. ret ())))))))))"

text \<open>The housekeeping board. Each of the three readouts gives the product of the sizes of its replies,
  which is 0 when one of them was empty.\<close>

definition queue_board :: "ring_type \<Rightarrow> bytes \<Rightarrow> unit io" where
  "queue_board t payload =
     bindM (getM (\<lambda>m. sm_system (m_man m))) (\<lambda>sys. queue_data False sys t payload)"

definition read_power :: "bytes \<Rightarrow> nat io" where
  "read_power reply_time =
     bindM (send_code 0xa0) (\<lambda>adc.
     bindM (if length adc > 0 then queue_board POW ([0x04, 0x00] @ reply_time @ adc) else ret ()) (\<lambda>_.
       ret (length adc)))"

definition read_sensor :: "u8 \<Rightarrow> bytes \<Rightarrow> bytes \<Rightarrow> u8 \<Rightarrow> unit io" where
  "read_sensor sensor reply_time temp_reply convert =
     (if length temp_reply > 0
      then bindM (queue_board RTD ([sensor, 0x00] @ reply_time @ temp_reply)) (\<lambda>_.
           bindM (send_code convert) (\<lambda>_. ret ()))
      else ret ())"

definition read_temperatures :: "bytes \<Rightarrow> nat io" where
  "read_temperatures reply_time =
     bindM (send_code 0x84) (\<lambda>temp1. bindM (send_code 0x85) (\<lambda>temp2.
     bindM (read_sensor 0x01 reply_time temp1 0x04) (\<lambda>_.
     bindM (read_sensor 0x02 reply_time temp2 0x05) (\<lambda>_.
       ret (length temp1 * length temp2)))))"

definition read_introspection :: "bytes \<Rightarrow> nat io" where
  "read_introspection reply_time =
     bindM (send_code 0x8e) (\<lambda>clock. bindM (send_code 0xf0) (\<lambda>state. bindM (send_code 0x8f) (\<lambda>err.
     bindM (if length clock * length state * length err \<noteq> 0
            then queue_board INTRO ([0x07, 0x00] @ reply_time @ clock @ state @ err) else ret ()) (\<lambda>_.
       ret (length clock * length state * length err)))))"

definition when_enabled :: "u8 \<Rightarrow> nat io \<Rightarrow> nat io" where
  "when_enabled flag p =
     bindM (getM (\<lambda>m. sm_enable (m_man m))) (\<lambda>enable. if enable AND flag \<noteq> 0 then p else ret 1)"

definition read_board :: "bytes \<Rightarrow> nat io" where
  "read_board reply_time =
     bindM (when_enabled 0x01 (read_power reply_time)) (\<lambda>a.
     bindM (when_enabled 0x02 (read_temperatures reply_time)) (\<lambda>b.
     bindM (when_enabled 0x04 (read_introspection reply_time)) (\<lambda>c. ret (a * b * c))))"

definition manage_housekeeping :: "unit loop" where
  "manage_housekeeping =
     bindM (copy_manager ''housekeeping'') (\<lambda>hk.
       if sm_system_state hk = SYS_DISCONNECT then ret ()
       else
         bindM (with_manager ''housekeeping'' sync_send_buffer_commands_to_system) (\<lambda>_.
         bindM (copy_manager ''housekeeping'') (\<lambda>hk.
         bindM (if sm_counter hk mod HOUSEKEEPING_LOOP_EVERY = 0
                then bindM read_clock (\<lambda>now.
                     bindM (liftR (splat_to_nbytes 4 (now AND 0xffffffff))) (\<lambda>reply_time.
                       with_manager ''housekeeping'' (read_board reply_time)))
                else ret 1) (\<lambda>zero_finder.
           if zero_finder = 0 then ret ()
           else
             bindM (with_manager ''housekeeping'' (on_man count_one)) (\<lambda>_.
             bindM (on_link sync_udp_send_all_downlink_buffer) (\<lambda>_. ret ()))))))"

section \<open>The loop\<close>

text \<open>The time to wait in a state of the current system; nothing calls it.\<close>

definition get_state_time :: "state_order \<Rightarrow> u32 \<Rightarrow> circle \<Rightarrow> u32 result" where
  "get_state_time current_state slowmo_gain c =
     bindR (vec_at (c_managers c) (c_current c)) (\<lambda>sm. bindR (option_deref (sm_timing sm)) (\<lambda>t. Inr
       (case current_state of
          IDLE \<Rightarrow> tm_idle_millis t * slowmo_gain
        | CMD_SEND \<Rightarrow> tm_command_millis t * slowmo_gain
        | DATA_RECV \<Rightarrow> tm_reply_millis t * slowmo_gain)))"

definition current_manager :: "system_manager loop" where
  "current_manager = bindM (getM (\<lambda>c. vec_at (c_managers c) (c_current c))) (\<lambda>found. liftR found)"

definition is_system :: "string \<Rightarrow> system \<Rightarrow> circle \<Rightarrow> bool" where
  "is_system name sys c \<longleftrightarrow> system_eq sys (get_sys_for_name name (m_deck (c_link c)))"

definition manage_systems :: "bool option \<Rightarrow> unit loop" where
  "manage_systems mem =
     bindM current_manager (\<lambda>_.
     bindM record_uplink (\<lambda>_.
     bindM flush (\<lambda>_.
     bindM send_global_health (\<lambda>_.
     bindM (copy_manager ''cdtede'') (\<lambda>cdtede.
     bindM (copy_manager ''cdte1'') (\<lambda>cdte1.
     bindM (copy_manager ''cdte5'') (\<lambda>cdte5.
     bindM (copy_manager ''cdte3'') (\<lambda>cdte3.
     bindM (copy_manager ''cdte4'') (\<lambda>cdte4.
     bindM (copy_manager ''cmos1'') (\<lambda>cmos1.
     bindM (copy_manager ''cmos2'') (\<lambda>cmos2.
     bindM current_manager (\<lambda>current.
     bindM (getM (\<lambda>c name. is_system name (sm_system current) c)) (\<lambda>current_is.
       if sm_system_state current = SYS_ABANDON then ret ()
       else if current_is ''cdte1'' then manage_cdte1 mem cdte1
       else if current_is ''cdte5'' then bindM (manage_canister ''cdte5'' False cdte5) (\<lambda>_. ret ())
       else if current_is ''cdte3'' then bindM (manage_canister ''cdte3'' False cdte3) (\<lambda>_. ret ())
       else if current_is ''cdte4'' then bindM (manage_canister ''cdte4'' True cdte4) (\<lambda>_. ret ())
       else if current_is ''cdtede'' then manage_cdtede cdtede
       else if current_is ''cmos1'' then manage_cmos ''cmos1'' cmos1
       else if current_is ''cmos2'' then manage_cmos ''cmos2'' cmos2
       else if current_is ''timepix'' then manage_timepix
       else if current_is ''housekeeping'' then manage_housekeeping
       else ret ())))))))))))))"

definition update_state :: "bool option \<Rightarrow> unit loop" where
  "update_state mem =
     bindM (manage_systems mem) (\<lambda>_.
       modifyM (\<lambda>c. c\<lparr>c_current := (c_current c + 1) mod length (c_managers c)\<rparr>))"

section \<open>Initialisation\<close>

definition init_housekeeping :: "unit loop" where
  "init_housekeeping = with_manager ''housekeeping'' (
     bindM (send_code 0x06) (\<lambda>_. bindM (send_code 0x07) (\<lambda>_.
     bindM (send_code 0x04) (\<lambda>_. bindM (send_code 0x05) (\<lambda>_.
     bindM (send_code 0x28) (\<lambda>_. set_state SYS_LOOP))))))"

definition init_timepix :: "unit loop" where
  "init_timepix =
     bindM (getM c_uart_open) (\<lambda>is_open.
       if \<not> is_open then with_manager ''timepix'' (set_state SYS_ABANDON)
       else with_manager ''timepix'' (bindM (send_code 0x80) (\<lambda>response.
              if length response > 0 then set_state SYS_LOOP else ret ())))"

fun init_canisters :: "bytes \<Rightarrow> nat \<Rightarrow> string list \<Rightarrow> unit loop" where
  "init_canisters can_status i [] = ret ()"
| "init_canisters can_status i (name # names) =
     bindM (getM (\<lambda>c. sys_name (get_sys_for_name name (m_deck (c_link c))))) (\<lambda>this_name.
     bindM (if length can_status < 4
            then with_manager ''cdtede'' (on_man (raise_error reading_invalid))
            else
              bindM (liftR (vec_at can_status i)) (\<lambda>status.
                if status \<noteq> 0x00 then with_manager this_name (set_state SYS_LOOP) else ret ())) (\<lambda>_.
       init_canisters can_status (i + 1) names))"

definition init_cdte :: "unit loop" where
  "init_cdte =
     bindM (with_manager ''cdtede'' (send_code 0x8a)) (\<lambda>reply.
     bindM (with_manager ''cdtede'' (set_state SYS_LOOP)) (\<lambda>_.
       init_canisters (get_reply_data reply) 0 [''cdte1'', ''cdte5'', ''cdte3'', ''cdte4'']))"

definition ask_linetime :: "unit io \<Rightarrow> unit io" where
  "ask_linetime missing =
     bindM (send_code 0xa0) (\<lambda>status.
       if length status < 4 then missing
       else if length (get_reply_data status) < 4 then on_man (raise_error reading_invalid)
       else ret ())"

definition init_cmos :: "unit loop" where
  "init_cmos =
     bindM (with_manager ''cmos1'' (set_state SYS_LOOP)) (\<lambda>_.
     bindM (with_manager ''cmos2'' (set_state SYS_LOOP)) (\<lambda>_.
     bindM (with_manager ''cmos1'' (ask_linetime (on_man (raise_error reading_packet)))) (\<lambda>_.
       with_manager ''cmos2'' (ask_linetime (ret ())))))"

definition init_systems :: "unit loop" where
  "init_systems =
     bindM init_housekeeping (\<lambda>_. bindM init_timepix (\<lambda>_. bindM init_cdte (\<lambda>_. init_cmos)))"

text \<open>The end of the constructor: the write pointers start at 0 and every detector reads its photon counting
  buffer first.\<close>

definition set_pointer :: "ring_type \<Rightarrow> unit io" where
  "set_pointer t = on_man (\<lambda>sm. sm\<lparr>sm_last_write_pointer := (sm_last_write_pointer sm)(t \<mapsto> 0)\<rparr>)"

fun each_manager :: "string list \<Rightarrow> unit io \<Rightarrow> unit loop" where
  "each_manager [] p = ret ()"
| "each_manager (name # names) p = bindM (with_manager name p) (\<lambda>_. each_manager names p)"

definition detectors :: "string list" where
  "detectors = [''cdte1'', ''cdte5'', ''cdte3'', ''cdte4'', ''cmos1'', ''cmos2'']"

definition Circle_start :: "unit loop" where
  "Circle_start =
     bindM (modifyM (\<lambda>c. c\<lparr>c_current := 0\<rparr>)) (\<lambda>_.
     bindM init_systems (\<lambda>_.
     bindM (each_manager detectors (set_pointer PC)) (\<lambda>_.
     bindM (each_manager [''cmos1'', ''cmos2''] (set_pointer QL)) (\<lambda>_.
       each_manager detectors (on_man (\<lambda>sm. sm\<lparr>sm_active_type := PC\<rparr>))))))"

end
