(* ===== verification/Framer_Progress.thy ===== *)
theory Framer_Progress
  imports Packet_Framer
begin

text \<open>
  Why the loop \<open>while (!check_frame_done())\<close> ends when the peer goes on answering: every packet that is pushed to an
  unfinished frame brings it nearer to its end, as long as something of the packet is left behind its headers and
  footers. A frame that its first packet has overshot can only fail.
\<close>

definition strip_room :: "nat \<Rightarrow> packet_framer \<Rightarrow> bool" where
  "strip_room n pf \<longleftrightarrow>
     pf_initial_strip_header_size pf + pf_static_strip_header_size pf +
       pf_initial_strip_footer_size pf + pf_static_strip_footer_size pf < n \<and>
     pf_static_strip_header_size pf + pf_subsequent_strip_header_size pf +
       pf_static_strip_footer_size pf + pf_subsequent_strip_footer_size pf < n"

text \<open>What holds of a framer that takes packets of \<open>n\<close> bytes.\<close>

definition framer_live :: "nat \<Rightarrow> packet_framer \<Rightarrow> bool" where
  "framer_live n pf \<longleftrightarrow> strip_room n pf \<and> pf_frame_size pf \<le> vec_max \<and> length (pf_frame pf) \<le> vec_max \<and>
     (pf_frame_done pf \<longrightarrow> length (pf_frame pf) = pf_frame_size pf)"

text \<open>How many packets it may still take.\<close>

definition frame_room :: "packet_framer \<Rightarrow> nat" where
  "frame_room pf = (if length (pf_frame pf) \<le> pf_frame_size pf then Suc (pf_frame_size pf - length (pf_frame pf)) else 0)"

lemma strip_packet_length:
  assumes "h1 + h2 + f1 + f2 \<le> length packet"
  shows "\<exists>rest. strip_packet h1 h2 f1 f2 packet = Inr rest \<and> length rest = length packet - (h1 + h2 + f1 + f2)"
  using assms by (simp add: strip_packet_def)

lemma stripped:
  assumes "strip_room (length p) pf"
  obtains first next_part where "strip_initial pf p = Inr first" and "first \<noteq> []" and "length first \<le> length p"
    and "strip_subsequent pf p = Inr next_part" and "next_part \<noteq> []"
    and "length next_part + subsequent_heads_and_feet pf = length p \<or> vec_max < length p"
proof -
  let ?i = "pf_initial_strip_header_size pf + pf_static_strip_header_size pf + pf_initial_strip_footer_size pf
    + pf_static_strip_footer_size pf"
  let ?s = "pf_static_strip_header_size pf + pf_subsequent_strip_header_size pf + pf_static_strip_footer_size pf
    + pf_subsequent_strip_footer_size pf"
  obtain a where a: "strip_initial pf p = Inr a" "length a = length p - ?i"
    using strip_packet_length [of _ _ _ _ p] assms unfolding strip_initial_def strip_room_def by (metis less_imp_le)
  obtain b where b: "strip_subsequent pf p = Inr b" "length b = length p - ?s"
    using strip_packet_length [of _ _ _ _ p] assms unfolding strip_subsequent_def strip_room_def by (metis less_imp_le)
  have heads: "subsequent_heads_and_feet pf = ?s" if "length p \<le> vec_max"
    using assms that by (simp add: subsequent_heads_and_feet_def strip_room_def vec_max_def)
  show thesis
    by (rule that [OF a(1) _ _ b(1)]) (use a b heads assms in \<open>auto simp: strip_room_def not_le\<close>)
qed

lemma push_live:
  assumes "framer_live (length p) pf" and "length p \<le> vec_max" and "push_to_frame p pf = Inr pf'"
  shows "framer_live (length p) pf'" and "\<not> check_frame_done pf \<Longrightarrow> frame_room pf' < frame_room pf"
proof -
  let ?l = "length (pf_frame pf)" and ?size = "pf_frame_size pf"
  from assms(1) have room: "strip_room (length p) pf" by (simp add: framer_live_def)
  from stripped [OF room] assms(2) obtain a b where a: "strip_initial pf p = Inr a" "a \<noteq> []" "length a \<le> length p"
    and b: "strip_subsequent pf p = Inr b" "b \<noteq> []" "length b + subsequent_heads_and_feet pf = length p" by (metis not_le)
  have live: "?size \<le> vec_max" "?l \<le> vec_max" "pf_frame_done pf \<Longrightarrow> ?l = ?size"
    using assms(1) by (simp_all add: framer_live_def)
  have new_size: "sz_sub (sz_add ?l (length p)) (subsequent_heads_and_feet pf) = ?l + length b"
  proof -
    have "sz_add ?l (length p) = ?l + length p" using assms(2) live(2) by (intro sz_add_small) (simp add: vec_max_def)
    then show ?thesis using b(3) by simp
  qed
  have over: "vec_resize (sz_sub ?size ?l) b = Inl Length_Error" if "?size < ?l"
    using that live(1,2) by (simp add: vec_resize_def sz_sub_def vec_max_def)
  have push: "push_to_frame p pf = (if pf_frame_done pf \<or> ?l = ?size then Inr pf
      else if 0 < ?l then
        (if ?l + length b > ?size then bindR (vec_resize (sz_sub ?size ?l) b) (\<lambda>packet. Inr (pf_append packet True pf))
         else if ?l + length b = ?size then Inr (pf_append b True pf)
         else Inr (pf_append b (pf_frame_done pf) pf))
      else Inr (pf_append a (pf_frame_done pf) pf))"
    by (simp only: push_to_frame_def Let_def new_size a(1) b(1) bindR_Inr)
  show "framer_live (length p) pf'"
  proof (cases "?size < ?l")
    case True
    then show ?thesis using push over assms(3) live(3) by (auto split: if_splits)
  next
    case False
    then show ?thesis
      using push assms a(3) live
      by (auto simp: framer_live_def strip_room_def pf_append_def not_less split: if_splits)
  qed
  show "frame_room pf' < frame_room pf" if "\<not> check_frame_done pf"
  proof (cases "?size < ?l")
    case True
    then show ?thesis using push over assms(3) live(3) by (auto split: if_splits)
  next
    case False
    moreover from that have "?l \<noteq> ?size" by (simp add: check_frame_done_def split: if_splits)
    ultimately have less: "?l < ?size" "\<not> pf_frame_done pf" using live(3) by auto
    obtain j k where "length a = Suc j" "length b = Suc k" using a(2) b(2) by (cases a; cases b) simp_all
    with less show ?thesis
      using push assms(3) live(1)
      by (auto simp: frame_room_def pf_append_def split: if_splits)
  qed
qed

lemma clear_live: "framer_live n pf \<Longrightarrow> framer_live n (pf_clear_frame pf)"
  by (simp add: framer_live_def strip_room_def pf_clear_frame_def)

lemma framer_finish_live:
  assumes "framer_finish system_if frame_size sys t = Inr pf"
  shows "framer_live n pf \<longleftrightarrow> strip_room n pf"
  using assms by (auto simp: framer_finish_def framer_of_link_def framer_live_def Let_def split: if_splits)

lemma PacketFramer_live: "PacketFramer sys t = Inr pf \<Longrightarrow> framer_live n pf \<longleftrightarrow> strip_room n pf"
  by (auto simp: PacketFramer_def bindR_eq_Inr framer_finish_live split: command_type.splits)

end
