(* ===== verification/Main_Loop.thy ===== *)
theory Main_Loop
  imports Circle Runs Framer_Progress
begin

text \<open>
  What holds of every turn of the main loop, whatever the peers send or withhold: the turn returns, the
  roster of systems, the deck and the set of uplink queues stay as they are, and the downlink queue only
  ever holds elements that can be sent.
\<close>

lemma runs_keeps:
  assumes "keeps f p" and "keeps g p" and "\<And>m m'. f m' = f m \<Longrightarrow> g m' = g m \<Longrightarrow> P m \<Longrightarrow> P m'"
  shows "runs b P p"
  unfolding runs_def
proof (intro allI impI)
  fix m assume m: "P m"
  obtain r m' where p: "p m = Some (r, m')" "f m' = f m" using keepsD [OF assms(1), of m] by blast
  with assms(3) m keeps_same [OF assms(2) p(1)] show "case p m of None \<Rightarrow> \<not> b | Some (r, m') \<Rightarrow> P m'" by simp
qed

section \<open>The invariant of the machine\<close>

text \<open>An element that can be sent: it has a source system, and its payload was checked to fit.\<close>

definition sendable :: "dbe \<Rightarrow> bool" where
  "sendable d \<longleftrightarrow> dbe_system d \<noteq> None \<and> 8 \<le> dbe_max_packet_size d \<and>
     sz_add (length (dbe_payload d)) 8 \<le> dbe_max_packet_size d"

text \<open>A manager that cannot hang the loop: every packetizer leaves room for a payload, and of the replies that make
  up a frame something is left behind the headers and footers.\<close>

definition manager_ok :: "system_manager \<Rightarrow> bool" where
  "manager_ok sm \<longleftrightarrow> (\<forall>t fp. sm_frame_packetizer sm t = Some fp \<longrightarrow> fp_wf fp) \<and>
     (\<forall>spw e t pf. sys_spacewire (sm_system sm) = Some spw \<longrightarrow> sys_ethernet (sm_system sm) = Some e \<longrightarrow>
        sm_packet_framer sm t = Some pf \<longrightarrow> framer_live (expected_packet_size spw e) pf)"

type_synonym wiring = "command_deck \<times> system list"

definition net_ok :: "wiring \<Rightarrow> machine \<Rightarrow> bool" where
  "net_ok x m \<longleftrightarrow> (m_deck m, map fst (m_uplink m)) = x \<and> list_all sendable (m_downlink m)"

definition link_ok :: "bool \<Rightarrow> wiring \<Rightarrow> system \<Rightarrow> machine \<Rightarrow> bool" where
  "link_ok b x s m \<longleftrightarrow> net_ok x m \<and> sm_system (m_man m) = s \<and> (b \<longrightarrow> manager_ok (m_man m))"

lemma sendable_packet:
  assumes "sendable d"
  shows "\<exists>s packet. dbe_system d = Some s \<and> dbe_get_packet d = Inr packet \<and> length packet \<le> dbe_max_packet_size d"
  using assms
  by (auto simp: sendable_def dbe_get_packet_def dbe_get_header_def Let_def)

lemma keys_put [simp]: "map fst (uplink_put sys q qs) = map fst qs"
  by (induction sys q qs rule: uplink_put.induct) auto

lemma manager_ok_core: "man_core a = man_core b \<Longrightarrow> manager_ok a \<longleftrightarrow> manager_ok b"
  by (cases a; cases b) (simp add: man_core_def manager_ok_def)

lemma link_ok_kept: "buffers_of m' = buffers_of m \<Longrightarrow> queues_of m' = queues_of m \<Longrightarrow> link_ok b x s m \<Longrightarrow> link_ok b x s m'"
  using manager_ok_core [of "m_man m'" "m_man m"] man_coreD(1) [of "m_man m'" "m_man m"]
  by (auto simp: link_ok_def net_ok_def buffers_of_def queues_of_def)

lemma runs_link: "keeps buffers_of p \<Longrightarrow> keeps queues_of p \<Longrightarrow> runs b (link_ok b' x s) p"
  by (rule runs_keeps [where f = buffers_of and g = queues_of]) (auto intro: link_ok_kept)

lemma net_ok_kept: "queues_of m' = queues_of m \<Longrightarrow> net_ok x m \<Longrightarrow> net_ok x m'"
  by (auto simp: net_ok_def queues_of_def)

section \<open>The operations of the transport layer\<close>

lemma runs_lift: "(\<And>x. r = Inr x \<Longrightarrow> runs b P (q x)) \<Longrightarrow> runs b P (bindM (liftR r) q)"
  by (cases r) (simp_all add: runs_def)

lemma sendable_made: "DownlinkBufferElement s g t = Inr d \<Longrightarrow> sendable d"
  by (auto simp: DownlinkBufferElement_def sendable_def bindR_eq_Inr Let_def vec_max_def sz_sub_def split: if_splits)

lemma sendable_set:
  "sendable d \<Longrightarrow> sendable (dbe_set_packets_per_frame n d)"
  "sendable d \<Longrightarrow> sendable (dbe_set_type t d)" "sendable d \<Longrightarrow> sendable (dbe_set_frame_counter n d)"
  "dbe_set_this_packet_index i d = Inr d' \<Longrightarrow> sendable d \<Longrightarrow> sendable d'"
  "dbe_set_payload bs d = Inr d' \<Longrightarrow> sendable d \<Longrightarrow> sendable d'"
  by (auto simp: sendable_def dbe_set_packets_per_frame_def dbe_set_type_def dbe_set_frame_counter_def
      dbe_set_this_packet_index_def dbe_set_payload_def check_payload_fits_def bindR_eq_Inr split: if_splits)

lemma sendable_copy: "sendable d \<Longrightarrow> dbe_copy d = Inr d' \<Longrightarrow> sendable d'"
  by (auto simp: dbe_copy_def Let_def bindR_eq_Inr dbe_set_this_packet_index_def dbe_set_payload_def
      check_payload_fits_def dbe_set_frame_counter_def sendable_def split: if_splits)

lemma sendable_filled:
  assumes "DownlinkBufferElement s g t = Inr d"
    and "(if single then dbe_set_this_packet_index 1 (dbe_set_packets_per_frame 1 d) else Inr d) = Inr d1"
    and "dbe_set_payload payload d1 = Inr d2"
  shows "sendable d2"
  using assms(2) sendable_set(5) [OF assms(3)] sendable_made [OF assms(1)] sendable_set(1,4)
  by (cases single) auto

definition takes_elements :: "(machine \<Rightarrow> bool) \<Rightarrow> bool" where
  "takes_elements P \<longleftrightarrow> (\<forall>m d. P m \<longrightarrow> sendable d \<longrightarrow> P (m\<lparr>m_downlink := m_downlink m @ [d]\<rparr>))"

lemma takes_elements [simp]: "takes_elements (net_ok x)" "takes_elements (link_ok b x s)"
  by (auto simp: takes_elements_def net_ok_def link_ok_def)

lemma runs_enqueue: "takes_elements P \<Longrightarrow> sendable d \<Longrightarrow> runs b P (enqueue_downlink d)"
  unfolding enqueue_downlink_def
  by (intro runs_lift runs_modify) (auto simp: takes_elements_def intro: sendable_copy)

lemma runs_queue_data [runs_intros]: "takes_elements P \<Longrightarrow> runs b P (queue_data single sys t payload)"
  unfolding queue_data_def
  by (intro runs_read runs_lift runs_enqueue sendable_filled)

lemma runs_queue_reply [runs_intros]: "takes_elements P \<Longrightarrow> runs b P (queue_reply reply)"
  unfolding queue_reply_def
  by (intro runs_read runs_lift runs_enqueue sendable_filled [where single = True]) simp_all

lemma runs_send_command [runs_intros]: "runs b (link_ok b' x s) (sync_send_command_to_system cmd)"
  by (intro runs_link keeps_intros)

lemma runs_flags [runs_intros]:
  "runs b (link_ok b' x s) (on_man (raise_error e))" "runs b (link_ok b' x s) (on_man (drop_error e))"
  by (rule runs_link [OF keeps_flags(1,3)]) (rule runs_link [OF keeps_flags(2,3)])

lemma runs_send [runs_intros]: "runs b (link_ok b' x s) (send p packet)"
  by (intro runs_link keeps_intros)

lemma runs_set_queue [runs_intros]:
  "runs b (link_ok b' x s) (modifyM (set_queue sys q))"
  by (intro runs_modify) (auto simp: link_ok_def net_ok_def set_queue_def)

lemma runs_forward [runs_intros]: "runs b (link_ok b' x s) (sync_send_buffer_commands_to_system)"
  unfolding sync_send_buffer_commands_to_system_def forward_command_def
  by (intro runs_intros takes_elements)

lemma runs_man: "(\<And>sm. sm_system (f sm) = sm_system sm) \<Longrightarrow> (\<And>sm. sm_frame_packetizer (f sm) = sm_frame_packetizer sm) \<Longrightarrow>
   (\<And>sm. sm_packet_framer (f sm) = sm_packet_framer sm) \<Longrightarrow> runs b (link_ok b' x s) (on_man f)"
  unfolding on_man_def by (intro runs_modify) (auto simp: link_ok_def net_ok_def manager_ok_def)

lemma runs_receive_loop: "runs b (link_ok b' x s) (uart_receive_loop k reply)"
proof (induction k arbitrary: reply)
  case (Suc k)
  have c: "runs b (link_ok b' x s) (on_man count_one)" by (intro runs_man) (simp_all add: count_one_def)
  have r: "runs b (link_ok b' x s) (read_uart reply)" for reply by (intro runs_link keeps_intros)
  show ?case
    unfolding uart_receive_loop.simps store_uplink_def by (intro runs_intros c r Suc)
qed (simp add: runs_intros)

lemma runs_receive [runs_intros]: "runs b (link_ok b' x s) sync_uart_receive_to_uplink_buffer"
  unfolding sync_uart_receive_to_uplink_buffer_def by (rule runs_receive_loop)

text \<open>The downlink loop only takes elements off.\<close>

lemma runs_net_send: "runs b (net_ok x) (send p packet)"
  by (rule runs_keeps [where f = queues_of and g = queues_of]) (auto intro: keeps_intros net_ok_kept)

lemma runs_downlink_loop: "list_all sendable queue \<Longrightarrow> runs b (net_ok x) (downlink_loop queue d)"
proof (induction queue arbitrary: d)
  case Nil
  show ?case unfolding downlink_loop.simps by (intro runs_intros runs_net_send)
next
  case (Cons d2 queue)
  have "runs b (net_ok x) (set_downlink queue)"
    using Cons.prems unfolding set_downlink_def by (intro runs_modify) (auto simp: net_ok_def)
  with Cons show ?case unfolding downlink_loop.simps by (intro runs_intros runs_net_send) simp_all
qed

lemma runs_send_all [runs_intros]: "runs b (net_ok x) sync_udp_send_all_downlink_buffer"
  unfolding sync_udp_send_all_downlink_buffer_def
proof (intro runs_read runs_lift)
  fix m' e dbel m
  assume "net_ok x m"
  then have q: "list_all sendable (m_downlink m)" by (simp add: net_ok_def)
  show "runs b (net_ok x) (case m_downlink m of [] \<Rightarrow> ret False
      | d # queue \<Rightarrow> bindM (set_downlink queue) (\<lambda>_. downlink_loop queue (dbe_assign dbel d)))"
  proof (cases "m_downlink m")
    case (Cons d queue)
    with q have "runs b (net_ok x) (set_downlink queue)" "list_all sendable queue"
      unfolding set_downlink_def by (auto intro!: runs_modify simp: net_ok_def)
    with Cons show ?thesis by (auto intro!: runs_bind runs_downlink_loop)
  qed (simp add: runs_intros)
qed

section \<open>The packet loop ends\<close>

text \<open>A packet that is pushed has the size expected and comes from the peer; the framer stays live and has less room.\<close>

lemma option_deref_Inr: "option_deref x = Inr y \<longleftrightarrow> x = Some y"
  by (cases x) simp_all

lemma runs_set_framer:
  assumes "\<And>m spw e. link_ok True x s m \<Longrightarrow> b' \<Longrightarrow> sys_spacewire s = Some spw \<Longrightarrow> sys_ethernet s = Some e \<Longrightarrow>
      framer_live (expected_packet_size spw e) pf"
  shows "runs b (link_ok b' x s) (on_man (set_framer t pf))"
  unfolding on_man_def
  by (intro runs_modify) (use assms in \<open>auto simp: link_ok_def net_ok_def manager_ok_def set_framer_def\<close>)

lemma runs_clear_framer [runs_intros]: "runs b (link_ok b' x s) (clear_framer t)"
  unfolding clear_framer_def
proof (intro runs_read runs_lift)
  fix m pf assume m: "link_ok b' x s m" and pf: "option_deref (sm_packet_framer (m_man m) t) = Inr pf"
  show "runs b (link_ok b' x s) (on_man (set_framer t (pf_clear_frame pf)))"
    by (rule runs_set_framer) (use m pf clear_live in \<open>auto simp: link_ok_def manager_ok_def option_deref_Inr\<close>)
qed

lemma push_reply_cases:
  obtains (fault) e where "push_reply t reply m = Some (Inl e, m)"
  | (pushed) pf pf' where "sm_packet_framer (m_man m) t = Some pf" and "push_to_frame reply pf = Inr pf'"
      and "push_reply t reply m = Some (Inr (), m\<lparr>m_man := set_framer t pf' (m_man m)\<rparr>)"
proof (cases "sm_packet_framer (m_man m) t")
  case None
  then show ?thesis using that(1) by (simp add: push_reply_def)
next
  case (Some pf)
  then show ?thesis using that by (cases "push_to_frame reply pf") (simp_all add: push_reply_def)
qed

lemma link_ok_live: "link_ok True x s m \<Longrightarrow> sys_spacewire s = Some spw \<Longrightarrow> sys_ethernet s = Some e \<Longrightarrow>
    sm_packet_framer (m_man m) t = Some pf \<Longrightarrow> framer_live (expected_packet_size spw e) pf"
  by (auto simp: link_ok_def manager_ok_def)

lemma runs_push_reply:
  assumes "\<And>spw e. sys_spacewire s = Some spw \<Longrightarrow> sys_ethernet s = Some e \<Longrightarrow>
      length reply = expected_packet_size spw e \<and> length reply \<le> vec_max"
  shows "runs b (link_ok b' x s) (push_reply t reply)"
  unfolding runs_def
proof (intro allI impI)
  fix m assume m: "link_ok b' x s m"
  show "case push_reply t reply m of None \<Rightarrow> \<not> b | Some (r, m') \<Rightarrow> link_ok b' x s m'"
  proof (cases rule: push_reply_cases [of t reply m])
    case (pushed pf pf')
    have "framer_live (expected_packet_size spw e) pf'" if "b'" "sys_spacewire s = Some spw" "sys_ethernet s = Some e" for spw e
      using push_live(1) [of reply pf pf'] link_ok_live [of x s m spw e t pf] assms [OF that(2,3)] m that pushed(1,2) by simp
    with m pushed(3) show ?thesis
      by (auto simp: link_ok_def net_ok_def manager_ok_def set_framer_def)
  qed (use m in simp)
qed

lemma read_reply_length:
  assumes "read_reply read_tcp n [] m = Some (Inr reply, m')"
  shows "length reply \<le> vec_max"
  using assms by (auto simp: read_reply_def bindM_eq_Some_Inr vec_resize_def split: if_splits)

lemma runs_read_packet:
  assumes "sys_spacewire s = Some spw"
  shows "runs b (link_ok b' x s) (read_packet t spw width start c)"
proof -
  have r: "runs c (link_ok b' x s) (read_reply read_tcp n bs)" for c n bs by (intro runs_link keeps_intros)
  have reply: "runs b (link_ok b' x s) (bindM (read_reply read_tcp (expected_packet_size spw e) []) (\<lambda>reply.
      if length reply \<noteq> expected_packet_size spw e
      then bindM (on_man (raise_error reading_packet)) (\<lambda>_. ret False)
      else bindM (push_reply t reply) (\<lambda>_. ret True)))"
    if e: "sys_ethernet s = Some e" for e
    unfolding runs_def
  proof (intro allI impI)
    fix m assume "link_ok b' x s m"
    from runs_returns [OF r [where c = True] this] obtain u m1 where
      u: "read_reply read_tcp (expected_packet_size spw e) [] m = Some (u, m1)" "link_ok b' x s m1" by blast
    show "case bindM (read_reply read_tcp (expected_packet_size spw e) []) (\<lambda>reply.
        if length reply \<noteq> expected_packet_size spw e
        then bindM (on_man (raise_error reading_packet)) (\<lambda>_. ret False)
        else bindM (push_reply t reply) (\<lambda>_. ret True)) m of None \<Rightarrow> \<not> b | Some (r, m') \<Rightarrow> link_ok b' x s m'"
    proof (cases u)
      case (Inr reply)
      have "runs b (link_ok b' x s) (if length reply \<noteq> expected_packet_size spw e
          then bindM (on_man (raise_error reading_packet)) (\<lambda>_. ret False)
          else bindM (push_reply t reply) (\<lambda>_. ret True))"
        using read_reply_length [OF u(1) [unfolded Inr]] assms e by (intro runs_intros runs_push_reply) simp_all
      with u Inr show ?thesis by (simp add: bindM_steps(1) runs_def)
    qed (use u in \<open>simp add: bindM_steps(2)\<close>)
  qed
  have rest: "runs b (link_ok b' x s) (bindM (liftR (option_deref (sys_ethernet (sm_system (m_man m))))) (\<lambda>e.
      bindM (liftR (get_read_command_for_sys_at_address (m_deck m) (sys_hex (sm_system (m_man m))) address (dl_max_payload_size e)))
        (\<lambda>buffer_read_command.
      bindM (send Tcp buffer_read_command) (\<lambda>_. bindM (read_reply read_tcp (expected_packet_size spw e) []) (\<lambda>reply.
        if length reply \<noteq> expected_packet_size spw e
        then bindM (on_man (raise_error reading_packet)) (\<lambda>_. ret False)
        else bindM (push_reply t reply) (\<lambda>_. ret True))))))" if "link_ok b' x s m" for m address
    by (intro runs_lift runs_bind runs_send reply runs_basic) (use that in \<open>simp add: link_ok_def option_deref_Inr\<close>)
  show ?thesis
    unfolding read_packet_def Let_def
    by (intro runs_lift runs_read, unfold prod.case) (rule rest)
qed

lemma frame_done_same: "\<exists>r. frame_done t m = Some (r, m)"
  by (cases "sm_packet_framer (m_man m) t") (simp_all add: frame_done_def)

lemma read_frame_unfold:
  "read_frame t spw width start c m = (case frame_done t m of
     Some (Inr False, _) \<Rightarrow>
       (case read_packet t spw width start c m of
          Some (Inr True, m') \<Rightarrow> read_frame t spw width start (sz_add c 1) m'
        | r \<Rightarrow> map_option (map_prod (map_sum id (\<lambda>_. False)) id) r)
   | r \<Rightarrow> map_option (map_prod (map_sum id (\<lambda>_. True)) id) r)"
  using frame_done_same [of t m]
  by (subst read_frame.simps) (auto simp: bindM_def split: option.split sum.split prod.split bool.split)

lemma keeps_framers:
  "buffers_of m' = buffers_of m \<Longrightarrow> sm_packet_framer (m_man m') = sm_packet_framer (m_man m)"
  by (cases "m_man m"; cases "m_man m'") (simp add: buffers_of_def man_core_def)

text \<open>A packet that was pushed leaves less room.\<close>

lemma read_packet_pushes:
  assumes "read_packet t spw width start c m = Some (Inr True, m')"
  obtains e reply pf pf' where "sys_ethernet (sm_system (m_man m)) = Some e" and "length reply = expected_packet_size spw e"
    and "length reply \<le> vec_max" and "sm_packet_framer (m_man m) t = Some pf" and "push_to_frame reply pf = Inr pf'"
    and "sm_packet_framer (m_man m') t = Some pf'"
proof -
  from assms obtain e command m1 m2 reply where e: "sys_ethernet (sm_system (m_man m)) = Some e"
    and m1: "send Tcp command m = Some (Inr (), m1)"
    and m2: "read_reply read_tcp (expected_packet_size spw e) [] m1 = Some (Inr reply, m2)"
    and reply: "length reply = expected_packet_size spw e" and m': "push_reply t reply m2 = Some (Inr (), m')"
    by (auto simp: read_packet_def Let_def bindM_eq_Some_Inr option_deref_Inr split: if_splits)
  have "keeps buffers_of (read_reply read_tcp (expected_packet_size spw e) [])" by (intro keeps_intros)
  from keeps_same [OF this m2] keeps_same [OF keeps_send(1) m1]
  have same: "sm_packet_framer (m_man m2) = sm_packet_framer (m_man m)" by (intro keeps_framers) simp
  show thesis
  proof (cases rule: push_reply_cases [of t reply m2])
    case (pushed pf pf')
    then show thesis using that [OF e reply read_reply_length [OF m2], of pf pf'] m' same by simp
  qed (use m' in simp)
qed

definition room_left :: "ring_type \<Rightarrow> machine \<Rightarrow> nat" where
  "room_left t m = (case sm_packet_framer (m_man m) t of None \<Rightarrow> 0 | Some pf \<Rightarrow> frame_room pf)"

text \<open>The loop ends whatever the peer sends: each round that goes on leaves less room in the frame.\<close>

lemma read_frame_ends:
  assumes "sys_spacewire s = Some spw"
  shows "runs True (link_ok True x s) (read_frame t spw width start c)"
proof -
  have "link_ok True x s m \<Longrightarrow> \<exists>r m'. read_frame t spw width start c m = Some (r, m') \<and> link_ok True x s m'" for m
  proof (induction "room_left t m" arbitrary: m c rule: less_induct)
    case less
    from less.prems have s: "sm_system (m_man m) = s" by (simp add: link_ok_def)
    obtain d where d: "frame_done t m = Some (d, m)" using frame_done_same by blast
    obtain r m1 where p: "read_packet t spw width start c m = Some (r, m1)" "link_ok True x s m1"
      using runs_returns [OF runs_read_packet [OF assms] less.prems] by blast
    show ?case
    proof (cases "d = Inr False \<and> r = Inr True")
      case True
      with p(1) read_packet_pushes obtain e reply pf pf' where
        e: "sys_ethernet s = Some e" and reply: "length reply = expected_packet_size spw e" "length reply \<le> vec_max"
        and pf: "sm_packet_framer (m_man m) t = Some pf" "push_to_frame reply pf = Inr pf'" "sm_packet_framer (m_man m1) t = Some pf'"
        unfolding s [symmetric] by metis
      have "\<not> check_frame_done pf" using d True pf(1) by (simp add: frame_done_def)
      with push_live(2) [of reply pf pf'] link_ok_live [OF less.prems assms e pf(1)] reply pf
      have "room_left t m1 < room_left t m" by (simp add: room_left_def)
      from less.hyps [OF this p(2), of "sz_add c 1"] True d p show ?thesis by (simp add: read_frame_unfold [of t spw width start c])
    next
      case False
      with d p less.prems show ?thesis
        by (cases d; cases r) (auto simp: read_frame_unfold [of t spw width start c] split: bool.split)
    qed
  qed
  then show ?thesis by (fastforce simp: runs_def)
qed

lemma runs_read_frame:
  assumes "sys_spacewire s = Some spw"
  shows "runs b (link_ok b x s) (read_frame t spw width start c)"
proof (cases b)
  case True
  with read_frame_ends [OF assms] show ?thesis by simp
next
  case False
  have "sys_spacewire s = Some spw \<longrightarrow> link_ok b x s m \<longrightarrow> link_ok b x s (snd p)"
    if "read_frame t spw width start c m = Some p" for t spw width start c m p
    using _ that
  proof (rule read_frame.raw_induct [where P = "\<lambda>t spw width start c m p. sys_spacewire s = Some spw \<longrightarrow>
      link_ok b x s m \<longrightarrow> link_ok b x s (snd p)"])
    fix loop t spw width start c m p
    assume IH: "\<And>t spw width start c m p. loop t spw width start c m = Some p \<Longrightarrow>
        sys_spacewire s = Some spw \<longrightarrow> link_ok b x s m \<longrightarrow> link_ok b x s (snd p)"
      and body: "bindM (frame_done t) (\<lambda>finished. if finished then ret True
          else bindM (read_packet t spw width start c) (\<lambda>pushed.
            if pushed then loop t spw width start (sz_add c 1) else ret False)) m = Some p"
    show "sys_spacewire s = Some spw \<longrightarrow> link_ok b x s m \<longrightarrow> link_ok b x s (snd p)"
    proof
      assume spw: "sys_spacewire s = Some spw"
      have "runs False (link_ok b x s) (loop t spw width start k)" for k
        using IH spw by (fastforce simp: runs_def split: option.split)
      then have "runs False (link_ok b x s) (bindM (frame_done t) (\<lambda>finished. if finished then ret True
            else bindM (read_packet t spw width start c) (\<lambda>pushed.
              if pushed then loop t spw width start (sz_add c 1) else ret False)))"
        unfolding frame_done_def by (intro runs_intros runs_read_packet [OF spw])
      with body show "link_ok b x s m \<longrightarrow> link_ok b x s (snd p)"
        by (cases p) (auto dest: runsD)
    qed
  qed
  with assms False show ?thesis by (auto simp: runs_def split: option.split)
qed

section \<open>The remote buffer transaction\<close>

lemma pop_sendable:
  assumes "pop_counted n fp = Inr (d, fp')"
  shows "sendable d"
proof -
  obtain payload fp1 where pop: "pop_payload fp = (payload, fp1)" by (cases "pop_payload fp")
  from assms obtain d0 d1 d2 where d: "DownlinkBufferElement_sized (Some (fp_system fp)) (fp_max_packet_size fp) = Inr d0"
    "dbe_set_this_packet_index (word_of_nat (sz_sub (fp_packets_per_frame fp1) (fp_packets_remaining_in_frame fp1)))
       (dbe_set_packets_per_frame (word_of_nat (fp_packets_per_frame fp)) d0) = Inr d1"
    "dbe_set_payload payload d1 = Inr d2" "d = dbe_set_frame_counter n (dbe_set_type (fp_type fp1) d2)"
    by (auto simp: pop_counted_def pop_buffer_element_def bindR_eq_Inr Let_def pop)
  have "sendable d0" using d(1) by (auto simp: DownlinkBufferElement_sized_def sendable_def split: if_splits)
  then show ?thesis
    using sendable_set(5) [OF d(3) sendable_set(4) [OF d(2)]] sendable_set(1-3) d(4) by simp
qed

lemma runs_queue_frame:
  assumes "b \<Longrightarrow> fp_wf fp"
  shows "runs b (link_ok b x s) (\<lambda>m. case queue_frame n fp (m_downlink m) of
      None \<Rightarrow> None
    | Some (Inl e) \<Rightarrow> Some (Inl e, m)
    | Some (Inr (fp, queue)) \<Rightarrow> Some (Inr (), m\<lparr>m_downlink := queue, m_man := set_packetizer t fp (m_man m)\<rparr>))"
  unfolding runs_def
proof (intro allI impI)
  fix m assume m: "link_ok b x s m"
  then have q: "list_all sendable (m_downlink m)" by (simp add: link_ok_def net_ok_def)
  have sent: "list_all sendable q" if "queue_frame n fp (m_downlink m) = Some (Inr (fp', q))" for fp' q
    using drain_elements [OF that [unfolded queue_frame_def] _ q] pop_sendable by blast
  have total: "\<exists>fp' q. queue_frame n fp (m_downlink m) = Some (Inr (fp', q)) \<and> fp_wf fp'" if b
    using packetizer.drain_total [OF assms [OF that], of n "m_downlink m"] unfolding queue_frame_def by blast
  show "case (case queue_frame n fp (m_downlink m) of None \<Rightarrow> None | Some (Inl e) \<Rightarrow> Some (Inl e, m)
      | Some (Inr (fp, queue)) \<Rightarrow> Some (Inr (), m\<lparr>m_downlink := queue, m_man := set_packetizer t fp (m_man m)\<rparr>))
      of None \<Rightarrow> \<not> b | Some (r, m') \<Rightarrow> link_ok b x s m'"
    using m total sent
    by (auto simp: link_ok_def net_ok_def manager_ok_def set_packetizer_def split: option.split sum.split)
qed

lemma get_frame_count_fields [simp]:
  "sm_system (snd (get_frame_count t sm)) = sm_system sm"
  "sm_frame_packetizer (snd (get_frame_count t sm)) = sm_frame_packetizer sm"
  "sm_packet_framer (snd (get_frame_count t sm)) = sm_packet_framer sm"
  by (simp_all add: get_frame_count_def split: option.split)

lemma runs_queue_elements [runs_intros]: "runs b (link_ok b x s) (queue_elements t)"
  unfolding queue_elements_def
proof (rule runs_read)
  fix m assume m: "link_ok b x s m"
  have count: "runs b (link_ok b x s) (on_man (\<lambda>sm. snd (get_frame_count t sm)))" by (intro runs_man) simp_all
  have wf: "fp_wf (fp_set_frame f fp)" if b "option_deref (sm_frame_packetizer (m_man m) t) = Inr fp" for f fp
    using m that by (auto simp: link_ok_def manager_ok_def option_deref_Inr fp_wf_def fp_set_frame_def)
  show "runs b (link_ok b x s) (case (sm_frame_packetizer (m_man m) t, sm_packet_framer (m_man m) t) of
      (fp_pointer, pf_pointer) \<Rightarrow> bindM (liftR (option_deref fp_pointer)) (\<lambda>fp.
      bindM (liftR (option_deref pf_pointer)) (\<lambda>pf. let fp = fp_set_frame (pf_frame pf) fp in
        bindM (getM (\<lambda>m. fst (get_frame_count t (m_man m)))) (\<lambda>count.
        bindM (if frame_emptied fp then ret () else on_man (\<lambda>sm. snd (get_frame_count t sm))) (\<lambda>_. \<lambda>m.
          case queue_frame count fp (m_downlink m) of None \<Rightarrow> None | Some (Inl e) \<Rightarrow> Some (Inl e, m)
          | Some (Inr (fp, queue)) \<Rightarrow>
              Some (Inr (), m\<lparr>m_downlink := queue, m_man := set_packetizer t fp (m_man m)\<rparr>))))))"
    unfolding prod.case Let_def
    by (intro runs_lift runs_bind runs_if runs_basic count runs_queue_frame wf)
qed

lemma runs_finish_frame [runs_intros]:
  "runs b (link_ok b' x s) (on_man (increment_frame_count t))" "runs b (link_ok b' x s) (on_man clear_read_errors)"
  "runs b (link_ok b' x s) (find_buffers t)"
proof -
  show "runs b (link_ok b' x s) (on_man (increment_frame_count t))"
    by (intro runs_man) (simp_all add: increment_frame_count_def split: option.split)
  show "runs b (link_ok b' x s) (on_man clear_read_errors)"
    by (intro runs_man) (simp_all add: clear_read_errors_def)
  have "runs b (link_ok b' x s) (on_man (\<lambda>sm. snd (get_frame_packetizer t sm)))"
    "runs b (link_ok b' x s) (on_man (\<lambda>sm. snd (get_packet_framer t sm)))"
    by (intro runs_man; simp add: get_frame_packetizer_def get_packet_framer_def split: option.split)+
  then show "runs b (link_ok b' x s) (find_buffers t)"
    unfolding find_buffers_def by (intro runs_intros)
qed

lemma runs_read_write_pointer [runs_intros]: "runs b (link_ok b' x s) (read_write_pointer ring)"
proof -
  have r: "runs b (link_ok b' x s) (read_reply read_some n bs)" for n bs by (intro runs_link keeps_intros)
  show ?thesis unfolding read_write_pointer_def by (intro runs_intros r)
qed

lemma runs_transaction [runs_intros]: "runs b (link_ok b x s) (sync_remote_buffer_transaction t prior)"
  unfolding sync_remote_buffer_transaction_def
proof (rule runs_read)
  fix m assume m: "link_ok b x s m"
  show "runs b (link_ok b x s) (case sys_spacewire (sm_system (m_man m)) of None \<Rightarrow> ret prior
    | Some spw \<Rightarrow>
        if length (sys_ring_params (sm_system (m_man m))) < unat (ring_code t) then ret prior
        else bindM (liftR (ring_params_at (sm_system (m_man m)) t)) (\<lambda>ring.
          bindM (read_write_pointer ring) (\<lambda>pointer. case pointer of None \<Rightarrow> ret prior
            | Some last_write_pointer_bytes \<Rightarrow> bindM (find_buffers t) (\<lambda>found.
                if \<not> found then ret prior
                else read_and_queue t spw ring (frame_address (sm_system (m_man m)) ring
                  (unat (unsplat_from_4bytes last_write_pointer_bytes))) prior))))"
  proof (cases "sys_spacewire (sm_system (m_man m))")
    case (Some spw)
    have "runs b (link_ok b x s) (read_frame t spw w a c)" for w a c
      using m Some by (intro runs_read_frame) (auto simp: link_ok_def)
    then show ?thesis unfolding Some option.case read_and_queue_def by (intro runs_intros)
  qed (simp add: runs_basic)
qed

text \<open>The operations of the loop that work on a manager.\<close>

lemma runs_send_code [runs_intros]: "runs b (link_ok b' x s) (send_code code)"
  unfolding send_code_def by (intro runs_intros)

lemma runs_set_state [runs_intros]: "runs b (link_ok b' x s) (set_state st)"
  unfolding set_state_def by (intro runs_man) simp_all

lemma runs_read_remote [runs_intros]: "runs b (link_ok b x s) (read_remote t)"
  unfolding read_remote_def by (intro runs_intros runs_man) simp_all

lemma runs_alternate_read [runs_intros]: "runs b (link_ok b x s) alternate_read"
  unfolding alternate_read_def by (intro runs_intros runs_man) simp_all

lemma runs_timepix_packets [runs_intros]: "runs b (link_ok b' x s) (timepix_packets request_time flags hk rates pcap)"
  unfolding timepix_packets_def queue_timepix_def uart_length_def by (intro runs_intros takes_elements)

lemma runs_read_board [runs_intros]: "runs b (link_ok b' x s) (read_board reply_time)"
proof -
  have q: "runs b (link_ok b' x s) (queue_board t payload)" for t payload
    unfolding queue_board_def by (intro runs_intros takes_elements)
  have "runs b (link_ok b' x s) (read_power reply_time)" "runs b (link_ok b' x s) (read_temperatures reply_time)"
    "runs b (link_ok b' x s) (read_introspection reply_time)"
    unfolding read_power_def read_temperatures_def read_sensor_def read_introspection_def
    by (intro runs_intros q)+
  then show ?thesis unfolding read_board_def when_enabled_def by (intro runs_intros)
qed

section \<open>The invariant of the loop\<close>

definition loop_ok :: "bool \<Rightarrow> system list \<Rightarrow> wiring \<Rightarrow> nat \<Rightarrow> circle \<Rightarrow> bool" where
  "loop_ok b ss x i c \<longleftrightarrow> map sm_system (c_managers c) = ss \<and> net_ok x (c_link c) \<and> c_current c = i \<and>
     (b \<longrightarrow> list_all manager_ok (c_managers c))"

lemma runs_on_link [runs_intros]: "runs b (net_ok x) p \<Longrightarrow> runs b (loop_ok b' ss x i) (on_link p)"
  by (auto simp: runs_def on_link_def loop_ok_def split: option.split)

lemma runs_at_manager:
  assumes "\<And>s. runs b (link_ok b x s) p"
  shows "runs b (loop_ok b ss x i) (at_manager j p)"
  unfolding runs_def
proof (intro allI impI)
  fix c assume c: "loop_ok b ss x i c"
  show "case at_manager j p c of None \<Rightarrow> \<not> b | Some (r, c') \<Rightarrow> loop_ok b ss x i c'"
  proof (cases "j < length (c_managers c)")
    case True
    let ?sm = "c_managers c ! j" and ?m = "(c_link c)\<lparr>m_man := c_managers c ! j\<rparr>"
    have m: "link_ok b x (sm_system ?sm) ?m"
      using c True by (auto simp: loop_ok_def link_ok_def net_ok_def list_all_length)
    show ?thesis
    proof (cases "p ?m")
      case None
      with assms m True show ?thesis by (fastforce simp: runs_def at_manager_def)
    next
      case (Some a)
      obtain r m' where a: "a = (r, m')" by (cases a)
      from runsD [OF assms m] Some a have m': "link_ok b x (sm_system ?sm) m'" by simp
      have "map sm_system ((c_managers c)[j := m_man m']) = ss"
        using c m' True by (auto simp: loop_ok_def link_ok_def map_update list_update_same_conv)
      moreover have "b \<longrightarrow> list_all manager_ok ((c_managers c)[j := m_man m'])"
        using c m' set_update_subset_insert [of "c_managers c" j "m_man m'"] by (auto simp: loop_ok_def link_ok_def list_all_iff)
      ultimately show ?thesis using c m' True Some a by (simp add: at_manager_def loop_ok_def link_ok_def)
    qed
  qed (use c in \<open>simp add: at_manager_def\<close>)
qed

lemma runs_with_manager [runs_intros]:
  "(\<And>s. runs b (link_ok b x s) p) \<Longrightarrow> runs b (loop_ok b ss x i) (with_manager name p)"
  unfolding with_manager_def by (intro runs_intros runs_at_manager)

lemma runs_copy_manager [runs_intros]: "runs b (loop_ok b' ss x i) (copy_manager name)"
  unfolding copy_manager_def by (intro runs_intros)

lemma runs_read_clock [runs_intros]: "runs b (loop_ok b' ss x i) read_clock"
  unfolding read_clock_def by (intro runs_intros runs_modify) (simp add: loop_ok_def)

lemma runs_copied:
  assumes "keeps queues_of p"
  shows "runs b (loop_ok b' ss x i) (with_manager_copy sm p)"
  unfolding with_manager_copy_def
proof (rule runs_on_link, unfold runs_def, intro allI impI)
  fix m assume m: "net_ok x m"
  obtain r m' where "p (m\<lparr>m_man := sm\<rparr>) = Some (r, m')" "queues_of m' = queues_of (m\<lparr>m_man := sm\<rparr>)"
    using keepsD [OF assms] by blast
  then show "case p (m\<lparr>m_man := sm\<rparr>) of None \<Rightarrow> \<not> b | Some (r, m') \<Rightarrow> net_ok x m'"
    using m net_ok_kept [of m' m x] by (simp add: queues_of_def)
qed

lemma runs_read_housekeeping [runs_intros]: "runs b (loop_ok b' ss x i) (read_housekeeping single sm code)"
proof -
  have "keeps queues_of (send_code code)" unfolding send_code_def by (intro keeps_intros)
  then show ?thesis unfolding read_housekeeping_def by (intro runs_intros runs_copied takes_elements)
qed

lemma runs_canister [runs_intros]: "runs b (loop_ok b ss x i) (manage_canister name single copy)"
  unfolding manage_canister_def by (intro runs_intros)

lemma runs_systems [runs_intros]:
  "runs b (loop_ok b ss x i) (manage_cdte1 mem copy)" "runs b (loop_ok b ss x i) (manage_cdtede copy)"
  "runs b (loop_ok b ss x i) (manage_cmos name copy)" "runs b (loop_ok b ss x i) manage_timepix"
  unfolding manage_cdte1_def manage_cdtede_def manage_cmos_def manage_timepix_def by (intro runs_intros)+

lemma runs_housekeeping [runs_intros]: "runs b (loop_ok b ss x i) manage_housekeeping"
  unfolding manage_housekeeping_def by (intro runs_intros runs_man) (simp_all add: count_one_def)

lemma runs_start_of_turn [runs_intros]:
  "runs b (loop_ok b ss x i) record_uplink" "runs b (loop_ok b ss x i) flush"
  "runs b (loop_ok b ss x i) send_global_health"
proof -
  show "runs b (loop_ok b ss x i) record_uplink" unfolding record_uplink_def by (intro runs_intros)
  have "runs b (net_ok x) sync_tcp_read_some"
    by (rule runs_keeps [where f = queues_of and g = queues_of]) (auto intro: keeps_intros net_ok_kept)
  then show "runs b (loop_ok b ss x i) flush" unfolding flush_def by (intro runs_intros)
  show "runs b (loop_ok b ss x i) send_global_health"
    unfolding send_global_health_def make_global_health_packet_def by (intro runs_intros takes_elements)
qed

lemma runs_manage_systems: "runs b (loop_ok b ss x i) (manage_systems mem)"
  unfolding manage_systems_def current_manager_def by (intro runs_intros)

lemma runs_each_manager [runs_intros]:
  "(\<And>s. runs b (link_ok b x s) p) \<Longrightarrow> runs b (loop_ok b ss x i) (each_manager names p)"
  by (induction names) (simp_all add: runs_intros)

lemma runs_init_canisters [runs_intros]: "runs b (loop_ok b ss x i) (init_canisters can_status k names)"
  by (induction names arbitrary: k) (simp_all only: init_canisters.simps, (intro runs_intros; assumption?)+)

lemma runs_init_systems: "runs b (loop_ok b ss x i) init_systems"
  unfolding init_systems_def init_housekeeping_def init_timepix_def init_cdte_def init_cmos_def ask_linetime_def
  by (intro runs_intros)

lemma runs_Circle_start:
  assumes "loop_ok b ss x i c"
  shows "case Circle_start c of None \<Rightarrow> \<not> b | Some (r, c') \<Rightarrow> loop_ok b ss x 0 c'"
proof -
  have "runs b (loop_ok b ss x 0) (bindM init_systems (\<lambda>_.
     bindM (each_manager detectors (set_pointer PC)) (\<lambda>_.
     bindM (each_manager [''cmos1'', ''cmos2''] (set_pointer QL)) (\<lambda>_.
       each_manager detectors (on_man (\<lambda>sm. sm\<lparr>sm_active_type := PC\<rparr>))))))"
    unfolding set_pointer_def by (intro runs_intros runs_init_systems runs_man) simp_all
  then show ?thesis
    using assms by (simp add: Circle_start_def runs_def loop_ok_def del: each_manager.simps)
qed

text \<open>A turn moves the position on, also when the turn itself did nothing.\<close>

lemma turn_ok:
  assumes "loop_ok b ss x i c"
  shows "case update_state mem c of None \<Rightarrow> \<not> b
    | Some (Inl e, c') \<Rightarrow> loop_ok b ss x i c'
    | Some (Inr u, c') \<Rightarrow> loop_ok b ss x ((i + 1) mod length ss) c'"
proof (cases "manage_systems mem c")
  case None
  with runs_manage_systems [of b ss x i mem] assms show ?thesis by (auto simp: runs_def update_state_def bindM_def)
next
  case (Some a)
  obtain r c1 where a: "a = (r, c1)" by (cases a)
  with runsD [OF runs_manage_systems assms] Some have c1: "loop_ok b ss x i c1" by simp
  then have "length (c_managers c1) = length ss" by (auto simp: loop_ok_def)
  with Some a c1 show ?thesis by (cases r) (auto simp: update_state_def bindM_def loop_ok_def)
qed

text \<open>The states after \<open>k\<close> turns that did not fault.\<close>

inductive turns :: "nat \<Rightarrow> circle \<Rightarrow> circle \<Rightarrow> bool" where
  none: "turns 0 c c"
| more: "turns k c c' \<Longrightarrow> update_state mem c' = Some (Inr (), c'') \<Longrightarrow> turns (Suc k) c c''"

inductive_simps turns_simps: "turns 0 c c'" "turns (Suc k) c c'"

inductive_cases turnsE: "turns k c c'"

lemma turns_ok: "turns k c c' \<Longrightarrow> loop_ok b ss x i c \<Longrightarrow> i < length ss \<Longrightarrow> loop_ok b ss x ((i + k) mod length ss) c'"
proof (induction rule: turns.induct)
  case (more k c c' mem c'')
  from turn_ok [OF more.IH [OF more.prems], of mem] more.hyps(2) show ?case by (simp add: mod_Suc_eq)
qed simp

lemma loop_ok_self:
  "list_all sendable (m_downlink (c_link c)) \<Longrightarrow> (b \<Longrightarrow> list_all manager_ok (c_managers c)) \<Longrightarrow>
   loop_ok b (map sm_system (c_managers c)) (m_deck (c_link c), map fst (m_uplink (c_link c))) (c_current c) c"
  by (simp add: loop_ok_def net_ok_def)

end
