(* ===== verification/Loop_Properties.thy ===== *)
theory Loop_Properties
  imports Main_Loop
begin

text \<open>
  The properties of the main loop: order of the turns, absence of hangs, what an abandoned system costs,
  and the health packet.
\<close>

section \<open>A small flight configuration\<close>

definition example_manager :: "string \<Rightarrow> u8 \<Rightarrow> system_manager" where
  "example_manager name hex =
     (add_timing (Some dispatch_timing) (SystemManager PC (System_named name hex)))\<lparr>sm_system_state := SYS_ABANDON\<rparr>"

definition circle_example :: circle where
  "circle_example = \<lparr>
     c_link = ground_machine,
     c_managers = map (\<lambda>(name, hex). example_manager name hex)
       [(''cdtede'', 0x08), (''cdte1'', 0x09), (''cdte5'', 0x0a), (''cdte3'', 0x0b), (''cdte4'', 0x0c),
        (''cmos1'', 0x0e), (''cmos2'', 0x0f), (''housekeeping'', 0x02), (''uplink'', 0x20)],
     c_current = 0, c_clock = (\<lambda>k. word_of_nat k), c_ticks = 0, c_uart_open = False\<rparr>"

section \<open>Finding managers\<close>

lemma copy_manager_found:
  "get_sys_man_for_name name (c_managers c) = Some j \<Longrightarrow> copy_manager name c = Some (Inr (c_managers c ! j), c)"
  by (simp add: copy_manager_def)

lemma with_manager_found:
  "get_sys_man_for_name name (c_managers c) = Some j \<Longrightarrow> with_manager name p c = at_manager j p c"
  by (simp add: with_manager_def)

lemma get_sys_man_Some:
  "get_sys_man_for_name name sms = Some j \<Longrightarrow> j < length sms \<and> sys_name (sm_system (sms ! j)) = name"
  by (induction sms arbitrary: j) (auto split: if_splits)

lemma get_sys_man_cong:
  "map sm_system sms = map sm_system sms' \<Longrightarrow> get_sys_man_for_name name sms = get_sys_man_for_name name sms'"
proof (induction sms arbitrary: sms')
  case (Cons sm sms)
  then show ?case by (cases sms') auto
qed simp

lemma receive_silent:
  assumes "m_replies m = silence" and "sm_timing (m_man m) = Some timing"
  shows "sync_uart_receive_to_uplink_buffer m = Some (Inr (), m\<lparr>m_man := raise_error reading_packet (m_man m)\<rparr>)"
proof -
  have "read_uart [0, 0] m = Some (Inr (0, [0, 0]), m\<lparr>m_man := raise_error reading_packet (m_man m)\<rparr>)"
    using reads_script(3) [OF assms(2), of "[0, 0]"] read_result_silent [OF assms(1)] by (simp add: vec_max_def)
  then show ?thesis
    by (simp add: sync_uart_receive_to_uplink_buffer_def numeral_eq_Suc bindM_steps(1))
qed

lemma flush_silent: "m_replies (c_link c) = silence \<Longrightarrow> flush c = Some (Inr (), c)"
  by (simp add: flush_def on_link_def sync_tcp_read_some_def bindM_def next_reply_def)

section \<open>The health packet\<close>

definition health_packet :: "u64 \<Rightarrow> nat \<Rightarrow> system_manager list \<Rightarrow> bytes" where
  "health_packet now counter sms =
     be_bytes 4 (now AND 0xffffffff) @ [0x00, word_of_nat (counter mod 256)] @ concat (map health_entry sms)"

lemma make_health:
  assumes "get_sys_man_for_name ''uplink'' (c_managers c) = Some j"
  shows "make_global_health_packet c = Some
    (Inr (health_packet (c_clock c (c_ticks c)) (sm_counter (c_managers c ! j)) (c_managers c)),
     c\<lparr>c_ticks := c_ticks c + 1\<rparr>)"
  using assms copy_manager_found [of "''uplink''" "c\<lparr>c_ticks := c_ticks c + 1\<rparr>" j]
  by (simp add: make_global_health_packet_def health_packet_def read_clock_def bindM_def)

text \<open>The ground station's reading of the entries: identifier, state and error flags of each system.\<close>

fun health_entries :: "bytes \<Rightarrow> (u8 \<times> u8 \<times> u16) list" where
  "health_entries (h # st # a # b # rest) = (h, st, word16 a b) # health_entries rest"
| "health_entries bs = []"

lemma word16_split: "word16 (ucast (drop_bit 8 (e :: u16) AND 0xff)) (ucast (e AND 0xff)) = e"
proof (rule bit_word_eqI)
  fix n assume n: "n < LENGTH(16)"
  have m: "(0xff :: u16) = mask 8" by (simp add: mask_eq_exp_minus_1)
  from n show "bit (word16 (ucast (drop_bit 8 e AND 0xff)) (ucast (e AND 0xff))) n = bit e n"
    unfolding m word16_def
    by (simp add: bit_or_iff bit_push_bit_iff bit_unsigned_iff bit_drop_bit_eq bit_and_iff bit_mask_iff) auto
qed

lemma health_entries_concat:
  "health_entries (concat (map health_entry sms)) =
     map (\<lambda>sm. (sys_hex (sm_system sm), system_state_code (sm_system_state sm), sm_errors sm)) sms"
  by (induction sms) (simp_all add: health_entry_def word16_split)

lemma low_time: "be_bytes 4 (t AND 0xffffffff) = be_bytes 4 (ucast (ucast t :: u32))"
proof -
  have m: "(0xffffffff :: u64) = mask 32" by (simp add: mask_eq_exp_minus_1)
  have "t AND 0xffffffff = ucast (ucast t :: u32)"
    unfolding m by (rule bit_word_eqI) (auto simp: bit_and_iff bit_unsigned_iff bit_mask_iff)
  then show ?thesis by simp
qed

lemma health_packet_parts:
  "take 4 (health_packet now k sms) = be_bytes 4 (ucast (ucast now :: u32))"
  "health_packet now k sms ! 5 = word_of_nat k"
  "drop 6 (health_packet now k sms) = concat (map health_entry sms)"
  "length (health_packet now k sms) = 6 + 4 * length sms"
proof -
  have "length (be_bytes 4 x) = 4" for x by simp
  moreover have "(word_of_nat (k mod 256) :: u8) = word_of_nat k"
    by (simp add: word_of_nat_eq_iff take_bit_eq_mod)
  moreover have "length (concat (map health_entry sms)) = 4 * length sms"
    by (induction sms) (simp_all add: health_entry_def)
  ultimately show "take 4 (health_packet now k sms) = be_bytes 4 (ucast (ucast now :: u32))"
    "health_packet now k sms ! 5 = word_of_nat k" "drop 6 (health_packet now k sms) = concat (map health_entry sms)"
    "length (health_packet now k sms) = 6 + 4 * length sms"
    by (simp_all add: health_packet_def low_time nth_append del: be_bytes_numeral)
qed

section \<open>Turns that send nothing\<close>

definition idle_view :: "circle \<Rightarrow> (port \<times> bytes) list \<times> system_state list \<times> nat" where
  "idle_view c = (m_sent (c_link c), map sm_system_state (c_managers c), c_current c)"

definition idle_link :: "machine \<Rightarrow> (port \<times> bytes) list \<times> system_state" where
  "idle_link m = (m_sent m, sm_system_state (m_man m))"

lemma keeps_idle [keeps_intros]:
  "keeps idle_link next_reply" "keeps idle_link (on_man (raise_error e))" "keeps idle_link (on_man (drop_error e))"
  "keeps idle_link (on_man count_one)" "keeps idle_link (modifyM (set_queue sys q))"
  "keeps idle_link (enqueue_downlink d)"
  by (auto simp: keeps_def idle_link_def next_reply_def raise_error_def drop_error_def count_one_def set_queue_def
      enqueue_downlink_def bindM_def split: list.split sum.split)

lemma keeps_receive: "keeps idle_link sync_uart_receive_to_uplink_buffer"
proof -
  have "keeps idle_link (uart_receive_loop k reply)" for k reply
    by (induction k arbitrary: reply)
      (simp_all only: uart_receive_loop.simps store_uplink_def read_uart_def, (intro keeps_intros; assumption?)+)
  then show ?thesis by (simp add: sync_uart_receive_to_uplink_buffer_def)
qed

lemma leaves_idle:
  "keeps idle_link p \<Longrightarrow> leaves idle_view (at_manager j p)" "keeps idle_link p \<Longrightarrow> leaves idle_view (on_link p)"
proof -
  show "leaves idle_view (at_manager j p)" if "keeps idle_link p"
    using keeps_same [OF that]
    by (fastforce simp: leaves_def at_manager_def idle_view_def idle_link_def map_update list_update_same_conv
        split: option.splits prod.splits if_splits)
  show "leaves idle_view (on_link p)" if "keeps idle_link p"
    using keeps_same [OF that]
    by (fastforce simp: leaves_def on_link_def idle_view_def idle_link_def split: option.splits prod.splits)
qed

lemma leaves_turn_start:
  "leaves idle_view record_uplink" "leaves idle_view flush" "leaves idle_view send_global_health"
  "leaves idle_view (copy_manager name)"
proof -
  have copy: "leaves idle_view (copy_manager name)" for name
    unfolding copy_manager_def by (intro leaves_intros)
  show "leaves idle_view record_uplink"
    unfolding record_uplink_def with_manager_def by (intro leaves_intros leaves_idle keeps_receive)
  show "leaves idle_view flush"
    unfolding flush_def sync_tcp_read_some_def by (intro leaves_intros leaves_idle keeps_intros)
  have "leaves idle_view read_clock"
    unfolding read_clock_def by (intro leaves_intros leaves_modify) (simp add: idle_view_def)
  moreover have "keeps idle_link (queue_data single sys t payload)" for single sys t payload
    unfolding queue_data_def by (intro keeps_intros)
  ultimately show "leaves idle_view send_global_health"
    unfolding send_global_health_def make_global_health_packet_def by (intro leaves_intros leaves_idle copy)
  show "leaves idle_view (copy_manager name)" by (rule copy)
qed

text \<open>When the current manager is abandoned, it is only looked at.\<close>

lemma leaves_step: "leaves f p \<Longrightarrow> bindM p q m = Some (r, m') \<Longrightarrow>
   (\<exists>x m1. p m = Some (Inr x, m1) \<and> f m1 = f m \<and> q x m1 = Some (r, m')) \<or> f m' = f m"
proof -
  assume l: "leaves f p" and r: "bindM p q m = Some (r, m')"
  show ?thesis
  proof (cases "p m")
    case (Some a)
    obtain y m1 where a: "a = (y, m1)" by (cases a)
    with leavesD [OF l, of m] Some have "f m1 = f m" by simp
    with r Some a show ?thesis by (cases y) (simp_all add: bindM_def)
  qed (use r in \<open>simp add: bindM_def\<close>)
qed

definition leaves_when :: "('s \<Rightarrow> bool) \<Rightarrow> ('s \<Rightarrow> 'a) \<Rightarrow> ('s, 'b) op \<Rightarrow> bool" where
  "leaves_when P f p \<longleftrightarrow> (\<forall>m r m'. P (m :: 's) \<longrightarrow> p m = Some (r, m') \<longrightarrow> f m' = f m)"

lemma leaves_when_bind:
  assumes "leaves f p" and "\<And>m m'. P m \<Longrightarrow> f m' = f m \<Longrightarrow> P m'" and "\<And>x. leaves_when P f (q x)"
  shows "leaves_when P f (bindM p q)"
  unfolding leaves_when_def
proof (intro allI impI)
  fix m r m' assume m: "P m" "bindM p q m = Some (r, m')"
  from leaves_step [OF assms(1) m(2)] show "f m' = f m"
    using assms(2) [OF m(1)] assms(3) unfolding leaves_when_def by metis
qed

definition at_abandoned :: "circle \<Rightarrow> bool" where
  "at_abandoned c \<longleftrightarrow> c_current c < length (c_managers c) \<and>
     sm_system_state (c_managers c ! c_current c) = SYS_ABANDON"

lemma at_abandoned_view: "at_abandoned c \<Longrightarrow> idle_view c' = idle_view c \<Longrightarrow> at_abandoned c'"
proof -
  assume a: "at_abandoned c" and v: "idle_view c' = idle_view c"
  then have len: "length (c_managers c') = length (c_managers c)" by (metis idle_view_def length_map prod.inject)
  have "map sm_system_state (c_managers c') ! c_current c = map sm_system_state (c_managers c) ! c_current c"
    "c_current c' = c_current c" using v by (simp_all add: idle_view_def)
  with a len show "at_abandoned c'" by (simp add: at_abandoned_def)
qed

lemma leaves_current: "leaves idle_view current_manager"
  unfolding current_manager_def by (intro leaves_intros)

lemma current_manager_eq:
  "c_current c < length (c_managers c) \<Longrightarrow> current_manager c = Some (Inr (c_managers c ! c_current c), c)"
  by (simp add: current_manager_def vec_at_def)

lemma abandoned_current:
  "leaves_when at_abandoned f (bindM current_manager (\<lambda>current. bindM (getM (g current)) (\<lambda>current_is.
     if sm_system_state current = SYS_ABANDON then ret () else rest current current_is)))"
  by (simp add: leaves_when_def at_abandoned_def bindM_steps(1) [OF current_manager_eq])

lemma abandoned_bind:
  "leaves idle_view p \<Longrightarrow> (\<And>x. leaves_when at_abandoned idle_view (q x)) \<Longrightarrow> leaves_when at_abandoned idle_view (bindM p q)"
  using leaves_when_bind [of idle_view p at_abandoned q] at_abandoned_view by blast

lemma abandoned_turn: "leaves_when at_abandoned idle_view (manage_systems mem)"
  unfolding manage_systems_def
  by (rule abandoned_bind [OF leaves_current])
    (intro abandoned_current leaves_turn_start [THEN abandoned_bind])

section \<open>The report of a turn\<close>

text \<open>Copying an element that can be sent changes nothing.\<close>

lemma copy_same: "sendable d \<Longrightarrow> dbe_copy d = Inr d"
  by (cases d) (auto simp: dbe_copy_def dbe_set_this_packet_index_def dbe_set_payload_def check_payload_fits_def
      dbe_set_frame_counter_def sendable_def)

lemma report_queued:
  assumes up: "get_sys_man_for_name ''uplink'' (c_managers c) = Some j"
    and hk: "get_sys_man_for_name ''housekeeping'' (c_managers c) = Some h"
    and e: "sys_ethernet (get_sys_for_name ''gse'' (m_deck (c_link c))) = Some e"
    and size: "14 + 4 * length (c_managers c) \<le> dl_max_payload_size e" "dl_max_payload_size e < 2 ^ 62"
  shows "\<exists>d. send_global_health c = Some (Inr (), c\<lparr>c_ticks := c_ticks c + 1,
      c_link := (c_link c)\<lparr>m_downlink := m_downlink (c_link c) @ [d]\<rparr>\<rparr>) \<and>
    dbe_payload d = health_packet (c_clock c (c_ticks c)) (sm_counter (c_managers c ! j)) (c_managers c) \<and>
    dbe_system d = Some (sm_system (c_managers c ! h)) \<and> dbe_type d = PING \<and>
    dbe_max_packet_size d = dl_max_payload_size e"
proof -
  let ?data = "health_packet (c_clock c (c_ticks c)) (sm_counter (c_managers c ! j)) (c_managers c)"
  let ?c = "c\<lparr>c_ticks := c_ticks c + 1\<rparr>"
  have big: "8 \<le> dl_max_payload_size e" "dl_max_payload_size e \<noteq> 0" using size(1) by linarith+
  have room: "\<not> vec_max < dl_max_payload_size e - 8" using size(2) by (simp add: vec_max_def)
  obtain d0 where d0: "DownlinkBufferElement (sm_system (c_managers c ! h))
      (get_sys_for_name ''gse'' (m_deck (c_link c))) PING = Inr d0"
    "dbe_payload d0 = []" "dbe_system d0 = Some (sm_system (c_managers c ! h))" "dbe_type d0 = PING"
    "dbe_max_packet_size d0 = dl_max_payload_size e" "dbe_this_packet_index d0 = 1"
    using e big room by (simp add: DownlinkBufferElement_def Let_def)
  define d1 where "d1 = d0\<lparr>dbe_payload := ?data\<rparr>"
  have len: "sz_add (length ?data) 8 \<le> dl_max_payload_size e"
    using size by (simp add: health_packet_parts(4) sz_add_small)
  then have set: "dbe_set_payload ?data d0 = Inr d1"
    using d0(5) by (simp add: dbe_set_payload_def check_payload_fits_def d1_def)
  have copy: "dbe_copy d1 = Inr d1" using d0 len by (intro copy_same) (simp_all add: d1_def sendable_def big)
  have q: "queue_data False (sm_system (c_managers c ! h)) PING ?data (c_link c) =
      Some (Inr (), (c_link c)\<lparr>m_downlink := m_downlink (c_link c) @ [d1]\<rparr>)"
    using d0(1) set copy by (simp add: queue_data_def enqueue_downlink_def)
  have "copy_manager ''housekeeping'' ?c = Some (Inr (c_managers c ! h), ?c)"
    using hk copy_manager_found [of "''housekeeping''" ?c h] by simp
  then have "send_global_health c = on_link (queue_data False (sm_system (c_managers c ! h)) PING ?data) ?c"
    unfolding send_global_health_def using make_health [OF up] by (simp add: bindM_steps(1))
  then show ?thesis using q d0 by (intro exI [of _ d1]) (simp add: on_link_def d1_def)
qed

section \<open>A turn of the small configuration\<close>

definition example_after :: circle where
  "example_after = circle_example\<lparr>
     c_managers := (c_managers circle_example)[8 := raise_error reading_packet (c_managers circle_example ! 8)],
     c_link := (c_link circle_example)\<lparr>m_man := raise_error reading_packet (c_managers circle_example ! 8)\<rparr>\<rparr>"

lemma example_managers:
  "length (c_managers circle_example) = 9" "m_replies (c_link circle_example) = silence"
  "sm_timing (c_managers circle_example ! 8) = Some dispatch_timing"
  "get_sys_man_for_name ''uplink'' (c_managers circle_example) = Some 8"
  by (simp_all add: circle_example_def ground_machine_def machine_example_def example_manager_def add_timing_def
      SystemManager_def System_named_def)

lemma example_uplink: "record_uplink circle_example = Some (Inr (), example_after)"
  using receive_silent [of "(c_link circle_example)\<lparr>m_man := c_managers circle_example ! 8\<rparr>" dispatch_timing] example_managers
  by (simp add: record_uplink_def with_manager_found at_manager_def example_after_def)

lemma example_names:
  "get_sys_man_for_name name (c_managers example_after) = get_sys_man_for_name name (c_managers circle_example)"
  by (rule get_sys_man_cong)
    (simp add: example_after_def map_update circle_example_def example_manager_def raise_error_def)

lemma example_found:
  "get_sys_man_for_name ''cdtede'' (c_managers circle_example) = Some 0"
  "get_sys_man_for_name ''cdte1'' (c_managers circle_example) = Some 1"
  "get_sys_man_for_name ''cdte5'' (c_managers circle_example) = Some 2"
  "get_sys_man_for_name ''cdte3'' (c_managers circle_example) = Some 3"
  "get_sys_man_for_name ''cdte4'' (c_managers circle_example) = Some 4"
  "get_sys_man_for_name ''cmos1'' (c_managers circle_example) = Some 5"
  "get_sys_man_for_name ''cmos2'' (c_managers circle_example) = Some 6"
  "get_sys_man_for_name ''housekeeping'' (c_managers circle_example) = Some 7"
  by (simp_all add: circle_example_def example_manager_def add_timing_def SystemManager_def System_named_def)

lemma example_state:
  "c_current example_after = 0" "c_current circle_example = 0" "length (c_managers example_after) = 9"
  "sm_system_state (c_managers example_after ! 0) = SYS_ABANDON"
  "sm_system_state (c_managers circle_example ! 0) = SYS_ABANDON"
  "m_replies (c_link example_after) = silence" "m_downlink (c_link circle_example) = []" "m_sent (c_link circle_example) = []"
  by (simp_all add: example_after_def circle_example_def example_manager_def ground_machine_def machine_example_def)

lemma example_ground:
  "\<exists>e. sys_ethernet (get_sys_for_name ''gse'' (m_deck (c_link example_after))) = Some e \<and>
     50 \<le> dl_max_payload_size e \<and> dl_max_payload_size e < 2 ^ 62"
  by (simp add: example_after_def circle_example_def ground_machine_def ground_deck_def get_sys_for_name_def
      System_named_def Ethernet_static_def DataLinkLayer_static_def link_defs)

lemma example_turn:
  "\<exists>d. update_state mem circle_example = Some (Inr (), example_after\<lparr>c_current := 1, c_ticks := 1,
      c_link := (c_link example_after)\<lparr>m_downlink := [d]\<rparr>\<rparr>)"
proof -
  from example_ground obtain e where e: "sys_ethernet (get_sys_for_name ''gse'' (m_deck (c_link example_after))) = Some e"
    "50 \<le> dl_max_payload_size e" "dl_max_payload_size e < 2 ^ 62" by blast
  from report_queued [of example_after 8 7, OF _ _ e(1) _ e(3)] e(2) example_names example_managers(4) example_found(8)
    example_state(3)
  obtain d where d: "send_global_health example_after = Some (Inr (), example_after\<lparr>c_ticks := 1,
      c_link := (c_link example_after)\<lparr>m_downlink := [d]\<rparr>\<rparr>)"
    by (auto simp: example_after_def circle_example_def ground_machine_def machine_example_def)
  define c where "c = example_after\<lparr>c_ticks := 1, c_link := (c_link example_after)\<lparr>m_downlink := [d]\<rparr>\<rparr>"
  have names: "get_sys_man_for_name name (c_managers c) = get_sys_man_for_name name (c_managers circle_example)" for name
    using example_names by (simp add: c_def)
  have c: "c_current c = 0" "c_managers c = c_managers example_after" using example_state by (simp_all add: c_def)
  note found = copy_manager_found [of _ c, unfolded names]
  have "manage_systems mem circle_example = Some (Inr (), c)"
    unfolding manage_systems_def
    using example_state example_managers(1) c
    by (simp add: bindM_steps(1) current_manager_eq example_uplink flush_silent d [folded c_def] found [OF example_found(1)]
        found [OF example_found(2)] found [OF example_found(3)] found [OF example_found(4)] found [OF example_found(5)]
        found [OF example_found(6)] found [OF example_found(7)])
  then show ?thesis
    using example_state c by (intro exI [of _ d]) (simp add: update_state_def bindM_steps(1), simp add: c_def)
qed

lemma example_turns: "\<exists>d. turns 1 circle_example (example_after\<lparr>c_current := 1, c_ticks := 1,
      c_link := (c_link example_after)\<lparr>m_downlink := [d]\<rparr>\<rparr>)"
  using example_turn [of "Some False"] turns.none turns.more [of 0 circle_example circle_example "Some False"] by auto

lemma example_ok: "list_all manager_ok (c_managers circle_example)"
  by (simp add: circle_example_def example_manager_def manager_ok_def add_timing_def SystemManager_def System_named_def)

text \<open>A system with a framer whose peer answers every read, forever: the reply passes for a write pointer, and its first
  bytes for a packet.\<close>

definition answering_example :: circle where
  "answering_example = circle_example\<lparr>
     c_link := ground_machine\<lparr>m_replies := sconst (Some example_reply)\<rparr>,
     c_managers := (c_managers circle_example)[1 := m_man (read_machine silence)], c_current := 1\<rparr>"

lemma answering_ok:
  "list_all manager_ok (c_managers answering_example)" "list_all sendable (m_downlink (c_link answering_example))"
  "c_current answering_example < length (c_managers answering_example)"
proof -
  let ?sm = "m_man (read_machine silence)"
  have framer: "sm_packet_framer ?sm = [PC \<mapsto> read_framer]" "sm_frame_packetizer ?sm = [PC \<mapsto> read_packetizer]"
    by (simp_all add: read_machine_def machine_example_def add_timing_def SystemManager_def add_packet_framer_def
        add_frame_packetizer_def insert_count_def)
  have "framer_live 17 read_framer"
    by (simp add: framer_live_def strip_room_def read_framer_def framer_example_def vec_max_def)
  moreover have "fp_wf read_packetizer" by (simp add: read_packetizer_def FramePacketizer_sized_def fp_wf_def)
  ultimately have "manager_ok ?sm"
    by (auto simp: manager_ok_def framer read_machine_simps read_system_simps example_size split: if_splits)
  then show "list_all manager_ok (c_managers answering_example)"
    using example_ok set_update_subset_insert [of "c_managers circle_example" 1 ?sm]
    by (auto simp: answering_example_def list_all_iff)
  show "list_all sendable (m_downlink (c_link answering_example))" "c_current answering_example < length (c_managers answering_example)"
    by (simp_all add: answering_example_def ground_machine_def machine_example_def example_managers)
qed

section \<open>Properties\<close>

text \<open>C9. The turns go round: after \<open>k\<close> turns that did not fault the loop is \<open>k\<close> positions further in \<open>system_order\<close>,
  modulo its length, so every system gets its turn; the systems of the managers, the command deck and the
  set of uplink queues are the ones of the start, and every element of the downlink queue has a source and a
  payload that fits its packet.\<close>

theorem turns_in_order:
  assumes "turns k c c'" and "c_current c < length (c_managers c)" and "list_all sendable (m_downlink (c_link c))"
  shows "c_current c' = (c_current c + k) mod length (c_managers c) \<and>
    map sm_system (c_managers c') = map sm_system (c_managers c) \<and>
    m_deck (c_link c') = m_deck (c_link c) \<and> map fst (m_uplink (c_link c')) = map fst (m_uplink (c_link c)) \<and>
    list_all sendable (m_downlink (c_link c'))"
  using turns_ok [OF assms(1) loop_ok_self [where b = False, OF assms(3)]] assms(2)
  by (simp add: loop_ok_def net_ok_def)

lemma turns_in_order_witness:
  "\<exists>c'. turns 1 circle_example c' \<and> c_current c' = 1 \<and> list_all sendable (m_downlink (c_link c'))"
proof -
  from example_turns obtain c' where t: "turns 1 circle_example c'" by blast
  from turns_in_order [OF t] t show ?thesis by (auto simp: example_state example_managers)
qed

text \<open>C8. The loop never hangs: when every packetizer leaves room for a payload and something of each packet of a frame is
  left behind its headers and footers, the constructor returns, and in every state reached by \<open>k\<close> turns after it the
  next turn returns, whatever the peers send or withhold, also when they answer forever, and whichever sends fail.\<close>

theorem loop_never_hangs:
  assumes "list_all manager_ok (c_managers c)" and "list_all sendable (m_downlink (c_link c))"
    and "c_current c < length (c_managers c)"
  shows "(\<exists>r c1. Circle_start c = Some (r, c1)) \<and>
    (Circle_start c = Some (Inr (), c1) \<and> turns k c1 c2 \<longrightarrow> (\<exists>r c3. update_state mem c2 = Some (r, c3))) \<and>
    (turns k c c2 \<longrightarrow> (\<exists>r c3. update_state mem c2 = Some (r, c3)))"
proof -
  let ?ss = "map sm_system (c_managers c)" and ?x = "(m_deck (c_link c), map fst (m_uplink (c_link c)))"
  have c: "loop_ok True ?ss ?x (c_current c) c" using loop_ok_self [where b = True] assms(1,2) by blast
  have next_turn: "\<exists>r c3. update_state mem c2 = Some (r, c3)"
    if "turns k c0 c2" "loop_ok True ?ss ?x i c0" "i < length ?ss" for c0 i
    using turn_ok [OF turns_ok [OF that], of mem] by (auto split: option.splits)
  from runs_Circle_start [OF c] obtain r c1' where s: "Circle_start c = Some (r, c1')" "loop_ok True ?ss ?x 0 c1'"
    by (auto split: option.splits)
  have "0 < length ?ss" using assms(3) by (cases "c_managers c") auto
  with next_turn [of c1' 0] next_turn [OF _ c] s assms(3) show ?thesis by auto
qed

lemma loop_never_hangs_witness:
  "(\<exists>r c1. Circle_start answering_example = Some (r, c1)) \<and>
   (\<exists>r c3. update_state (Some False) answering_example = Some (r, c3))"
  using loop_never_hangs [of answering_example answering_example 0 answering_example "Some False"] answering_ok turns.none
  by blast

text \<open>C31. An abandoned system costs nothing: a turn whose current system is in the state \<open>SYS_ABANDON\<close> sends nothing on
  any port and leaves the states of all systems as they are, however it ends; only the ground's commands are
  taken in, the socket is emptied and the health packet is queued.\<close>

theorem abandoned_turn_sends_nothing:
  assumes "c_current c < length (c_managers c)" and "sm_system_state (c_managers c ! c_current c) = SYS_ABANDON"
    and "update_state mem c = Some (r, c')"
  shows "m_sent (c_link c') = m_sent (c_link c) \<and> map sm_system_state (c_managers c') = map sm_system_state (c_managers c)"
proof -
  from assms(3) obtain r1 c1 where "manage_systems mem c = Some (r1, c1)"
    "m_sent (c_link c') = m_sent (c_link c1)" "c_managers c' = c_managers c1"
    by (cases "manage_systems mem c") (auto simp: update_state_def bindM_def split: sum.splits)
  moreover from this(1) abandoned_turn [of mem] assms(1,2) have "idle_view c1 = idle_view c"
    unfolding leaves_when_def at_abandoned_def by blast
  ultimately show ?thesis by (simp add: idle_view_def)
qed

lemma abandoned_turn_sends_nothing_witness:
  "\<exists>c'. update_state (Some False) circle_example = Some (Inr (), c') \<and> m_sent (c_link c') = []"
proof -
  from example_turn [of "Some False"] obtain c' where t: "update_state (Some False) circle_example = Some (Inr (), c')" by blast
  from abandoned_turn_sends_nothing [OF _ _ t] t show ?thesis by (auto simp: example_state example_managers)
qed

text \<open>C17. The health report: when the uplink and housekeeping managers exist and the packet fits the ground link, the
  start of a turn queues one element of type \<open>PING\<close>, whose payload has six bytes and four more per system. It
  reads back as the low 32 bits of the clock, the number of uplinked commands modulo 256, and for every system,
  in the order of the turns, its identifier, its state and its error flags.\<close>

theorem health_report_roundtrip:
  assumes "get_sys_man_for_name ''uplink'' (c_managers c) = Some j"
    and "get_sys_man_for_name ''housekeeping'' (c_managers c) = Some h"
    and "sys_ethernet (get_sys_for_name ''gse'' (m_deck (c_link c))) = Some e"
    and "14 + 4 * length (c_managers c) \<le> dl_max_payload_size e" and "dl_max_payload_size e < 2 ^ 62"
  shows "\<exists>d c'. send_global_health c = Some (Inr (), c') \<and> c_managers c' = c_managers c \<and>
    m_downlink (c_link c') = m_downlink (c_link c) @ [d] \<and> m_sent (c_link c') = m_sent (c_link c) \<and>
    dbe_system d = Some (sm_system (c_managers c ! h)) \<and> dbe_type d = PING \<and>
    length (dbe_payload d) = 6 + 4 * length (c_managers c) \<and>
    unsplat_from_4bytes (take 4 (dbe_payload d)) = ucast (c_clock c (c_ticks c)) \<and>
    dbe_payload d ! 5 = word_of_nat (sm_counter (c_managers c ! j)) \<and>
    health_entries (drop 6 (dbe_payload d)) =
      map (\<lambda>sm. (sys_hex (sm_system sm), system_state_code (sm_system_state sm), sm_errors sm)) (c_managers c)"
proof -
  obtain d where d: "send_global_health c = Some (Inr (), c\<lparr>c_ticks := c_ticks c + 1,
      c_link := (c_link c)\<lparr>m_downlink := m_downlink (c_link c) @ [d]\<rparr>\<rparr>)"
    "dbe_payload d = health_packet (c_clock c (c_ticks c)) (sm_counter (c_managers c ! j)) (c_managers c)"
    "dbe_system d = Some (sm_system (c_managers c ! h))" "dbe_type d = PING"
    using report_queued [OF assms] by blast
  then show ?thesis
    unfolding d(1) by (intro exI [of _ d] exI [of _ "c\<lparr>c_ticks := c_ticks c + 1,
        c_link := (c_link c)\<lparr>m_downlink := m_downlink (c_link c) @ [d]\<rparr>\<rparr>"])
      (simp add: health_packet_parts unsplat_be_bytes health_entries_concat del: be_bytes_numeral)
qed

lemma health_report_roundtrip_witness:
  "\<exists>d c'. send_global_health example_after = Some (Inr (), c') \<and> m_downlink (c_link c') = [d] \<and>
    length (dbe_payload d) = 42"
proof -
  from example_ground obtain e where "sys_ethernet (get_sys_for_name ''gse'' (m_deck (c_link example_after))) = Some e"
    "50 \<le> dl_max_payload_size e" "dl_max_payload_size e < 2 ^ 62" by blast
  from health_report_roundtrip [of example_after 8 7, OF _ _ this(1) _ this(3)] this(2) example_names
    example_managers(4) example_found(8) example_state(3)
  show ?thesis by (auto simp: example_after_def circle_example_def ground_machine_def machine_example_def)
qed

end
