(* ===== verification/Line_Interface.thy ===== *)
theory Line_Interface
  imports Commands
begin

text \<open>
  \<open>src/LineInterface.cpp\<close>: the configuration of the program from its command line and a JSON file of systems.

  The parsed options and the parsed document are arguments. A JSON object is what the typed accesses of the code find
  in it: \<open>at(key).get<T>()\<close> is a partial map for each kind of \<open>T\<close> (texts, integers, byte lists), \<open>None\<close> where the
  library throws, and a missing or null member is \<open>None\<close>. Integers are converted to the width of \<open>T\<close> modulo its
  range. The times of the \<open>timing\<close> object pass through \<open>double\<close>; they are given as the milliseconds that
  \<open>add_times_seconds\<close> computes. Hash maps keyed by \<open>System\<close> are association lists on which \<open>System\<close>'s equality
  (that of the identifiers) decides. Console output is not modelled.
\<close>

section \<open>Endpoints\<close>

record endpoint_data =
  ep_address :: string
  ep_protocol :: string
  ep_port :: u16

definition EndpointData :: "string \<Rightarrow> string \<Rightarrow> u16 \<Rightarrow> endpoint_data" where
  "EndpointData ip prot pt = \<lparr>ep_address = ip, ep_protocol = prot, ep_port = pt\<rparr>"

definition EndpointData_default :: endpoint_data where
  "EndpointData_default = \<lparr>ep_address = '''', ep_protocol = '''', ep_port = 0\<rparr>"

definition endpoint_eq :: "endpoint_data \<Rightarrow> endpoint_data \<Rightarrow> bool" where
  "endpoint_eq this other \<longleftrightarrow> ep_address this = ep_address other \<and> ep_protocol this = ep_protocol other
     \<and> ep_port this = ep_port other"

definition endpoint_as_string :: "endpoint_data \<Rightarrow> string" where
  "endpoint_as_string e = ''('' @ ep_protocol e @ '')'' @ ep_address e @ '':'' @ dec_string (unat (ep_port e))"

section \<open>The document\<close>

record node =
  nd_text :: "string \<rightharpoonup> string"
  nd_number :: "string \<rightharpoonup> int"
  nd_bytes :: "string \<rightharpoonup> bytes"
  nd_rings :: "(string \<times> entry) list option"   \<comment> \<open>the items of \<open>ring_buffer_interface\<close>\<close>

record system_entry =
  en_name :: "string option"
  en_hex :: "string option"
  en_command_type :: "string option"
  en_commands :: "string option"
  en_ethernet :: "node option"
  en_spacewire :: "node option"
  en_spi_commands :: "string option"
  en_uart :: "node option"
  en_times :: "string \<rightharpoonup> u32"   \<comment> \<open>the numbers of \<open>timing\<close>, converted\<close>

definition text_at :: "node \<Rightarrow> string \<Rightarrow> string result" where
  "text_at nd key = option_at (nd_text nd key)"

definition number_at :: "node \<Rightarrow> string \<Rightarrow> int result" where
  "number_at nd key = option_at (nd_number nd key)"

definition bytes_at :: "node \<Rightarrow> string \<Rightarrow> bytes result" where
  "bytes_at nd key = option_at (nd_bytes nd key)"

definition size_at :: "node \<Rightarrow> string \<Rightarrow> nat result" where
  "size_at nd key = bindR (number_at nd key) (\<lambda>n. Inr (nat (n mod 2 ^ 64)))"

definition word_at :: "node \<Rightarrow> string \<Rightarrow> 'a::len word result" where
  "word_at nd key = bindR (number_at nd key) (\<lambda>n. Inr (word_of_int n))"

definition byte_at :: "node \<Rightarrow> string \<Rightarrow> u8 result" where
  "byte_at nd key = bindR (text_at nd key) (\<lambda>s. Inr (string_to_byte s))"

text \<open>\<open>try { x } catch (std::exception\<close> \<open>&) { y }\<close> around accesses to the document.\<close>

definition or_else :: "'a result \<Rightarrow> 'a \<Rightarrow> 'a" where
  "or_else r y = (case r of Inl _ \<Rightarrow> y | Inr x \<Rightarrow> x)"

section \<open>Ring buffers\<close>

definition ring_of_entry :: "string \<Rightarrow> entry \<Rightarrow> ring_buffer_parameters result" where
  "ring_of_entry type_name e =
     bindR (option_at (e ''ring_frame_size_bytes'')) (\<lambda>frame_size.
     bindR (option_at (e ''ring_start_address'')) (\<lambda>start.
     bindR (option_at (e ''frames_per_ring'')) (\<lambda>frames.
     bindR (option_at (e ''ring_write_pointer_address'')) (\<lambda>pointer.
     bindR (option_at (e ''ring_write_pointer_width'')) (\<lambda>width.
     bindR (option_at (ring_of_name type_name)) (\<lambda>t.
       Inr (RingBufferParameters (strtoul16 frame_size) (word_of_nat (strtoul16 start)) (strtoul16 frames)
         (word_of_nat (strtoul16 pointer)) (strtoul16 width) t)))))))"

text \<open>\<open>emplace\<close> keeps parameters that are there.\<close>

definition emplace_ring :: "ring_buffer_parameters \<Rightarrow> system \<Rightarrow> system" where
  "emplace_ring r sys =
     (if map_of (sys_ring_params sys) (rb_type r) = None
      then sys\<lparr>sys_ring_params := sys_ring_params sys @ [(rb_type r, r)]\<rparr> else sys)"

fun add_rings :: "(string \<times> entry) list \<Rightarrow> system \<Rightarrow> bool \<times> system" where
  "add_rings [] sys = (True, sys)"
| "add_rings ((name, e) # rest) sys =
     (case ring_of_entry name e of
        Inl _ \<Rightarrow> (False, sys)
      | Inr r \<Rightarrow> add_rings rest (emplace_ring r sys))"

definition add_ring_buffers_to_system :: "node \<Rightarrow> system \<Rightarrow> bool \<times> system" where
  "add_ring_buffers_to_system nd sys =
     (case nd_rings nd of None \<Rightarrow> (False, sys) | Some items \<Rightarrow> add_rings items sys)"

section \<open>The interfaces of a system\<close>

text \<open>The result is the system and, when the entry gives only an address, the new local address.\<close>

definition ethernet_of_node :: "bool \<Rightarrow> string \<Rightarrow> node \<Rightarrow> ethernet result" where
  "ethernet_of_node commanded address nd =
     bindR (word_at nd ''port'') (\<lambda>port.
     bindR (text_at nd ''protocol'') (\<lambda>protocol.
     bindR (if commanded then word_at nd ''mean_speed_bps'' else Inr 0) (\<lambda>speed.
     bindR (size_at nd ''max_payload_bytes'') (\<lambda>payload.
     bindR (if commanded then size_at nd ''frame_size_bytes'' else Inr 0) (\<lambda>frame.
     bindR (if commanded then size_at nd ''static_header_size'' else Inr 0) (\<lambda>header.
     bindR (if commanded then size_at nd ''static_footer_size'' else Inr 0) (\<lambda>footer.
       Inr (Ethernet_static_text address port protocol speed payload frame header footer))))))))"

definition add_ethernet :: "node option \<Rightarrow> system \<Rightarrow> system \<times> string option" where
  "add_ethernet interface sys =
     (case interface of
        None \<Rightarrow> (sys, None)
      | Some nd \<Rightarrow>
         (case text_at nd ''address'' of
            Inl _ \<Rightarrow> (sys, None)
          | Inr own \<Rightarrow>
              let address = or_else (text_at nd ''mcast_group'') own;
                  commanded = (sys_type sys = CMD_ETHERNET);
                  (sys, local_address) =
                    (case ethernet_of_node commanded address nd of
                       Inr e \<Rightarrow> (sys\<lparr>sys_ethernet := Some e\<rparr>, None)
                     | Inl _ \<Rightarrow> (sys, if commanded then None else Some address))
              in (snd (add_ring_buffers_to_system nd sys), local_address)))"

text \<open>The draft of the checksum: the first character of a text (the null character of an empty one) for a commanded
  system, a number for another one.\<close>

definition spacewire_of_node :: "bool \<Rightarrow> node \<Rightarrow> spacewire result" where
  "spacewire_of_node commanded nd =
     bindR (bytes_at nd ''target_path_address'') (\<lambda>target_path.
     bindR (bytes_at nd ''reply_path_address'') (\<lambda>reply_path.
     bindR (byte_at nd ''target_logical_address'') (\<lambda>target.
     bindR (byte_at nd ''source_logical_address'') (\<lambda>source.
     bindR (byte_at nd ''key'') (\<lambda>key.
     bindR (if commanded then bindR (text_at nd ''crc_draft'') (\<lambda>s. Inr (case s of [] \<Rightarrow> CHR 0x00 | c # _ \<Rightarrow> c))
            else bindR (number_at nd ''crc_draft'') (\<lambda>n. Inr (char_of n))) (\<lambda>crc.
     bindR (if commanded then word_at nd ''mean_speed_bps'' else Inr 0) (\<lambda>speed.
     bindR (size_at nd ''max_payload_bytes'') (\<lambda>payload.
     bindR (if commanded then size_at nd ''static_header_size'' else Inr 0) (\<lambda>header.
     bindR (if commanded then size_at nd ''static_footer_size'' else Inr 0) (\<lambda>footer.
       Inr (SpaceWire_static target_path reply_path target source key crc speed payload 0 header footer)))))))))))"

definition add_spacewire :: "node option \<Rightarrow> system \<Rightarrow> system" where
  "add_spacewire interface sys =
     (case interface of
        None \<Rightarrow> sys
      | Some nd \<Rightarrow>
         (case spacewire_of_node (sys_type sys = CMD_SPW) nd of
            Inl _ \<Rightarrow> sys
          | Inr spw \<Rightarrow> snd (add_ring_buffers_to_system nd (sys\<lparr>sys_spacewire := Some spw\<rparr>))))"

definition uart_of_node :: "bool \<Rightarrow> node \<Rightarrow> uart result" where
  "uart_of_node full nd =
     bindR (text_at nd ''tty_path'') (\<lambda>tty.
     bindR (word_at nd ''baud_rate'') (\<lambda>baud.
     bindR (word_at nd ''parity_bits'') (\<lambda>parity.
     bindR (word_at nd ''stop_bits'') (\<lambda>stop.
     bindR (word_at nd ''data_bits'') (\<lambda>data.
     bindR (if full then word_at nd ''mean_speed_bps'' else Inr 0) (\<lambda>speed.
     bindR (size_at nd ''max_payload_bytes'') (\<lambda>payload.
     bindR (if full then size_at nd ''frame_size'' else Inr 0) (\<lambda>frame.
     bindR (if full then size_at nd ''static_header_size'' else Inr 0) (\<lambda>header.
     bindR (if full then size_at nd ''static_footer_size'' else Inr 0) (\<lambda>footer.
       Inr (UART_static tty baud parity stop data speed payload frame header footer)))))))))))"

definition set_uart :: "uart result \<Rightarrow> system \<Rightarrow> system" where
  "set_uart r sys = (case r of Inl _ \<Rightarrow> sys | Inr u \<Rightarrow> sys\<lparr>sys_uart := Some u\<rparr>)"

definition add_uart :: "node option \<Rightarrow> system \<Rightarrow> system" where
  "add_uart interface sys =
     (case interface of
        None \<Rightarrow> sys
      | Some nd \<Rightarrow>
          snd (add_ring_buffers_to_system nd
            (if sys_type sys = CMD_UART \<or> sys_type sys = CMD_NONE
             then set_uart (uart_of_node False nd) (set_uart (uart_of_node True nd) sys)
             else sys)))"

section \<open>The configuration\<close>

text \<open>Timing information is only stored when all its members are there; a division by the sum 0 is undefined.\<close>

definition timing_of :: "(string \<rightharpoonup> u32) \<Rightarrow> timing option result" where
  "timing_of numbers =
     (case (numbers ''total_allocation'', numbers ''command'', numbers ''request'', numbers ''reply'', numbers ''idle'') of
        (Some allocation, Some command, Some request, Some reply, Some idle) \<Rightarrow>
          bindR (add_times_seconds allocation command request reply idle (Timing_default 0 0)) (\<lambda>t.
          Inr (case (numbers ''receive_timeout_millis'', numbers ''retry_max_count'', numbers ''intercommand_spacing_millis'') of
             (Some timeout, Some retry, Some spacing) \<Rightarrow> Some (t\<lparr>tm_timeout_millis := timeout,
               tm_retry_max_count := retry, tm_intercommand_space_millis := spacing\<rparr>)
           | _ \<Rightarrow> None))
      | _ \<Rightarrow> Inr None)"

definition command_type_of :: "string \<Rightarrow> command_type \<Rightarrow> command_type" where
  "command_type_of cmd previous =
     (if cmd = ''ethernet'' then CMD_ETHERNET else if cmd = ''spacewire'' then CMD_SPW
      else if cmd = ''uart'' then CMD_UART else previous)"

text \<open>\<open>insert\<close> into a hash map keyed by systems.\<close>

definition insert_for_system :: "system \<Rightarrow> 'v \<Rightarrow> (system \<times> 'v) list \<Rightarrow> (system \<times> 'v) list" where
  "insert_for_system sys v m = (if \<exists>(s, _) \<in> set m. system_eq s sys then m else m @ [(sys, v)])"

record line_interface =
  li_version :: string
  li_systems :: "system list"
  li_lookup_timing :: "(system \<times> timing) list"
  li_lookup_command_file :: "(system \<times> string) list"
  li_unique_endpoints :: "ethernet list"
  li_local_endpoints :: "ethernet list"
  li_local_address :: string
  li_do_uart :: bool
  li_do_verbose :: bool
  li_test_system_name :: string
  li_command_deck :: command_deck

text \<open>The command type and file of an entry; the file is stored under the system as it is at that point.\<close>

definition add_command_file :: "system_entry \<Rightarrow> system \<Rightarrow> (system \<times> string) list \<Rightarrow> system \<times> (system \<times> string) list" where
  "add_command_file en sys lookup =
     (case en_command_type en of
        None \<Rightarrow> (sys\<lparr>sys_type := CMD_NONE\<rparr>, lookup)
      | Some cmd \<Rightarrow>
          let sys = sys\<lparr>sys_type := command_type_of cmd (sys_type sys)\<rparr>
          in (sys, case en_commands en of None \<Rightarrow> lookup | Some file \<Rightarrow> insert_for_system sys file lookup))"

definition load_system :: "system_entry \<Rightarrow> line_interface \<Rightarrow> line_interface result" where
  "load_system en li =
     (case (en_name en, en_hex en) of
        (Some name, Some hex) \<Rightarrow>
          let sys = (System_named name (string_to_byte hex))\<lparr>sys_type := CMD_NONE\<rparr>;
              (sys, files) = add_command_file en sys (li_lookup_command_file li);
              (sys, local_address) = add_ethernet (en_ethernet en) sys;
              sys = add_spacewire (en_spacewire en) sys;
              files = (case en_spi_commands en of None \<Rightarrow> files | Some file \<Rightarrow> insert_for_system sys file files);
              sys = add_uart (en_uart en) sys
          in bindR (timing_of (en_times en)) (\<lambda>t. Inr (li\<lparr>
               li_systems := li_systems li @ [sys],
               li_lookup_timing := (case t of None \<Rightarrow> li_lookup_timing li
                  | Some t \<Rightarrow> insert_for_system sys t (li_lookup_timing li)),
               li_lookup_command_file := files,
               li_local_address := (case local_address of None \<Rightarrow> li_local_address li | Some a \<Rightarrow> a)\<rparr>))
      | _ \<Rightarrow> Inl (Thrown ''type_error''))"

fun load_systems :: "system_entry list \<Rightarrow> line_interface \<Rightarrow> line_interface result" where
  "load_systems [] li = Inr li"
| "load_systems (en # entries) li = bindR (load_system en li) (load_systems entries)"

text \<open>The endpoints, each once; \<open>is_uniq\<close> is computed over the whole list.\<close>

fun collapse_endpoints :: "system list \<Rightarrow> ethernet list \<Rightarrow> ethernet list" where
  "collapse_endpoints [] uniq = uniq"
| "collapse_endpoints (sys # systems) uniq = collapse_endpoints systems
     (case sys_ethernet sys of
        None \<Rightarrow> uniq
      | Some e \<Rightarrow>
          if 0 < length uniq then (if list_all (\<lambda>u. \<not> is_same_endpoint e u) uniq then uniq @ [e] else uniq)
          else uniq @ [e])"

definition build_local_endpoints :: "string \<Rightarrow> ethernet list \<Rightarrow> ethernet list" where
  "build_local_endpoints local_address unique = map (\<lambda>e. e\<lparr>eth_address := local_address\<rparr>) unique"

record options =
  op_help :: bool
  op_version :: bool
  op_verbose :: bool
  op_uart :: bool
  op_config :: "string option"
  op_system :: "string option"

text \<open>The constructor. The result \<open>None\<close> is the exit of the process after the help or the version; without a
  configuration file the parser throws. The flag for verbose output is not initialised without its option: then it is
  the argument \<open>verbose\<close>.\<close>

definition LineInterface ::
    "bool \<Rightarrow> command \<Rightarrow> (string \<rightharpoonup> system_entry list) \<Rightarrow> (string \<Rightarrow> entry list option) \<Rightarrow> options
      \<Rightarrow> line_interface option result" where
  "LineInterface verbose mem configs files opts =
     (if op_help opts \<or> op_version opts then Inr None
      else case Option.bind (op_config opts) configs of
        None \<Rightarrow> Inl (Thrown ''parse_error'')
      | Some entries \<Rightarrow>
          bindR (load_systems entries \<lparr>
              li_version = ''1.2.2'', li_systems = [], li_lookup_timing = [], li_lookup_command_file = [],
              li_unique_endpoints = [], li_local_endpoints = [], li_local_address = [],
              li_do_uart = op_uart opts, li_do_verbose = (op_verbose opts \<or> verbose),
              li_test_system_name = (case op_system opts of None \<Rightarrow> [] | Some name \<Rightarrow> name),
              li_command_deck = CommandDeck_default\<rparr>) (\<lambda>li.
          let unique = collapse_endpoints (li_systems li) []
          in bindR (CommandDeck files mem (li_systems li) (li_lookup_command_file li)) (\<lambda>deck.
             Inr (Some (li\<lparr>
               li_unique_endpoints := unique,
               li_local_endpoints := build_local_endpoints (li_local_address li) unique,
               li_command_deck := deck\<rparr>)))))"

definition get_command_deck :: "line_interface \<Rightarrow> command_deck" where
  "get_command_deck li = li_command_deck li"

definition get_test_system_name :: "line_interface \<Rightarrow> string" where
  "get_test_system_name li = li_test_system_name li"

section \<open>What loading an entry leaves\<close>

definition identity :: "system \<Rightarrow> string \<times> u8" where
  "identity sys = (sys_name sys, sys_hex sys)"

lemma add_rings_same [simp]:
  "identity (snd (add_rings items sys)) = identity sys" "sys_uart (snd (add_rings items sys)) = sys_uart sys"
  by (induction items sys rule: add_rings.induct) (auto simp: emplace_ring_def identity_def split: sum.split)

lemma add_ring_buffers_same [simp]:
  "identity (snd (add_ring_buffers_to_system nd sys)) = identity sys"
  "sys_uart (snd (add_ring_buffers_to_system nd sys)) = sys_uart sys"
  by (simp_all add: add_ring_buffers_to_system_def split: option.split)

lemma add_ethernet_same [simp]:
  "identity (fst (add_ethernet interface sys)) = identity sys" "sys_uart (fst (add_ethernet interface sys)) = sys_uart sys"
  by (simp_all add: add_ethernet_def Let_def split: option.split sum.split) (simp_all add: identity_def)

lemma add_spacewire_same [simp]:
  "identity (add_spacewire interface sys) = identity sys" "sys_uart (add_spacewire interface sys) = sys_uart sys"
  by (simp_all add: add_spacewire_def split: option.split sum.split) (simp_all add: identity_def)

lemma add_uart_same [simp]: "identity (add_uart interface sys) = identity sys"
  by (simp add: add_uart_def set_uart_def split: option.split sum.split) (simp add: identity_def)

lemma add_command_file_same [simp]:
  "identity (fst (add_command_file en sys files)) = identity sys" "sys_uart (fst (add_command_file en sys files)) = sys_uart sys"
  by (simp_all add: add_command_file_def identity_def Let_def split: option.split)

text \<open>The second UART of \<open>add_uart\<close> replaces the first, so that no UART keeps its speed or frame sizes.\<close>

definition reduced_uart :: "uart \<Rightarrow> bool" where
  "reduced_uart u \<longleftrightarrow> dl_mean_speed_bps u = 0 \<and> dl_frame_size u = 0 \<and> dl_static_header_size u = 0 \<and> dl_static_footer_size u = 0"

lemma uart_of_node_reduced: "uart_of_node False nd = Inr u \<Longrightarrow> reduced_uart u"
  by (auto simp: uart_of_node_def bindR_eq_Inr reduced_uart_def UART_static_def DataLinkLayer_static_def link_defs)

lemma uart_of_node_both: "uart_of_node True nd = Inr u \<Longrightarrow> \<exists>u'. uart_of_node False nd = Inr u'"
  by (auto simp: uart_of_node_def bindR_eq_Inr)

lemma add_uart_reduced:
  assumes "sys_uart sys = None" and "sys_uart (add_uart interface sys) = Some u"
  shows "reduced_uart u"
proof (cases interface)
  case None
  with assms show ?thesis by (simp add: add_uart_def)
next
  case (Some nd)
  with assms show ?thesis
    using uart_of_node_reduced [of nd] uart_of_node_both [of nd]
    by (auto simp: add_uart_def set_uart_def split: sum.splits if_splits)
qed

definition keys_distinct :: "(system \<times> 'v) list \<Rightarrow> bool" where
  "keys_distinct m \<longleftrightarrow> distinct (map (sys_hex \<circ> fst) m)"

lemma insert_for_system_distinct: "keys_distinct m \<Longrightarrow> keys_distinct (insert_for_system sys v m)"
  by (auto simp: keys_distinct_def insert_for_system_def system_eq_def split: prod.splits)

lemma add_command_file_distinct: "keys_distinct files \<Longrightarrow> keys_distinct (snd (add_command_file en sys files))"
  using insert_for_system_distinct by (auto simp: add_command_file_def Let_def split: option.split)

lemma load_system_adds:
  assumes "load_system en li = Inr li'" and "keys_distinct (li_lookup_command_file li)"
  shows "\<exists>sys. li_systems li' = li_systems li @ [sys] \<and> en_name en = Some (sys_name sys) \<and>
    map_option string_to_byte (en_hex en) = Some (sys_hex sys) \<and> (\<forall>u. sys_uart sys = Some u \<longrightarrow> reduced_uart u)"
    and "keys_distinct (li_lookup_command_file li')"
proof -
  from assms(1) obtain name hex where en: "en_name en = Some name" "en_hex en = Some hex"
    by (auto simp: load_system_def split: option.splits)
  let ?base = "(System_named name (string_to_byte hex))\<lparr>sys_type := CMD_NONE\<rparr>"
  obtain sys1 files where c: "add_command_file en ?base (li_lookup_command_file li) = (sys1, files)" by (cases "add_command_file en ?base (li_lookup_command_file li)")
  obtain sys2 addr where e: "add_ethernet (en_ethernet en) sys1 = (sys2, addr)" by (cases "add_ethernet (en_ethernet en) sys1")
  let ?mid = "add_spacewire (en_spacewire en) sys2" and ?final = "add_uart (en_uart en) (add_spacewire (en_spacewire en) sys2)"
  let ?files = "case en_spi_commands en of None \<Rightarrow> files | Some file \<Rightarrow> insert_for_system ?mid file files"
  have li': "li_systems li' = li_systems li @ [?final]" "li_lookup_command_file li' = ?files"
    using assms(1) en c e by (auto simp: load_system_def bindR_eq_Inr Let_def)
  have one: "identity sys1 = identity ?base" "sys_uart sys1 = sys_uart ?base"
    using add_command_file_same [of en ?base "li_lookup_command_file li"] unfolding c fst_conv .
  have two: "identity sys2 = identity sys1" "sys_uart sys2 = sys_uart sys1"
    using add_ethernet_same [of "en_ethernet en" sys1] unfolding e fst_conv .
  have "identity ?final = identity ?base"
    by (simp only: add_uart_same add_spacewire_same two one)
  moreover have "sys_uart ?mid = None"
    by (simp only: add_spacewire_same two one) (simp add: System_named_def)
  ultimately have "identity ?final = identity ?base" "sys_uart ?mid = None" .
  then show "\<exists>sys. li_systems li' = li_systems li @ [sys] \<and> en_name en = Some (sys_name sys) \<and>
      map_option string_to_byte (en_hex en) = Some (sys_hex sys) \<and> (\<forall>u. sys_uart sys = Some u \<longrightarrow> reduced_uart u)"
    using en li'(1) add_uart_reduced [of ?mid "en_uart en"]
    by (intro exI [of _ ?final]) (simp add: identity_def System_named_def)
  have "keys_distinct files" using add_command_file_distinct [OF assms(2), of en ?base] c by simp
  then show "keys_distinct (li_lookup_command_file li')"
    using insert_for_system_distinct by (auto simp: li'(2) split: option.split)
qed

definition describes :: "system_entry \<Rightarrow> system \<Rightarrow> bool" where
  "describes en sys \<longleftrightarrow> en_name en = Some (sys_name sys) \<and> map_option string_to_byte (en_hex en) = Some (sys_hex sys) \<and>
     (\<forall>u. sys_uart sys = Some u \<longrightarrow> reduced_uart u)"

lemma load_systems_adds:
  "load_systems entries li = Inr li' \<Longrightarrow> keys_distinct (li_lookup_command_file li) \<Longrightarrow>
   (\<exists>ss. li_systems li' = li_systems li @ ss \<and> list_all2 describes entries ss) \<and> keys_distinct (li_lookup_command_file li')"
proof (induction entries arbitrary: li)
  case (Cons en entries)
  then obtain li1 where li1: "load_system en li = Inr li1" "load_systems entries li1 = Inr li'" by (auto simp: bindR_eq_Inr)
  from load_system_adds [OF li1(1) Cons.prems(2)] obtain sys where
    sys: "li_systems li1 = li_systems li @ [sys]" "describes en sys" "keys_distinct (li_lookup_command_file li1)"
    unfolding describes_def by blast
  from Cons.IH [OF li1(2) sys(3)] obtain ss where "li_systems li' = li_systems li1 @ ss" "list_all2 describes entries ss"
    "keys_distinct (li_lookup_command_file li')" by blast
  with sys show ?case by (intro conjI exI [of _ "sys # ss"]) simp_all
qed simp

section \<open>Endpoints once\<close>

definition endpoint_key :: "ethernet \<Rightarrow> string \<times> u16 \<times> transport_protocol" where
  "endpoint_key e = (eth_address e, eth_port e, eth_protocol e)"

lemma is_same_endpoint_key: "is_same_endpoint a b \<longleftrightarrow> endpoint_key a = endpoint_key b"
  by (auto simp: is_same_endpoint_def endpoint_key_def)

fun ethernets_of :: "system list \<Rightarrow> ethernet list" where
  "ethernets_of [] = []"
| "ethernets_of (s # ss) = (case sys_ethernet s of None \<Rightarrow> ethernets_of ss | Some e \<Rightarrow> e # ethernets_of ss)"

lemma collapse_keys:
  "distinct (map endpoint_key uniq) \<Longrightarrow>
   distinct (map endpoint_key (collapse_endpoints systems uniq)) \<and>
   set (collapse_endpoints systems uniq) \<subseteq> set uniq \<union> set (ethernets_of systems) \<and>
   endpoint_key ` set (collapse_endpoints systems uniq) = endpoint_key ` (set uniq \<union> set (ethernets_of systems))"
proof (induction systems uniq rule: collapse_endpoints.induct)
  case (2 sys systems uniq)
  let ?uniq = "case sys_ethernet sys of None \<Rightarrow> uniq | Some e \<Rightarrow>
    if 0 < length uniq then (if list_all (\<lambda>u. \<not> is_same_endpoint e u) uniq then uniq @ [e] else uniq) else uniq @ [e]"
  have next_uniq: "distinct (map endpoint_key ?uniq)" "set ?uniq \<subseteq> set uniq \<union> set (ethernets_of [sys])"
    "endpoint_key ` set ?uniq = endpoint_key ` (set uniq \<union> set (ethernets_of [sys]))"
    using "2.prems" by (auto simp: list_all_iff is_same_endpoint_key image_iff split: option.splits)
  have "set (ethernets_of (sys # systems)) = set (ethernets_of [sys]) \<union> set (ethernets_of systems)"
    by (simp split: option.split)
  with "2.IH" [OF next_uniq(1)] next_uniq(2,3) show ?case
    by (auto simp: image_Un simp del: ethernets_of.simps)
qed simp

section \<open>The command files\<close>

lemma load_entries_systems: "load_entries mem sys es deck = Inr deck' \<Longrightarrow> deck_systems deck' = deck_systems deck"
proof -
  assume "load_entries mem sys es deck = Inr deck'"
  then obtain kcs where "deck' = foldl (\<lambda>m (k, c). insert_command (sys_hex sys) k c m) deck kcs"
    by (auto simp: load_entries_parsed bindR_eq_Inr)
  then show ?thesis by (induction kcs arbitrary: deck) auto
qed

lemma load_files_systems: "load_files files mem paths deck = Inr deck' \<Longrightarrow> deck_systems deck' = deck_systems deck"
proof (induction paths arbitrary: deck)
  case (Cons p paths)
  then show ?case
    using load_entries_systems by (cases p) (fastforce simp: bindR_eq_Inr split: option.splits)
qed simp

text \<open>The commands of the systems in the table, when each system has one file.\<close>

definition file_commands :: "(string \<Rightarrow> entry list option) \<Rightarrow> command \<Rightarrow> (system \<times> string) list \<Rightarrow> u8 \<Rightarrow> u8 \<Rightarrow> command option" where
  "file_commands files mem paths h k =
     (case List.find (\<lambda>p. sys_hex (fst p) = h) paths of
        None \<Rightarrow> None
      | Some (sys, path) \<Rightarrow> (case files path of
          None \<Rightarrow> None
        | Some es \<Rightarrow> (case parse_entries mem sys es of Inl _ \<Rightarrow> None | Inr kcs \<Rightarrow> map_of kcs k)))"

lemma load_files_commands:
  "load_files files mem paths deck = Inr deck' \<Longrightarrow> keys_distinct paths \<Longrightarrow>
   find_command deck' (h, k) = (case find_command deck (h, k) of Some c \<Rightarrow> Some c | None \<Rightarrow> file_commands files mem paths h k)"
proof (induction paths arbitrary: deck)
  case Nil
  then show ?case by (simp add: file_commands_def split: option.split)
next
  case (Cons p paths)
  obtain sys path where p: "p = (sys, path)" by (cases p)
  have rest: "sys_hex (fst q) \<noteq> sys_hex sys" if "q \<in> set paths" for q
  proof -
    have "sys_hex (fst q) \<in> set (map (sys_hex \<circ> fst) paths)" using that by auto
    moreover have "sys_hex sys \<notin> set (map (sys_hex \<circ> fst) paths)" using Cons.prems(2) by (simp add: p keys_distinct_def)
    ultimately show ?thesis by metis
  qed
  have distinct: "keys_distinct paths" using Cons.prems(2) by (simp add: keys_distinct_def)
  have none: "file_commands files mem paths (sys_hex sys) k = None"
  proof -
    have "List.find (\<lambda>q. sys_hex (fst q) = sys_hex sys) paths = None" using rest by (auto simp: find_None_iff)
    then show ?thesis by (simp add: file_commands_def)
  qed
  show ?case
  proof (cases "files path")
    case None
    with Cons.IH [of deck] Cons.prems(1) distinct none show ?thesis
      by (auto simp: p file_commands_def split: option.split)
  next
    case (Some es)
    then obtain deck1 where d1: "load_entries mem sys es deck = Inr deck1" "load_files files mem paths deck1 = Inr deck'"
      using Cons.prems(1) by (auto simp: p bindR_eq_Inr)
    then obtain kcs where kcs: "parse_entries mem sys es = Inr kcs"
      and "deck1 = foldl (\<lambda>m (k, c). insert_command (sys_hex sys) k c m) deck kcs"
      by (auto simp: load_entries_parsed bindR_eq_Inr)
    then have "find_command deck1 (h, k) = (case find_command deck (h, k) of
        None \<Rightarrow> if h = sys_hex sys then map_of kcs k else None | Some c \<Rightarrow> Some c)"
      by (simp add: find_command_inserts)
    with Cons.IH [OF d1(2) distinct] Some kcs none show ?thesis
      by (cases "h = sys_hex sys") (auto simp: p file_commands_def split: option.split)
  qed
qed

lemma load_files_parses:
  "load_files files mem paths deck = Inr deck' \<Longrightarrow> (sys, path) \<in> set paths \<Longrightarrow> files path = Some es \<Longrightarrow>
   \<exists>kcs. parse_entries mem sys es = Inr kcs"
proof (induction paths arbitrary: deck)
  case (Cons p paths)
  then show ?case
    by (cases p) (auto simp: bindR_eq_Inr load_entries_parsed split: option.splits)
qed simp

lemma find_key:
  assumes "keys_distinct paths" and "(sys, path) \<in> set paths"
  shows "List.find (\<lambda>p. sys_hex (fst p) = sys_hex sys) paths = Some (sys, path)"
  using assms
proof (induction paths)
  case (Cons p paths)
  show ?case
  proof (cases "p = (sys, path)")
    case False
    then have later: "(sys, path) \<in> set paths" using Cons.prems by auto
    then have "sys_hex (fst p) \<noteq> sys_hex sys" using Cons.prems(1) by (force simp: keys_distinct_def)
    then show ?thesis using Cons.IH later Cons.prems(1) by (simp add: keys_distinct_def)
  qed simp
qed simp

lemma line_interface_loads:
  assumes "LineInterface verbose mem configs files opts = Inr (Some li)"
  obtains entries li0 li1 deck where "Option.bind (op_config opts) configs = Some entries"
    "li_systems li0 = []" "li_lookup_command_file li0 = []" "load_systems entries li0 = Inr li1"
    "CommandDeck files mem (li_systems li1) (li_lookup_command_file li1) = Inr deck"
    "li = li1\<lparr>li_unique_endpoints := collapse_endpoints (li_systems li1) [],
      li_local_endpoints := build_local_endpoints (li_local_address li1) (collapse_endpoints (li_systems li1) []),
      li_command_deck := deck\<rparr>"
proof -
  from assms obtain entries where entries: "Option.bind (op_config opts) configs = Some entries"
    by (auto simp: LineInterface_def split: if_splits option.splits)
  obtain li0 where li0: "li_systems li0 = []" "li_lookup_command_file li0 = []"
    and run: "bindR (load_systems entries li0) (\<lambda>li1.
        let unique = collapse_endpoints (li_systems li1) []
        in bindR (CommandDeck files mem (li_systems li1) (li_lookup_command_file li1)) (\<lambda>deck.
           Inr (Some (li1\<lparr>li_unique_endpoints := unique,
             li_local_endpoints := build_local_endpoints (li_local_address li1) unique, li_command_deck := deck\<rparr>))))
      = Inr (Some li)"
    using assms unfolding LineInterface_def entries option.case
    by (auto simp del: bindR_eq_Inr split: if_splits intro: that [rotated 2])
  from run obtain li1 deck where "load_systems entries li0 = Inr li1"
    "CommandDeck files mem (li_systems li1) (li_lookup_command_file li1) = Inr deck"
    "li = li1\<lparr>li_unique_endpoints := collapse_endpoints (li_systems li1) [],
      li_local_endpoints := build_local_endpoints (li_local_address li1) (collapse_endpoints (li_systems li1) []),
      li_command_deck := deck\<rparr>"
    by (auto simp: bindR_eq_Inr Let_def)
  from that [OF entries li0 this] show thesis .
qed

section \<open>Properties\<close>

text \<open>C22. What a configuration gives. The systems are those of the document, in its order, with their names and
  identifiers, and are the systems of the command deck: with distinct identifiers each is found under its own. The
  endpoints are exactly the Ethernet endpoints of the systems, each once, and there is one local endpoint for each,
  at the local address.\<close>

theorem configured_systems:
  assumes "LineInterface verbose mem configs files opts = Inr (Some li)"
  shows "\<exists>entries. Option.bind (op_config opts) configs = Some entries \<and>
    map en_name entries = map (Some \<circ> sys_name) (li_systems li) \<and>
    map (map_option string_to_byte \<circ> en_hex) entries = map (Some \<circ> sys_hex) (li_systems li) \<and>
    deck_systems (get_command_deck li) = li_systems li \<and>
    (distinct (map sys_hex (li_systems li)) \<longrightarrow>
      (\<forall>s \<in> set (li_systems li). get_sys_for_code (sys_hex s) (get_command_deck li) = s)) \<and>
    distinct (map endpoint_key (li_unique_endpoints li)) \<and>
    endpoint_key ` set (li_unique_endpoints li) = endpoint_key ` set (ethernets_of (li_systems li)) \<and>
    map (\<lambda>e. (eth_port e, eth_protocol e)) (li_local_endpoints li) =
      map (\<lambda>e. (eth_port e, eth_protocol e)) (li_unique_endpoints li) \<and>
    (\<forall>e \<in> set (li_local_endpoints li). eth_address e = li_local_address li)"
proof -
  from line_interface_loads [OF assms] obtain entries li0 li1 deck where
    entries: "Option.bind (op_config opts) configs = Some entries"
    and li0: "li_systems li0 = []" "li_lookup_command_file li0 = []" and load: "load_systems entries li0 = Inr li1"
    and c: "CommandDeck files mem (li_systems li1) (li_lookup_command_file li1) = Inr deck"
    "li = li1\<lparr>li_unique_endpoints := collapse_endpoints (li_systems li1) [],
      li_local_endpoints := build_local_endpoints (li_local_address li1) (collapse_endpoints (li_systems li1) []),
      li_command_deck := deck\<rparr>" .
  have "keys_distinct (li_lookup_command_file li0)" by (simp add: li0 keys_distinct_def)
  with load li0 have all: "list_all2 describes entries (li_systems li1)" using load_systems_adds by fastforce
  have names: "map en_name entries = map (Some \<circ> sys_name) (li_systems li1)"
    "map (map_option string_to_byte \<circ> en_hex) entries = map (Some \<circ> sys_hex) (li_systems li1)"
    using all by (induction rule: list_all2_induct) (simp_all add: describes_def)
  have deck: "deck_systems deck = li_systems li1" using load_files_systems [OF c(1) [unfolded CommandDeck_def]] by simp
  have found: "get_sys_for_code (sys_hex s) deck = s" if "distinct (map sys_hex (li_systems li1))" "s \<in> set (li_systems li1)" for s
    using get_sys_for_code_distinct [of deck s] that deck by simp
  have keys: "distinct (map endpoint_key (collapse_endpoints (li_systems li1) []))"
    "endpoint_key ` set (collapse_endpoints (li_systems li1) []) = endpoint_key ` set (ethernets_of (li_systems li1))"
    using collapse_keys [of "[]" "li_systems li1"] by simp_all
  show ?thesis
    using entries names deck found keys
    by (intro exI [of _ entries]) (simp add: c(2) get_command_deck_def build_local_endpoints_def comp_def)
qed

definition node_example :: "(string \<rightharpoonup> string) \<Rightarrow> (string \<rightharpoonup> int) \<Rightarrow> node" where
  "node_example texts numbers = \<lparr>nd_text = texts, nd_number = numbers, nd_bytes = Map.empty, nd_rings = None\<rparr>"

definition uart_entry :: system_entry where
  "uart_entry = \<lparr>en_name = Some ''timepix'', en_hex = Some ''0x0a'', en_command_type = Some ''uart'',
     en_commands = Some ''timepix.json'',
     en_ethernet = Some (node_example (Map.empty(''address'' \<mapsto> ''10.0.0.2'', ''protocol'' \<mapsto> ''tcp''))
       (Map.empty(''port'' \<mapsto> 7777, ''max_payload_bytes'' \<mapsto> 2000))),
     en_spacewire = None, en_spi_commands = None, en_uart = None, en_times = Map.empty\<rparr>"

definition local_entry :: system_entry where
  "local_entry = \<lparr>en_name = Some ''formatter'', en_hex = Some ''0x00'', en_command_type = None, en_commands = None,
     en_ethernet = Some (node_example (Map.empty(''address'' \<mapsto> ''10.0.0.1'')) Map.empty),
     en_spacewire = None, en_spi_commands = None, en_uart = None, en_times = Map.empty\<rparr>"

definition options_example :: options where
  "options_example = \<lparr>op_help = False, op_version = False, op_verbose = False, op_uart = True,
     op_config = Some ''systems.json'', op_system = None\<rparr>"

definition interface_example :: "line_interface option result" where
  "interface_example = LineInterface False null_command
     [''systems.json'' \<mapsto> [uart_entry, local_entry]] [''timepix.json'' \<mapsto> [entry_example 5]] options_example"

lemma interface_example_loads:
  "case interface_example of Inr (Some li) \<Rightarrow> map sys_name (li_systems li) = [''timepix'', ''formatter''] \<and>
     li_local_address li = ''10.0.0.1'' | _ \<Rightarrow> False"
  by code_simp

lemma configured_systems_witness:
  "\<exists>li. interface_example = Inr (Some li) \<and>
    distinct (map endpoint_key (li_unique_endpoints li)) \<and> deck_systems (get_command_deck li) = li_systems li \<and>
    (\<forall>e \<in> set (li_local_endpoints li). eth_address e = ''10.0.0.1'')"
proof -
  obtain li where li: "interface_example = Inr (Some li)" "li_local_address li = ''10.0.0.1''"
    using interface_example_loads by (auto split: sum.splits option.splits)
  from configured_systems [OF li(1) [unfolded interface_example_def]] li show ?thesis by auto
qed

text \<open>C23. The commands of a configuration. A system has at most one command file. When that file can be read, the
  commands found under the system's identifier are exactly those of the file, the first of each code; without a
  readable file every code gives the null command. No system keeps a UART with a speed or with frame, header or footer
  sizes: the description without them replaces the complete one.\<close>

theorem configured_commands:
  assumes "LineInterface verbose mem configs files opts = Inr (Some li)"
  shows "distinct (map (sys_hex \<circ> fst) (li_lookup_command_file li)) \<and>
    (\<forall>(sys, path) \<in> set (li_lookup_command_file li). case files path of
        None \<Rightarrow> \<forall>k. get_command_for_sys_for_code (sys_hex sys) k (get_command_deck li) = null_command
      | Some es \<Rightarrow> \<exists>kcs. parse_entries mem sys es = Inr kcs \<and>
          (\<forall>k. get_command_for_sys_for_code (sys_hex sys) k (get_command_deck li) =
            (case map_of kcs k of None \<Rightarrow> null_command | Some c \<Rightarrow> c))) \<and>
    (\<forall>h k. h \<notin> sys_hex ` fst ` set (li_lookup_command_file li) \<longrightarrow>
      get_command_for_sys_for_code h k (get_command_deck li) = null_command) \<and>
    (\<forall>s \<in> set (li_systems li). \<forall>u. sys_uart s = Some u \<longrightarrow> dl_mean_speed_bps u = 0 \<and> dl_frame_size u = 0 \<and>
      dl_static_header_size u = 0 \<and> dl_static_footer_size u = 0)"
proof -
  from line_interface_loads [OF assms] obtain entries li0 li1 deck where
    li0: "li_systems li0 = []" "li_lookup_command_file li0 = []" and load: "load_systems entries li0 = Inr li1"
    and c: "CommandDeck files mem (li_systems li1) (li_lookup_command_file li1) = Inr deck"
    "li = li1\<lparr>li_unique_endpoints := collapse_endpoints (li_systems li1) [],
      li_local_endpoints := build_local_endpoints (li_local_address li1) (collapse_endpoints (li_systems li1) []),
      li_command_deck := deck\<rparr>" .
  let ?files = "li_lookup_command_file li1"
  have "keys_distinct (li_lookup_command_file li0)" by (simp add: li0 keys_distinct_def)
  with load li0 have keys: "keys_distinct ?files" and all: "list_all2 describes entries (li_systems li1)"
    using load_systems_adds by (blast, fastforce)
  have look: "get_command_for_sys_for_code h k deck = (case file_commands files mem ?files h k of
      None \<Rightarrow> null_command | Some cmd \<Rightarrow> cmd)" for h k
    using load_files_commands [OF c(1) [unfolded CommandDeck_def] keys, of h k]
    by (auto simp: get_command_for_sys_for_code_def find_command_def split: option.splits)
  have held: "case files path of
        None \<Rightarrow> \<forall>k. get_command_for_sys_for_code (sys_hex sys) k deck = null_command
      | Some es \<Rightarrow> \<exists>kcs. parse_entries mem sys es = Inr kcs \<and>
          (\<forall>k. get_command_for_sys_for_code (sys_hex sys) k deck =
            (case map_of kcs k of None \<Rightarrow> null_command | Some c \<Rightarrow> c))" if "(sys, path) \<in> set ?files" for sys path
    using load_files_parses [OF c(1) [unfolded CommandDeck_def] that] find_key [OF keys that]
    by (fastforce simp: look file_commands_def split: option.split)
  have missing: "get_command_for_sys_for_code h k deck = null_command" if "h \<notin> sys_hex ` fst ` set ?files" for h k
  proof -
    have "List.find (\<lambda>p. sys_hex (fst p) = h) ?files = None" using that by (force simp: find_None_iff)
    then show ?thesis by (simp add: look file_commands_def)
  qed
  have uarts: "reduced_uart u" if "s \<in> set (li_systems li1)" "sys_uart s = Some u" for s u
    using all that by (auto simp: list_all2_conv_all_nth in_set_conv_nth describes_def)
  have same: "li_lookup_command_file li = ?files" "li_systems li = li_systems li1" "get_command_deck li = deck"
    by (simp_all add: c(2) get_command_deck_def)
  show ?thesis
    unfolding same using keys [unfolded keys_distinct_def] held missing uarts [unfolded reduced_uart_def]
    by (intro conjI) (blast, blast, blast, blast)
qed

lemma interface_example_commands:
  "case interface_example of Inr (Some li) \<Rightarrow>
     map (\<lambda>(sys, path). (sys_hex sys, path)) (li_lookup_command_file li) = [(0x0a, ''timepix.json'')] | _ \<Rightarrow> False"
  by code_simp

lemma configured_commands_witness:
  "\<exists>li sys kcs. interface_example = Inr (Some li) \<and> parse_entries null_command sys [entry_example 5] = Inr kcs \<and>
    get_command_for_sys_for_code 0x0a 0x10 (get_command_deck li) =
      (case map_of kcs 0x10 of None \<Rightarrow> null_command | Some c \<Rightarrow> c) \<and>
    get_command_for_sys_for_code 0x00 0x10 (get_command_deck li) = null_command"
proof -
  obtain li sys where li: "interface_example = Inr (Some li)" "li_lookup_command_file li = [(sys, ''timepix.json'')]" "sys_hex sys = 0x0a"
    using interface_example_commands by (auto simp: Cons_eq_map_conv map_eq_Cons_conv split: sum.splits option.splits)
  from configured_commands [OF li(1) [unfolded interface_example_def]] li obtain kcs where
    "parse_entries null_command sys [entry_example 5] = Inr kcs"
    "\<forall>k. get_command_for_sys_for_code 0x0a k (get_command_deck li) = (case map_of kcs k of None \<Rightarrow> null_command | Some c \<Rightarrow> c)"
    "get_command_for_sys_for_code 0x00 0x10 (get_command_deck li) = null_command"
    by (auto simp del: parse_entries.simps)
  with li(1) show ?thesis by blast
qed

end
