(* ===== verification/Formatter.thy ===== *)
theory Formatter
  imports Loop_Properties Line_Interface
begin

text \<open>
  The flight program (\<open>apps/main.cpp\<close>) and what it starts: the constructor of \<open>TransportLayerMachine\<close> that opens
  the serial ports, the start of \<open>Circle\<close>, and the loop \<open>Circle::start\<close>.

  Boost's addresses, sockets and ports are a \<open>network\<close>: which texts are addresses, whether the sockets can be
  opened, bound and connected, which serial ports open and which options they refuse, and what the peers then
  deliver. What the program does not set is a \<open>memory\<close>. Two of its parts may be read before they are set, the sum that
  normalises the periods and the flag \<open>did_queue_hk\<close> of a turn: there \<open>None\<close> stands for the C++ standard, which makes
  the read undefined, and \<open>Some\<close> for a memory that holds a value. The others are not: the constructor of the loop sets
  the active types it uses, and ends when a system has only a default \<open>Timing\<close>. The managers hold pointers to the framers,
  packetizers and timings of \<open>main\<close>; the model gives them the objects as they are when the loop starts. A fault
  before the \<open>try\<close> of \<open>main\<close> ends the process; behind it an exception is reported and \<open>main\<close> returns.
\<close>

section \<open>The surroundings\<close>

record 'addr endpoints =
  ends_local_udp :: "'addr \<times> u16"
  ends_local_tcp :: "'addr \<times> u16"
  ends_local_housekeeping :: "'addr \<times> u16"
  ends_remote_udp :: "'addr \<times> u16"
  ends_remote_tcp :: "'addr \<times> u16"
  ends_remote_housekeeping :: "'addr \<times> u16"

record 'addr network =
  nw_make_address :: "string \<Rightarrow> 'addr option"
  nw_connects :: "'addr endpoints \<Rightarrow> bool"
  nw_opens :: "string \<Rightarrow> bool"
  nw_refuses :: "string \<Rightarrow> serial_option \<Rightarrow> bool"
  nw_replies :: script
  nw_send_fails :: "bool list"
  nw_clock :: "nat \<Rightarrow> u64"
  nw_logger_name :: string
  nw_logs :: "(string \<times> bool option) list option"

record memory =
  mem_active :: ring_type            \<comment> \<open>\<open>active_type\<close> of a new manager\<close>
  mem_timeout :: u32                 \<comment> \<open>of a default \<open>Timing\<close>\<close>
  mem_spacing :: u32
  mem_periods :: "nat \<Rightarrow> u32 option"  \<comment> \<open>the normalised periods: their sum starts at an unset number\<close>
  mem_queued :: "nat \<Rightarrow> bool option"  \<comment> \<open>the flag a turn may read without having set it\<close>

fun map_result :: "('a \<Rightarrow> 'b result) \<Rightarrow> 'a list \<Rightarrow> 'b list result" where
  "map_result f [] = Inr []"
| "map_result f (x # xs) = bindR (f x) (\<lambda>y. bindR (map_result f xs) (\<lambda>ys. Inr (y # ys)))"

section \<open>Framers and packetizers\<close>

type_synonym box = "string \<times> ring_type"

definition box_names :: "box list" where
  "box_names = [(''cdte1'', PC), (''cdte1'', HK), (''cdte5'', PC), (''cdte3'', PC), (''cdte4'', PC),
     (''cmos1'', QL), (''cmos1'', PC), (''cmos1'', HK), (''cmos2'', QL), (''cmos2'', PC)]"

definition make_framers :: "command_deck \<Rightarrow> (box \<times> packet_framer) list result" where
  "make_framers deck =
     map_result (\<lambda>(name, t). bindR (PacketFramer (get_sys_for_name name deck) t) (\<lambda>pf. Inr ((name, t), pf))) box_names"

definition make_packetizers :: "command_deck \<Rightarrow> (box \<times> frame_packetizer) list result" where
  "make_packetizers deck =
     map_result (\<lambda>(name, t). bindR (FramePacketizer (get_sys_for_name name deck) (get_sys_for_name ''gse'' deck) t)
       (\<lambda>fp. Inr ((name, t), fp))) box_names"

text \<open>The trial of the first packetizer, \<open>fp_cdte1_pc\<close>, with a frame of 2000 zeros.\<close>

definition try_packetizer :: "command_deck \<Rightarrow> frame_packetizer \<Rightarrow> frame_packetizer result" where
  "try_packetizer deck fp =
     bindR (DownlinkBufferElement (get_sys_for_name ''cdte1'' deck) (get_sys_for_name ''gse'' deck) PC) (\<lambda>pcdbe.
     bindR (dbe_to_string pcdbe) (\<lambda>_.
     bindR (pop_buffer_element (fp_set_frame (replicate 2000 0x00) fp)) (\<lambda>(popped, fp).
     bindR (dbe_copy popped) (\<lambda>othcdbe.
     bindR (dbe_to_string othcdbe) (\<lambda>_. Inr fp)))))"

definition tried_packetizers :: "command_deck \<Rightarrow> (box \<times> frame_packetizer) list result" where
  "tried_packetizers deck =
     bindR (make_packetizers deck) (\<lambda>packetizers.
       case packetizers of
         [] \<Rightarrow> Inl Undefined
       | (name, fp) # rest \<Rightarrow> bindR (try_packetizer deck fp) (\<lambda>fp. Inr ((name, fp) # rest)))"

section \<open>The managers\<close>

definition order_names :: "string list" where
  "order_names = [''cdte1'', ''cdte5'', ''cmos1'', ''cdtede'', ''housekeeping'', ''cdte3'', ''cdte4'', ''cmos2'',
     ''timepix'', ''uplink'']"

definition uplink_names :: "string list" where
  "uplink_names = [''housekeeping'', ''cdtede'', ''cdte1'', ''cdte5'', ''cdte3'', ''cdte4'', ''cmos1'', ''cmos2'', ''timepix'']"

text \<open>\<open>lookup_timing[sys]\<close>, which inserts a default when there is none.\<close>

definition timing_at :: "memory \<Rightarrow> line_interface \<Rightarrow> system \<Rightarrow> timing" where
  "timing_at mem li sys =
     (case List.find (\<lambda>p. system_eq (fst p) sys) (li_lookup_timing li) of
        None \<Rightarrow> Timing_default (mem_timeout mem) (mem_spacing mem)
      | Some (_, t) \<Rightarrow> t)"

definition attach :: "(ring_type \<Rightarrow> 'b \<Rightarrow> system_manager \<Rightarrow> system_manager) \<Rightarrow> string \<Rightarrow> (box \<times> 'b) list
    \<Rightarrow> system_manager \<Rightarrow> system_manager" where
  "attach add name boxes sm = foldl (\<lambda>sm ((owner, t), b). if owner = name then add t b sm else sm) sm boxes"

definition make_manager :: "memory \<Rightarrow> line_interface \<Rightarrow> (box \<times> frame_packetizer) list \<Rightarrow> (box \<times> packet_framer) list
    \<Rightarrow> string \<Rightarrow> system_manager" where
  "make_manager mem li packetizers framers name =
     (let sys = get_sys_for_name name (get_command_deck li)
      in attach add_packet_framer name framers (attach add_frame_packetizer name packetizers
           (add_timing (Some (timing_at mem li sys)) (SystemManager (mem_active mem) sys))))"

section \<open>The transport layer\<close>

definition make_endpoint :: "'addr network \<Rightarrow> string \<Rightarrow> system \<Rightarrow> ('addr \<times> u16) result" where
  "make_endpoint nw text sys =
     bindR (case nw_make_address nw text of None \<Rightarrow> Inl System_Error | Some a \<Rightarrow> Inr a) (\<lambda>a.
     bindR (option_deref (sys_ethernet sys)) (\<lambda>e. Inr (a, eth_port e)))"

definition remote_endpoint :: "'addr network \<Rightarrow> system \<Rightarrow> ('addr \<times> u16) result" where
  "remote_endpoint nw sys =
     bindR (option_deref (sys_ethernet sys)) (\<lambda>e. make_endpoint nw (eth_address e) sys)"

definition make_endpoints :: "'addr network \<Rightarrow> line_interface \<Rightarrow> 'addr endpoints result" where
  "make_endpoints nw li =
     (let find_sys = (\<lambda>name. get_sys_for_name name (get_command_deck li)); own = li_local_address li
      in bindR (make_endpoint nw own (find_sys ''gse'')) (\<lambda>lu.
         bindR (make_endpoint nw own (find_sys ''cdte1'')) (\<lambda>lt.
         bindR (make_endpoint nw own (find_sys ''housekeeping'')) (\<lambda>lh.
         bindR (remote_endpoint nw (find_sys ''gse'')) (\<lambda>ru.
         bindR (remote_endpoint nw (find_sys ''cdte1'')) (\<lambda>rt.
         bindR (remote_endpoint nw (find_sys ''housekeeping'')) (\<lambda>rh.
           Inr \<lparr>ends_local_udp = lu, ends_local_tcp = lt, ends_local_housekeeping = lh,
                ends_remote_udp = ru, ends_remote_tcp = rt, ends_remote_housekeeping = rh\<rparr>)))))))"

text \<open>The first refused option of a serial port throws. The options that were set are the result.\<close>

fun set_options :: "(serial_option \<Rightarrow> bool) \<Rightarrow> serial_option list \<Rightarrow> serial_option list" where
  "set_options refuses [] = []"
| "set_options refuses (x # xs) = (if refuses x then [] else x # set_options refuses xs)"

text \<open>An open port with its options, or a closed one.\<close>

definition open_port :: "'addr network \<Rightarrow> uart \<Rightarrow> serial_option list option" where
  "open_port nw port =
     (if nw_opens nw (uart_tty_path port)
      then Some (set_options (nw_refuses nw (uart_tty_path port)) 
         (serial_options (unat (uart_data_bits port)) (uart_baud_rate port) (unat (uart_parity port)) (unat (uart_stop_bits port))))
      else None)"

record transport =
  tr_machine :: machine
  tr_local_port :: "serial_option list option"
  tr_uplink_port :: "serial_option list option"

text \<open>\<open>(*new_uplink_buffer)[sys]\<close> for each name.\<close>

definition uplink_key :: "command_deck \<Rightarrow> (system \<times> uplink_element list) list \<Rightarrow> string
    \<Rightarrow> (system \<times> uplink_element list) list" where
  "uplink_key deck keys name =
     (let sys = get_sys_for_name name deck in if uplink_at sys keys = None then keys @ [(sys, [])] else keys)"

definition TransportLayerMachine :: "memory \<Rightarrow> 'addr network \<Rightarrow> 'addr endpoints \<Rightarrow> (system \<times> uplink_element list) list
    \<Rightarrow> uart \<Rightarrow> uart \<Rightarrow> transport result" where
  "TransportLayerMachine mem nw ends uplink_buffer local_uart uplink_uart =
     (if \<not> nw_connects nw ends then Inl System_Error
      else Inr \<lparr>
        tr_machine = \<lparr>
          m_deck = CommandDeck_default,
          m_man = SystemManager (mem_active mem) null_sys,
          m_downlink = [],
          m_uplink = uplink_buffer,
          m_replies = nw_replies nw,
          m_send_fails = nw_send_fails nw,
          m_sent = [],
          m_logger_name = nw_logger_name nw,
          m_logs = nw_logs nw,
          m_removed_logs = []\<rparr>,
        tr_local_port = open_port nw local_uart,
        tr_uplink_port = open_port nw uplink_uart\<rparr>)"

definition transport_add_commands :: "command_deck \<Rightarrow> machine \<Rightarrow> machine" where
  "transport_add_commands deck m = m\<lparr>m_deck := deck\<rparr>"

section \<open>The loop\<close>

text \<open>Every period is divided by the sum of them all, to which the variable's unset first value is added.\<close>

definition normalize_time :: "(nat \<Rightarrow> u32 option) \<Rightarrow> nat \<times> system_manager \<Rightarrow> system_manager result" where
  "normalize_time periods = (\<lambda>(i, sm).
     bindR (option_deref (sm_timing sm)) (\<lambda>t.
     bindR (option_deref (periods i)) (\<lambda>period.
     bindR (resolve_times (t\<lparr>tm_period_millis := period\<rparr>)) (\<lambda>t. Inr (sm\<lparr>sm_timing := Some t\<rparr>)))))"

definition normalize_times_to_period :: "(nat \<Rightarrow> u32 option) \<Rightarrow> system_manager list \<Rightarrow> system_manager list result" where
  "normalize_times_to_period periods system_order =
     map_result (normalize_time periods) (enumerate 0 system_order)"

text \<open>\<open>Circle::start\<close>: nothing resets \<open>run\<close>.\<close>

partial_function (option) start :: "(nat \<Rightarrow> bool option) \<Rightarrow> nat \<Rightarrow> circle \<Rightarrow> (unit result \<times> circle) option" where
  "start mem k c = bindM (update_state (mem k)) (\<lambda>_. start mem (Suc k)) c"

section \<open>The program\<close>

text \<open>What \<open>main\<close> has built before its \<open>try\<close>.\<close>

definition formatter_parts :: "memory \<Rightarrow> 'addr network \<Rightarrow> line_interface \<Rightarrow> (system_manager list \<times> 'addr endpoints) result" where
  "formatter_parts mem nw li =
     (let deck = get_command_deck li
      in bindR (make_framers deck) (\<lambda>framers.
         bindR (tried_packetizers deck) (\<lambda>packetizers.
         bindR (make_endpoints nw li) (\<lambda>ends.
           Inr (map (make_manager mem li packetizers framers) order_names, ends)))))"

text \<open>The machine and the loop with its normalised times.\<close>

definition formatter_circle :: "memory \<Rightarrow> 'addr network \<Rightarrow> line_interface \<Rightarrow> system_manager list \<Rightarrow> 'addr endpoints
    \<Rightarrow> circle result" where
  "formatter_circle mem nw li order ends =
     (let deck = get_command_deck li
      in bindR (option_deref (sys_uart (get_sys_for_name ''timepix'' deck))) (\<lambda>timepix_uart.
         bindR (option_deref (sys_uart (get_sys_for_name ''uplink'' deck))) (\<lambda>uplink_uart.
         bindR (TransportLayerMachine mem nw ends (foldl (uplink_key deck) [] uplink_names) timepix_uart uplink_uart) (\<lambda>tr.
         bindR (normalize_times_to_period (mem_periods mem) order) (\<lambda>order.
           Inr \<lparr>c_link = transport_add_commands deck (tr_machine tr), c_managers = order, c_current = 0,
                c_clock = nw_clock nw, c_ticks = 0, c_uart_open = (tr_local_port tr \<noteq> None)\<rparr>)))))"

definition reported :: "unit result \<Rightarrow> unit result" where
  "reported r = (case r of Inl e \<Rightarrow> if is_std_exception e then Inr () else Inl e | Inr u \<Rightarrow> Inr u)"

text \<open>\<open>main\<close>: \<open>None\<close> when it runs forever, \<open>Inr ()\<close> when it returns 0, \<open>Inl e\<close> when the process ends with a fault.\<close>

definition formatter_main :: "memory \<Rightarrow> 'addr network \<Rightarrow> line_interface \<Rightarrow> unit result option" where
  "formatter_main mem nw li =
     (case formatter_parts mem nw li of
        Inl e \<Rightarrow> Some (Inl e)
      | Inr (order, ends) \<Rightarrow>
         (case formatter_circle mem nw li order ends of
            Inl e \<Rightarrow> Some (reported (Inl e))
          | Inr c \<Rightarrow> map_option (reported \<circ> fst) (bindM Circle_start (\<lambda>_. start (mem_queued mem) 0) c)))"

section \<open>What the parts keep\<close>

lemma map_result_Inr: "map_result f xs = Inr ys \<longleftrightarrow> list_all2 (\<lambda>x y. f x = Inr y) xs ys"
  by (induction xs arbitrary: ys) (auto simp: bindR_eq_Inr list_all2_Cons1)

lemma map_result_mem: "map_result f xs = Inr ys \<Longrightarrow> y \<in> set ys \<Longrightarrow> \<exists>x \<in> set xs. f x = Inr y"
  unfolding map_result_Inr by (induction rule: list_all2_induct) auto

lemma insert_count_fields [simp]:
  "sm_system (insert_count t n sm) = sm_system sm" "sm_timing (insert_count t n sm) = sm_timing sm"
  "sm_frame_packetizer (insert_count t n sm) = sm_frame_packetizer sm"
  "sm_packet_framer (insert_count t n sm) = sm_packet_framer sm"
  by (simp_all add: insert_count_def)

lemma attach_same:
  assumes "\<And>t b sm. f (add t b sm) = f sm"
  shows "f (attach add name boxes sm) = f sm"
  unfolding attach_def by (induction boxes arbitrary: sm) (auto simp: assms split: prod.split)

lemma attach_dom:
  assumes "\<And>t b sm. dom (f (add t b sm)) = insert t (dom (f sm))"
  shows "dom (f (attach add name boxes sm)) = dom (f sm) \<union> {t. (name, t) \<in> set (map fst boxes)}"
  unfolding attach_def
proof (induction boxes arbitrary: sm)
  case (Cons x boxes)
  then show ?case by (cases x; cases "fst x") (auto simp: assms)
qed simp

lemma attached_packetizers:
  assumes "sm_frame_packetizer (attach add_frame_packetizer name boxes sm) t = Some b" and "sm_frame_packetizer sm = Map.empty"
  shows "((name, t), b) \<in> set boxes"
proof -
  have "sm_frame_packetizer (attach add_frame_packetizer name boxes sm) t = Some b \<Longrightarrow>
    sm_frame_packetizer sm t = Some b \<or> ((name, t), b) \<in> set boxes"
    unfolding attach_def
  proof (induction boxes arbitrary: sm)
    case (Cons x boxes)
    obtain owner u b' where x: "x = ((owner, u), b')" by (cases x) auto
    show ?case
      using Cons.IH [of "if owner = name then add_frame_packetizer u b' sm else sm"] Cons.prems
      by (auto simp: x add_frame_packetizer_def split: if_splits)
  qed simp
  with assms show ?thesis by simp
qed

lemma attached_framers:
  assumes "sm_packet_framer (attach add_packet_framer name boxes sm) t = Some b" and "sm_packet_framer sm = Map.empty"
  shows "((name, t), b) \<in> set boxes"
proof -
  have "sm_packet_framer (attach add_packet_framer name boxes sm) t = Some b \<Longrightarrow>
    sm_packet_framer sm t = Some b \<or> ((name, t), b) \<in> set boxes"
    unfolding attach_def
  proof (induction boxes arbitrary: sm)
    case (Cons x boxes)
    obtain owner u b' where x: "x = ((owner, u), b')" by (cases x) auto
    show ?case
      using Cons.IH [of "if owner = name then add_packet_framer u b' sm else sm"] Cons.prems
      by (auto simp: x add_packet_framer_def split: if_splits)
  qed simp
  with assms show ?thesis by simp
qed

lemma FramePacketizer_wf:
  assumes "FramePacketizer s g t = Inr fp" and "sys_ethernet g = Some e"
    and "8 < dl_max_payload_size e" and "dl_max_payload_size e < 2 ^ 62"
  shows "fp_wf fp"
  using assms by (auto simp: FramePacketizer_def Let_def bindR_eq_Inr fp_wf_def split: if_splits)

lemma pop_wf: "pop_buffer_element fp = Inr (d, fp') \<Longrightarrow> fp_wf fp \<Longrightarrow> fp_wf fp'"
  by (auto simp: pop_buffer_element_def pop_payload_def Let_def bindR_eq_Inr fp_wf_def split: prod.splits)

lemma tried_packetizersE:
  assumes "tried_packetizers deck = Inr boxes"
  obtains name fp rest fp' where "make_packetizers deck = Inr ((name, fp) # rest)" "try_packetizer deck fp = Inr fp'"
    "boxes = (name, fp') # rest"
proof -
  from assms obtain made where made: "make_packetizers deck = Inr made" by (auto simp: tried_packetizers_def bindR_eq_Inr)
  with assms obtain b rest where "made = b # rest" by (cases made) (simp_all add: tried_packetizers_def)
  with assms made that show thesis by (cases b) (auto simp: tried_packetizers_def bindR_eq_Inr)
qed

lemma tried_packetizers_ok:
  assumes "tried_packetizers deck = Inr boxes" and "sys_ethernet (get_sys_for_name ''gse'' deck) = Some e"
    and "8 < dl_max_payload_size e" and "dl_max_payload_size e < 2 ^ 62"
  shows "\<forall>fp \<in> snd ` set boxes. fp_wf fp"
proof -
  from tried_packetizersE [OF assms(1)] obtain name fp rest fp' where
    m: "make_packetizers deck = Inr ((name, fp) # rest)" and t: "try_packetizer deck fp = Inr fp'" "boxes = (name, fp') # rest" .
  have wf: "fp_wf q" if "q \<in> snd ` set ((name, fp) # rest)" for q
  proof -
    from that obtain b where b: "b \<in> set ((name, fp) # rest)" "snd b = q" by blast
    from map_result_mem [OF m [unfolded make_packetizers_def] b(1)] obtain owner t where
      "bindR (FramePacketizer (get_sys_for_name owner deck) (get_sys_for_name ''gse'' deck) t) (\<lambda>fp. Inr ((owner, t), fp)) = Inr b"
      by auto
    then have "FramePacketizer (get_sys_for_name owner deck) (get_sys_for_name ''gse'' deck) t = Inr q"
      using b(2) by (auto simp: bindR_eq_Inr)
    then show ?thesis by (rule FramePacketizer_wf [OF _ assms(2-)])
  qed
  have fp: "fp_wf (fp_set_frame (replicate 2000 0x00) fp)" using wf [of fp] by (simp add: fp_set_frame_def fp_wf_def)
  from t(1) obtain popped where "pop_buffer_element (fp_set_frame (replicate 2000 0x00) fp) = Inr (popped, fp')"
    by (auto simp only: try_packetizer_def bindR_eq_Inr split: prod.splits)
  then have "fp_wf fp'"
    using pop_wf fp by blast
  then show ?thesis using wf by (auto simp: t(2))
qed

lemma tried_packetizers_names: "tried_packetizers deck = Inr boxes \<Longrightarrow> map fst boxes = box_names"
proof -
  assume "tried_packetizers deck = Inr boxes"
  then obtain made where m: "make_packetizers deck = Inr made" "map fst boxes = map fst made"
    by (rule tried_packetizersE) simp
  have "list_all2 (\<lambda>x y. fst y = x) box_names made"
    using m(1) unfolding make_packetizers_def map_result_Inr
    by (rule list_all2_mono) (auto simp: bindR_eq_Inr split: prod.splits)
  then have "map fst made = box_names" by (simp add: list_all2_conv_all_nth list_eq_iff_nth_eq)
  with m(2) show ?thesis by simp
qed

lemma make_framers_names: "make_framers deck = Inr boxes \<Longrightarrow> map fst boxes = box_names"
proof -
  assume "make_framers deck = Inr boxes"
  then have "list_all2 (\<lambda>x y. fst y = x) box_names boxes"
    unfolding make_framers_def map_result_Inr
    by (rule list_all2_mono) (auto simp: bindR_eq_Inr split: prod.splits)
  then show ?thesis by (simp add: list_all2_conv_all_nth list_eq_iff_nth_eq)
qed

lemma make_manager_fields:
  "sm_system (make_manager mem li packetizers framers name) = get_sys_for_name name (get_command_deck li)"
  "sm_timing (make_manager mem li packetizers framers name) = Some (timing_at mem li (get_sys_for_name name (get_command_deck li)))"
  "dom (sm_frame_packetizer (make_manager mem li packetizers framers name)) = {t. (name, t) \<in> set (map fst packetizers)}"
  "dom (sm_packet_framer (make_manager mem li packetizers framers name)) = {t. (name, t) \<in> set (map fst framers)}"
proof -
  note same = attach_same [where f = sm_system] attach_same [where f = sm_timing]
    attach_same [where f = sm_frame_packetizer and add = add_packet_framer]
    attach_same [where f = sm_packet_framer and add = add_frame_packetizer]
  note fields = make_manager_def add_timing_def SystemManager_def add_frame_packetizer_def add_packet_framer_def
  show "sm_system (make_manager mem li packetizers framers name) = get_sys_for_name name (get_command_deck li)"
    "sm_timing (make_manager mem li packetizers framers name) = Some (timing_at mem li (get_sys_for_name name (get_command_deck li)))"
    by (simp_all add: fields same Let_def)
  show "dom (sm_frame_packetizer (make_manager mem li packetizers framers name)) = {t. (name, t) \<in> set (map fst packetizers)}"
    "dom (sm_packet_framer (make_manager mem li packetizers framers name)) = {t. (name, t) \<in> set (map fst framers)}"
    unfolding make_manager_def Let_def
    by (simp_all add: same attach_dom [where f = sm_frame_packetizer and add = add_frame_packetizer]
        attach_dom [where f = sm_packet_framer and add = add_packet_framer]
        add_timing_def SystemManager_def add_frame_packetizer_def add_packet_framer_def)
qed

lemma normalize_times_fields:
  assumes "normalize_times_to_period periods order = Inr order'"
  shows "list_all2 (\<lambda>sm sm'. \<exists>t t' i. sm_timing sm = Some t \<and> resolve_times (t\<lparr>tm_period_millis := i\<rparr>) = Inr t' \<and>
    sm' = sm\<lparr>sm_timing := Some t'\<rparr>) order order'"
proof -
  have "list_all2 (\<lambda>x y. normalize_time periods x = Inr y) (enumerate 0 order) order'"
    using assms by (simp add: normalize_times_to_period_def map_result_Inr)
  then show ?thesis
    unfolding list_all2_conv_all_nth
    by (simp add: nth_enumerate_eq normalize_time_def bindR_eq_Inr option_deref_Inr) metis
qed

lemma found_in_deck: "get_sys_for_name name deck \<in> insert null_sys (set (deck_systems deck))"
proof -
  have "find_name name ss \<in> insert null_sys (set ss)" for ss by (induction ss) auto
  then show ?thesis by (simp add: get_sys_for_name_def)
qed

text \<open>A configuration that leaves room for a payload in the ground's datagrams, and of whose frame reads something is left
  when the headers and footers of the link are stripped.\<close>

definition ground_room :: "command_deck \<Rightarrow> bool" where
  "ground_room deck \<longleftrightarrow> (case sys_ethernet (get_sys_for_name ''gse'' deck) of None \<Rightarrow> False
     | Some e \<Rightarrow> 8 < dl_max_payload_size e \<and> dl_max_payload_size e < 2 ^ 62)"

definition link_room :: "nat \<Rightarrow> 'a data_link_layer_scheme \<Rightarrow> bool" where
  "link_room n l \<longleftrightarrow>
     dl_initial_header_size l + dl_static_header_size l + dl_initial_footer_size l + dl_static_footer_size l < n \<and>
     dl_static_header_size l + dl_subsequent_header_size l + dl_static_footer_size l + dl_subsequent_footer_size l < n"

definition reads_ask :: "system \<Rightarrow> bool" where
  "reads_ask sys \<longleftrightarrow> (case (sys_spacewire sys, sys_ethernet sys) of
     (Some spw, Some e) \<Rightarrow> (let n = expected_packet_size spw e in
       case sys_type sys of
         CMD_ETHERNET \<Rightarrow> link_room n e
       | CMD_UART \<Rightarrow> (case sys_uart sys of None \<Rightarrow> True | Some u \<Rightarrow> link_room n u)
       | _ \<Rightarrow> link_room n spw)
   | _ \<Rightarrow> True)"

lemma reads_ask_live:
  assumes "reads_ask sys" and "PacketFramer sys t = Inr pf" and "sys_spacewire sys = Some spw" and "sys_ethernet sys = Some e"
  shows "framer_live (expected_packet_size spw e) pf"
  using assms
  by (auto simp: PacketFramer_live reads_ask_def PacketFramer_def framer_finish_def framer_of_link_def strip_room_def link_room_def
      bindR_eq_Inr Let_def split: command_type.splits if_splits option.splits)

lemma made_framer:
  assumes "make_framers deck = Inr framers" and "((name, t), pf) \<in> set framers"
  shows "PacketFramer (get_sys_for_name name deck) t = Inr pf \<and> (name, t) \<in> set box_names"
proof -
  obtain owner u where "(owner, u) \<in> set box_names"
    "bindR (PacketFramer (get_sys_for_name owner deck) u) (\<lambda>pf. Inr ((owner, u), pf)) = Inr ((name, t), pf)"
    using map_result_mem [OF assms(1) [unfolded make_framers_def] assms(2)] by auto
  then show ?thesis by (auto simp: bindR_eq_Inr)
qed

text \<open>The trial uses up a part of a frame; what the packetizer was made with stays.\<close>

definition made_with :: "frame_packetizer \<Rightarrow> system \<times> ring_type \<times> nat \<times> nat" where
  "made_with fp = (fp_system fp, fp_type fp, fp_max_packet_size fp, fp_packets_per_frame fp)"

lemma pop_made_with: "pop_buffer_element fp = Inr (d, fp') \<Longrightarrow> made_with fp' = made_with fp"
  by (auto simp: pop_buffer_element_def pop_payload_def made_with_def Let_def bindR_eq_Inr split: prod.splits)

lemma try_made_with: "try_packetizer deck fp = Inr fp' \<Longrightarrow> made_with fp' = made_with fp"
proof -
  assume "try_packetizer deck fp = Inr fp'"
  then obtain popped where "pop_buffer_element (fp_set_frame (replicate 2000 0x00) fp) = Inr (popped, fp')"
    by (auto simp only: try_packetizer_def bindR_eq_Inr split: prod.splits)
  from pop_made_with [OF this] show ?thesis by (simp add: made_with_def fp_set_frame_def)
qed

lemma made_packetizer:
  assumes "tried_packetizers deck = Inr packetizers" and "((name, t), fp) \<in> set packetizers"
  shows "\<exists>new. FramePacketizer (get_sys_for_name name deck) (get_sys_for_name ''gse'' deck) t = Inr new \<and> made_with fp = made_with new"
proof -
  from tried_packetizersE [OF assms(1)] obtain box old rest tried where
    made: "make_packetizers deck = Inr ((box, old) # rest)" "try_packetizer deck old = Inr tried" "packetizers = (box, tried) # rest" .
  have new: "FramePacketizer (get_sys_for_name n deck) (get_sys_for_name ''gse'' deck) u = Inr q"
    if "((n, u), q) \<in> set ((box, old) # rest)" for n u q
    using map_result_mem [OF made(1) [unfolded make_packetizers_def] that] by (auto simp: bindR_eq_Inr)
  show ?thesis
  proof (cases "((name, t), fp) \<in> set rest")
    case True
    then show ?thesis using new by auto
  next
    case False
    then have "box = (name, t)" "fp = tried" using assms(2) made(3) by auto
    then show ?thesis using new [of name t old] try_made_with [OF made(2)] by auto
  qed
qed

text \<open>A system whose timing is not configured ends the constructor of the loop: its four times are zero.\<close>

lemma default_timing_unresolved: "resolve_times ((Timing_default a b)\<lparr>tm_period_millis := p\<rparr>) = Inl Undefined"
  by (simp add: resolve_times_def Timing_default_def)

lemma resolved_timing:
  assumes "resolve_times ((timing_at mem li sys)\<lparr>tm_period_millis := p\<rparr>) = Inr t'"
  shows "\<exists>key t. List.find (\<lambda>p. system_eq (fst p) sys) (li_lookup_timing li) = Some (key, t) \<and>
    tm_timeout_millis t' = tm_timeout_millis t \<and> tm_retry_max_count t' = tm_retry_max_count t"
proof (cases "List.find (\<lambda>p. system_eq (fst p) sys) (li_lookup_timing li)")
  case None
  with assms show ?thesis by (simp add: timing_at_def default_timing_unresolved)
next
  case (Some a)
  with assms show ?thesis by (cases a) (auto simp: timing_at_def resolve_times_def Let_def split: if_splits)
qed

lemma manager_boxes:
  shows "sm_frame_packetizer (make_manager mem li packetizers framers name) t = Some fp \<Longrightarrow> ((name, t), fp) \<in> set packetizers"
    and "sm_packet_framer (make_manager mem li packetizers framers name) t = Some pf \<Longrightarrow> ((name, t), pf) \<in> set framers"
  using attached_packetizers attach_same [where f = sm_frame_packetizer and add = add_packet_framer]
    attached_framers attach_same [where f = sm_packet_framer and add = add_frame_packetizer]
  by (force simp: make_manager_def Let_def add_packet_framer_def add_frame_packetizer_def add_timing_def SystemManager_def)+

lemma formatter_managers:
  assumes "formatter_parts mem nw li = Inr (order, ends)" and "formatter_circle mem nw li order ends = Inr c"
  obtains packetizers framers where "tried_packetizers (get_command_deck li) = Inr packetizers"
    "make_framers (get_command_deck li) = Inr framers"
    "list_all2 (\<lambda>name sm. \<exists>t' i. sm = (make_manager mem li packetizers framers name)\<lparr>sm_timing := Some t'\<rparr> \<and>
       resolve_times ((timing_at mem li (sm_system sm))\<lparr>tm_period_millis := i\<rparr>) = Inr t') order_names (c_managers c)"
proof -
  from assms(1) obtain framers packetizers where parts: "make_framers (get_command_deck li) = Inr framers"
    "tried_packetizers (get_command_deck li) = Inr packetizers" "order = map (make_manager mem li packetizers framers) order_names"
    by (auto simp: formatter_parts_def bindR_eq_Inr Let_def)
  from assms(2) have "normalize_times_to_period (mem_periods mem) order = Inr (c_managers c)"
    by (auto simp: formatter_circle_def bindR_eq_Inr Let_def)
  from normalize_times_fields [OF this] parts(3)
  have "list_all2 (\<lambda>name sm. \<exists>t' i. sm = (make_manager mem li packetizers framers name)\<lparr>sm_timing := Some t'\<rparr> \<and>
       resolve_times ((timing_at mem li (sm_system sm))\<lparr>tm_period_millis := i\<rparr>) = Inr t') order_names (c_managers c)"
    unfolding parts(3) list_all2_map1 by - (erule list_all2_mono, fastforce simp: make_manager_fields)
  with that parts show thesis by blast
qed

lemma formatter_managers_ok:
  assumes "formatter_parts mem nw li = Inr (order, ends)" and "formatter_circle mem nw li order ends = Inr c"
    and room: "ground_room (get_command_deck li)" and ask: "list_all reads_ask (deck_systems (get_command_deck li))"
  shows "list_all manager_ok (c_managers c)"
proof -
  from formatter_managers [OF assms(1,2)] obtain packetizers framers where
    p: "tried_packetizers (get_command_deck li) = Inr packetizers" and framers: "make_framers (get_command_deck li) = Inr framers"
    and m: "list_all2 (\<lambda>name sm. \<exists>t' i. sm = (make_manager mem li packetizers framers name)\<lparr>sm_timing := Some t'\<rparr> \<and>
       resolve_times ((timing_at mem li (sm_system sm))\<lparr>tm_period_millis := i\<rparr>) = Inr t') order_names (c_managers c)"
    by blast
  from room obtain e where e: "sys_ethernet (get_sys_for_name ''gse'' (get_command_deck li)) = Some e"
    "8 < dl_max_payload_size e" "dl_max_payload_size e < 2 ^ 62"
    by (auto simp: ground_room_def split: option.splits)
  have "manager_ok ((make_manager mem li packetizers framers name)\<lparr>sm_timing := Some t'\<rparr>)" for name t'
    unfolding manager_ok_def
  proof (intro conjI allI impI)
    fix t fp assume "sm_frame_packetizer ((make_manager mem li packetizers framers name)\<lparr>sm_timing := Some t'\<rparr>) t = Some fp"
    then have "fp \<in> snd ` set packetizers" using manager_boxes(1) [of mem li packetizers framers name t fp] by force
    then show "fp_wf fp" using tried_packetizers_ok [OF p e] by blast
  next
    fix spw e t pf assume sys: "sys_spacewire (sm_system ((make_manager mem li packetizers framers name)\<lparr>sm_timing := Some t'\<rparr>)) = Some spw"
      "sys_ethernet (sm_system ((make_manager mem li packetizers framers name)\<lparr>sm_timing := Some t'\<rparr>)) = Some e"
      and "sm_packet_framer ((make_manager mem li packetizers framers name)\<lparr>sm_timing := Some t'\<rparr>) t = Some pf"
    then have "((name, t), pf) \<in> set framers" using manager_boxes(2) by simp
    then have "PacketFramer (get_sys_for_name name (get_command_deck li)) t = Inr pf" using made_framer [OF framers] by blast
    moreover have "reads_ask (get_sys_for_name name (get_command_deck li))"
      using found_in_deck [of name "get_command_deck li"] ask
      by (auto simp: list_all_iff) (simp add: reads_ask_def null_sys_def System_named_def)
    ultimately show "framer_live (expected_packet_size spw e) pf"
      using reads_ask_live sys by (simp add: make_manager_fields)
  qed
  with m show ?thesis by (auto simp: list_all2_conv_all_nth list_all_length)
qed

lemma uplink_at_append:
  "uplink_at sys (qs @ rs) = (case uplink_at sys qs of Some q \<Rightarrow> Some q | None \<Rightarrow> uplink_at sys rs)"
  by (induction sys qs rule: uplink_at.induct) auto

lemma uplink_keys_kept: "uplink_at sys qs = Some q \<Longrightarrow> uplink_at sys (foldl (uplink_key deck) qs names) = Some q"
  by (induction names arbitrary: qs) (simp_all add: uplink_key_def uplink_at_append Let_def)

lemma uplink_keys_empty:
  "\<forall>name \<in> set names. uplink_at (get_sys_for_name name deck) (foldl (uplink_key deck) [] names) = Some []"
proof -
  have "\<forall>(sys, q) \<in> set qs. q = [] \<Longrightarrow>
    \<forall>name \<in> set names. uplink_at (get_sys_for_name name deck) (foldl (uplink_key deck) qs names) = Some []" for qs
  proof (induction names arbitrary: qs)
    case (Cons name names)
    have stored: "uplink_at sys qs = Some q \<Longrightarrow> q = []" for sys q
      using Cons.prems by (induction sys qs rule: uplink_at.induct) (auto split: if_splits)
    have "uplink_at (get_sys_for_name name deck) (uplink_key deck qs name) = Some []"
      using stored by (auto simp: uplink_key_def uplink_at_append Let_def system_eq_def split: option.splits)
    moreover have "\<forall>(sys, q) \<in> set (uplink_key deck qs name). q = []"
      using Cons.prems by (auto simp: uplink_key_def Let_def)
    ultimately show ?case using Cons.IH uplink_keys_kept by simp
  qed simp
  then show ?thesis by simp
qed

section \<open>The loop as a whole\<close>

lemma turns_front: "turns n c1 c2 \<Longrightarrow> update_state m c = Some (Inr (), c1) \<Longrightarrow> turns (Suc n) c c2"
  by (induction rule: turns.induct) (auto intro: turns.intros)

lemma start_ends:
  "start mem k c = Some (r, c') \<Longrightarrow> \<exists>n c2 e. turns n c c2 \<and> update_state (mem (k + n)) c2 = Some (Inl e, c') \<and> r = Inl e"
proof -
  have "\<exists>n c2 e. turns n c c2 \<and> update_state (mem (k + n)) c2 = Some (Inl e, snd y) \<and> fst y = Inl e"
    if "start mem k c = Some y" for y
  proof (rule start.raw_induct [of "\<lambda>mem k c y. \<exists>n c2 e. turns n c c2 \<and>
      update_state (mem (k + n)) c2 = Some (Inl e, snd y) \<and> fst y = Inl e", OF _ that], goal_cases)
    case (1 rec mem k c y)
    obtain r1 c1 where u: "update_state (mem k) c = Some (r1, c1)"
      using 1(2) by (cases "update_state (mem k) c") (auto simp: bindM_def)
    show ?case
    proof (cases r1)
      case (Inl e)
      with 1(2) u have "y = (Inl e, c1)" by (simp add: bindM_def)
      then show ?thesis using u Inl turns.none [of c] by fastforce
    next
      case (Inr v)
      with 1(2) u have "rec mem (Suc k) c1 = Some y" by (simp add: bindM_def)
      from 1(1) [OF this] obtain n c2 e where n: "turns n c1 c2" "update_state (mem (Suc k + n)) c2 = Some (Inl e, snd y)"
        "fst y = Inl e" by blast
      then have "turns (Suc n) c c2" using turns_front u Inr by simp
      with n show ?thesis by (intro exI [of _ "Suc n"] exI [of _ c2] exI [of _ e]) simp
    qed
  qed
  then show "start mem k c = Some (r, c') \<Longrightarrow>
      \<exists>n c2 e. turns n c c2 \<and> update_state (mem (k + n)) c2 = Some (Inl e, c') \<and> r = Inl e" by fastforce
qed

lemma start_turns:
  assumes "start mem j c = None" and "loop_ok True ss x i c" and "i < length ss"
  shows "\<exists>c'. turns n c c' \<and> start mem (j + n) c' = None"
proof (induction n)
  case 0
  then show ?case using assms(1) turns.none by auto
next
  case (Suc n)
  then obtain c' where c': "turns n c c'" "start mem (j + n) c' = None" by blast
  from turn_ok [OF turns_ok [OF c'(1) assms(2,3)], of "mem (j + n)"] obtain r c'' where
    u: "update_state (mem (j + n)) c' = Some (r, c'')" by (auto split: option.splits)
  with c'(2) have "r = Inr () \<and> start mem (j + Suc n) c'' = None"
    by (subst (asm) start.simps) (cases r; simp add: bindM_def)
  then show ?case using turns.more [OF c'(1)] u by blast
qed

section \<open>A flight configuration\<close>

definition flight_detector :: "string \<Rightarrow> u8 \<Rightarrow> system" where
  "flight_detector name hex = System_full name hex CMD_SPW None
     (Some (SpaceWire_static [0x07] [0x03] 0x3d 0x34 0x02 CHR ''f'' 0 10 0 12 1))
     (Some (Ethernet_static ''192.168.1.8'' 10030 TP_TCP 0 20 0 0 0))
     (map (\<lambda>t. (t, RingBufferParameters 40 0x100 4 0x1000 4 t)) [PC, HK, QL])"

definition flight_uart :: uart where
  "flight_uart = UART_static ''/dev/ttyAMA2'' 9600 0 1 8 0 300 0 0 0"

definition flight_systems :: "system list" where
  "flight_systems =
     [System_ethernet ''gse'' 0x01 (Some (Ethernet_static ''192.168.1.118'' 9999 TP_UDP 0 1000 0 0 0)),
      System_ethernet ''housekeeping'' 0x02 (Some (Ethernet_static ''192.168.1.16'' 7777 TP_UDP 0 100 0 0 0)),
      System_spacewire ''cdtede'' 0x08 None,
      flight_detector ''cdte1'' 0x09, flight_detector ''cdte5'' 0x0a, flight_detector ''cdte3'' 0x0b,
      flight_detector ''cdte4'' 0x0c, flight_detector ''cmos1'' 0x0e, flight_detector ''cmos2'' 0x0f,
      System_uart ''timepix'' 0x10 (Some flight_uart), System_uart ''uplink'' 0x20 (Some flight_uart)]"

definition flight_timing :: timing where
  "flight_timing = (Timing_default 500 0)\<lparr>tm_command_millis := 1, tm_request_millis := 1, tm_reply_millis := 1,
     tm_idle_millis := 1, tm_retry_max_count := 3\<rparr>"

definition flight_interface :: line_interface where
  "flight_interface = \<lparr>
     li_version = ''1.2.2'', li_systems = flight_systems,
     li_lookup_timing = map (\<lambda>s. (s, flight_timing)) flight_systems,
     li_lookup_command_file = [], li_unique_endpoints = [], li_local_endpoints = [], li_local_address = ''192.168.1.118'',
     li_do_uart = False, li_do_verbose = False, li_test_system_name = [],
     li_command_deck = \<lparr>deck_systems = flight_systems, deck_commands = Map.empty, deck_did_add_systems = True\<rparr>\<rparr>"

text \<open>A network on which everything can be opened and nobody answers.\<close>

definition quiet_network :: "string network" where
  "quiet_network = \<lparr>nw_make_address = Some, nw_connects = (\<lambda>_. True), nw_opens = (\<lambda>_. True), nw_refuses = (\<lambda>_ _. False),
     nw_replies = silence, nw_send_fails = [], nw_clock = word_of_nat, nw_logger_name = ''log'', nw_logs = None\<rparr>"

definition zero_memory :: memory where
  "zero_memory = \<lparr>mem_active = PC, mem_timeout = 0, mem_spacing = 0, mem_periods = (\<lambda>_. Some 200), mem_queued = (\<lambda>_. Some False)\<rparr>"

lemma map_result_total: "(\<And>x. x \<in> set xs \<Longrightarrow> \<exists>y. f x = Inr y) \<Longrightarrow> \<exists>ys. map_result f xs = Inr ys"
  by (induction xs) (simp_all, metis bindR_Inr)

lemma flight_deck: "get_command_deck flight_interface =
    \<lparr>deck_systems = flight_systems, deck_commands = Map.empty, deck_did_add_systems = True\<rparr>"
  by (simp add: get_command_deck_def flight_interface_def)

lemma flight_names:
  "get_sys_for_name ''gse'' (get_command_deck flight_interface) =
     System_ethernet ''gse'' 0x01 (Some (Ethernet_static ''192.168.1.118'' 9999 TP_UDP 0 1000 0 0 0))"
  "get_sys_for_name ''housekeeping'' (get_command_deck flight_interface) =
     System_ethernet ''housekeeping'' 0x02 (Some (Ethernet_static ''192.168.1.16'' 7777 TP_UDP 0 100 0 0 0))"
  "get_sys_for_name ''cdtede'' (get_command_deck flight_interface) = System_spacewire ''cdtede'' 0x08 None"
  "get_sys_for_name ''cdte1'' (get_command_deck flight_interface) = flight_detector ''cdte1'' 0x09"
  "get_sys_for_name ''cdte5'' (get_command_deck flight_interface) = flight_detector ''cdte5'' 0x0a"
  "get_sys_for_name ''cdte3'' (get_command_deck flight_interface) = flight_detector ''cdte3'' 0x0b"
  "get_sys_for_name ''cdte4'' (get_command_deck flight_interface) = flight_detector ''cdte4'' 0x0c"
  "get_sys_for_name ''cmos1'' (get_command_deck flight_interface) = flight_detector ''cmos1'' 0x0e"
  "get_sys_for_name ''cmos2'' (get_command_deck flight_interface) = flight_detector ''cmos2'' 0x0f"
  "get_sys_for_name ''timepix'' (get_command_deck flight_interface) = System_uart ''timepix'' 0x10 (Some flight_uart)"
  "get_sys_for_name ''uplink'' (get_command_deck flight_interface) = System_uart ''uplink'' 0x20 (Some flight_uart)"
  by (simp_all add: flight_deck get_sys_for_name_def flight_systems_def System_ethernet_def System_spacewire_def System_uart_def
      System_interfaces_def flight_detector_def System_full_def)

lemma flight_framer: "t \<in> {PC, HK, QL} \<Longrightarrow> \<exists>pf. PacketFramer (flight_detector name hex) t = Inr pf"
  by (auto simp: PacketFramer_def flight_detector_def System_full_def framer_finish_def SpaceWire_static_def DataLinkLayer_static_def
      link_defs get_frame_size_of_def ring_params_at_def RingBufferParameters_def vec_max_def)

lemma flight_gse: "\<exists>e. sys_ethernet (get_sys_for_name ''gse'' (get_command_deck flight_interface)) = Some e \<and>
    dl_max_payload_size e = 1000 \<and> eth_port e = 9999 \<and> eth_address e = ''192.168.1.118''"
  by (simp add: flight_names System_ethernet_def System_interfaces_def Ethernet_static_def DataLinkLayer_static_def link_defs)

lemma flight_packetizer:
  assumes "t \<in> {PC, HK, QL}"
  shows "\<exists>fp. FramePacketizer (flight_detector name hex) (get_sys_for_name ''gse'' (get_command_deck flight_interface)) t = Inr fp \<and>
    fp_wf fp \<and> fp_system fp = flight_detector name hex"
proof -
  obtain e where e: "sys_ethernet (get_sys_for_name ''gse'' (get_command_deck flight_interface)) = Some e" "dl_max_payload_size e = 1000"
    using flight_gse by blast
  have "source_frame_size (flight_detector name hex) t < 2 ^ 24"
    using assms by (auto simp: source_frame_size_def flight_detector_def System_full_def get_frame_size_of_def ring_params_at_def RingBufferParameters_def)
  from FramePacketizer_exact [OF e(1) _ _ this] show ?thesis by (auto simp: e(2) fp_wf_def)
qed

lemma popped_element:
  assumes "fp_wf fp"
  shows "\<exists>d fp'. pop_buffer_element fp = Inr (d, fp') \<and> dbe_wf d \<and> dbe_system d \<noteq> None"
  using assms
  by (auto simp: pop_buffer_element_def pop_payload_def fp_wf_def Let_def dbe_wf_def
      DownlinkBufferElement_sized_def dbe_set_packets_per_frame_def dbe_set_this_packet_index_def
      dbe_set_payload_def check_payload_fits_def dbe_set_type_def min_def)

lemma try_packetizer_ok:
  assumes "fp_wf fp" and "sys_ethernet (get_sys_for_name ''gse'' deck) = Some e" and "8 \<le> dl_max_payload_size e"
    and "dl_max_payload_size e \<le> vec_max"
  shows "\<exists>fp'. try_packetizer deck fp = Inr fp'"
proof -
  obtain d where d: "DownlinkBufferElement (get_sys_for_name ''cdte1'' deck) (get_sys_for_name ''gse'' deck) PC = Inr d"
    "dbe_system d \<noteq> None" using DownlinkBufferElement_ok [OF assms(2-)] by blast
  have "fp_wf (fp_set_frame (replicate 2000 0) fp)" using assms(1) by (simp add: fp_set_frame_def fp_wf_def)
  from popped_element [OF this] obtain q fp' where
    q: "pop_buffer_element (fp_set_frame (replicate 2000 0) fp) = Inr (q, fp')" "dbe_wf q" "dbe_system q \<noteq> None" by blast
  show ?thesis by (simp add: try_packetizer_def d q dbe_copy_wf [OF q(2)] del: dbe_to_string_ok)
qed

lemma flight_parts: "\<exists>order ends. formatter_parts zero_memory quiet_network flight_interface = Inr (order, ends)"
proof -
  let ?deck = "get_command_deck flight_interface"
  have detectors: "\<exists>hex. get_sys_for_name name ?deck = flight_detector name hex \<and> t \<in> {PC, HK, QL}" if "(name, t) \<in> set box_names" for name t
    using that by (auto simp: box_names_def flight_names)
  have "\<exists>framers. make_framers ?deck = Inr framers"
    unfolding make_framers_def
  proof (rule map_result_total, clarify)
    fix name t assume "(name, t) \<in> set box_names"
    with detectors flight_framer show "\<exists>y. bindR (PacketFramer (get_sys_for_name name ?deck) t) (\<lambda>pf. Inr ((name, t), pf)) = Inr y"
      by (metis bindR_Inr)
  qed
  moreover have "\<exists>packetizers. tried_packetizers ?deck = Inr packetizers"
  proof -
    obtain fp where fp: "FramePacketizer (flight_detector ''cdte1'' 0x09) (get_sys_for_name ''gse'' ?deck) PC = Inr fp" "fp_wf fp"
      using flight_packetizer by blast
    have "\<exists>rest. map_result (\<lambda>(name, t). bindR (FramePacketizer (get_sys_for_name name ?deck) (get_sys_for_name ''gse'' ?deck) t)
       (\<lambda>fp. Inr ((name, t), fp))) (tl box_names) = Inr rest"
    proof (rule map_result_total, clarify)
      fix name t assume "(name, t) \<in> set (tl box_names)"
      then have "(name, t) \<in> set box_names" by (simp add: box_names_def)
      with detectors flight_packetizer show "\<exists>y. bindR (FramePacketizer (get_sys_for_name name ?deck) (get_sys_for_name ''gse'' ?deck) t)
          (\<lambda>fp. Inr ((name, t), fp)) = Inr y"
        by (metis bindR_Inr)
    qed
    then obtain rest where "make_packetizers ?deck = Inr (((''cdte1'', PC), fp) # rest)"
      using fp by (auto simp: make_packetizers_def box_names_def flight_names)
    moreover have "\<exists>fp'. try_packetizer ?deck fp = Inr fp'"
      using try_packetizer_ok [OF fp(2)] flight_gse by (auto simp: vec_max_def)
    ultimately show ?thesis by (auto simp: tried_packetizers_def)
  qed
  moreover have "\<exists>ends. make_endpoints quiet_network flight_interface = Inr ends"
    by (simp add: make_endpoints_def make_endpoint_def remote_endpoint_def quiet_network_def flight_names System_ethernet_def
        System_interfaces_def flight_detector_def System_full_def Let_def)
  ultimately show ?thesis by (auto simp: formatter_parts_def Let_def)
qed

lemma flight_timing_at: "name \<in> set order_names \<Longrightarrow>
    timing_at zero_memory flight_interface (get_sys_for_name name (get_command_deck flight_interface)) = flight_timing"
proof -
  assume "name \<in> set order_names"
  then have known: "get_sys_for_name name (get_command_deck flight_interface) \<in> set flight_systems"
    by (auto simp: order_names_def flight_names) (simp_all add: flight_systems_def)
  have "sys \<in> set ss \<Longrightarrow> \<exists>s. List.find (\<lambda>p. system_eq (fst p) sys) (map (\<lambda>s. (s, flight_timing)) ss) = Some (s, flight_timing)" for sys ss
    by (induction ss) (auto simp: system_eq_def)
  from this [OF known] show ?thesis by (auto simp: timing_at_def flight_interface_def)
qed

lemma flight_circle:
  assumes "formatter_parts zero_memory quiet_network flight_interface = Inr (order, ends)"
  shows "\<exists>c. formatter_circle zero_memory quiet_network flight_interface order ends = Inr c"
proof -
  from assms obtain packetizers framers where
    order: "order = map (make_manager zero_memory flight_interface packetizers framers) order_names"
    by (auto simp: formatter_parts_def bindR_eq_Inr Let_def)
  have "\<exists>order'. normalize_times_to_period (mem_periods zero_memory) order = Inr order'"
    unfolding normalize_times_to_period_def
  proof (rule map_result_total)
    fix p assume "p \<in> set (enumerate 0 order)"
    then have "snd p \<in> set order" using in_set_enumerate_eq [of p 0 order] nth_mem [of "fst p" order] by simp
    then have "sm_timing (snd p) = Some flight_timing" by (auto simp: order make_manager_fields flight_timing_at)
    then show "\<exists>sm. normalize_time (mem_periods zero_memory) p = Inr sm"
      by (cases p) (simp add: normalize_time_def resolve_times_def flight_timing_def Timing_default_def zero_memory_def Let_def)
  qed
  then show ?thesis
    by (auto simp: formatter_circle_def TransportLayerMachine_def Let_def flight_names System_uart_def System_interfaces_def
        quiet_network_def)
qed

section \<open>Properties\<close>

lemma uplink_keys_named: "fst ` set (foldl (uplink_key deck) qs names) \<subseteq> fst ` set qs \<union> (\<lambda>name. get_sys_for_name name deck) ` set names"
proof (induction names arbitrary: qs)
  case (Cons name names)
  have "fst ` set (uplink_key deck qs name) \<subseteq> insert (get_sys_for_name name deck) (fst ` set qs)"
    by (auto simp: uplink_key_def Let_def)
  with Cons.IH [of "uplink_key deck qs name"] show ?case by auto
qed simp

text \<open>One manager of the loop: its system, its data types with what was made for each, its timing.\<close>

definition assembled :: "line_interface \<Rightarrow> string \<times> ring_type list \<Rightarrow> system_manager \<Rightarrow> bool" where
  "assembled li = (\<lambda>(name, types) sm.
     let named = (\<lambda>name. get_sys_for_name name (get_command_deck li)) in
     sm_system sm = named name \<and>
     dom (sm_packet_framer sm) = set types \<and> dom (sm_frame_packetizer sm) = set types \<and>
     (\<forall>t \<in> set types.
       (\<exists>pf. sm_packet_framer sm t = Some pf \<and> PacketFramer (named name) t = Inr pf) \<and>
       (\<exists>fp new. sm_frame_packetizer sm t = Some fp \<and> FramePacketizer (named name) (named ''gse'') t = Inr new \<and>
         made_with fp = made_with new)) \<and>
     (\<exists>key t t'. List.find (\<lambda>p. system_eq (fst p) (named name)) (li_lookup_timing li) = Some (key, t) \<and>
       sm_timing sm = Some t' \<and> tm_timeout_millis t' = tm_timeout_millis t \<and> tm_retry_max_count t' = tm_retry_max_count t))"

lemma manager_assembled:
  assumes "tried_packetizers (get_command_deck li) = Inr packetizers" and "make_framers (get_command_deck li) = Inr framers"
    and "sm = (make_manager mem li packetizers framers name)\<lparr>sm_timing := Some t'\<rparr>"
    and "resolve_times ((timing_at mem li (sm_system sm))\<lparr>tm_period_millis := p\<rparr>) = Inr t'"
    and "set types = {t. (name, t) \<in> set box_names}"
  shows "assembled li (name, types) sm"
proof -
  let ?deck = "get_command_deck li" and ?m = "make_manager mem li packetizers framers name"
  have dom: "dom (sm_packet_framer ?m) = set types" "dom (sm_frame_packetizer ?m) = set types"
    unfolding make_manager_fields tried_packetizers_names [OF assms(1)] make_framers_names [OF assms(2)] assms(5) by simp_all
  have framer: "\<exists>pf. sm_packet_framer ?m t = Some pf \<and> PacketFramer (get_sys_for_name name ?deck) t = Inr pf" if "t \<in> set types" for t
  proof -
    from that dom(1) obtain pf where pf: "sm_packet_framer ?m t = Some pf" by blast
    with made_framer [OF assms(2) manager_boxes(2) [OF pf]] show ?thesis by blast
  qed
  have packetizer: "\<exists>fp new. sm_frame_packetizer ?m t = Some fp \<and>
      FramePacketizer (get_sys_for_name name ?deck) (get_sys_for_name ''gse'' ?deck) t = Inr new \<and> made_with fp = made_with new"
    if "t \<in> set types" for t
  proof -
    from that dom(2) obtain fp where fp: "sm_frame_packetizer ?m t = Some fp" by blast
    with made_packetizer [OF assms(1) manager_boxes(1) [OF fp]] show ?thesis by blast
  qed
  have "sm_system sm = get_sys_for_name name ?deck" by (simp add: assms(3) make_manager_fields)
  with resolved_timing [OF assms(4)] framer packetizer dom show ?thesis
    unfolding assembled_def by (simp add: assms(3) make_manager_fields Let_def)
qed

text \<open>C24. What the flight program starts with. The loop holds ten managers in the order of the list, each for the system of
  that name in the deck, and has for exactly the data types listed with it a framer made for that system and type and a
  packetizer made for that system and type and the ground (the one of \<open>cdte1\<close>'s photons has been tried with a frame), with
  the timeout and the number of attempts configured for that system. The deck is the configured one, nine systems have a
  queue of commands, which is empty, and no other system has one, nothing is queued for the ground, and the first turn is
  that of the first system.\<close>

theorem formatter_assembled:
  assumes "formatter_parts mem nw li = Inr (order, ends)" and "formatter_circle mem nw li order ends = Inr c"
  shows "list_all2 (assembled li)
      [(''cdte1'', [PC, HK]), (''cdte5'', [PC]), (''cmos1'', [QL, PC, HK]), (''cdtede'', []), (''housekeeping'', []),
       (''cdte3'', [PC]), (''cdte4'', [PC]), (''cmos2'', [QL, PC]), (''timepix'', []), (''uplink'', [])] (c_managers c) \<and>
    m_deck (c_link c) = get_command_deck li \<and> m_downlink (c_link c) = [] \<and> c_current c = 0 \<and>
    (\<forall>name \<in> {''housekeeping'', ''cdtede'', ''cdte1'', ''cdte5'', ''cdte3'', ''cdte4'', ''cmos1'', ''cmos2'', ''timepix''}.
      uplink_at (get_sys_for_name name (get_command_deck li)) (m_uplink (c_link c)) = Some []) \<and>
    fst ` set (m_uplink (c_link c)) \<subseteq> (\<lambda>name. get_sys_for_name name (get_command_deck li)) `
      {''housekeeping'', ''cdtede'', ''cdte1'', ''cdte5'', ''cdte3'', ''cdte4'', ''cmos1'', ''cmos2'', ''timepix''}"
proof -
  let ?deck = "get_command_deck li"
  let ?types = "\<lambda>name. map snd (filter (\<lambda>box. fst box = name) box_names)"
  from formatter_managers [OF assms] obtain packetizers framers where
    p: "tried_packetizers ?deck = Inr packetizers" "make_framers ?deck = Inr framers"
    and m: "list_all2 (\<lambda>name sm. \<exists>t' i. sm = (make_manager mem li packetizers framers name)\<lparr>sm_timing := Some t'\<rparr> \<and>
       resolve_times ((timing_at mem li (sm_system sm))\<lparr>tm_period_millis := i\<rparr>) = Inr t') order_names (c_managers c)" .
  have types: "set (?types name) = {t. (name, t) \<in> set box_names}" for name by force
  have "list_all2 (\<lambda>name sm. assembled li (name, ?types name) sm) order_names (c_managers c)"
    using m by (rule list_all2_mono) (metis manager_assembled [OF p] types)
  then have each: "list_all2 (assembled li) (map (\<lambda>name. (name, ?types name)) order_names) (c_managers c)"
    by (simp add: list_all2_map1)
  have link: "m_deck (c_link c) = ?deck" "m_downlink (c_link c) = []" "c_current c = 0"
    "m_uplink (c_link c) = foldl (uplink_key ?deck) [] uplink_names"
    using assms(2) by (auto simp: formatter_circle_def TransportLayerMachine_def transport_add_commands_def bindR_eq_Inr Let_def split: if_splits)
  have names: "set uplink_names =
      {''housekeeping'', ''cdtede'', ''cdte1'', ''cdte5'', ''cdte3'', ''cdte4'', ''cmos1'', ''cmos2'', ''timepix''}"
    by (simp add: uplink_names_def)
  have "list_all2 (assembled li)
      [(''cdte1'', [PC, HK]), (''cdte5'', [PC]), (''cmos1'', [QL, PC, HK]), (''cdtede'', []), (''housekeeping'', []),
       (''cdte3'', [PC]), (''cdte4'', [PC]), (''cmos2'', [QL, PC]), (''timepix'', []), (''uplink'', [])] (c_managers c)"
    using each by (simp add: order_names_def box_names_def)
  with link uplink_keys_empty [of uplink_names ?deck] uplink_keys_named [of ?deck "[]" uplink_names]
  show ?thesis unfolding names [symmetric] by simp
qed

lemma formatter_assembled_witness:
  "\<exists>order ends c pf. formatter_parts zero_memory quiet_network flight_interface = Inr (order, ends) \<and>
    formatter_circle zero_memory quiet_network flight_interface order ends = Inr c \<and>
    map (sys_hex \<circ> sm_system) (c_managers c) = [0x09, 0x0a, 0x0e, 0x08, 0x02, 0x0b, 0x0c, 0x0f, 0x10, 0x20] \<and>
    sm_packet_framer (c_managers c ! 7) QL = Some pf \<and> pf_system pf = flight_detector ''cmos2'' 0x0f \<and> pf_type pf = QL \<and>
    uplink_at (flight_detector ''cdte1'' 0x09) (m_uplink (c_link c)) = Some []"
proof -
  from flight_parts flight_circle obtain order ends c where
    c: "formatter_parts zero_memory quiet_network flight_interface = Inr (order, ends)"
    "formatter_circle zero_memory quiet_network flight_interface order ends = Inr c" by blast
  note all = formatter_assembled [OF c]
  then obtain m where men: "c_managers c ! 7 = m" "assembled flight_interface (''cmos2'', [QL, PC]) m"
    and systems: "map (sys_hex \<circ> sm_system) (c_managers c) = map (\<lambda>name. sys_hex (get_sys_for_name name (get_command_deck flight_interface)))
      [''cdte1'', ''cdte5'', ''cmos1'', ''cdtede'', ''housekeeping'', ''cdte3'', ''cdte4'', ''cmos2'', ''timepix'', ''uplink'']"
    by (auto simp: list_all2_Cons1 assembled_def Let_def)
  then obtain pf where pf: "sm_packet_framer m QL = Some pf" "PacketFramer (flight_detector ''cmos2'' 0x0f) QL = Inr pf"
    by (auto simp: assembled_def flight_names)
  have "map (sys_hex \<circ> sm_system) (c_managers c) = [0x09, 0x0a, 0x0e, 0x08, 0x02, 0x0b, 0x0c, 0x0f, 0x10, 0x20]"
    by (simp add: systems flight_names flight_detector_def System_full_def System_spacewire_def System_ethernet_def
        System_uart_def System_interfaces_def)
  moreover have "pf_system pf = flight_detector ''cmos2'' 0x0f" "pf_type pf = QL"
    using pf(2) by (auto simp: PacketFramer_def framer_finish_def framer_of_link_def bindR_eq_Inr Let_def split: command_type.splits if_splits)
  moreover have "uplink_at (get_sys_for_name ''cdte1'' (get_command_deck flight_interface)) (m_uplink (c_link c)) = Some []"
    using all by simp
  ultimately show ?thesis using c pf(1) men(1) by (auto simp: flight_names)
qed

text \<open>How the program ends: with a fault while the parts are made, while the sockets are opened, in the constructor of the
  loop, or in the first turn that faults.\<close>

definition ends_by_fault :: "memory \<Rightarrow> 'addr network \<Rightarrow> line_interface \<Rightarrow> unit result \<Rightarrow> bool" where
  "ends_by_fault mem nw li r \<longleftrightarrow>
     (\<exists>e. formatter_parts mem nw li = Inl e \<and> r = Inl e) \<or>
     (\<exists>order ends e. formatter_parts mem nw li = Inr (order, ends) \<and> r = reported (Inl e) \<and>
       (formatter_circle mem nw li order ends = Inl e \<or>
        (\<exists>c c1. formatter_circle mem nw li order ends = Inr c \<and>
          (Circle_start c = Some (Inl e, c1) \<or>
           Circle_start c = Some (Inr (), c1) \<and>
             (\<exists>n c2 c3. turns n c1 c2 \<and> update_state (mem_queued mem n) c2 = Some (Inl e, c3))))))"

text \<open>C5. The flight program never hangs and never stops by itself. With room for a payload in the ground's datagrams and
  frame reads of which something is left behind the headers and footers, \<open>main\<close> either runs forever because its loop makes
  one turn after the other, or it ends with a fault, for every stream of replies: no turn waits forever, whether the peers
  fall silent or answer without end, and nothing but a fault ends the loop. (The reads of TCP and of the serial ports are
  those that time out; which reads never return is stated of the transport layer.)\<close>

theorem formatter_never_hangs:
  assumes "ground_room (get_command_deck li)" and "list_all reads_ask (deck_systems (get_command_deck li))"
  shows "case formatter_main mem nw li of
      Some r \<Rightarrow> ends_by_fault mem nw li r
    | None \<Rightarrow> \<exists>order ends c c1. formatter_parts mem nw li = Inr (order, ends) \<and>
        formatter_circle mem nw li order ends = Inr c \<and> Circle_start c = Some (Inr (), c1) \<and> (\<forall>n. \<exists>c2. turns n c1 c2)"
proof (cases "formatter_parts mem nw li")
  case (Inr parts)
  obtain order ends where parts: "parts = (order, ends)" by (cases parts)
  show ?thesis
  proof (cases "formatter_circle mem nw li order ends")
    case c: (Inr c)
    have managers: "list_all manager_ok (c_managers c)"
      using formatter_managers_ok [OF Inr [unfolded parts] c assms] .
    have "m_downlink (c_link c) = []"
      using c by (auto simp: formatter_circle_def TransportLayerMachine_def transport_add_commands_def bindR_eq_Inr Let_def split: if_splits)
    then have "list_all sendable (m_downlink (c_link c))" by simp
    let ?ss = "map sm_system (c_managers c)"
    define x where "x = (m_deck (c_link c), map fst (m_uplink (c_link c)))"
    have ok: "loop_ok True ?ss x (c_current c) c"
      unfolding x_def by (rule loop_ok_self [OF \<open>list_all sendable (m_downlink (c_link c))\<close> managers])
    from formatter_managers [OF Inr [unfolded parts] c] have "length order_names = length (c_managers c)"
      using list_all2_lengthD by blast
    then have some: "0 < length ?ss" by (auto simp: order_names_def)
    from runs_Circle_start [OF ok] obtain r c1 where s: "Circle_start c = Some (r, c1)" "loop_ok True ?ss x 0 c1"
      by (auto split: option.splits)
    show ?thesis
    proof (cases r)
      case (Inl e)
      then have main: "formatter_main mem nw li = Some (reported (Inl e))"
        using Inr parts c s(1) by (simp add: formatter_main_def bindM_def)
      show ?thesis using Inr parts c s(1) Inl by (auto simp: main ends_by_fault_def)
    next
      case u: (Inr u)
      then have main: "formatter_main mem nw li = map_option (reported \<circ> fst) (start (mem_queued mem) 0 c1)"
        using Inr parts c s(1) by (simp add: formatter_main_def bindM_def)
      show ?thesis
      proof (cases "start (mem_queued mem) 0 c1")
        case None
        with start_turns [OF None s(2) some] Inr parts c s(1) u show ?thesis by (auto simp: main)
      next
        case (Some a)
        obtain r' c3 where a: "a = (r', c3)" by (cases a)
        from start_ends [OF Some [unfolded a]] obtain n c2 e where
          "turns n c1 c2" "update_state (mem_queued mem n) c2 = Some (Inl e, c3)" "r' = Inl e" by auto
        then show ?thesis using Some a Inr parts c s(1) u by (auto simp: main ends_by_fault_def)
      qed
    qed
  qed (use Inr parts in \<open>auto simp: formatter_main_def ends_by_fault_def\<close>)
qed (auto simp: formatter_main_def ends_by_fault_def)


lemma formatter_never_hangs_witness:
  "case formatter_main zero_memory quiet_network flight_interface of
      Some r \<Rightarrow> ends_by_fault zero_memory quiet_network flight_interface r
    | None \<Rightarrow> \<exists>order ends c c1. formatter_parts zero_memory quiet_network flight_interface = Inr (order, ends) \<and>
        formatter_circle zero_memory quiet_network flight_interface order ends = Inr c \<and> Circle_start c = Some (Inr (), c1) \<and>
        (\<forall>n. \<exists>c2. turns n c1 c2)"
proof (rule formatter_never_hangs)
  show "ground_room (get_command_deck flight_interface)"
    using flight_gse by (auto simp: ground_room_def)
  show "list_all reads_ask (deck_systems (get_command_deck flight_interface))"
    by (simp add: flight_deck flight_systems_def reads_ask_def link_room_def System_ethernet_def System_spacewire_def System_uart_def
        System_interfaces_def flight_detector_def System_full_def expected_packet_size_def SpaceWire_static_def
        Ethernet_static_def DataLinkLayer_static_def link_defs sz_add_def)
qed

end
