(* ===== verification/Simulator_Program.thy ===== *)
theory Simulator_Program
  imports Responder_Steps Formatter
begin

text \<open>
  The simulator program (\<open>apps/foxsimile.cpp\<close>): the two responders it starts, one for the detectors with their memory
  images, one for the housekeeping board with two fixed answers. \<open>opens\<close> and \<open>files\<close> are those of \<open>Responder\<close>;
  \<open>mem\<close> is the unset \<open>active_type\<close> of the managers. The uplink queues of the managers are never used.

  Only the flight program sets up the logger. Here a lookup that fails writes its message through a null pointer; the
  argument is the interface of a configuration that was loaded without a message.
\<close>

section \<open>Tables\<close>

definition bulk_names :: "string list" where
  "bulk_names = [''cdte1'', ''cdte5'', ''cdte3'', ''cdte4'', ''cmos1'', ''cmos2'']"

definition mmap_file :: "string \<Rightarrow> string" where
  "mmap_file name = (if name \<in> {''cmos1'', ''cmos2''} then ''util/mock/cmos_mmap_mod'' else ''util/mock/de_mmap_mod'')"

text \<open>A \<open>std::map\<close> from a list: the first of two equal keys stays, and the keys are sorted.\<close>

fun first_of_key :: "('k \<times> 'v) list \<Rightarrow> ('k \<times> 'v) list" where
  "first_of_key [] = []"
| "first_of_key ((k, v) # ps) = (k, v) # filter (\<lambda>p. fst p \<noteq> k) (first_of_key ps)"

definition bulk_mmap :: "command_deck \<Rightarrow> (u8 \<times> string) list" where
  "bulk_mmap deck = sort_key (unat \<circ> fst)
     (first_of_key (map (\<lambda>name. (sys_hex (get_sys_for_name name deck), mmap_file name)) bulk_names))"

definition housekeeping_reply :: bytes where
  "housekeeping_reply = [
     0x01, 0x00, 0x65, 0x04, 0xb8, 0x42, 0x01, 0x70, 0x44, 0x00, 0x01, 0x30, 0x64, 0x00,
     0x01, 0x10, 0x64, 0x00, 0x81, 0x30, 0x64, 0x00, 0x05, 0xf0, 0x64, 0x00, 0x01, 0xf0,
     0x64, 0x00, 0x01, 0x70, 0x64, 0x00, 0x81, 0xf0, 0x64, 0x00, 0x01, 0x00, 0x5f, 0x13]"

definition housekeeping_response_lookup :: "bytes \<rightharpoonup> bytes" where
  "housekeeping_response_lookup = Map.empty([0x01, 0xf2] \<mapsto> housekeeping_reply, [0x02, 0xf2] \<mapsto> housekeeping_reply)"

section \<open>The program\<close>

text \<open>The systems are looked up by name.\<close>

fun need_systems :: "command_deck \<Rightarrow> string list \<Rightarrow> unit result" where
  "need_systems deck [] = Inr ()"
| "need_systems deck (name # names) =
     (if list_ex (\<lambda>sys. sys_name sys = name) (deck_systems deck) then need_systems deck names else Inl Undefined)"

definition simulated_names :: "string list" where
  "simulated_names = [''gse'', ''cdte1'', ''cdte5'', ''cdte3'', ''cdte4'', ''cmos1'', ''cmos2'', ''housekeeping'']"

text \<open>The printed addresses of four systems.\<close>

fun need_ethernet :: "command_deck \<Rightarrow> string list \<Rightarrow> unit result" where
  "need_ethernet deck [] = Inr ()"
| "need_ethernet deck (name # names) =
     bindR (option_deref (sys_ethernet (get_sys_for_name name deck))) (\<lambda>_. need_ethernet deck names)"

definition foxsimile_parts :: "ring_type \<Rightarrow> line_interface \<Rightarrow> (system_manager list \<times> system_manager) result" where
  "foxsimile_parts mem li =
     (let deck = get_command_deck li; manager = (\<lambda>name. SystemManager mem (get_sys_for_name name deck))
      in bindR (need_systems deck simulated_names) (\<lambda>_.
         bindR (need_ethernet deck [''cdte1'', ''cmos1'', ''housekeeping'', ''gse'']) (\<lambda>_.
           Inr (map manager bulk_names, manager ''housekeeping''))))"

text \<open>The responders of the \<open>try\<close>, in their order.\<close>

definition foxsimile_responders :: "(string \<Rightarrow> u16 \<Rightarrow> bool) \<Rightarrow> (string \<Rightarrow> bytes) \<Rightarrow> line_interface \<Rightarrow> system_manager list
    \<Rightarrow> system_manager \<Rightarrow> (responder \<times> responder) result" where
  "foxsimile_responders opens files li bulk housekeeping =
     (let deck = get_command_deck li
      in bindR (Responder_mmap opens files (bulk_mmap deck) bulk deck) (\<lambda>mock.
         bindR (Responder_lookup opens housekeeping_response_lookup [housekeeping] deck) (\<lambda>housekeeping_mock.
           Inr (mock, housekeeping_mock))))"

definition foxsimile_setup :: "ring_type \<Rightarrow> (string \<Rightarrow> u16 \<Rightarrow> bool) \<Rightarrow> (string \<Rightarrow> bytes) \<Rightarrow> line_interface
    \<Rightarrow> (responder \<times> responder) result" where
  "foxsimile_setup mem opens files li =
     bindR (foxsimile_parts mem li) (\<lambda>(bulk, housekeeping). foxsimile_responders opens files li bulk housekeeping)"

section \<open>Lookups\<close>

lemma map_of_first_of_key: "map_of (first_of_key ps) = map_of ps"
proof (induction ps rule: first_of_key.induct)
  case (2 k v ps)
  have "k' \<noteq> k \<Longrightarrow> map_of (filter (\<lambda>p. fst p \<noteq> k) qs) k' = map_of qs k'" for k' and qs :: "('a \<times> 'b) list"
    by (induction qs) auto
  with 2 show ?case by (intro ext) auto
qed simp

lemma distinct_first_of_key: "distinct (map fst (first_of_key ps))"
  by (induction ps rule: first_of_key.induct) (auto simp: distinct_map_filter)

lemma map_of_load_mmaps:
  "load_mmaps files ps maps k = (case maps k of Some m \<Rightarrow> Some m | None \<Rightarrow> map_option files (map_of ps k))"
  by (induction files ps maps rule: load_mmaps.induct) (auto simp: map_insert_def split: option.splits)

lemma map_of_bulk_mmap:
  assumes "distinct (map (\<lambda>name. sys_hex (get_sys_for_name name deck)) bulk_names)" and "name \<in> set bulk_names"
  shows "map_of (bulk_mmap deck) (sys_hex (get_sys_for_name name deck)) = Some (mmap_file name)"
proof -
  let ?key = "\<lambda>name. sys_hex (get_sys_for_name name deck)"
  let ?ps = "map (\<lambda>name. (?key name, mmap_file name)) bulk_names"
  have "distinct (map fst (bulk_mmap deck))" "set (bulk_mmap deck) = set (first_of_key ?ps)"
    using distinct_first_of_key [of ?ps] by (simp_all add: bulk_mmap_def distinct_map)
  then have "map_of (bulk_mmap deck) = map_of ?ps"
    using map_of_inject_set [of "bulk_mmap deck" "first_of_key ?ps"] distinct_first_of_key [of ?ps]
    by (simp only: map_of_first_of_key)
  moreover have "map_of ?ps (?key name) = Some (mmap_file name)"
    using assms by (intro map_of_is_SomeI) (auto simp: comp_def)
  ultimately show ?thesis by simp
qed

text \<open>The answers of a lookup table stay through every run.\<close>

lemma handles_lookup:
  "handles s es s' \<Longrightarrow> at_rest s \<Longrightarrow>
   at_rest s' \<and> rs_lookup s' = rs_lookup s \<and> rs_response_lookup s' = rs_response_lookup s"
proof (induction rule: handles.induct)
  case (handles_event e s s' es s'')
  from dispatch_keeps [OF handles_event.hyps(1) handles_event.prems handles_event.hyps(2)] handles_event.IH
  show ?case by (auto simp: plays_def)
qed simp

lemma two_byte_answer:
  assumes "rs_lookup s" and "rs_response_lookup s [a, b] = Some reply" and "a \<noteq> 0" and "reply \<noteq> []"
    and "rs_accumulator s = []" and "rs_send_fails s = []" and "2 \<le> length (rs_read_buffer s)" and "0 < rs_receives s"
  shows "\<exists>s'. dispatch (Received No_Error [a, b] behind) s = Some (Inr (), s') \<and> rs_sent s' = rs_sent s @ [reply] \<and>
    rs_accumulator s' = []"
  using assms
  by (auto simp: await_full_buffer_def take_message_def get_response_def catchM_def send_response_def clear_accumulator_def
      async_receive_def bindM_def vec_resize_def vec_max_def pad_to_def Let_def)

text \<open>A configuration that misses one of the systems ends the simulator.\<close>

lemma missing_system_undefined:
  assumes "name \<in> set simulated_names" and "name \<notin> sys_name ` set (deck_systems (get_command_deck li))"
  shows "foxsimile_setup mem opens files li = Inl Undefined"
proof -
  have "name \<in> set names \<Longrightarrow> need_systems (get_command_deck li) names = Inl Undefined" for names
    using assms(2) by (induction names) (auto simp: list_ex_iff)
  from this [OF assms(1)] show ?thesis by (simp add: foxsimile_setup_def foxsimile_parts_def Let_def)
qed

section \<open>Properties\<close>

text \<open>C25. What the simulator plays. For distinct identifiers the detectors' responder serves the image of its file for every
  detector; and in every run of the housekeeping responder, whatever arrived before, each of the two requests is
  answered with the housekeeping data when it arrives at an empty accumulator and the socket works.\<close>

theorem simulator_started:
  assumes "foxsimile_setup mem opens files li = Inr (mock, housekeeping_mock)"
    and "distinct (map (\<lambda>name. sys_hex (get_sys_for_name name (get_command_deck li))) bulk_names)"
  shows "(\<forall>name \<in> set bulk_names. rs_mmaps mock (sys_hex (get_sys_for_name name (get_command_deck li))) = Some (files (mmap_file name))) \<and>
    map sm_system (rs_managers mock) = map (\<lambda>name. get_sys_for_name name (get_command_deck li)) bulk_names \<and>
    at_rest mock \<and> at_rest housekeeping_mock \<and>
    (\<forall>es s board behind. handles housekeeping_mock es s \<and> rs_accumulator s = [] \<and> rs_send_fails s = [] \<and> 0 < rs_receives s \<and>
       board \<in> {0x01, 0x02} \<longrightarrow>
       (\<exists>s'. dispatch (Received No_Error [board, 0xf2] behind) s = Some (Inr (), s') \<and>
         rs_sent s' = rs_sent s @ [housekeeping_reply] \<and> rs_accumulator s' = []))"
proof -
  let ?deck = "get_command_deck li"
  from assms(1) have mock: "Responder_mmap opens files (bulk_mmap ?deck)
      (map (\<lambda>name. SystemManager mem (get_sys_for_name name ?deck)) bulk_names) ?deck = Inr mock"
    and hk: "Responder_lookup opens housekeeping_response_lookup [SystemManager mem (get_sys_for_name ''housekeeping'' ?deck)] ?deck
      = Inr housekeeping_mock"
    by (auto simp: foxsimile_setup_def foxsimile_parts_def foxsimile_responders_def bindR_eq_Inr Let_def)
  have m: "rs_mmaps mock = load_mmaps files (bulk_mmap ?deck) Map.empty" "at_rest mock"
    "map sm_system (rs_managers mock) = map (\<lambda>name. get_sys_for_name name ?deck) bulk_names"
    using mock by (auto simp: Responder_mmap_def bindR_eq_Inr at_rest_def incomplete_def SystemManager_def)
  have h: "rs_lookup housekeeping_mock" "rs_response_lookup housekeeping_mock = housekeeping_response_lookup" "at_rest housekeeping_mock"
    using hk by (auto simp: Responder_lookup_def bindR_eq_Inr at_rest_def incomplete_def)
  have images: "\<forall>name \<in> set bulk_names. rs_mmaps mock (sys_hex (get_sys_for_name name ?deck)) = Some (files (mmap_file name))"
    using map_of_bulk_mmap [OF assms(2)] by (simp add: m(1) map_of_load_mmaps)
  have "\<exists>s'. dispatch (Received No_Error [board, 0xf2] behind) s = Some (Inr (), s') \<and> rs_sent s' = rs_sent s @ [housekeeping_reply] \<and>
      rs_accumulator s' = []"
    if "handles housekeeping_mock es s" "rs_accumulator s = []" "rs_send_fails s = []" "0 < rs_receives s" "board \<in> {0x01, 0x02}"
    for es s board behind
  proof (rule two_byte_answer)
    from handles_lookup [OF that(1) h(3)] h have s: "rs_lookup s" "rs_response_lookup s = housekeeping_response_lookup" "at_rest s" by simp_all
    then show "rs_lookup s" "2 \<le> length (rs_read_buffer s)" by (simp_all add: at_rest_def)
    show "rs_response_lookup s [board, 0xf2] = Some housekeeping_reply" "board \<noteq> 0"
      using s that(5) by (auto simp: housekeeping_response_lookup_def)
    show "housekeeping_reply \<noteq> []" by (simp add: housekeeping_reply_def)
  qed (use that in auto)
  with images m h show ?thesis by blast
qed


lemma flight_has_systems: "need_systems (get_command_deck flight_interface) simulated_names = Inr ()"
  by (simp add: simulated_names_def flight_deck flight_systems_def System_ethernet_def System_spacewire_def System_uart_def
      System_interfaces_def flight_detector_def System_full_def)

lemma flight_simulated:
  "\<exists>mock housekeeping_mock. foxsimile_setup RB_NONE (\<lambda>_ _. True) (\<lambda>name. [1, 2]) flight_interface = Inr (mock, housekeeping_mock)"
  by (simp add: foxsimile_setup_def foxsimile_parts_def foxsimile_responders_def Let_def flight_has_systems flight_names System_ethernet_def
      System_interfaces_def flight_detector_def System_full_def bulk_names_def Responder_mmap_def Responder_lookup_def
      open_acceptor_def SystemManager_def)

lemma simulator_started_witness:
  "\<exists>mock housekeeping_mock s'. foxsimile_setup RB_NONE (\<lambda>_ _. True) (\<lambda>name. [1, 2]) flight_interface = Inr (mock, housekeeping_mock) \<and>
    rs_mmaps mock 0x09 = Some [1, 2] \<and>
    dispatch (Received No_Error [0x01, 0xf2] (Inl Undefined)) (housekeeping_mock\<lparr>rs_receives := 1, rs_accepts := 1\<rparr>) = Some (Inr (), s') \<and>
    rs_sent s' = [housekeeping_reply]"
proof -
  obtain mock hk where made: "foxsimile_setup RB_NONE (\<lambda>_ _. True) (\<lambda>name. [1, 2]) flight_interface = Inr (mock, hk)"
    using flight_simulated by blast
  have "distinct (map (\<lambda>name. sys_hex (get_sys_for_name name (get_command_deck flight_interface))) bulk_names)"
    by (simp add: bulk_names_def flight_names flight_detector_def System_full_def)
  note all = simulator_started [OF made this]
  have hk: "rs_accepts hk = 2" "rs_receives hk = 0" "rs_accumulator hk = []" "rs_send_fails hk = []" "rs_sent hk = []"
    using made by (auto simp: foxsimile_setup_def foxsimile_parts_def foxsimile_responders_def Responder_lookup_def Let_def bindR_eq_Inr)
  have "handles hk [Accepted False] (hk\<lparr>rs_receives := 1, rs_accepts := 1\<rparr>)"
    by (simp add: handle_accept_def async_receive_def hk)
  with all have "\<exists>s'. dispatch (Received No_Error [0x01, 0xf2] (Inl Undefined)) (hk\<lparr>rs_receives := 1, rs_accepts := 1\<rparr>) = Some (Inr (), s') \<and>
      rs_sent s' = [housekeeping_reply]"
    by (fastforce simp: hk)
  moreover have "rs_mmaps mock 0x09 = Some [1, 2]"
    using all by (auto simp: bulk_names_def flight_names flight_detector_def System_full_def)
  ultimately show ?thesis using made by blast
qed

end
