(* ===== verification/Machine_Safety.thy ===== *)
theory Machine_Safety
  imports Main_Loop
begin

text \<open>
  Memory safety of the main loop as type soundness: in a well-typed state no turn reaches undefined behaviour (a null
  pointer that is dereferenced, an iterator range outside its vector, a division by zero), whatever the peers send, and
  the state stays well-typed. The types say which pointers a configuration must have set and which sizes it must have
  chosen. The flag that the turn of \<open>cdte1\<close> may read without having set it is the argument \<open>mem\<close> of the turn. The
  systems that queued elements point to are those of the deck, which outlives the queue; elements hold them by value.
\<close>

section \<open>Operations without undefined behaviour\<close>

text \<open>From \<open>P\<close>, the operation does not end in undefined behaviour, keeps \<open>P\<close> on every way out, and a value it returns
  satisfies \<open>Q\<close>.\<close>

definition safe :: "('s \<Rightarrow> bool) \<Rightarrow> ('s, 'a) op \<Rightarrow> ('a \<Rightarrow> bool) \<Rightarrow> bool" where
  "safe P p Q \<longleftrightarrow> (\<forall>m. P m \<longrightarrow> (case p m of
     None \<Rightarrow> True
   | Some (Inl e, m') \<Rightarrow> e \<noteq> Undefined \<and> P m'
   | Some (Inr x, m') \<Rightarrow> Q x \<and> P m'))"

abbreviation any :: "'a \<Rightarrow> bool" where "any \<equiv> \<lambda>_. True"

named_theorems safe_intros \<open>operations that reach no undefined behaviour\<close>

lemma safeI:
  "(\<And>m r m'. P m \<Longrightarrow> p m = Some (r, m') \<Longrightarrow> r \<noteq> Inl Undefined \<and> P m' \<and> (\<forall>x. r = Inr x \<longrightarrow> Q x)) \<Longrightarrow> safe P p Q"
  unfolding safe_def
proof (intro allI impI)
  fix m assume all: "\<And>m r m'. P m \<Longrightarrow> p m = Some (r, m') \<Longrightarrow> r \<noteq> Inl Undefined \<and> P m' \<and> (\<forall>x. r = Inr x \<longrightarrow> Q x)" and m: "P m"
  show "case p m of None \<Rightarrow> True | Some (Inl e, m') \<Rightarrow> e \<noteq> Undefined \<and> P m' | Some (Inr x, m') \<Rightarrow> Q x \<and> P m'"
  proof (cases "p m")
    case (Some a)
    obtain r m' where a: "a = (r, m')" by (cases a)
    from all [OF m Some [unfolded a]] Some a show ?thesis by (cases r) simp_all
  qed simp
qed

lemma safeD: "safe P p Q \<Longrightarrow> P m \<Longrightarrow> p m = Some (r, m') \<Longrightarrow> r \<noteq> Inl Undefined \<and> P m' \<and> (\<forall>x. r = Inr x \<longrightarrow> Q x)"
  by (cases r) (auto simp: safe_def)

lemma safe_ret: "Q x \<Longrightarrow> safe P (ret x) Q"
  by (simp add: safe_def)

lemma safe_rets [safe_intros]: "safe P (ret x) any"
  by (simp add: safe_def)

lemma safe_get [safe_intros]: "safe P (getM f) any"
  by (simp add: safe_def)

lemma safe_lifts: "r \<noteq> Inl Undefined \<Longrightarrow> safe P (liftR r) any"
  by (cases r) (simp_all add: safe_def)

lemma safe_modify: "(\<And>m. P m \<Longrightarrow> P (g m)) \<Longrightarrow> safe P (modifyM g) any"
  by (simp add: safe_def)

lemma safe_weaken: "safe P p Q \<Longrightarrow> safe P p any"
  using safeD by (intro safeI) fast

lemma safe_bind_value:
  assumes "safe P p R" and "\<And>x. R x \<Longrightarrow> safe P (q x) Q"
  shows "safe P (bindM p q) Q"
proof (rule safeI)
  fix m r m' assume m: "P m" and run: "bindM p q m = Some (r, m')"
  obtain r1 m1 where p: "p m = Some (r1, m1)" using run by (cases "p m") (auto simp: bindM_def)
  show "r \<noteq> Inl Undefined \<and> P m' \<and> (\<forall>x. r = Inr x \<longrightarrow> Q x)"
  proof (cases r1)
    case (Inl e)
    with safeD [OF assms(1) m p] run p show ?thesis by (auto simp: bindM_def)
  next
    case (Inr x)
    with run p have "q x m1 = Some (r, m')" by (simp add: bindM_def)
    with safeD [OF assms(1) m p] Inr safeD [OF assms(2)] show ?thesis by blast
  qed
qed

lemma safe_bind [safe_intros]: "safe P p any \<Longrightarrow> (\<And>x. safe P (q x) Q) \<Longrightarrow> safe P (bindM p q) Q"
  by (rule safe_bind_value)

lemma safe_bind_lift: "r \<noteq> Inl Undefined \<Longrightarrow> (\<And>x. r = Inr x \<Longrightarrow> safe P (q x) Q) \<Longrightarrow> safe P (bindM (liftR r) q) Q"
  by (cases r) (simp_all add: safe_def)

lemma safe_bind_get: "(\<And>m. P m \<Longrightarrow> safe P (q (f m)) Q) \<Longrightarrow> safe P (bindM (getM f) q) Q"
  by (simp add: safe_def)

text \<open>A step that is known exactly may lead to a stronger invariant for the rest.\<close>

lemma safe_bind_step:
  assumes "\<And>m. P m \<Longrightarrow> \<exists>x m' P'. p m = Some (Inr x, m') \<and> P' m' \<and> (\<forall>m. P' m \<longrightarrow> P m) \<and> safe P' (q x) Q"
  shows "safe P (bindM p q) Q"
proof (rule safeI)
  fix m r m' assume "P m" and run: "bindM p q m = Some (r, m')"
  from assms [OF \<open>P m\<close>] obtain x m1 P' where
    p: "p m = Some (Inr x, m1)" "P' m1" "\<forall>m. P' m \<longrightarrow> P m" "safe P' (q x) Q"
    by (elim exE conjE) (rule that; assumption)
  from run p(1) have "q x m1 = Some (r, m')" by (simp add: bindM_def)
  note end_state = safeD [OF p(4,2) this]
  then have "P m'" using p(3) by simp
  with end_state show "r \<noteq> Inl Undefined \<and> P m' \<and> (\<forall>x. r = Inr x \<longrightarrow> Q x)" by simp
qed

lemma safe_catch: "safe P p any \<Longrightarrow> safe P h any \<Longrightarrow> safe P (catchM caught p h) any"
proof (rule safeI)
  fix m r m' assume p: "safe P p any" and h: "safe P h any" and m: "P m" and run: "catchM caught p h m = Some (r, m')"
  obtain r1 m1 where r1: "p m = Some (r1, m1)" using run by (cases "p m") (auto simp: catchM_def)
  show "r \<noteq> Inl Undefined \<and> P m' \<and> (\<forall>x. r = Inr x \<longrightarrow> any x)"
  proof (cases "\<exists>e. r1 = Inl e \<and> caught e")
    case True
    with run r1 have "h m1 = Some (r, m')" by (auto simp: catchM_def)
    with safeD [OF p m r1] safeD [OF h] show ?thesis by blast
  next
    case False
    with run r1 have "r = r1" "m' = m1" by (cases r1; auto simp: catchM_def)+
    with safeD [OF p m r1] show ?thesis by blast
  qed
qed

lemmas safe_caught [safe_intros] = safe_catch

lemma safe_if [safe_intros]: "(c \<Longrightarrow> safe P p Q) \<Longrightarrow> (\<not> c \<Longrightarrow> safe P q Q) \<Longrightarrow> safe P (if c then p else q) Q"
  by simp

lemma safe_prod [safe_intros]: "(\<And>x y. safe P (p x y) Q) \<Longrightarrow> safe P (case z of (x, y) \<Rightarrow> p x y) Q"
  by (cases z) simp

lemma safe_option: "(x = None \<Longrightarrow> safe P p Q) \<Longrightarrow> (\<And>y. x = Some y \<Longrightarrow> safe P (q y) Q) \<Longrightarrow>
   safe P (case x of None \<Rightarrow> p | Some y \<Rightarrow> q y) Q"
  by (cases x) simp_all

lemma safe_list: "(x = [] \<Longrightarrow> safe P p Q) \<Longrightarrow> (\<And>y ys. x = y # ys \<Longrightarrow> safe P (q y ys) Q) \<Longrightarrow>
   safe P (case x of [] \<Rightarrow> p | y # ys \<Rightarrow> q y ys) Q"
  by (cases x) simp_all

lemma safe_let [safe_intros]: "(\<And>y. safe P (p y) Q) \<Longrightarrow> safe P (let y = x in p y) Q"
  by (simp add: Let_def)

section \<open>Well-typed states\<close>

text \<open>The deck: the ground system has an Ethernet description that holds a header, and only systems with a SpaceWire
  description have SpaceWire commands.\<close>

definition deck_typed :: "command_deck \<Rightarrow> bool" where
  "deck_typed deck \<longleftrightarrow>
     (\<exists>e. sys_ethernet (get_sys_for_name ''gse'' deck) = Some e \<and> 8 \<le> dl_max_payload_size e \<and> 8 \<le> gse_packet_size e) \<and>
     (\<forall>h k. cmd_type (get_command_for_sys_for_code h k deck) = CMD_SPW \<longrightarrow> sys_spacewire (get_sys_for_code h deck) \<noteq> None)"

text \<open>A framer that can strip packets of \<open>n\<close> bytes.\<close>

definition strips :: "nat \<Rightarrow> packet_framer \<Rightarrow> bool" where
  "strips n pf \<longleftrightarrow>
     pf_static_strip_header_size pf + pf_initial_strip_header_size pf +
       pf_static_strip_footer_size pf + pf_initial_strip_footer_size pf \<le> n \<and>
     pf_static_strip_header_size pf + pf_subsequent_strip_header_size pf +
       pf_static_strip_footer_size pf + pf_subsequent_strip_footer_size pf \<le> n"

definition rings_typed :: "system \<Rightarrow> bool" where
  "rings_typed sys \<longleftrightarrow> (\<forall>r \<in> snd ` set (sys_ring_params sys). unat (word_of_nat (rb_write_pointer_width_bytes r) :: u8) \<le> 8)"

definition manager_typed :: "command_deck \<Rightarrow> system_manager \<Rightarrow> bool" where
  "manager_typed deck sm \<longleftrightarrow>
     sm_timing sm \<noteq> None \<and> sm_system sm = get_sys_for_code (sys_hex (sm_system sm)) deck \<and> rings_typed (sm_system sm) \<and>
     (\<forall>t fp. sm_frame_packetizer sm t = Some fp \<longrightarrow> fp_wf fp) \<and>
     (\<forall>t pf spw. sm_packet_framer sm t = Some pf \<longrightarrow> sys_spacewire (sm_system sm) = Some spw \<longrightarrow>
        (\<exists>e. sys_ethernet (sm_system sm) = Some e \<and> strips (expected_packet_size spw e) pf))"

text \<open>A queued command is complete, and a SpaceWire command waits for a system with SpaceWire.\<close>

definition uplink_typed :: "command_deck \<Rightarrow> system \<Rightarrow> uplink_element \<Rightarrow> bool" where
  "uplink_typed deck key u \<longleftrightarrow> up_system u \<noteq> None \<and>
     (\<exists>c. up_command u = Some c \<and> (cmd_type c = CMD_SPW \<longrightarrow> sys_spacewire (get_sys_for_code (sys_hex key) deck) \<noteq> None))"

definition net_typed :: "wiring \<Rightarrow> machine \<Rightarrow> bool" where
  "net_typed x m \<longleftrightarrow> net_ok x m \<and> deck_typed (fst x) \<and>
     (\<forall>(key, q) \<in> set (m_uplink m). list_all (uplink_typed (fst x) key) q)"

text \<open>The types in \<open>A\<close> have a framer and a packetizer.\<close>

definition link_typed :: "wiring \<Rightarrow> system \<Rightarrow> ring_type set \<Rightarrow> machine \<Rightarrow> bool" where
  "link_typed x s A m \<longleftrightarrow> net_typed x m \<and> sm_system (m_man m) = s \<and> manager_typed (fst x) (m_man m) \<and>
     A \<subseteq> dom (sm_packet_framer (m_man m)) \<inter> dom (sm_frame_packetizer (m_man m))"

lemma link_typedD:
  assumes "link_typed x s A m"
  shows "net_typed x m" "sm_system (m_man m) = s" "manager_typed (fst x) (m_man m)" "m_deck m = fst x"
    "deck_typed (fst x)" "list_all sendable (m_downlink m)" "sm_timing (m_man m) \<noteq> None"
    "get_sys_for_code (sys_hex s) (fst x) = s"
  using assms by (auto simp: link_typed_def net_typed_def net_ok_def manager_typed_def)

lemma man_core_typed: "man_core a = man_core b \<Longrightarrow> manager_typed deck a \<longleftrightarrow> manager_typed deck b"
  by (cases a; cases b) (simp add: man_core_def manager_typed_def)

section \<open>Results without undefined behaviour\<close>

lemma defined_bind: "r \<noteq> Inl Undefined \<Longrightarrow> (\<And>x. r = Inr x \<Longrightarrow> f x \<noteq> Inl Undefined) \<Longrightarrow> bindR r f \<noteq> Inl Undefined"
  by (cases r) simp_all

lemma defined_basic [simp]:
  "option_at a \<noteq> Inl Undefined" "vec_at xs i \<noteq> Inl Undefined" "vec_resize n bs \<noteq> Inl Undefined"
  "option_deref a = Inl Undefined \<longleftrightarrow> a = None"
  by (cases a; simp add: vec_at_def vec_resize_def)+

lemma defined_splat [simp]: "n \<le> 8 \<Longrightarrow> splat_to_nbytes n d \<noteq> Inl Undefined"
  by simp

lemma defined_swap: "swap_endian4 bs \<noteq> Inl Undefined"
  unfolding swap_endian4_def by (intro defined_bind) simp_all

lemma defined_log: "sendable d \<Longrightarrow> dbe_to_string d \<noteq> Inl Undefined"
  unfolding dbe_to_string_def by (intro defined_bind) (auto simp: sendable_def)

lemma defined_index: "sendable d \<Longrightarrow> dbe_set_this_packet_index i d \<noteq> Inl Undefined"
  unfolding dbe_set_this_packet_index_def by (intro defined_bind) (simp_all add: defined_log)

lemma defined_payload: "sendable d \<Longrightarrow> dbe_set_payload bs d \<noteq> Inl Undefined"
  using defined_log [of d] by (auto simp: dbe_set_payload_def bindR_eq_Inl)

lemma defined_element:
  "sys_ethernet g = Some e \<Longrightarrow> 8 \<le> dl_max_payload_size e \<Longrightarrow> DownlinkBufferElement s g t \<noteq> Inl Undefined"
  by (auto simp: DownlinkBufferElement_def Let_def)

lemma defined_copy: "sendable d \<Longrightarrow> dbe_copy d \<noteq> Inl Undefined"
  unfolding dbe_copy_def Let_def
proof (intro defined_bind)
  let ?d = "\<lparr>dbe_max_packet_size = dbe_max_packet_size d, dbe_payload = [], dbe_system = dbe_system d,
    dbe_packets_per_frame = dbe_packets_per_frame d, dbe_this_packet_index = 0, dbe_type = dbe_type d, dbe_frame_counter = 0\<rparr>"
  assume "sendable d"
  then have d: "sendable ?d" by (simp add: sendable_def)
  then show "dbe_set_this_packet_index (dbe_this_packet_index d) ?d \<noteq> Inl Undefined" by (rule defined_index)
  show "dbe_set_payload (dbe_payload d) d' \<noteq> Inl Undefined"
    if "dbe_set_this_packet_index (dbe_this_packet_index d) ?d = Inr d'" for d'
    using sendable_set(4) [OF that d] by (rule defined_payload)
qed simp

lemma defined_packet: "sendable d \<Longrightarrow> dbe_get_packet d \<noteq> Inl Undefined"
  using sendable_packet [of d] by auto

lemma defined_strip: "h1 + h2 + f1 + f2 \<le> length packet \<Longrightarrow> strip_packet h1 h2 f1 f2 packet \<noteq> Inl Undefined"
  by (simp add: strip_packet_def vec_erase_front_def vec_erase_back_def, arith?)

lemma defined_push:
  assumes "strips (length reply) pf"
  shows "push_to_frame reply pf \<noteq> Inl Undefined"
proof -
  have "strip_subsequent pf reply \<noteq> Inl Undefined" "strip_initial pf reply \<noteq> Inl Undefined"
    using assms by (simp_all add: strip_subsequent_def strip_initial_def strips_def defined_strip)
  then show ?thesis
    by (auto simp: push_to_frame_def Let_def bindR_eq_Inl)
qed

lemma push_strips: "push_to_frame reply pf = Inr pf' \<Longrightarrow> strips n pf' \<longleftrightarrow> strips n pf"
  by (auto simp: push_to_frame_def Let_def bindR_eq_Inr pf_append_def strips_def split: if_splits)

lemma defined_read_command: "get_read_command_for_sys_at_address deck sys address n \<noteq> Inl Undefined"
  by (cases "sys_spacewire (get_sys_for_code sys deck)") (simp_all add: get_read_command_for_sys_at_address_def Let_def)

lemma defined_command_bytes:
  assumes "deck_typed deck"
  shows "get_command_bytes_for_sys_for_code deck h k \<noteq> Inl Undefined"
  using assms
  by (auto simp: get_command_bytes_for_sys_for_code_def Let_def deck_typed_def make_spw_packet_for_sys_for_command_def
      make_spw_header_def split: command_type.split)

section \<open>The operations of the transport layer\<close>

lemma safe_man:
  assumes "\<And>sm. sm_system (f sm) = sm_system sm" "\<And>sm. sm_timing (f sm) = sm_timing sm"
    "\<And>sm. sm_frame_packetizer (f sm) = sm_frame_packetizer sm" "\<And>sm. sm_packet_framer (f sm) = sm_packet_framer sm"
  shows "safe (link_typed x s A) (on_man f) any"
  unfolding on_man_def
  by (intro safe_modify) (auto simp: link_typed_def net_typed_def net_ok_def manager_typed_def assms)

lemma safe_flags [safe_intros]:
  "safe (link_typed x s A) (on_man (raise_error e)) any" "safe (link_typed x s A) (on_man (drop_error e)) any"
  by (intro safe_man; simp)+

lemma safe_send [safe_intros]: "safe (link_typed x s A) (send p packet) any"
  by (auto simp: safe_def send_def Let_def link_typed_def net_typed_def net_ok_def)

lemma safe_next_reply [safe_intros]: "safe (link_typed x s A) next_reply any"
  by (auto simp: safe_def next_reply_def link_typed_def net_typed_def net_ok_def)

lemma safe_single_reads:
  "safe (link_typed x s A) (sync_tcp_read n) any" "safe (link_typed x s A) sync_tcp_read_some any"
  "safe (link_typed x s A) (sync_uart_read n) any" "safe (link_typed x s A) (sync_udp_read Housekeeping_Sock n) any"
  unfolding sync_tcp_read_def sync_tcp_read_some_def sync_uart_read_def sync_udp_read_housekeeping
  by (intro safe_intros safe_lifts; simp)+

lemma safe_retries: "safe P attempt any \<Longrightarrow> safe P (read_retries attempt k) any"
  by (induction k) (simp_all add: safe_intros)

lemma safe_read_with:
  assumes "safe (link_typed x s A) attempt any"
  shows "safe (link_typed x s A) (read_with attempt buffer) any"
  unfolding read_with_def
proof (rule safe_bind_get)
  fix m assume m: "link_typed x s A m"
  show "safe (link_typed x s A) (bindM (liftR (option_deref (sm_timing (m_man m)))) (\<lambda>timing.
     bindM (read_retries attempt (unat (tm_retry_max_count timing))) (\<lambda>reply.
       if length reply = 0
       then bindM (on_man (raise_error reading_packet)) (\<lambda>_. ret (0, buffer))
       else bindM (on_man (drop_error reading_packet)) (\<lambda>_. ret (length reply, reply))))) any"
    using link_typedD(7) [OF m] by (intro safe_bind_lift safe_intros safe_retries assms) simp
qed

lemma safe_reads [safe_intros]:
  "safe (link_typed x s A) (read_tcp b) any" "safe (link_typed x s A) (read_some b) any"
  "safe (link_typed x s A) (read_uart b) any" "safe (link_typed x s A) (read_udp Housekeeping_Sock b) any"
  unfolding read_tcp_def read_some_def read_uart_def read_udp_def by (rule safe_read_with safe_single_reads)+

lemma safe_read_reply:
  "(\<And>b. safe P (reader b) any) \<Longrightarrow> safe P (read_reply reader n reply) any"
  unfolding read_reply_def by (intro safe_intros safe_lifts) simp_all

lemma safe_intercept [safe_intros]: "safe (link_typed x s A) (handle_intercept_cmd cmd) any"
proof -
  have "safe (link_typed x s A) clear_log any"
    unfolding clear_log_def by (intro safe_modify) (auto simp: link_typed_def net_typed_def net_ok_def)
  moreover have "safe (link_typed x s A) (on_man (set_enable code)) any" for code
    by (intro safe_man) (simp_all add: set_enable_def)
  ultimately show ?thesis unfolding handle_intercept_cmd_def by (intro safe_intros)
qed

text \<open>A command fits the system when a SpaceWire command finds a SpaceWire description there.\<close>

definition fits :: "system \<Rightarrow> command \<Rightarrow> bool" where
  "fits s cmd \<longleftrightarrow> (cmd_type cmd = CMD_SPW \<longrightarrow> sys_spacewire s \<noteq> None)"

lemma safe_spw_tries:
  assumes "sys_spacewire s \<noteq> None"
  shows "safe (link_typed x s A) (spw_tries k w cmd packet reply) any"
proof (induction k arbitrary: w reply)
  case (Suc k)
  have read: "safe (link_typed x s A) (bindM (getM (\<lambda>m. sys_spacewire (sm_system (m_man m)))) (\<lambda>p. bindM (liftR (option_deref p)) f)) any"
    if "\<And>spw. safe (link_typed x s A) (f spw) any" for f :: "spacewire \<Rightarrow> bytes io"
  proof (rule safe_bind_get)
    fix m assume "link_typed x s A m"
    then have "sys_spacewire (sm_system (m_man m)) \<noteq> None" using assms link_typedD(2) by blast
    then show "safe (link_typed x s A) (bindM (liftR (option_deref (sys_spacewire (sm_system (m_man m))))) f) any"
      using that by (intro safe_bind_lift) simp_all
  qed
  show ?case
    unfolding spw_tries.simps by (intro safe_intros read safe_read_reply Suc safe_lifts) simp_all
qed (simp add: safe_intros)

lemma safe_send_command [safe_intros]:
  assumes "fits s cmd"
  shows "safe (link_typed x s A) (sync_send_command_to_system cmd) any"
  unfolding sync_send_command_to_system_def
proof (rule safe_bind [OF safe_intercept], rule safe_if, rule safe_rets, rule safe_bind_get)
  fix m assume m: "link_typed x s A m"
  have spw: "sys_spacewire s \<noteq> None" if "cmd_type cmd = CMD_SPW" using assms that by (simp add: fits_def)
  show "safe (link_typed x s A) (bindM (liftR (get_command_bytes_for_sys_for_code (m_deck m)
     (sys_hex (sm_system (m_man m))) (cmd_hex cmd))) (\<lambda>packet.
           case cmd_type cmd of
             CMD_SPW \<Rightarrow> spw_tries 8 True cmd packet []
           | CMD_ETHERNET \<Rightarrow>
               bindM (send Udp_Housekeeping packet) (\<lambda>_.
                 if cmd_read cmd then read_reply (read_udp Housekeeping_Sock) (cmd_eth_reply_length cmd) [] else ret [])
           | CMD_UART \<Rightarrow>
               bindM (send Uart_Local packet) (\<lambda>_.
                 if cmd_read cmd then read_reply read_uart (cmd_uart_reply_length cmd) [] else ret [])
           | _ \<Rightarrow> ret [])) any"
    using link_typedD(4,5) [OF m]
    by (intro safe_bind_lift)
       (auto simp: defined_command_bytes split: command_type.split intro!: safe_intros safe_read_reply safe_spw_tries spw)
qed

section \<open>The queues\<close>

text \<open>Invariants that hold for any downlink queue of sendable elements.\<close>

definition queue_typed :: "wiring \<Rightarrow> (machine \<Rightarrow> bool) \<Rightarrow> bool" where
  "queue_typed x P \<longleftrightarrow> (\<forall>m. P m \<longrightarrow> net_typed x m) \<and>
     (\<forall>m q. P m \<longrightarrow> list_all sendable q \<longrightarrow> P (m\<lparr>m_downlink := q\<rparr>))"

lemma queue_typed [simp]: "queue_typed x (net_typed x)" "queue_typed x (link_typed x s A)"
  by (auto simp: queue_typed_def link_typed_def net_typed_def net_ok_def)

lemma queue_typedD:
  assumes "queue_typed x P" and "P m"
  shows "list_all sendable (m_downlink m)" "m_deck m = fst x" "deck_typed (fst x)" "net_typed x m"
  using assms by (auto simp: queue_typed_def net_typed_def net_ok_def)

lemma gse_typed:
  assumes "queue_typed x P" and "P m"
  obtains e where "sys_ethernet (get_sys_for_name ''gse'' (m_deck m)) = Some e" "8 \<le> dl_max_payload_size e"
    "8 \<le> gse_packet_size e"
  using queue_typedD [OF assms] that by (auto simp: deck_typed_def)

lemma safe_enqueue:
  assumes "queue_typed x P" and "sendable d"
  shows "safe P (enqueue_downlink d) any"
  unfolding enqueue_downlink_def
proof (intro safe_bind_lift safe_modify)
  show "dbe_copy d \<noteq> Inl Undefined" using assms(2) by (rule defined_copy)
  fix d' m assume "dbe_copy d = Inr d'" "P m"
  with assms show "P (m\<lparr>m_downlink := m_downlink m @ [d']\<rparr>)"
    using sendable_copy [OF assms(2)] queue_typedD(1) [OF assms(1)] by (simp add: queue_typed_def)
qed

lemma safe_filled:
  assumes "queue_typed x P" and "P m"
  shows "safe P (bindM (liftR (DownlinkBufferElement sys (get_sys_for_name ''gse'' (m_deck m)) t)) (\<lambda>dbel.
     bindM (liftR (if single then dbe_set_this_packet_index 1 (dbe_set_packets_per_frame 1 dbel) else Inr dbel)) (\<lambda>dbel.
     bindM (liftR (dbe_set_payload payload dbel)) (\<lambda>dbel. enqueue_downlink dbel)))) any"
proof -
  obtain e where e: "sys_ethernet (get_sys_for_name ''gse'' (m_deck m)) = Some e" "8 \<le> dl_max_payload_size e"
    using gse_typed [OF assms] by blast
  have index: "dbe_set_this_packet_index 1 (dbe_set_packets_per_frame 1 d) \<noteq> Inl Undefined"
    if "sendable d" for d using sendable_set(1) [OF that] by (rule defined_index)
  have sendable: "sendable d1"
    if "sendable d" "(if single then dbe_set_this_packet_index 1 (dbe_set_packets_per_frame 1 d) else Inr d) = Inr d1" for d d1
    using that sendable_set(1,4) by (cases single) auto
  show ?thesis
    by (intro safe_bind_lift defined_element [OF e] safe_enqueue [OF assms(1)])
       (use index defined_payload [OF sendable] sendable_set(5) [OF _ sendable] in \<open>auto dest!: sendable_made\<close>)
qed

lemma safe_queue_data: "queue_typed x P \<Longrightarrow> safe P (queue_data single sys t payload) any"
  unfolding queue_data_def by (rule safe_bind_get) (rule safe_filled)

lemma safe_queue_reply: "queue_typed x P \<Longrightarrow> safe P (queue_reply reply) any"
  unfolding queue_reply_def by (rule safe_bind_get) (use safe_filled [where single = True] in simp)

lemmas safe_queues [safe_intros] =
  safe_queue_data [OF queue_typed(1)] safe_queue_data [OF queue_typed(2)] safe_queue_reply [OF queue_typed(2)]

lemma safe_forward_command: "fits s cmd \<Longrightarrow> safe (link_typed x s A) (forward_command cmd) any"
  unfolding forward_command_def by (intro safe_intros)

text \<open>The uplink queues. Two keys that compare equal have the same identifier, and what a queue may hold depends on
  nothing else.\<close>

lemma uplink_typed_key: "system_eq a b \<Longrightarrow> uplink_typed deck a u \<longleftrightarrow> uplink_typed deck b u"
  by (simp add: uplink_typed_def system_eq_def)

lemma uplink_at_typed:
  assumes "\<forall>(key, q) \<in> set qs. list_all (uplink_typed deck key) q" and "uplink_at sys qs = Some q"
  shows "list_all (uplink_typed deck sys) q"
  using assms
proof (induction sys qs rule: uplink_at.induct)
  case (2 sys key q' rest)
  then show ?case by (auto simp: list_all_iff uplink_typed_key [of key sys] split: if_splits)
qed simp

lemma uplink_put_typed:
  assumes "\<forall>(key, q) \<in> set qs. list_all (uplink_typed deck key) q" and "list_all (uplink_typed deck sys) q'"
  shows "\<forall>(key, q) \<in> set (uplink_put sys q' qs). list_all (uplink_typed deck key) q"
  using assms
proof (induction sys q' qs rule: uplink_put.induct)
  case (2 sys q' key q rest)
  then show ?case by (auto simp: list_all_iff uplink_typed_key [of key sys])
qed simp

lemma safe_set_queue:
  assumes "list_all (uplink_typed (fst x) sys) q"
  shows "safe (link_typed x s A) (modifyM (set_queue sys q)) any"
proof (rule safe_modify)
  fix m assume "link_typed x s A m"
  then show "link_typed x s A (set_queue sys q m)"
    using uplink_put_typed [of "m_uplink m" "fst x" sys q] assms
    by (auto simp: link_typed_def net_typed_def net_ok_def set_queue_def)
qed

lemma safe_forward [safe_intros]: "safe (link_typed x s A) sync_send_buffer_commands_to_system any"
  unfolding sync_send_buffer_commands_to_system_def
proof (rule safe_bind_get)
  fix m assume m: "link_typed x s A m"
  note s = link_typedD(2,8) [OF m]
  show "safe (link_typed x s A) (case uplink_at (sm_system (m_man m)) (m_uplink m) of
         None \<Rightarrow> on_man (raise_error uplink_forwarding)
       | Some [] \<Rightarrow> ret ()
       | Some (element # rest) \<Rightarrow>
           bindM (getM (\<lambda>m. sm_system (m_man m))) (\<lambda>own.
           bindM (modifyM (set_queue own rest)) (\<lambda>_.
           bindM (liftR (option_deref (up_command element))) (\<lambda>command.
           bindM (liftR (option_deref (up_system element))) (\<lambda>system.
             if check_frame_read_cmd (sys_hex system) (cmd_hex command) then ret ()
             else forward_command command))))) any"
  proof (intro safe_option safe_list safe_flags safe_rets)
    fix q element rest assume q: "uplink_at (sm_system (m_man m)) (m_uplink m) = Some q" "q = element # rest"
    have typed: "list_all (uplink_typed (fst x) s) (element # rest)"
      using uplink_at_typed [OF _ q(1), of "fst x"] q(2) m s(1) by (simp add: link_typed_def net_typed_def)
    then obtain c where c: "up_system element \<noteq> None" "up_command element = Some c" "fits s c"
      using s(2) by (auto simp: uplink_typed_def fits_def)
    show "safe (link_typed x s A) (bindM (getM (\<lambda>m. sm_system (m_man m))) (\<lambda>own.
           bindM (modifyM (set_queue own rest)) (\<lambda>_.
           bindM (liftR (option_deref (up_command element))) (\<lambda>command.
           bindM (liftR (option_deref (up_system element))) (\<lambda>system.
             if check_frame_read_cmd (sys_hex system) (cmd_hex command) then ret ()
             else forward_command command))))) any"
    proof (rule safe_bind_get)
      fix m' assume "link_typed x s A m'"
      then have own: "sm_system (m_man m') = s" by (rule link_typedD(2))
      show "safe (link_typed x s A) (bindM (modifyM (set_queue (sm_system (m_man m')) rest)) (\<lambda>_.
           bindM (liftR (option_deref (up_command element))) (\<lambda>command.
           bindM (liftR (option_deref (up_system element))) (\<lambda>system.
             if check_frame_read_cmd (sys_hex system) (cmd_hex command) then ret ()
             else forward_command command)))) any"
        unfolding own c(2) option_deref.simps
        using typed c(1,3)
        by (intro safe_bind [OF safe_set_queue] safe_bind_lift safe_if safe_rets) (auto intro: safe_forward_command)
    qed
  qed
qed

section \<open>Ground traffic\<close>

lemma uplink_made:
  assumes "UplinkBufferElement reply deck = Inr u" and "vec_at reply 0 = Inr code" and "deck_typed deck"
  shows "uplink_typed deck (get_sys_for_code code deck) u"
proof -
  from assms(1,2) obtain k where u: "up_system u = Some (get_sys_for_code code deck)"
    "up_command u = Some (get_command_for_sys_for_code code k deck)"
    by (auto simp: UplinkBufferElement_def bindR_eq_Inr)
  have "find_code code ss = null_sys \<or> sys_hex (find_code code ss) = code" for ss
    by (induction ss) auto
  then have key: "get_sys_for_code code deck = null_sys \<or> sys_hex (get_sys_for_code code deck) = code"
    by (simp add: get_sys_for_code_def)
  have "sys_spacewire null_sys = None" by (simp add: null_sys_def System_named_def)
  with key assms(3) u show ?thesis by (fastforce simp: uplink_typed_def deck_typed_def)
qed

lemma safe_store_uplink:
  assumes "vec_at reply 0 = Inr code"
  shows "safe (link_typed x s A) (store_uplink reply code) any"
  unfolding store_uplink_def
proof (rule safe_bind_get)
  fix m assume "link_typed x s A m"
  note m = link_typedD(4,5) [OF this]
  show "safe (link_typed x s A) (bindM (liftR (UplinkBufferElement reply (m_deck m))) (\<lambda>new_uplink.
     bindM (getM (\<lambda>m. get_sys_for_code code (m_deck m))) (\<lambda>sys.
     bindM (getM (\<lambda>m. uplink_at sys (m_uplink m))) (\<lambda>queue.
     bindM (liftR (option_at queue)) (\<lambda>queue.
     bindM (modifyM (set_queue sys (queue @ [new_uplink]))) (\<lambda>_. ret True)))))) any"
  proof (intro safe_bind_lift)
    show "UplinkBufferElement reply (m_deck m) \<noteq> Inl Undefined"
      unfolding UplinkBufferElement_def by (intro defined_bind) simp_all
    fix u assume "UplinkBufferElement reply (m_deck m) = Inr u"
    with assms m have u: "uplink_typed (fst x) (get_sys_for_code code (fst x)) u" by (auto intro: uplink_made)
    show "safe (link_typed x s A) (bindM (getM (\<lambda>m. get_sys_for_code code (m_deck m))) (\<lambda>sys.
       bindM (getM (\<lambda>m. uplink_at sys (m_uplink m))) (\<lambda>queue.
       bindM (liftR (option_at queue)) (\<lambda>queue.
       bindM (modifyM (set_queue sys (queue @ [u]))) (\<lambda>_. ret True))))) any"
    proof (rule safe_bind_get, rule safe_bind_get, rule safe_bind_lift)
      fix m1 m2 q
      assume m1: "link_typed x s A m1" and m2: "link_typed x s A m2"
        and q: "option_at (uplink_at (get_sys_for_code code (m_deck m1)) (m_uplink m2)) = Inr q"
      have deck: "m_deck m1 = fst x" using link_typedD(4) [OF m1] .
      have "uplink_at (get_sys_for_code code (fst x)) (m_uplink m2) = Some q"
        using q by (cases "uplink_at (get_sys_for_code code (fst x)) (m_uplink m2)") (simp_all add: deck)
      then have "list_all (uplink_typed (fst x) (get_sys_for_code code (fst x))) q"
        using m2 uplink_at_typed [of "m_uplink m2" "fst x"] by (simp add: link_typed_def net_typed_def)
      with u show "safe (link_typed x s A)
          (bindM (modifyM (set_queue (get_sys_for_code code (m_deck m1)) (q @ [u]))) (\<lambda>_. ret True)) any"
        by (intro safe_bind safe_set_queue safe_rets) (simp add: deck)
    qed simp
  qed
qed

lemma safe_receive_loop: "safe (link_typed x s A) (uart_receive_loop k reply) any"
proof (induction k arbitrary: reply)
  case (Suc k)
  have c: "safe (link_typed x s A) (on_man count_one) any" by (intro safe_man) (simp_all add: count_one_def)
  show ?case
    unfolding uart_receive_loop.simps
  proof (rule safe_bind [OF safe_reads(3)], rule safe_prod, rule safe_if, rule safe_rets)
    fix result :: "nat \<times> bytes" and n bytes
    show "safe (link_typed x s A) (bindM (liftR (vec_at bytes 0)) (\<lambda>sys_code.
         bindM (catchM is_out_of_range
                  (bindM (store_uplink bytes sys_code) (\<lambda>stored. bindM (on_man count_one) (\<lambda>_. ret stored)))
                  (bindM (on_man (raise_error uplink_forwarding)) (\<lambda>_. ret False))) (\<lambda>stored.
           if stored then uart_receive_loop k bytes else ret ()))) any"
      by (rule safe_bind_lift) (simp, intro safe_intros safe_store_uplink c Suc)
  qed
qed (simp add: safe_intros)

lemma safe_receive [safe_intros]: "safe (link_typed x s A) sync_uart_receive_to_uplink_buffer any"
  unfolding sync_uart_receive_to_uplink_buffer_def by (rule safe_receive_loop)

lemma safe_net_send: "safe (net_typed x) (send p packet) any"
  by (auto simp: safe_def send_def Let_def net_typed_def net_ok_def)

lemma safe_set_downlink: "list_all sendable q \<Longrightarrow> safe (net_typed x) (set_downlink q) any"
  unfolding set_downlink_def by (rule safe_modify) (simp add: net_typed_def net_ok_def)

lemma safe_downlink_loop:
  "list_all sendable queue \<Longrightarrow> sendable d \<Longrightarrow> safe (net_typed x) (downlink_loop queue d) any"
proof (induction queue arbitrary: d)
  case Nil
  then show ?case
    unfolding downlink_loop.simps
    by (intro safe_bind_lift safe_if safe_rets safe_bind safe_net_send) (auto simp: defined_packet, auto simp: sendable_def)
next
  case (Cons d2 queue)
  have d: "option_deref (dbe_system d) \<noteq> Inl Undefined" "dbe_get_packet d \<noteq> Inl Undefined"
    using Cons.prems(2) defined_packet by (auto simp: sendable_def)
  have rest: "safe (net_typed x) (downlink_loop queue (dbe_assign d d2)) any" "list_all sendable queue"
    using Cons by simp_all
  show ?case
    unfolding downlink_loop.simps
    by (intro safe_bind_lift safe_if safe_rets safe_bind safe_net_send safe_set_downlink rest d)
qed

lemma safe_send_all [safe_intros]: "safe (net_typed x) sync_udp_send_all_downlink_buffer any"
  unfolding sync_udp_send_all_downlink_buffer_def
proof (rule safe_bind_get)
  fix m assume m: "net_typed x m"
  obtain e where e: "sys_ethernet (get_sys_for_name ''gse'' (m_deck m)) = Some e" "8 \<le> gse_packet_size e"
    using gse_typed [OF queue_typed(1) m] by blast
  show "safe (net_typed x) (bindM (liftR (option_deref (sys_ethernet (get_sys_for_name ''gse'' (m_deck m))))) (\<lambda>e.
     bindM (liftR (DownlinkBufferElement_sized (Some (get_sys_for_name ''gse'' (m_deck m))) (gse_packet_size e))) (\<lambda>dbel.
     bindM (getM m_downlink) (\<lambda>queue.
       case queue of
         [] \<Rightarrow> ret False
       | d # queue \<Rightarrow> bindM (set_downlink queue) (\<lambda>_. downlink_loop queue (dbe_assign dbel d)))))) any"
    unfolding e(1) option_deref.simps
  proof (intro safe_bind_lift)
    fix e' and dbel assume "(Inr e :: ethernet result) = Inr e'"
    with e show "DownlinkBufferElement_sized (Some (get_sys_for_name ''gse'' (m_deck m))) (gse_packet_size e') \<noteq> Inl Undefined"
      by (simp add: DownlinkBufferElement_sized_def)
    show "safe (net_typed x) (bindM (getM m_downlink) (\<lambda>queue. case queue of
         [] \<Rightarrow> ret False
       | d # queue \<Rightarrow> bindM (set_downlink queue) (\<lambda>_. downlink_loop queue (dbe_assign dbel d)))) any"
    proof (rule safe_bind_get)
      fix m' assume "net_typed x m'"
      then have "list_all sendable (m_downlink m')" by (simp add: net_typed_def net_ok_def)
      then show "safe (net_typed x) (case m_downlink m' of [] \<Rightarrow> ret False
         | d # queue \<Rightarrow> bindM (set_downlink queue) (\<lambda>_. downlink_loop queue (dbe_assign dbel d))) any"
        by (cases "m_downlink m'") (auto intro!: safe_intros safe_set_downlink safe_downlink_loop)
    qed
  qed simp
qed

end
