(* ===== verification/Loop_Safety.thy ===== *)
theory Loop_Safety
  imports Machine_Safety Loop_Properties
begin

text \<open>
  Memory safety of the main loop: the remote buffer transaction, the turns of the systems and the loop itself
  reach no undefined behaviour from a well-typed state, and keep it well-typed. \<open>Machine_Safety\<close> has the
  types and the operations below.
\<close>

section \<open>The remote buffer transaction\<close>

lemma link_typed_kept:
  assumes "buffers_of m' = buffers_of m" and "queues_of m' = queues_of m" and "link_typed x s A m"
  shows "link_typed x s A m'"
proof -
  have core: "man_core (m_man m') = man_core (m_man m)" "m_uplink m' = m_uplink m" "m_deck m' = m_deck m"
    "m_downlink m' = m_downlink m"
    using assms(1,2) by (simp_all add: buffers_of_def queues_of_def)
  have "sm_packet_framer (m_man m') = sm_packet_framer (m_man m)"
    "sm_frame_packetizer (m_man m') = sm_frame_packetizer (m_man m)"
    using core(1) by (cases "m_man m'"; cases "m_man m"; simp add: man_core_def)+
  with core man_core_typed [OF core(1)] man_coreD(1) [OF core(1)] assms(3) show ?thesis
    by (simp add: link_typed_def net_typed_def net_ok_def)
qed

text \<open>The framer of a type in \<open>A\<close> is there, and the link's packets can be stripped by it.\<close>

lemma framer_typed:
  assumes "link_typed x s A m" and "t \<in> A"
  obtains pf where "sm_packet_framer (m_man m) t = Some pf"
    "\<And>spw. sys_spacewire s = Some spw \<Longrightarrow> \<exists>e. sys_ethernet s = Some e \<and> strips (expected_packet_size spw e) pf"
proof -
  obtain pf where pf: "sm_packet_framer (m_man m) t = Some pf" using assms by (auto simp: link_typed_def)
  with assms(1) that show thesis unfolding link_typed_def manager_typed_def by blast
qed

lemma safe_frame_done:
  assumes "t \<in> A"
  shows "safe (link_typed x s A) (frame_done t) any"
  unfolding frame_done_def
proof (rule safe_bind_get)
  fix m assume "link_typed x s A m"
  then obtain pf where "sm_packet_framer (m_man m) t = Some pf" using assms by (rule framer_typed)
  then show "safe (link_typed x s A) (bindM (liftR (option_deref (sm_packet_framer (m_man m) t)))
     (\<lambda>pf. ret (check_frame_done pf))) any"
    by (intro safe_bind_lift safe_rets) simp
qed

lemma safe_set_framer:
  assumes "\<And>spw e. sys_spacewire s = Some spw \<Longrightarrow> sys_ethernet s = Some e \<Longrightarrow> strips (expected_packet_size spw e) pf"
    and "t \<in> A"
  shows "safe (link_typed x s A) (on_man (set_framer t pf)) any"
  unfolding on_man_def
proof (rule safe_modify)
  fix m assume m: "link_typed x s A m"
  have "\<exists>e. sys_ethernet s = Some e \<and> strips (expected_packet_size spw e) pf" if spw: "sys_spacewire s = Some spw" for spw
  proof -
    obtain pf' where "\<And>spw. sys_spacewire s = Some spw \<Longrightarrow> \<exists>e. sys_ethernet s = Some e \<and> strips (expected_packet_size spw e) pf'"
      using framer_typed [OF m assms(2)] by blast
    with spw assms(1) show ?thesis by blast
  qed
  with m show "link_typed x s A (m\<lparr>m_man := set_framer t pf (m_man m)\<rparr>)"
    by (auto simp: link_typed_def net_typed_def net_ok_def manager_typed_def set_framer_def)
qed

lemma safe_push_reply:
  assumes "sys_spacewire s = Some spw" and "sys_ethernet s = Some e" and "t \<in> A"
    and "length reply = expected_packet_size spw e"
  shows "safe (link_typed x s A) (push_reply t reply) any"
  unfolding push_reply_def
proof (rule safe_bind_get)
  fix m assume "link_typed x s A m"
  then obtain pf where pf: "sm_packet_framer (m_man m) t = Some pf" "strips (length reply) pf"
    using assms by (metis framer_typed option.inject)
  show "safe (link_typed x s A) (bindM (liftR (option_deref (sm_packet_framer (m_man m) t))) (\<lambda>pf.
     bindM (liftR (push_to_frame reply pf)) (\<lambda>pf. on_man (set_framer t pf)))) any"
  proof (intro safe_bind_lift)
    fix pf1 pf2 assume "option_deref (sm_packet_framer (m_man m) t) = Inr pf1" "push_to_frame reply pf1 = Inr pf2"
    with pf have "strips (length reply) pf2" by (auto dest: push_strips)
    with assms show "safe (link_typed x s A) (on_man (set_framer t pf2)) any" by (intro safe_set_framer) simp_all
  qed (use pf defined_push in auto)
qed

lemma safe_read_packet:
  assumes "sys_spacewire s = Some spw" and "t \<in> A" and "unat width \<le> 8"
  shows "safe (link_typed x s A) (read_packet t spw width start c) any"
  unfolding read_packet_def Let_def
proof (rule safe_bind_lift, simp add: assms, rule safe_bind_get, unfold prod.case)
  fix address m assume m: "link_typed x s A m"
  then obtain e where e: "sys_ethernet s = Some e" using assms(1,2) by (metis framer_typed)
  show "safe (link_typed x s A) (bindM (liftR (option_deref (sys_ethernet (sm_system (m_man m))))) (\<lambda>e.
      bindM (liftR (get_read_command_for_sys_at_address (m_deck m) (sys_hex (sm_system (m_man m))) address (dl_max_payload_size e)))
        (\<lambda>buffer_read_command.
      bindM (send Tcp buffer_read_command) (\<lambda>_.
      bindM (read_reply read_tcp (expected_packet_size spw e) []) (\<lambda>reply.
        if length reply \<noteq> expected_packet_size spw e
        then bindM (on_man (raise_error reading_packet)) (\<lambda>_. ret False)
        else bindM (push_reply t reply) (\<lambda>_. ret True)))))) any"
    unfolding link_typedD(2) [OF m] e option_deref.simps
    by (rule safe_bind_lift, simp, rule safe_bind_lift, rule defined_read_command)
       (use assms e in \<open>auto intro!: safe_intros safe_read_reply safe_push_reply\<close>)
qed

lemma safe_read_frame:
  assumes "sys_spacewire s = Some spw" and "t \<in> A" and "unat width \<le> 8"
  shows "safe (link_typed x s A) (read_frame t spw width start c) any"
proof -
  let ?ok = "\<lambda>t spw width m p. sys_spacewire s = Some spw \<and> t \<in> A \<and> unat width \<le> 8 \<and> link_typed x s A m \<longrightarrow>
    fst p \<noteq> Inl Undefined \<and> link_typed x s A (snd p)"
  have "?ok t spw width m p" if "read_frame t spw width start c m = Some p" for t spw width start c m p
  proof (rule read_frame.raw_induct [where P = "\<lambda>t spw width start c m p. ?ok t spw width m p", OF _ that])
    fix loop t spw width start c m p
    assume IH: "\<And>t spw width start c m p. loop t spw width start c m = Some p \<Longrightarrow> ?ok t spw width m p"
      and body: "bindM (frame_done t) (\<lambda>finished. if finished then ret True
          else bindM (read_packet t spw width start c) (\<lambda>pushed.
            if pushed then loop t spw width start (sz_add c 1) else ret False)) m = Some p"
    show "?ok t spw width m p"
    proof
      assume pre: "sys_spacewire s = Some spw \<and> t \<in> A \<and> unat width \<le> 8 \<and> link_typed x s A m"
      have "safe (link_typed x s A) (loop t spw width start k) any" for k
        by (rule safeI) (use IH pre in fastforce)
      with pre have "safe (link_typed x s A) (bindM (frame_done t) (\<lambda>finished. if finished then ret True
          else bindM (read_packet t spw width start c) (\<lambda>pushed.
            if pushed then loop t spw width start (sz_add c 1) else ret False))) any"
        by (auto intro!: safe_intros safe_frame_done safe_read_packet)
      from safeD [OF this, of m] pre body show "fst p \<noteq> Inl Undefined \<and> link_typed x s A (snd p)" by (cases p) auto
    qed
  qed
  with assms show ?thesis by (intro safeI) (metis fst_conv snd_conv)
qed

lemma safe_queue_frame:
  assumes "fp_wf fp" and "t \<in> A"
  shows "safe (link_typed x s A) (\<lambda>m. case queue_frame n fp (m_downlink m) of
      None \<Rightarrow> None
    | Some (Inl e) \<Rightarrow> Some (Inl e, m)
    | Some (Inr (fp, queue)) \<Rightarrow> Some (Inr (), m\<lparr>m_downlink := queue, m_man := set_packetizer t fp (m_man m)\<rparr>)) any"
proof (rule safeI)
  fix m r m'
  assume m: "link_typed x s A m" and run: "(case queue_frame n fp (m_downlink m) of
      None \<Rightarrow> None
    | Some (Inl e) \<Rightarrow> Some (Inl e, m)
    | Some (Inr (fp, queue)) \<Rightarrow> Some (Inr (), m\<lparr>m_downlink := queue, m_man := set_packetizer t fp (m_man m)\<rparr>)) = Some (r, m')"
  obtain fp' q where q: "queue_frame n fp (m_downlink m) = Some (Inr (fp', q))" "fp_wf fp'"
    using packetizer.drain_total [OF assms(1), of n "m_downlink m"] unfolding queue_frame_def by blast
  have sent: "list_all sendable q"
    using drain_elements [OF q(1) [unfolded queue_frame_def] _ link_typedD(6) [OF m]] pop_sendable by blast
  from run q(1) have "r = Inr ()" "m' = m\<lparr>m_downlink := q, m_man := set_packetizer t fp' (m_man m)\<rparr>" by simp_all
  with m sent q(2) show "r \<noteq> Inl Undefined \<and> link_typed x s A m' \<and> (\<forall>x. r = Inr x \<longrightarrow> any x)"
    by (auto simp: link_typed_def net_typed_def net_ok_def manager_typed_def set_packetizer_def)
qed

lemma get_frame_count_more [simp]:
  "sm_timing (snd (get_frame_count t sm)) = sm_timing sm"
  "sm_packet_framer (snd (get_frame_count t sm)) = sm_packet_framer sm"
  by (simp_all add: get_frame_count_def split: option.split)

lemma safe_queue_elements:
  assumes "t \<in> A"
  shows "safe (link_typed x s A) (queue_elements t) any"
  unfolding queue_elements_def
proof (rule safe_bind_get, unfold prod.case)
  fix m assume m: "link_typed x s A m"
  have "t \<in> dom (sm_packet_framer (m_man m))" "t \<in> dom (sm_frame_packetizer (m_man m))"
    using m assms by (auto simp: link_typed_def)
  then obtain pf fp where b: "sm_packet_framer (m_man m) t = Some pf" "sm_frame_packetizer (m_man m) t = Some fp"
    by blast
  have "fp_wf fp" using m b(2) by (auto simp: link_typed_def manager_typed_def)
  have count: "safe (link_typed x s A) (on_man (\<lambda>sm. snd (get_frame_count t sm))) any" by (intro safe_man) simp_all
  have wf: "fp_wf (fp_set_frame f fp)" for f using \<open>fp_wf fp\<close> by (simp add: fp_wf_def fp_set_frame_def)
  show "safe (link_typed x s A) (bindM (liftR (option_deref (sm_frame_packetizer (m_man m) t))) (\<lambda>fp.
      bindM (liftR (option_deref (sm_packet_framer (m_man m) t))) (\<lambda>pf. let fp = fp_set_frame (pf_frame pf) fp in
        bindM (getM (\<lambda>m. fst (get_frame_count t (m_man m)))) (\<lambda>count.
        bindM (if frame_emptied fp then ret () else on_man (\<lambda>sm. snd (get_frame_count t sm))) (\<lambda>_. \<lambda>m.
          case queue_frame count fp (m_downlink m) of None \<Rightarrow> None | Some (Inl e) \<Rightarrow> Some (Inl e, m)
          | Some (Inr (fp, queue)) \<Rightarrow>
              Some (Inr (), m\<lparr>m_downlink := queue, m_man := set_packetizer t fp (m_man m)\<rparr>)))))) any"
    unfolding b option_deref.simps Let_def
    by (rule safe_bind_lift, simp, rule safe_bind_lift, simp)
       (use assms wf in \<open>auto intro!: safe_bind safe_get safe_if safe_rets count safe_queue_frame\<close>)
qed

lemma safe_finish_frame [safe_intros]:
  "safe (link_typed x s A) (on_man (increment_frame_count t)) any"
  "safe (link_typed x s A) (on_man clear_read_errors) any"
  by (intro safe_man; simp add: increment_frame_count_def clear_read_errors_def split: option.split)+

lemma safe_clear_framer:
  assumes "t \<in> A"
  shows "safe (link_typed x s A) (clear_framer t) any"
  unfolding clear_framer_def
proof (rule safe_bind_get)
  fix m assume m: "link_typed x s A m"
  obtain pf where pf: "sm_packet_framer (m_man m) t = Some pf"
    "\<And>spw. sys_spacewire s = Some spw \<Longrightarrow> \<exists>e. sys_ethernet s = Some e \<and> strips (expected_packet_size spw e) pf"
    using framer_typed [OF m assms] by blast
  have "safe (link_typed x s A) (on_man (set_framer t (pf_clear_frame pf))) any"
    using pf(2) assms by (intro safe_set_framer) (fastforce simp: pf_clear_frame_def strips_def)+
  then show "safe (link_typed x s A) (bindM (liftR (option_deref (sm_packet_framer (m_man m) t)))
     (\<lambda>pf. on_man (set_framer t (pf_clear_frame pf)))) any"
    using pf(1) by (intro safe_bind_lift) auto
qed

text \<open>When the lookups succeed, the type has both buffers.\<close>

lemma find_buffers_result:
  "\<exists>m'. find_buffers t m = Some (Inr (t \<in> dom (sm_packet_framer (m_man m)) \<inter> dom (sm_frame_packetizer (m_man m))), m') \<and>
     buffers_of m' = buffers_of m \<and> queues_of m' = queues_of m"
  by (cases "sm_frame_packetizer (m_man m) t"; cases "sm_packet_framer (m_man m) t")
     (simp_all add: find_buffers_def get_frame_packetizer_def get_packet_framer_def buffers_of_def queues_of_def dom_def)

lemma safe_found:
  assumes "safe (link_typed x s {t}) (q True) any" and "safe (link_typed x s {}) (q False) any"
  shows "safe (link_typed x s {}) (bindM (find_buffers t) q) any"
proof (rule safe_bind_step)
  fix m assume m: "link_typed x s {} m"
  let ?b = "t \<in> dom (sm_packet_framer (m_man m)) \<inter> dom (sm_frame_packetizer (m_man m))"
  obtain m' where m': "find_buffers t m = Some (Inr ?b, m')" "buffers_of m' = buffers_of m" "queues_of m' = queues_of m"
    using find_buffers_result by blast
  have "link_typed x s (if ?b then {t} else {}) m" using m by (auto simp: link_typed_def)
  with m'(2,3) have "link_typed x s (if ?b then {t} else {}) m'" by (rule link_typed_kept)
  moreover have "safe (link_typed x s (if ?b then {t} else {})) (q ?b) any"
    using assms by (cases ?b) (simp_all only: if_True if_False)
  moreover have "\<forall>m. link_typed x s (if ?b then {t} else {}) m \<longrightarrow> link_typed x s {} m" by (auto simp: link_typed_def)
  ultimately show "\<exists>y m' P'. find_buffers t m = Some (Inr y, m') \<and> P' m' \<and> (\<forall>m. P' m \<longrightarrow> link_typed x s {} m) \<and> safe P' (q y) any"
    using m'(1) by blast
qed

lemma safe_read_write_pointer:
  assumes "unat (word_of_nat (rb_write_pointer_width_bytes ring) :: u8) \<le> 8"
  shows "safe (link_typed x s A) (read_write_pointer ring) any"
  unfolding read_write_pointer_def Let_def
  by (rule safe_bind_lift, use assms in simp, rule safe_bind_get, unfold prod.case, rule safe_bind_lift,
      rule defined_read_command) (intro safe_intros safe_read_reply safe_lifts defined_swap)

lemma safe_transaction [safe_intros]:
  "safe (link_typed x s {}) (sync_remote_buffer_transaction t prior) any"
  unfolding sync_remote_buffer_transaction_def
proof (rule safe_bind_get)
  fix m assume m: "link_typed x s {} m"
  have rings: "unat (word_of_nat (rb_write_pointer_width_bytes ring) :: u8) \<le> 8" if "ring_params_at s t = Inr ring" for ring
    using m that map_of_SomeD by (fastforce simp: link_typed_def manager_typed_def rings_typed_def ring_params_at_def
        split: option.splits elim: option_at.elims)
  show "safe (link_typed x s {}) (case sys_spacewire (sm_system (m_man m)) of None \<Rightarrow> ret prior
    | Some spw \<Rightarrow>
        if length (sys_ring_params (sm_system (m_man m))) < unat (ring_code t) then ret prior
        else bindM (liftR (ring_params_at (sm_system (m_man m)) t)) (\<lambda>ring.
          bindM (read_write_pointer ring) (\<lambda>pointer. case pointer of None \<Rightarrow> ret prior
            | Some last_write_pointer_bytes \<Rightarrow> bindM (find_buffers t) (\<lambda>found.
                if \<not> found then ret prior
                else read_and_queue t spw ring (frame_address (sm_system (m_man m)) ring
                  (unat (unsplat_from_4bytes last_write_pointer_bytes))) prior)))) any"
    unfolding link_typedD(2) [OF m]
  proof (intro safe_option safe_if safe_rets)
    fix spw assume spw: "sys_spacewire s = Some spw"
    have queue: "safe (link_typed x s {t}) (read_and_queue t spw ring a prior) any" if "ring_params_at s t = Inr ring" for ring a
      unfolding read_and_queue_def
      using rings [OF that]
      by (intro safe_if safe_rets safe_bind safe_read_frame [OF spw] safe_queue_elements safe_clear_framer safe_finish_frame)
         simp_all
    show "safe (link_typed x s {}) (bindM (liftR (ring_params_at s t)) (\<lambda>ring.
          bindM (read_write_pointer ring) (\<lambda>pointer. case pointer of None \<Rightarrow> ret prior
            | Some last_write_pointer_bytes \<Rightarrow> bindM (find_buffers t) (\<lambda>found.
                if \<not> found then ret prior
                else read_and_queue t spw ring (frame_address s ring
                  (unat (unsplat_from_4bytes last_write_pointer_bytes))) prior)))) any"
      by (rule safe_bind_lift)
         (auto simp: ring_params_at_def intro!: safe_bind safe_option safe_rets safe_read_write_pointer safe_found
           rings queue [unfolded ring_params_at_def] rings [unfolded ring_params_at_def])
  qed
qed

section \<open>The operations of the loop that work on a manager\<close>

lemma safe_send_code [safe_intros]: "safe (link_typed x s A) (send_code code) any"
  unfolding send_code_def
proof (rule safe_bind_get)
  fix m assume m: "link_typed x s A m"
  have "fits s (get_command_for_sys_for_code (sys_hex s) code (fst x))"
    using link_typedD(5,8) [OF m] by (auto simp: fits_def deck_typed_def)
  then show "safe (link_typed x s A) (sync_send_command_to_system
      (get_command_for_sys_for_code (sys_hex (sm_system (m_man m))) code (m_deck m))) any"
    unfolding link_typedD(2,4) [OF m] by (rule safe_send_command)
qed

lemma safe_set_state [safe_intros]: "safe (link_typed x s A) (set_state st) any"
  unfolding set_state_def by (intro safe_man) simp_all

lemma safe_set_type:
  "safe (link_typed x s A) (on_man (\<lambda>sm. sm\<lparr>sm_active_type := t\<rparr>)) any"
  "safe (link_typed x s A) (set_pointer t) any"
  unfolding set_pointer_def by (intro safe_man; simp)+

lemma safe_read_remote [safe_intros]: "safe (link_typed x s {}) (read_remote t) any"
  unfolding read_remote_def by (intro safe_intros safe_lifts safe_man) simp_all

lemma safe_alternate_read [safe_intros]: "safe (link_typed x s {}) alternate_read any"
  unfolding alternate_read_def by (intro safe_intros safe_set_type)

lemma safe_timepix_packets [safe_intros]:
  "safe (link_typed x s A) (timepix_packets request_time flags hk rates pcap) any"
  unfolding timepix_packets_def queue_timepix_def uart_length_def by (intro safe_intros safe_lifts) simp_all

lemma safe_read_board [safe_intros]: "safe (link_typed x s A) (read_board reply_time) any"
proof -
  have q: "safe (link_typed x s A) (queue_board t payload) any" for t payload
    unfolding queue_board_def by (intro safe_intros)
  have "safe (link_typed x s A) (read_power reply_time) any" "safe (link_typed x s A) (read_temperatures reply_time) any"
    "safe (link_typed x s A) (read_introspection reply_time) any"
    unfolding read_power_def read_temperatures_def read_sensor_def read_introspection_def by (intro safe_intros q)+
  then show ?thesis unfolding read_board_def when_enabled_def by (intro safe_intros)
qed

section \<open>The loop\<close>

text \<open>The names the loop looks up, and the well-typed states over a roster of systems.\<close>

definition crew :: "string set" where
  "crew = {''cdtede'', ''cdte1'', ''cdte5'', ''cdte3'', ''cdte4'', ''cmos1'', ''cmos2'', ''timepix'', ''housekeeping'', ''uplink''}"

definition circle_typed :: "wiring \<Rightarrow> circle \<Rightarrow> bool" where
  "circle_typed x c \<longleftrightarrow> crew \<subseteq> set (map (sys_name \<circ> sm_system) (c_managers c)) \<and> net_typed x (c_link c) \<and>
     list_all (manager_typed (fst x)) (c_managers c)"

lemma get_sys_man_found:
  "name \<in> set (map (sys_name \<circ> sm_system) sms) \<Longrightarrow> \<exists>j. get_sys_man_for_name name sms = Some j \<and> j < length sms"
  by (induction sms) auto

lemma circle_typed_found:
  assumes "circle_typed x c" and "name \<in> crew"
  obtains j where "get_sys_man_for_name name (c_managers c) = Some j" "j < length (c_managers c)"
    "manager_typed (fst x) (c_managers c ! j)" "sys_name (sm_system (c_managers c ! j)) = name"
proof -
  have "name \<in> set (map (sys_name \<circ> sm_system) (c_managers c))" using assms by (auto simp: circle_typed_def)
  then obtain j where "get_sys_man_for_name name (c_managers c) = Some j" "j < length (c_managers c)"
    using get_sys_man_found by blast
  with that assms(1) get_sys_man_Some show thesis by (auto simp: circle_typed_def list_all_length)
qed

lemma safe_on_link [safe_intros]: "safe (net_typed x) p any \<Longrightarrow> safe (circle_typed x) (on_link p) any"
proof (rule safeI)
  fix c r c' assume p: "safe (net_typed x) p any" and c: "circle_typed x c" and run: "on_link p c = Some (r, c')"
  obtain m' where m': "p (c_link c) = Some (r, m')" "c' = c\<lparr>c_link := m'\<rparr>"
    using run by (cases "p (c_link c)") (auto simp: on_link_def)
  from safeD [OF p _ m'(1)] c m'(2) show "r \<noteq> Inl Undefined \<and> circle_typed x c' \<and> (\<forall>x. r = Inr x \<longrightarrow> any x)"
    by (simp add: circle_typed_def)
qed

lemma safe_with_manager:
  assumes "name \<in> crew" and "\<And>s. safe (link_typed x s {}) p any"
  shows "safe (circle_typed x) (with_manager name p) any"
proof (rule safeI)
  fix c r c' assume c: "circle_typed x c" and run: "with_manager name p c = Some (r, c')"
  obtain j where j: "get_sys_man_for_name name (c_managers c) = Some j" "j < length (c_managers c)"
    "manager_typed (fst x) (c_managers c ! j)" using circle_typed_found [OF c assms(1)] by blast
  let ?sm = "c_managers c ! j" and ?m = "(c_link c)\<lparr>m_man := c_managers c ! j\<rparr>"
  have m: "link_typed x (sm_system ?sm) {} ?m"
    using c j(3) by (simp add: circle_typed_def link_typed_def net_typed_def net_ok_def)
  obtain m' where m': "p ?m = Some (r, m')" "c' = c\<lparr>c_link := m', c_managers := (c_managers c)[j := m_man m']\<rparr>"
    using run j(2) by (cases "p ?m") (auto simp: with_manager_found [OF j(1)] at_manager_def)
  note after = safeD [OF assms(2) m m'(1)]
  then have t: "net_typed x m'" "sm_system (m_man m') = sm_system ?sm" "manager_typed (fst x) (m_man m')"
    using link_typedD by blast+
  have "map (sys_name \<circ> sm_system) ((c_managers c)[j := m_man m']) = map (sys_name \<circ> sm_system) (c_managers c)"
    using t(2) j(2) by (simp add: map_update list_update_same_conv)
  moreover have "list_all (manager_typed (fst x)) ((c_managers c)[j := m_man m'])"
    using c t(3) set_update_subset_insert [of "c_managers c" j "m_man m'"] by (auto simp: circle_typed_def list_all_iff)
  ultimately show "r \<noteq> Inl Undefined \<and> circle_typed x c' \<and> (\<forall>x. r = Inr x \<longrightarrow> any x)"
    using c t(1) m'(2) after by (simp add: circle_typed_def del: map_map)
qed

lemma safe_copied:
  assumes "name \<in> crew"
  shows "safe (circle_typed x) (copy_manager name) (manager_typed (fst x))"
proof (rule safeI)
  fix c r c' assume c: "circle_typed x c" and run: "copy_manager name c = Some (r, c')"
  from circle_typed_found [OF c assms] obtain j where "get_sys_man_for_name name (c_managers c) = Some j"
    "manager_typed (fst x) (c_managers c ! j)" by blast
  with run c show "r \<noteq> Inl Undefined \<and> circle_typed x c' \<and> (\<forall>sm. r = Inr sm \<longrightarrow> manager_typed (fst x) sm)"
    by (auto simp: copy_manager_found)
qed

lemma safe_copy:
  assumes "name \<in> crew" and "\<And>sm. manager_typed (fst x) sm \<Longrightarrow> safe (circle_typed x) (q sm) Q"
  shows "safe (circle_typed x) (bindM (copy_manager name) q) Q"
  by (rule safe_bind_value [OF safe_copied [OF assms(1)] assms(2)])

lemma safe_with_copy:
  assumes "manager_typed (fst x) sm" and "\<And>s. safe (link_typed x s {}) p any"
  shows "safe (circle_typed x) (with_manager_copy sm p) any"
  unfolding with_manager_copy_def
proof (rule safe_on_link, rule safeI)
  fix m r m' assume "net_typed x m" and run: "p (m\<lparr>m_man := sm\<rparr>) = Some (r, m')"
  with assms(1) have "link_typed x (sm_system sm) {} (m\<lparr>m_man := sm\<rparr>)"
    by (simp add: link_typed_def net_typed_def net_ok_def)
  from safeD [OF assms(2) this run] show "r \<noteq> Inl Undefined \<and> net_typed x m' \<and> (\<forall>x. r = Inr x \<longrightarrow> any x)"
    by (auto dest: link_typedD(1))
qed

lemma crew_names [simp]:
  "''cdtede'' \<in> crew" "''cdte1'' \<in> crew" "''cdte5'' \<in> crew" "''cdte3'' \<in> crew" "''cdte4'' \<in> crew"
  "''cmos1'' \<in> crew" "''cmos2'' \<in> crew" "''timepix'' \<in> crew" "''housekeeping'' \<in> crew" "''uplink'' \<in> crew"
  by (simp_all add: crew_def)

lemma safe_read_clock [safe_intros]: "safe (circle_typed x) read_clock any"
  unfolding read_clock_def by (intro safe_intros safe_modify) (simp add: circle_typed_def)

lemma safe_time: "safe P (liftR (splat_to_nbytes 4 t)) any"
  by (intro safe_lifts) simp

lemma safe_read_housekeeping [safe_intros]:
  "manager_typed (fst x) sm \<Longrightarrow> safe (circle_typed x) (read_housekeeping single sm code) any"
  unfolding read_housekeeping_def by (intro safe_intros safe_with_copy)

lemmas safe_managers = safe_with_manager [OF crew_names(1)] safe_with_manager [OF crew_names(2)]
  safe_with_manager [OF crew_names(3)] safe_with_manager [OF crew_names(4)] safe_with_manager [OF crew_names(5)]
  safe_with_manager [OF crew_names(6)] safe_with_manager [OF crew_names(7)] safe_with_manager [OF crew_names(8)]
  safe_with_manager [OF crew_names(9)] safe_with_manager [OF crew_names(10)]

lemma safe_canister:
  "name \<in> crew \<Longrightarrow> manager_typed (fst x) copy \<Longrightarrow> safe (circle_typed x) (manage_canister name single copy) any"
  unfolding manage_canister_def by (intro safe_intros safe_managers safe_with_manager [of name])

lemma safe_cmos:
  "name \<in> crew \<Longrightarrow> manager_typed (fst x) copy \<Longrightarrow> safe (circle_typed x) (manage_cmos name copy) any"
  unfolding manage_cmos_def by (intro safe_intros safe_with_manager [of name])

lemma safe_cdte1: "manager_typed (fst x) copy \<Longrightarrow> safe (circle_typed x) (manage_cdte1 (Some b) copy) any"
proof -
  have "safe P (liftR (option_deref (if queued then Some True else Some b))) any" for P :: "circle \<Rightarrow> bool" and queued
    by (cases queued) (simp_all add: safe_def)
  then show "manager_typed (fst x) copy \<Longrightarrow> ?thesis"
    unfolding manage_cdte1_def Let_def by (intro safe_intros safe_managers safe_canister crew_names)
qed

lemma safe_systems:
  "manager_typed (fst x) copy \<Longrightarrow> safe (circle_typed x) (manage_cdtede copy) any"
  "safe (circle_typed x) manage_timepix any"
  unfolding manage_cdtede_def manage_timepix_def
  by (intro safe_intros safe_managers safe_time; assumption?)+

lemma safe_housekeeping: "safe (circle_typed x) manage_housekeeping any"
  unfolding manage_housekeeping_def
  by (intro safe_copy safe_intros safe_managers safe_time crew_names safe_man) (simp_all add: count_one_def)

lemma safe_start_of_turn:
  "safe (circle_typed x) record_uplink any" "safe (circle_typed x) flush any" "safe (circle_typed x) send_global_health any"
proof -
  show "safe (circle_typed x) record_uplink any" unfolding record_uplink_def by (intro safe_managers safe_intros)
  have "safe (net_typed x) next_reply any"
    by (auto simp: safe_def next_reply_def net_typed_def net_ok_def)
  then show "safe (circle_typed x) flush any"
    unfolding flush_def sync_tcp_read_some_def by (intro safe_intros)
  show "safe (circle_typed x) send_global_health any"
    unfolding send_global_health_def make_global_health_packet_def
    by (intro safe_copy safe_intros safe_time crew_names)
qed

lemma safe_current: "safe (circle_typed x) current_manager any"
  unfolding current_manager_def
  by (rule safe_bind_get, rule safe_lifts) simp

lemma safe_manage_systems: "safe (circle_typed x) (manage_systems (Some b)) any"
  unfolding manage_systems_def
  by (intro safe_copy safe_intros safe_current safe_start_of_turn safe_cdte1 safe_systems safe_canister safe_cmos
      safe_housekeeping crew_names)

text \<open>A turn of the loop, when the memory holds something where \<open>did_queue_hk\<close> is.\<close>

lemma safe_turn: "safe (circle_typed x) (update_state (Some b)) any"
  unfolding update_state_def
  by (intro safe_bind safe_manage_systems safe_modify) (simp add: circle_typed_def)

section \<open>The flag that is not set\<close>

text \<open>With nothing to read where \<open>did_queue_hk\<close> is, a turn still keeps the types.\<close>

lemma safe_runs: "safe P p Q \<Longrightarrow> runs False P p"
  unfolding runs_def using safeD by (fastforce split: option.split)

lemma runs_typed_copy:
  assumes "name \<in> crew" and "\<And>sm. manager_typed (fst x) sm \<Longrightarrow> runs False (circle_typed x) (q sm)"
  shows "runs False (circle_typed x) (bindM (copy_manager name) q)"
  unfolding runs_def
proof (intro allI impI)
  fix c assume c: "circle_typed x c"
  show "case bindM (copy_manager name) q c of None \<Rightarrow> \<not> False | Some (r, c') \<Rightarrow> circle_typed x c'"
  proof (cases "copy_manager name c")
    case (Some a)
    obtain r c1 where a: "a = (r, c1)" by (cases a)
    from safeD [OF safe_copied [OF assms(1)] c Some [unfolded a]] have c1: "circle_typed x c1"
      "\<forall>sm. r = Inr sm \<longrightarrow> manager_typed (fst x) sm" by simp_all
    show ?thesis
    proof (cases r)
      case (Inr sm)
      with c1 assms(2) [of sm] have "case q sm c1 of None \<Rightarrow> True | Some (r, c') \<Rightarrow> circle_typed x c'"
        unfolding runs_def by (auto split: option.splits)
      with Some a Inr show ?thesis by (cases "q sm c1") (simp_all add: bindM_def)
    qed (use Some a c1 in \<open>simp add: bindM_def\<close>)
  qed (simp add: bindM_def)
qed

lemma runs_cdte1_typed: "manager_typed (fst x) copy \<Longrightarrow> runs False (circle_typed x) (manage_cdte1 mem copy)"
  unfolding manage_cdte1_def Let_def
  by (intro runs_intros safe_runs [OF safe_canister] safe_runs [OF safe_managers(2)] safe_intros crew_names)

lemma runs_systems_typed: "runs False (circle_typed x) (manage_systems mem)"
  unfolding manage_systems_def
  by (intro runs_typed_copy runs_bind runs_basic runs_if runs_cdte1_typed safe_runs [OF safe_current] crew_names
      safe_start_of_turn [THEN safe_runs] safe_systems [THEN safe_runs] safe_canister [THEN safe_runs] safe_cmos [THEN safe_runs]
      safe_housekeeping [THEN safe_runs])

lemma runs_turn_typed: "runs False (circle_typed x) (update_state mem)"
  unfolding update_state_def
  by (intro runs_bind runs_systems_typed runs_modify) (simp add: circle_typed_def)

text \<open>Only the turn of \<open>cdte1\<close> looks at the flag.\<close>

definition same_within :: "(circle \<Rightarrow> bool) \<Rightarrow> 'a loop \<Rightarrow> 'a loop \<Rightarrow> bool" where
  "same_within P p q \<longleftrightarrow> (\<forall>c. P c \<longrightarrow> p c = q c)"

lemma same_bind: "runs False P p \<Longrightarrow> (\<And>x. same_within P (f x) (g x)) \<Longrightarrow> same_within P (bindM p f) (bindM p g)"
  unfolding same_within_def using runsD by (fastforce simp: bindM_def split: option.split sum.split)

lemma other_turns_same:
  assumes "loop_ok False ss x i c" and "i < length ss" and "\<not> system_eq (ss ! i) (get_sys_for_name ''cdte1'' (fst x))"
  shows "update_state mem c = update_state mem' c"
proof -
  let ?P = "loop_ok False ss x i"
  have tail: "same_within ?P
      (bindM current_manager (\<lambda>current. bindM (getM (\<lambda>c name. is_system name (sm_system current) c)) (\<lambda>is.
        if sm_system_state current = SYS_ABANDON then ret () else if is ''cdte1'' then f else g is)))
      (bindM current_manager (\<lambda>current. bindM (getM (\<lambda>c name. is_system name (sm_system current) c)) (\<lambda>is.
        if sm_system_state current = SYS_ABANDON then ret () else if is ''cdte1'' then f' else g is)))" for f f' g
    unfolding same_within_def
  proof (intro allI impI)
    fix c assume c: "?P c"
    then have "\<not> is_system ''cdte1'' (sm_system (c_managers c ! i)) c"
      using assms(2,3) by (auto simp: loop_ok_def net_ok_def is_system_def)
    with c show "bindM current_manager (\<lambda>current. bindM (getM (\<lambda>c name. is_system name (sm_system current) c)) (\<lambda>is.
          if sm_system_state current = SYS_ABANDON then ret () else if is ''cdte1'' then f else g is)) c =
        bindM current_manager (\<lambda>current. bindM (getM (\<lambda>c name. is_system name (sm_system current) c)) (\<lambda>is.
          if sm_system_state current = SYS_ABANDON then ret () else if is ''cdte1'' then f' else g is)) c"
      using assms(2) by (auto simp: current_manager_def vec_at_def loop_ok_def bindM_def getM_def liftR_def)
  qed
  have "same_within ?P (manage_systems mem) (manage_systems mem')"
    unfolding manage_systems_def by (intro same_bind tail runs_intros) (unfold current_manager_def, intro runs_intros)
  with assms(1) show ?thesis by (simp add: update_state_def same_within_def bindM_def)
qed

section \<open>Initialisation\<close>

text \<open>The deck finds the systems of the crew by name, since their managers hold systems of the deck.\<close>

lemma crew_in_deck:
  assumes "circle_typed x c" and "name \<in> crew"
  shows "sys_name (get_sys_for_name name (m_deck (c_link c))) = name"
proof -
  obtain j where j: "manager_typed (fst x) (c_managers c ! j)" "sys_name (sm_system (c_managers c ! j)) = name"
    using circle_typed_found [OF assms] by blast
  let ?s = "sm_system (c_managers c ! j)"
  have found: "find_code h ss = null_sys \<or> find_code h ss \<in> set ss" for h ss by (induction ss) auto
  have "?s = null_sys \<or> ?s \<in> set (deck_systems (fst x))"
    using j(1) found [of "sys_hex ?s" "deck_systems (fst x)"] by (simp add: manager_typed_def get_sys_for_code_def)
  moreover have "?s \<noteq> null_sys"
    using j(2) assms(2) by (auto simp: null_sys_def System_named_def crew_def)
  moreover have "s \<in> set ss \<Longrightarrow> sys_name (find_name (sys_name s) ss) = sys_name s" for s ss
    by (induction ss) auto
  ultimately show ?thesis
    using j(2) assms(1) by (auto simp: get_sys_for_name_def circle_typed_def net_typed_def net_ok_def)
qed

lemma safe_init_canisters: "set names \<subseteq> crew \<Longrightarrow> safe (circle_typed x) (init_canisters can_status k names) any"
proof (induction names arbitrary: k)
  case (Cons name names)
  show ?case
    unfolding init_canisters.simps
  proof (rule safe_bind_get)
    fix c assume "circle_typed x c"
    then have name: "sys_name (get_sys_for_name name (m_deck (c_link c))) \<in> crew"
      using Cons.prems by (simp add: crew_in_deck)
    show "safe (circle_typed x) (bindM (if length can_status < 4
            then with_manager ''cdtede'' (on_man (raise_error reading_invalid))
            else
              bindM (liftR (vec_at can_status k)) (\<lambda>status.
                if status \<noteq> 0x00 then with_manager (sys_name (get_sys_for_name name (m_deck (c_link c)))) (set_state SYS_LOOP)
                else ret ())) (\<lambda>_. init_canisters can_status (k + 1) names)) any"
      using Cons by (intro safe_intros safe_managers safe_lifts safe_with_manager [OF name]) simp_all
  qed
qed (simp add: safe_intros)

lemma safe_each_manager:
  "set names \<subseteq> crew \<Longrightarrow> (\<And>s. safe (link_typed x s {}) p any) \<Longrightarrow> safe (circle_typed x) (each_manager names p) any"
  by (induction names) (auto intro!: safe_intros safe_with_manager)

lemma safe_init_systems: "safe (circle_typed x) init_systems any"
  unfolding init_systems_def init_housekeeping_def init_timepix_def init_cdte_def init_cmos_def ask_linetime_def
  by (intro safe_intros safe_managers safe_init_canisters) simp

lemma safe_Circle_start: "safe (circle_typed x) Circle_start any"
  unfolding Circle_start_def
  by (intro safe_bind safe_modify safe_init_systems safe_each_manager safe_set_type)
     (simp_all add: circle_typed_def detectors_def)

end
