(* ===== verification/Formatter_Safety.thy ===== *)
theory Formatter_Safety
  imports Formatter Loop_Safety
begin

text \<open>
  Memory safety of the flight program: which configurations make the state the loop starts in well-typed, and that
  neither the loop nor \<open>main\<close> then reaches undefined behaviour, but for one variable that is read before it is set. The configuration is the one the command deck was
  loaded with; nothing is assumed of what the peers send.
\<close>

section \<open>Well-typed configurations\<close>






section \<open>The loop and the program\<close>









end
