(* ===== verification/Write_Pointers.thy ===== *)
theory Write_Pointers
  imports Responder_Steps
begin

text \<open>
  The frame timer of the simulator: what its ticks do to the memory images, over every ring of every system that is
  played. A ring is a pair of the number of its manager and its type; its cell is the four bytes of its write pointer
  in the image of its system.
\<close>

section \<open>The write pointer\<close>

text \<open>A pointer that stands at a multiple of the stride in the ring goes to the next one, or from the position behind the
  last to the start.\<close>

lemma next_position:
  fixes stride mod_size start current :: u32
  assumes "unat mod_size = n * unat stride" and "0 < unat stride" and "unat start + (n + 1) * unat stride < 2 ^ 32"
    and "unat current = unat start + j * unat stride" and "j \<le> n"
  shows "unat (next_write_pointer (stride, mod_size, start) current) = unat start + (Suc j mod (n + 1)) * unat stride"
proof -
  have le: "j * unat stride \<le> n * unat stride" using assms(5) by simp
  moreover have "(n + 1) * unat stride = n * unat stride + unat stride" by simp
  ultimately have "unat stride + unat current < 2 ^ 32" using assms(3,4) by linarith
  then have new: "unat (stride + current) = unat start + Suc j * unat stride"
    using assms(4) by (simp add: unat_add_small)
  have last: "unat (mod_size + start) = unat start + n * unat stride"
    using assms(1,3) by (simp add: unat_add_small)
  show ?thesis
  proof (cases "j = n")
    case True
    then have "mod_size + start < stride + current" using new last assms(2) by (simp add: word_less_nat_alt)
    with True show ?thesis by (simp add: next_write_pointer_def)
  next
    case False
    then have "Suc j * unat stride \<le> n * unat stride" using assms(5) by (intro mult_right_mono) simp_all
    then have "\<not> mod_size + start < stride + current" using new last by (simp add: word_less_nat_alt)
    with False assms(5) new show ?thesis by (simp add: next_write_pointer_def)
  qed
qed

definition pointer_at :: "nat \<Rightarrow> nat \<Rightarrow> bytes \<Rightarrow> bytes" where
  "pointer_at p value mem = take p mem @ be_bytes 4 (word_of_nat value) @ drop (p + 4) mem"

lemma pointer_at_simps:
  assumes "p + 4 \<le> length mem"
  shows "length (pointer_at p v mem) = length mem" "take 4 (drop p (pointer_at p v mem)) = be_bytes 4 (word_of_nat v)"
    "pointer_at p v (pointer_at p w mem) = pointer_at p v mem"
  using assms by (simp_all add: pointer_at_def del: be_bytes_numeral)

lemma four_bytes: "length xs = 4 \<Longrightarrow> \<exists>a b c d. xs = [a, b, c, d]"
  by (auto simp: numeral_eq_Suc length_Suc_conv)

lemma advance_position:
  assumes "map_of (sys_ring_params sys) t = Some r" and "ring_geometry sys t = Inr g"
    and "rb_write_pointer_width_bytes r = 4" and "p = unat (rb_write_pointer_address r)"
    and "maps (sys_hex sys) = Some mem" and "p + 4 \<le> length mem"
  shows "advance_write_pointer t (sys, maps) = Some (Inr (), sys, maps(sys_hex sys \<mapsto>
    pointer_at p (unat (next_write_pointer g (unsplat_from_4bytes (take 4 (drop p mem))))) mem))"
  using assms store_bytes_all [of 4 "be_bytes 4 (ucast (next_write_pointer g (unsplat_from_4bytes (take 4 (drop p mem)))))" p mem]
  by (simp add: advance_eq unlogged_unsplat_def ring_params_index_def mmap_index_def pointer_at_def word_of_nat_unat_32 Let_def del: be_bytes_numeral)


text \<open>Other bytes of the image.\<close>

lemma pointer_at_elsewhere:
  assumes "p + 4 \<le> length mem"
  shows "q + 4 \<le> p \<or> p + 4 \<le> q \<Longrightarrow> take 4 (drop q (pointer_at p v mem)) = take 4 (drop q mem)"
    and "a < p \<or> p + 4 \<le> a \<Longrightarrow> pointer_at p v mem ! a = mem ! a"
proof -
  have p: "length (take p mem) = p" "length (take p mem @ be_bytes 4 (word_of_nat v)) = p + 4" using assms by simp_all
  show "take 4 (drop q (pointer_at p v mem)) = take 4 (drop q mem)" if "q + 4 \<le> p \<or> p + 4 \<le> q"
    using that
  proof
    assume q: "q + 4 \<le> p"
    then have "4 \<le> p - q" by linarith
    then have "take 4 (drop q (take p mem @ xs)) = take 4 (drop q mem)" for xs
      using p(1) assms q by (simp add: drop_take min_def)
    then show ?thesis by (simp only: pointer_at_def)
  next
    assume q: "p + 4 \<le> q"
    then have "drop q ((take p mem @ be_bytes 4 (word_of_nat v)) @ drop (p + 4) mem) = drop q mem"
      unfolding drop_append p(2) using p(2) by simp
    then show ?thesis by (simp only: pointer_at_def append_assoc)
  qed
  show "pointer_at p v mem ! a = mem ! a" if "a < p \<or> p + 4 \<le> a"
    using that
  proof
    assume "a < p"
    then show ?thesis using p(1) by (simp add: pointer_at_def nth_append)
  next
    assume a: "p + 4 \<le> a"
    have "((take p mem @ be_bytes 4 (word_of_nat v)) @ drop (p + 4) mem) ! a = mem ! a"
      unfolding nth_append [of "take p mem @ be_bytes 4 (word_of_nat v)"] p(2) using a assms by simp
    then show ?thesis by (simp only: pointer_at_def append_assoc)
  qed
qed

section \<open>The rings of all systems\<close>

type_synonym ring = "nat \<times> ring_type"

definition rings_at :: "responder \<Rightarrow> nat \<Rightarrow> ring list" where
  "rings_at s i = map (\<lambda>(t, _). (i, t)) (sys_ring_params (sm_system (rs_managers s ! i)))"

definition rings_of :: "responder \<Rightarrow> ring list" where
  "rings_of s = concat (map (rings_at s) [0..<length (rs_managers s)])"

definition ring_cell :: "responder \<Rightarrow> ring \<Rightarrow> u8 \<times> nat" where
  "ring_cell s x = (let sys = sm_system (rs_managers s ! fst x) in
     (sys_hex sys, unat (rb_write_pointer_address (the (map_of (sys_ring_params sys) (snd x))))))"

definition stored_at :: "mmaps \<Rightarrow> u8 \<times> nat \<Rightarrow> bytes" where
  "stored_at maps cell = (case maps (fst cell) of None \<Rightarrow> [] | Some mem \<Rightarrow> take 4 (drop (snd cell) mem))"

text \<open>A ring of \<open>n\<close> frames whose pointer is four bytes of a loaded image.\<close>

definition ring_of_frames :: "responder \<Rightarrow> ring \<Rightarrow> nat \<Rightarrow> nat \<Rightarrow> nat \<Rightarrow> bool" where
  "ring_of_frames s x n stride start \<longleftrightarrow>
     (\<exists>r w mod_size first mem.
        map_of (sys_ring_params (sm_system (rs_managers s ! fst x))) (snd x) = Some r \<and> rb_write_pointer_width_bytes r = 4 \<and>
        ring_geometry (sm_system (rs_managers s ! fst x)) (snd x) = Inr (w, mod_size, first) \<and>
        unat w = stride \<and> unat first = start \<and> unat mod_size = n * stride \<and> 0 < stride \<and>
        start + (n + 1) * stride < 2 ^ 32 \<and>
        rs_mmaps s (fst (ring_cell s x)) = Some mem \<and> snd (ring_cell s x) + 4 \<le> length mem)"

definition cells_apart :: "responder \<Rightarrow> bool" where
  "cells_apart s \<longleftrightarrow> (\<forall>x \<in> set (rings_of s). \<forall>y \<in> set (rings_of s). x \<noteq> y \<longrightarrow>
     fst (ring_cell s x) \<noteq> fst (ring_cell s y) \<or>
     snd (ring_cell s x) + 4 \<le> snd (ring_cell s y) \<or> snd (ring_cell s y) + 4 \<le> snd (ring_cell s x))"

text \<open>The pointers of all rings have the values \<open>f\<close>, big-endian; nothing else of the images has changed.\<close>

definition outside_cells :: "responder \<Rightarrow> u8 \<Rightarrow> nat \<Rightarrow> bool" where
  "outside_cells s hex a \<longleftrightarrow> (\<forall>x \<in> set (rings_of s). fst (ring_cell s x) = hex \<longrightarrow>
     a < snd (ring_cell s x) \<or> snd (ring_cell s x) + 4 \<le> a)"

definition pointers_moved :: "responder \<Rightarrow> (ring \<Rightarrow> nat) \<Rightarrow> mmaps \<Rightarrow> bool" where
  "pointers_moved s f maps \<longleftrightarrow>
     (\<forall>x \<in> set (rings_of s). stored_at maps (ring_cell s x) = be_bytes 4 (word_of_nat (f x))) \<and>
     (\<forall>hex. map_option length (maps hex) = map_option length (rs_mmaps s hex)) \<and>
     (\<forall>hex mem mem' a. rs_mmaps s hex = Some mem \<longrightarrow> maps hex = Some mem' \<longrightarrow> outside_cells s hex a \<longrightarrow> mem' ! a = mem ! a)"

lemma advance_moved:
  assumes "pointers_moved s (\<lambda>x. start x + j x * stride x) maps" and "x \<in> set (rings_of s)"
    and "ring_of_frames s x (n x) (stride x) (start x)" and "j x \<le> n x" and "cells_apart s"
  shows "\<exists>maps'. on_manager (fst x) (advance_write_pointer (snd x)) (s\<lparr>rs_mmaps := maps\<rparr>) =
      Some (Inr (), s\<lparr>rs_mmaps := maps'\<rparr>) \<and>
    pointers_moved s (\<lambda>y. start y + (if y = x then Suc (j x) mod (n x + 1) else j y) * stride y) maps'"
proof -
  let ?sys = "sm_system (rs_managers s ! fst x)" and ?hex = "fst (ring_cell s x)" and ?p = "snd (ring_cell s x)"
  let ?v = "start x + (Suc (j x) mod (n x + 1)) * stride x"
  obtain r w mod_size first mem0 where r: "map_of (sys_ring_params ?sys) (snd x) = Some r" "rb_write_pointer_width_bytes r = 4"
      "ring_geometry ?sys (snd x) = Inr (w, mod_size, first)" "unat w = stride x" "unat first = start x"
      "unat mod_size = n x * stride x" "0 < stride x" "start x + (n x + 1) * stride x < 2 ^ 32"
      "rs_mmaps s ?hex = Some mem0" "?p + 4 \<le> length mem0"
    using assms(3) unfolding ring_of_frames_def by blast
  have cell: "?hex = sys_hex ?sys" "?p = unat (rb_write_pointer_address r)" by (simp_all add: ring_cell_def r(1))
  have "map_option length (maps ?hex) = Some (length mem0)" using assms(1) r(9) by (simp add: pointers_moved_def)
  then obtain mem where mem: "maps ?hex = Some mem" "length mem = length mem0" by auto
  define current where "current = unsplat_from_4bytes (take 4 (drop ?p mem))"
  have stands: "unat current = start x + j x * stride x"
  proof -
    have le: "j x * stride x \<le> n x * stride x" using assms(4) by simp
    moreover have "(n x + 1) * stride x = n x * stride x + stride x" by simp
    ultimately have "start x + j x * stride x < 2 ^ 32" using r(8) by linarith
    then have small: "unat (word_of_nat (start x + j x * stride x) :: u32) = start x + j x * stride x"
      by (intro unat_of_nat_small) simp
    have "stored_at maps (ring_cell s x) = be_bytes 4 (word_of_nat (start x + j x * stride x))"
      using assms(1,2) unfolding pointers_moved_def by blast
    then have "take 4 (drop ?p mem) = be_bytes 4 (word_of_nat (start x + j x * stride x))"
      using mem(1) unfolding stored_at_def by (simp only: option.case)
    also have "(word_of_nat (start x + j x * stride x) :: u64) = ucast (word_of_nat (start x + j x * stride x) :: u32)"
      using word_of_nat_unat_32 [of "word_of_nat (start x + j x * stride x)"] unfolding small .
    finally show ?thesis using small by (simp only: current_def unsplat_be_bytes)
  qed
  have new: "unat (next_write_pointer (w, mod_size, first) current) = ?v"
    using next_position [of mod_size "n x" w first current "j x"] r assms(4) stands by simp
  let ?mem = "pointer_at ?p ?v mem" and ?maps = "maps(?hex \<mapsto> pointer_at ?p ?v mem)"
  have fits: "?p + 4 \<le> length mem" using r(10) mem(2) by simp
  have "advance_write_pointer (snd x) (?sys, maps) = Some (Inr (), ?sys, ?maps)"
    using advance_position [of ?sys "snd x" r "(w, mod_size, first)" ?p maps mem] r(1-3) cell mem(1) fits new
    by (simp add: current_def)
  then have step: "on_manager (fst x) (advance_write_pointer (snd x)) (s\<lparr>rs_mmaps := maps\<rparr>) =
      Some (Inr (), s\<lparr>rs_mmaps := ?maps\<rparr>)"
    by (simp add: on_manager_def)
  have others: "stored_at ?maps (ring_cell s y) = stored_at maps (ring_cell s y)" if y: "y \<in> set (rings_of s)" "y \<noteq> x" for y
  proof (cases "fst (ring_cell s y) = ?hex")
    case True
    then have "snd (ring_cell s y) + 4 \<le> ?p \<or> ?p + 4 \<le> snd (ring_cell s y)"
      using assms(2,5) y by (auto simp: cells_apart_def)
    then show ?thesis using True mem(1) pointer_at_elsewhere(1) [OF fits] by (simp add: stored_at_def)
  qed (simp add: stored_at_def)
  have "pointers_moved s (\<lambda>y. start y + (if y = x then Suc (j x) mod (n x + 1) else j y) * stride y) ?maps"
    unfolding pointers_moved_def
  proof (intro conjI ballI allI impI)
    fix y assume y: "y \<in> set (rings_of s)"
    show "stored_at ?maps (ring_cell s y) =
        be_bytes 4 (word_of_nat (start y + (if y = x then Suc (j x) mod (n x + 1) else j y) * stride y))"
    proof (cases "y = x")
      case True
      then show ?thesis using pointer_at_simps(2) [OF fits] by (simp add: stored_at_def del: be_bytes_numeral)
    next
      case False
      with others [OF y False] y assms(1) show ?thesis by (simp add: pointers_moved_def del: be_bytes_numeral)
    qed
  next
    fix hex show "map_option length (?maps hex) = map_option length (rs_mmaps s hex)"
      using assms(1) mem r(9) pointer_at_simps(1) [OF fits] by (simp add: pointers_moved_def)
  next
    fix hex mem1 mem2 a
    assume h: "rs_mmaps s hex = Some mem1" "?maps hex = Some mem2" "outside_cells s hex a"
    show "mem2 ! a = mem1 ! a"
    proof (cases "hex = ?hex")
      case True
      then have "a < ?p \<or> ?p + 4 \<le> a" using h(3) assms(2) by (auto simp: outside_cells_def)
      then have "?mem ! a = mem ! a" by (rule pointer_at_elsewhere(2) [OF fits])
      moreover have "mem ! a = mem1 ! a" using assms(1) h mem(1) True unfolding pointers_moved_def by blast
      ultimately show ?thesis using h(2) True by simp
    next
      case False
      with h assms(1) show ?thesis by (auto simp: pointers_moved_def)
    qed
  qed
  with step show ?thesis by blast
qed

section \<open>A tick, and many\<close>

lemma for_each_append: "for_each f (xs @ ys) = bindM (for_each f xs) (\<lambda>_. for_each f ys)"
  by (induction xs) (simp_all add: bindM_def fun_eq_iff split: option.split sum.split)

lemma for_each_map: "for_each f (map g xs) = for_each (\<lambda>x. f (g x)) xs"
  by (induction xs) simp_all

definition advance_ring :: "ring \<Rightarrow> (responder, unit) op" where
  "advance_ring x = on_manager (fst x) (advance_write_pointer (snd x))"

lemma rings_moved:
  assumes "\<And>x. x \<in> set (rings_of s) \<Longrightarrow> ring_of_frames s x (n x) (stride x) (start x)" and "cells_apart s"
    and "pointers_moved s (\<lambda>x. start x + j x * stride x) maps" and "\<And>x. x \<in> set (rings_of s) \<Longrightarrow> j x \<le> n x"
    and "set xs \<subseteq> set (rings_of s)" and "distinct xs"
  shows "\<exists>maps'. for_each advance_ring xs (s\<lparr>rs_mmaps := maps\<rparr>) = Some (Inr (), s\<lparr>rs_mmaps := maps'\<rparr>) \<and>
    pointers_moved s (\<lambda>x. start x + (if x \<in> set xs then Suc (j x) mod (n x + 1) else j x) * stride x) maps'"
  using assms(3-6)
proof (induction xs arbitrary: maps j)
  case (Cons x xs)
  let ?j = "\<lambda>y. if y = x then Suc (j x) mod (n x + 1) else j y"
  have x: "x \<in> set (rings_of s)" using Cons.prems(3) by simp
  obtain maps1 where one: "advance_ring x (s\<lparr>rs_mmaps := maps\<rparr>) = Some (Inr (), s\<lparr>rs_mmaps := maps1\<rparr>)"
      "pointers_moved s (\<lambda>y. start y + ?j y * stride y) maps1"
    using advance_moved [where s = s and start = start and j = j and stride = stride and maps = maps and x = x and n = n,
        OF Cons.prems(1) x assms(1) [OF x] Cons.prems(2) [OF x] assms(2)]
    unfolding advance_ring_def by blast
  have "?j y \<le> n y" if "y \<in> set (rings_of s)" for y
    using Cons.prems(2) [OF that] by (simp add: less_Suc_eq_le [symmetric])
  then obtain maps' where rest: "for_each advance_ring xs (s\<lparr>rs_mmaps := maps1\<rparr>) = Some (Inr (), s\<lparr>rs_mmaps := maps'\<rparr>)"
      "pointers_moved s (\<lambda>y. start y + (if y \<in> set xs then Suc (?j y) mod (n y + 1) else ?j y) * stride y) maps'"
    using Cons.IH [OF one(2)] Cons.prems(3,4) by auto
  have "(if y \<in> set xs then Suc (?j y) mod (n y + 1) else ?j y) =
      (if y \<in> set (x # xs) then Suc (j y) mod (n y + 1) else j y)" for y
    using Cons.prems(4) by auto
  with one(1) rest show ?case
    by (intro exI [of _ maps']) (simp only: for_each.simps bindM_steps(1) simp_thms)
qed auto

definition advance_rings_of :: "nat \<Rightarrow> (responder, unit) op" where
  "advance_rings_of i = bindM (getM (\<lambda>s. map fst (sys_ring_params (sm_system (rs_managers s ! i))))) (\<lambda>types.
     for_each (\<lambda>t. on_manager i (advance_write_pointer t)) types)"

lemma advance_rings_at: "advance_rings_of i (s\<lparr>rs_mmaps := maps\<rparr>) = for_each advance_ring (rings_at s i) (s\<lparr>rs_mmaps := maps\<rparr>)"
  by (simp add: advance_rings_of_def rings_at_def advance_ring_def for_each_map case_prod_beta bindM_def getM_def)

text \<open>The nested loops of the handler visit the rings of one manager after the other.\<close>

lemma managers_moved:
  assumes "\<And>x. x \<in> set (rings_of s) \<Longrightarrow> ring_of_frames s x (n x) (stride x) (start x)" and "cells_apart s"
    and "pointers_moved s (\<lambda>x. start x + j x * stride x) maps" and "\<And>x. x \<in> set (rings_of s) \<Longrightarrow> j x \<le> n x"
    and "set (concat (map (rings_at s) is)) \<subseteq> set (rings_of s)" and "distinct (concat (map (rings_at s) is))"
  shows "\<exists>maps'. for_each advance_rings_of is (s\<lparr>rs_mmaps := maps\<rparr>) = Some (Inr (), s\<lparr>rs_mmaps := maps'\<rparr>) \<and>
    pointers_moved s (\<lambda>x. start x +
      (if x \<in> set (concat (map (rings_at s) is)) then Suc (j x) mod (n x + 1) else j x) * stride x) maps'"
  using assms(3-6)
proof (induction "is" arbitrary: maps j)
  case (Cons i "is")
  let ?j = "\<lambda>y. if y \<in> set (rings_at s i) then Suc (j y) mod (n y + 1) else j y"
  have here: "set (rings_at s i) \<subseteq> set (rings_of s)" "distinct (rings_at s i)" using Cons.prems(3,4) by simp_all
  obtain maps1 where one: "advance_rings_of i (s\<lparr>rs_mmaps := maps\<rparr>) = Some (Inr (), s\<lparr>rs_mmaps := maps1\<rparr>)"
      "pointers_moved s (\<lambda>y. start y + ?j y * stride y) maps1"
    unfolding advance_rings_at
    using rings_moved [where s = s and start = start and j = j and stride = stride and maps = maps and n = n and xs = "rings_at s i",
        OF assms(1,2) Cons.prems(1,2) here] by blast
  have "?j y \<le> n y" if "y \<in> set (rings_of s)" for y
    using Cons.prems(2) [OF that] by (simp add: less_Suc_eq_le [symmetric])
  then obtain maps' where rest: "for_each advance_rings_of is (s\<lparr>rs_mmaps := maps1\<rparr>) = Some (Inr (), s\<lparr>rs_mmaps := maps'\<rparr>)"
      "pointers_moved s (\<lambda>y. start y +
        (if y \<in> set (concat (map (rings_at s) is)) then Suc (?j y) mod (n y + 1) else ?j y) * stride y) maps'"
    using Cons.IH [OF one(2)] Cons.prems(3,4) by auto
  have "(if y \<in> set (concat (map (rings_at s) is)) then Suc (?j y) mod (n y + 1) else ?j y) =
      (if y \<in> set (concat (map (rings_at s) (i # is))) then Suc (j y) mod (n y + 1) else j y)" for y
    using Cons.prems(4) by auto
  with one(1) rest show ?case
    by (intro exI [of _ maps']) (simp only: for_each.simps bindM_steps(1) simp_thms)
qed auto

lemma timer_body_managers: "timer_body s = for_each advance_rings_of [0..<length (rs_managers s)] s"
  unfolding timer_body_def advance_rings_of_def [abs_def] by (simp add: bindM_def getM_def)

lemma timers_apart [simp]:
  "rings_at (s\<lparr>rs_timers := t\<rparr>) = rings_at s" "rings_of (s\<lparr>rs_timers := t\<rparr>) = rings_of s"
  "ring_cell (s\<lparr>rs_timers := t\<rparr>) = ring_cell s"
  "pointers_moved (s\<lparr>rs_timers := t\<rparr>) f maps \<longleftrightarrow> pointers_moved s f maps"
proof -
  show at: "rings_at (s\<lparr>rs_timers := t\<rparr>) = rings_at s" by (rule ext) (simp add: rings_at_def)
  show rings: "rings_of (s\<lparr>rs_timers := t\<rparr>) = rings_of s" unfolding rings_of_def at by simp
  show cell: "ring_cell (s\<lparr>rs_timers := t\<rparr>) = ring_cell s" by (rule ext) (simp add: ring_cell_def)
  show "pointers_moved (s\<lparr>rs_timers := t\<rparr>) f maps \<longleftrightarrow> pointers_moved s f maps"
    unfolding pointers_moved_def outside_cells_def rings cell by simp
qed

lemma tick_moved:
  assumes "0 < rs_timers s" and "distinct (rings_of s)" and "cells_apart s"
    and "\<And>x. x \<in> set (rings_of s) \<Longrightarrow> ring_of_frames s x (n x) (stride x) (start x)"
    and "pointers_moved s (\<lambda>x. start x + j x * stride x) maps" and "\<And>x. x \<in> set (rings_of s) \<Longrightarrow> j x \<le> n x"
  shows "\<exists>maps'. dispatch Frame_Timer (s\<lparr>rs_mmaps := maps\<rparr>) = Some (Inr (), s\<lparr>rs_mmaps := maps'\<rparr>) \<and>
    pointers_moved s (\<lambda>x. start x + (Suc (j x) mod (n x + 1)) * stride x) maps'"
proof -
  let ?s = "s\<lparr>rs_timers := rs_timers s - 1\<rparr>"
  have "cells_apart ?s" "\<And>x. ring_of_frames ?s x = ring_of_frames s x"
    using assms(3) by (simp_all add: cells_apart_def ring_of_frames_def fun_eq_iff)
  then obtain maps' where body: "timer_body (?s\<lparr>rs_mmaps := maps\<rparr>) = Some (Inr (), ?s\<lparr>rs_mmaps := maps'\<rparr>)"
      "pointers_moved s (\<lambda>x. start x +
        (if x \<in> set (rings_of s) then Suc (j x) mod (n x + 1) else j x) * stride x) maps'"
    using managers_moved [of ?s n stride start j maps "[0..<length (rs_managers s)]"] assms(2,4-6)
    by (auto simp: timer_body_managers rings_of_def [symmetric])
  have "handle_frame_timer (?s\<lparr>rs_mmaps := maps\<rparr>) = Some (Inr (), s\<lparr>rs_mmaps := maps'\<rparr>)"
    using body(1) assms(1) unfolding handle_frame_timer_def timer_body_def [symmetric] by (simp add: catchM_def bindM_def)
  moreover have "pointers_moved s (\<lambda>x. start x + (Suc (j x) mod (n x + 1)) * stride x) maps'"
    using body(2) by (simp add: pointers_moved_def cong: if_cong)
  moreover have "dispatch Frame_Timer (s\<lparr>rs_mmaps := maps\<rparr>) =
      handle_frame_timer (s\<lparr>rs_mmaps := maps, rs_timers := rs_timers s - 1\<rparr>)"
    by (simp add: bindM_def)
  moreover have "s\<lparr>rs_mmaps := maps, rs_timers := rs_timers s - 1\<rparr> = ?s\<lparr>rs_mmaps := maps\<rparr>" by simp
  ultimately show ?thesis by (intro exI [of _ maps']) (simp only: simp_thms)
qed

lemma ticks_moved:
  assumes "0 < rs_timers s" and "distinct (rings_of s)" and "cells_apart s"
    and "\<And>x. x \<in> set (rings_of s) \<Longrightarrow> ring_of_frames s x (n x) (stride x) (start x)"
    and "pointers_moved s (\<lambda>x. start x + j x * stride x) maps" and "\<And>x. x \<in> set (rings_of s) \<Longrightarrow> j x \<le> n x"
  shows "\<exists>maps'. (\<forall>s'. handles (s\<lparr>rs_mmaps := maps\<rparr>) (replicate k Frame_Timer) s' \<longleftrightarrow> s' = s\<lparr>rs_mmaps := maps'\<rparr>) \<and>
    pointers_moved s (\<lambda>x. start x + ((j x + k) mod (n x + 1)) * stride x) maps'"
  using assms(5,6)
proof (induction k arbitrary: maps j)
  case 0
  have "j x mod (n x + 1) = j x" if "x \<in> set (rings_of s)" for x using "0.prems"(2) [OF that] by simp
  with "0.prems"(1) show ?case by (intro exI [of _ maps]) (auto simp: pointers_moved_def)
next
  case (Suc k)
  let ?j = "\<lambda>x. Suc (j x) mod (n x + 1)"
  obtain maps1 where one: "dispatch Frame_Timer (s\<lparr>rs_mmaps := maps\<rparr>) = Some (Inr (), s\<lparr>rs_mmaps := maps1\<rparr>)"
      "pointers_moved s (\<lambda>x. start x + ?j x * stride x) maps1"
    using tick_moved [where s = s and start = start and j = j and stride = stride and maps = maps and n = n,
        OF assms(1-4) Suc.prems] by blast
  have "?j x \<le> n x" for x by (simp add: less_Suc_eq_le [symmetric])
  then obtain maps' where rest:
      "\<forall>s'. handles (s\<lparr>rs_mmaps := maps1\<rparr>) (replicate k Frame_Timer) s' \<longleftrightarrow> s' = s\<lparr>rs_mmaps := maps'\<rparr>"
      "pointers_moved s (\<lambda>x. start x + ((?j x + k) mod (n x + 1)) * stride x) maps'"
    using Suc.IH [OF one(2)] by blast
  have "(?j x + k) mod (n x + 1) = (j x + Suc k) mod (n x + 1)" for x by (simp add: mod_simps)
  with one(1) rest assms(1) show ?case by (intro exI [of _ maps']) (simp del: dispatch.simps)
qed

section \<open>Property\<close>

text \<open>C21. The write pointers step through their rings: every run of \<open>k\<close> ticks of the frame timer has one outcome, in which
  the pointer of each ring of each system, at position \<open>j\<close> of its \<open>n\<close> frames before, stands at position
  \<open>(j + k) mod (n + 1)\<close>, stored big-endian in place. The images keep their sizes, no byte outside the pointers changes,
  and neither does the rest of the state. There are \<open>n + 1\<close> positions, one more than frames: the last is the address
  behind the ring. The rings have pointers of four bytes that do not overlap, in loaded images.\<close>

theorem write_pointer_positions:
  fixes n stride start j :: "ring \<Rightarrow> nat"
  assumes "0 < rs_timers s" and "distinct (rings_of s)" and "cells_apart s"
    and "\<And>x. x \<in> set (rings_of s) \<Longrightarrow> ring_of_frames s x (n x) (stride x) (start x)"
    and "\<And>x. x \<in> set (rings_of s) \<Longrightarrow>
      unat (unsplat_from_4bytes (stored_at (rs_mmaps s) (ring_cell s x))) = start x + j x * stride x \<and> j x \<le> n x"
  shows "\<exists>maps. (\<forall>s'. handles s (replicate k Frame_Timer) s' \<longleftrightarrow> s' = s\<lparr>rs_mmaps := maps\<rparr>) \<and>
    (\<forall>x \<in> set (rings_of s). stored_at maps (ring_cell s x) =
      be_bytes 4 (word_of_nat (start x + ((j x + k) mod (n x + 1)) * stride x))) \<and>
    (\<forall>hex. map_option length (maps hex) = map_option length (rs_mmaps s hex)) \<and>
    (\<forall>hex mem mem' a. rs_mmaps s hex = Some mem \<longrightarrow> maps hex = Some mem' \<longrightarrow>
      (\<forall>x \<in> set (rings_of s). ring_cell s x = (hex, snd (ring_cell s x)) \<longrightarrow>
        a < snd (ring_cell s x) \<or> snd (ring_cell s x) + 4 \<le> a) \<longrightarrow> mem' ! a = mem ! a)"
proof -
  have "stored_at (rs_mmaps s) (ring_cell s x) = be_bytes 4 (word_of_nat (start x + j x * stride x))"
    if x: "x \<in> set (rings_of s)" for x
  proof -
    obtain mem where "rs_mmaps s (fst (ring_cell s x)) = Some mem" "snd (ring_cell s x) + 4 \<le> length mem"
      using assms(4) [OF x] unfolding ring_of_frames_def by blast
    then have "length (stored_at (rs_mmaps s) (ring_cell s x)) = 4" by (simp add: stored_at_def)
    then obtain a b c d where bytes: "stored_at (rs_mmaps s) (ring_cell s x) = [a, b, c, d]" using four_bytes by blast
    show ?thesis
      using assms(5) [OF x] word_of_nat_unat_32 [of "unsplat_from_4bytes [a, b, c, d]"] be_bytes_unsplat [of a b c d]
      unfolding bytes by (simp only:)
  qed
  then have "pointers_moved s (\<lambda>x. start x + j x * stride x) (rs_mmaps s)" by (simp add: pointers_moved_def)
  from ticks_moved [where s = s and start = start and j = j and stride = stride and n = n and k = k, OF assms(1-4) this] assms(5)
  obtain maps where "\<forall>s'. handles s (replicate k Frame_Timer) s' \<longleftrightarrow> s' = s\<lparr>rs_mmaps := maps\<rparr>"
      "pointers_moved s (\<lambda>x. start x + ((j x + k) mod (n x + 1)) * stride x) maps" by auto
  then show ?thesis
    unfolding pointers_moved_def outside_cells_def by (intro exI [of _ maps]) (simp add: prod_eq_iff)
qed

text \<open>An instance: a CdTe detector whose pointer passes the end of its ring, and a CMOS detector with two rings in one
  image.\<close>

definition pc_ring :: ring_buffer_parameters where
  "pc_ring = RingBufferParameters 0x1b0000 0x04401000 32 4 4 PC"

definition ql_ring :: ring_buffer_parameters where
  "ql_ring = RingBufferParameters 0x220000 0x1000 32 12 4 QL"

definition cmos_system :: system where
  "cmos_system = (System_named ''cmos1'' 0x0e)\<lparr>sys_ring_params := [(PC, pc_ring), (QL, ql_ring)]\<rparr>"

definition two_simulated :: responder where
  "two_simulated = (simulator [])\<lparr>
     rs_managers := [SystemManager RB_NONE sim_system, SystemManager RB_NONE cmos_system],
     rs_mmaps := [0x09 \<mapsto> replicate 0x44 0 @ [0, 0, 0x23, 0x1f],
       0x0e \<mapsto> [1, 2, 3, 4, 0x04, 0x40, 0x10, 0x00, 5, 6, 7, 8, 0x00, 0x00, 0x10, 0x00]]\<rparr>"

lemma cdte_ring: "map_of (sys_ring_params sim_system) PC = Some ring_example_parameters" "map fst (sys_ring_params sim_system) = [PC]"
proof -
  show "map_of (sys_ring_params sim_system) PC = Some ring_example_parameters"
    using memory_machine_simps(10)
    by (cases "map_of (sys_ring_params memory_system) PC") (simp_all add: ring_params_at_def sim_system_def)
  show "map fst (sys_ring_params sim_system) = [PC]"
    by (simp add: sim_system_def memory_system_def read_system_def)
qed

lemma two_simulated_simps:
  "rs_timers two_simulated = 1" "rings_of two_simulated = [(0, PC), (1, PC), (1, QL)]"
  "ring_cell two_simulated (0, PC) = (0x09, 0x44)" "ring_cell two_simulated (1, PC) = (0x0e, 4)"
  "ring_cell two_simulated (1, QL) = (0x0e, 12)"
  "stored_at (rs_mmaps two_simulated) (0x09, 0x44) = [0, 0, 0x23, 0x1f]"
  "stored_at (rs_mmaps two_simulated) (0x0e, 4) = [0x04, 0x40, 0x10, 0x00]"
  "stored_at (rs_mmaps two_simulated) (0x0e, 12) = [0x00, 0x00, 0x10, 0x00]"
proof -
  have men: "rs_managers two_simulated = [SystemManager RB_NONE sim_system, SystemManager RB_NONE cmos_system]"
    by (simp add: two_simulated_def)
  show "rs_timers two_simulated = 1"
    by (simp add: two_simulated_def simulator_def Responder_mmap_def open_acceptor_def SystemManager_def sim_system_simps)
  have "map (\<lambda>(t, _). (0 :: nat, t)) (sys_ring_params sim_system) = map (Pair 0) (map fst (sys_ring_params sim_system))"
    by (simp add: case_prod_beta)
  then show "rings_of two_simulated = [(0, PC), (1, PC), (1, QL)]"
    unfolding cdte_ring(2) by (simp add: rings_of_def rings_at_def men SystemManager_def cmos_system_def)
  show "ring_cell two_simulated (0, PC) = (0x09, 0x44)"
    by (simp add: ring_cell_def men SystemManager_def cdte_ring(1) sim_system_simps ring_example_parameters_def RingBufferParameters_def)
  show "ring_cell two_simulated (1, PC) = (0x0e, 4)" "ring_cell two_simulated (1, QL) = (0x0e, 12)"
    by (simp_all add: ring_cell_def men SystemManager_def cmos_system_def pc_ring_def ql_ring_def RingBufferParameters_def System_named_def)
  show "stored_at (rs_mmaps two_simulated) (0x09, 0x44) = [0, 0, 0x23, 0x1f]"
    "stored_at (rs_mmaps two_simulated) (0x0e, 4) = [0x04, 0x40, 0x10, 0x00]"
    "stored_at (rs_mmaps two_simulated) (0x0e, 12) = [0x00, 0x00, 0x10, 0x00]"
    by (simp_all add: stored_at_def two_simulated_def)
qed

lemma two_simulated_rings:
  "ring_of_frames two_simulated (0, PC) 980 5 0x1000" "ring_of_frames two_simulated (1, PC) 32 0x1b0000 0x04401000"
  "ring_of_frames two_simulated (1, QL) 32 0x220000 0x1000"
proof -
  have men: "rs_managers two_simulated = [SystemManager RB_NONE sim_system, SystemManager RB_NONE cmos_system]"
    by (simp add: two_simulated_def)
  show "ring_of_frames two_simulated (0, PC) 980 5 0x1000"
    unfolding ring_of_frames_def two_simulated_simps
    by (simp add: men SystemManager_def cdte_ring(1) ring_geometry_def ring_params_at_def sim_system_simps ring_example_parameters_def
        RingBufferParameters_def) (simp add: two_simulated_def)
  show "ring_of_frames two_simulated (1, PC) 32 0x1b0000 0x04401000" "ring_of_frames two_simulated (1, QL) 32 0x220000 0x1000"
    unfolding ring_of_frames_def two_simulated_simps
    by (simp_all add: men SystemManager_def cmos_system_def pc_ring_def ql_ring_def System_named_def ring_geometry_def ring_params_at_def
        RingBufferParameters_def) (simp_all add: two_simulated_def)
qed

lemma write_pointer_positions_witness:
  "\<exists>maps. handles two_simulated [Frame_Timer, Frame_Timer, Frame_Timer] (two_simulated\<lparr>rs_mmaps := maps\<rparr>) \<and>
    stored_at maps (0x09, 0x44) = [0, 0, 0x10, 0x05] \<and> stored_at maps (0x0e, 4) = [0x04, 0x91, 0x10, 0x00] \<and>
    stored_at maps (0x0e, 12) = [0x00, 0x66, 0x10, 0x00]"
proof -
  let ?n = "(\<lambda>_. 32 :: nat)((0, PC) := 980)" and ?start = "(\<lambda>_. 0x1000)((1, PC) := 0x04401000)"
  let ?stride = "(\<lambda>_. 5)((1, PC) := 0x1b0000, (1, QL) := 0x220000)" and ?j = "(\<lambda>_. 0 :: nat)((0, PC) := 979)"
  have k: "[Frame_Timer, Frame_Timer, Frame_Timer] = replicate 3 Frame_Timer" by (simp add: numeral_3_eq_3)
  have "distinct (rings_of two_simulated)" "cells_apart two_simulated"
    by (simp_all add: cells_apart_def two_simulated_simps [simplified])
  moreover have "ring_of_frames two_simulated x (?n x) (?stride x) (?start x)" if "x \<in> set (rings_of two_simulated)" for x
    using that two_simulated_rings by (auto simp: two_simulated_simps [simplified])
  moreover have "unat (unsplat_from_4bytes (stored_at (rs_mmaps two_simulated) (ring_cell two_simulated x))) = ?start x + ?j x * ?stride x
      \<and> ?j x \<le> ?n x" if "x \<in> set (rings_of two_simulated)" for x
    using that by (auto simp: two_simulated_simps [simplified] unsplat_cons)
  ultimately obtain maps where "\<forall>s'. handles two_simulated (replicate 3 Frame_Timer) s' \<longleftrightarrow> s' = two_simulated\<lparr>rs_mmaps := maps\<rparr>"
      "\<forall>x \<in> set (rings_of two_simulated). stored_at maps (ring_cell two_simulated x) =
        be_bytes 4 (word_of_nat (?start x + ((?j x + 3) mod (?n x + 1)) * ?stride x))"
    using write_pointer_positions [of two_simulated ?n ?stride ?start ?j 3] two_simulated_simps(1) by (auto simp del: fun_upd_apply)
  then show ?thesis
    unfolding k by (intro exI [of _ maps]) (simp add: two_simulated_simps [simplified])
qed

end
