(* ===== verification/Async_Uplink.thy ===== *)
theory Async_Uplink
  imports Traffic
begin

text \<open>
  The asynchronous receive of uplink commands (\<open>src/TransportLayer.cpp\<close>): \<open>async_udp_receive_to_uplink_buffer\<close> starts a
  receive into the member \<open>uplink_swap\<close>, its handler (\<open>async_udp_receive_push_to_uplink_buffer\<close> of \<open>Traffic\<close>) queues the
  command and starts the next. The datagrams are a list; the chain waits when it is used up.
\<close>

section \<open>The chain of receives\<close>

text \<open>What a start makes of the buffer: two resizes, which leave two bytes.\<close>

definition async_udp_receive_to_uplink_buffer :: "bytes \<Rightarrow> bytes result" where
  "async_udp_receive_to_uplink_buffer uplink_swap =
     bindR (vec_resize RECV_BUFF_LEN uplink_swap) (vec_resize 2)"

text \<open>The bytes of a datagram land at the front of a buffer, cut at its size; a failed receive stores nothing and has
  count 0, and the handler does not look at the error.\<close>

definition land :: "bytes \<Rightarrow> bytes \<Rightarrow> bytes" where
  "land datagram buff = take (length buff) datagram @ drop (length datagram) buff"

fun async_uplink :: "bytes list \<Rightarrow> bytes \<Rightarrow> unit io" where
  "async_uplink [] uplink_swap = ret ()"
| "async_uplink (d # datagrams) uplink_swap =
     bindM (liftR (async_udp_receive_to_uplink_buffer uplink_swap)) (\<lambda>swap.
     let byte_count = min (length swap) (length d)
     in bindM (async_udp_receive_push_to_uplink_buffer (land d swap) byte_count) (\<lambda>_.
          async_uplink datagrams (pad_to byte_count (land d swap))))"

section \<open>Properties\<close>

lemma pad_to_pad_to: "k \<le> n \<Longrightarrow> pad_to k (pad_to n xs) = pad_to k xs"
  by (cases "length xs \<le> k"; cases "length xs \<le> n") (simp_all add: pad_to_def min_def)

lemma receive_started: "async_udp_receive_to_uplink_buffer swap = Inr (pad_to 2 swap)"
  by (simp add: async_udp_receive_to_uplink_buffer_def RECV_BUFF_LEN_def vec_max_def pad_to_pad_to)

lemma land_two: "length buff = 2 \<Longrightarrow> land (a # b # rest) buff = [a, b]"
  by (simp add: land_def numeral_2_eq_2)

lemma async_uplink_two:
  "async_uplink ((a # b # rest) # datagrams) swap m =
     bindM (async_udp_receive_push_to_uplink_buffer [a, b] 2) (\<lambda>_. async_uplink datagrams [a, b]) m"
proof -
  have "min 2 (length (a # b # rest)) = 2" "pad_to 2 [a, b] = [a, b]" by (simp_all add: pad_to_def)
  then show ?thesis by (simp only: async_uplink.simps receive_started bindM_liftR length_pad_to land_two Let_def)
qed

definition plain_command :: "command_deck \<Rightarrow> (system \<times> uplink_element list) list \<Rightarrow> u8 \<times> u8 \<Rightarrow> bool" where
  "plain_command deck qs sc \<longleftrightarrow> has_queue deck qs sc \<and> get_sys_name_for_code (fst sc) deck \<noteq> ''formatter''"

lemma push_two:
  assumes "uplink_at (get_sys_for_code (fst sc) (m_deck m)) (m_uplink m) = Some q"
    and "get_sys_name_for_code (fst sc) (m_deck m) \<noteq> ''formatter''"
  shows "async_udp_receive_push_to_uplink_buffer [fst sc, snd sc] 2 m = Some (Inr (),
    m\<lparr>m_uplink := uplink_put (get_sys_for_code (fst sc) (m_deck m)) (q @ [uplinked (m_deck m) sc]) (m_uplink m)\<rparr>)"
proof -
  have "pad_to 2 [fst sc, snd sc] = [fst sc, snd sc]" by (simp add: pad_to_def)
  then show ?thesis
    using store_uplink_ok [OF assms(1)] assms(2)
    by (simp add: async_udp_receive_push_to_uplink_buffer_def vec_max_def catchM_def bindM_steps(1))
qed

lemma empty_push: "swap \<noteq> [] \<Longrightarrow> async_udp_receive_push_to_uplink_buffer swap 0 m = Some (Inl Undefined, m)"
  by (simp add: async_udp_receive_push_to_uplink_buffer_def pad_to_def)

lemma land_nonempty: "length buff = 2 \<Longrightarrow> land d buff \<noteq> []"
  by (cases d) (auto simp: land_def)

lemma queue_all_keeps:
  assumes "list_all (plain_command deck qs) scs" and "uplink_at sys qs = Some q"
  shows "list_all (plain_command deck (uplink_put sys q' qs)) scs"
  using assms by (auto simp: list_all_iff plain_command_def has_queue_def uplink_at_put_eq)

text \<open>C27. The asynchronous uplink queues what it receives: for datagrams that start with a two-byte command, each for a
  system that has a queue and is not the formatter, every queue gains exactly the commands of its system, in the order of
  the datagrams, whatever stood in the buffer before; nothing is sent and nothing is counted. The first empty datagram (or
  failed receive) behind them makes the program undefined.\<close>

theorem async_uplink_queues:
  assumes "list_all (plain_command (m_deck m) (m_uplink m)) scs"
    and "list_all2 (\<lambda>d sc. \<exists>rest. d = fst sc # snd sc # rest) datagrams scs"
  shows "\<exists>qs. async_uplink datagrams swap m = Some (Inr (), m\<lparr>m_uplink := qs\<rparr>) \<and>
    async_uplink (datagrams @ [] # others) swap m = Some (Inl Undefined, m\<lparr>m_uplink := qs\<rparr>) \<and>
    (\<forall>sys. uplink_at sys qs = map_option
      (\<lambda>q. q @ map (uplinked (m_deck m)) (filter (\<lambda>sc. system_eq sys (get_sys_for_code (fst sc) (m_deck m))) scs))
      (uplink_at sys (m_uplink m)))"
proof -
  have "async_uplink datagrams swap m = Some (Inr (), m\<lparr>m_uplink := queue_all (m_deck m) scs (m_uplink m)\<rparr>) \<and>
    async_uplink (datagrams @ [] # others) swap m = Some (Inl Undefined, m\<lparr>m_uplink := queue_all (m_deck m) scs (m_uplink m)\<rparr>)"
    using assms
  proof (induction datagrams arbitrary: scs swap m)
    case Nil
    then show ?case by (simp add: receive_started empty_push land_nonempty bindM_steps(2) del: length_0_conv)
  next
    case (Cons d datagrams)
    from Cons.prems(2) obtain a b rest scs' where d: "d = a # b # rest" and scs: "scs = (a, b) # scs'"
      "list_all2 (\<lambda>d sc. \<exists>rest. d = fst sc # snd sc # rest) datagrams scs'"
      by (auto simp: list_all2_Cons1)
    let ?sys = "get_sys_for_code a (m_deck m)"
    from Cons.prems(1) scs obtain q where q: "uplink_at ?sys (m_uplink m) = Some q"
      by (auto simp: plain_command_def has_queue_def)
    let ?qs = "uplink_put ?sys (q @ [uplinked (m_deck m) (a, b)]) (m_uplink m)"
    have push: "async_udp_receive_push_to_uplink_buffer [a, b] 2 m = Some (Inr (), m\<lparr>m_uplink := ?qs\<rparr>)"
      using push_two [of "(a, b)" m q] q Cons.prems(1) scs by (simp add: plain_command_def)
    have rest: "list_all (plain_command (m_deck m) ?qs) scs'"
      using queue_all_keeps [OF _ q] Cons.prems(1) scs by auto
    show ?case
      using Cons.IH [of "m\<lparr>m_uplink := ?qs\<rparr>" scs' "[a, b]"] rest scs push q
      by (simp add: d async_uplink_two bindM_steps(1) Let_def del: async_uplink.simps)
  qed
  moreover have "list_all (has_queue (m_deck m) (m_uplink m)) scs"
    using assms(1) by (auto simp: list_all_iff plain_command_def)
  ultimately show ?thesis using uplink_at_queue_all by blast
qed

lemma async_uplink_queues_witness:
  "\<exists>m'. async_uplink [[0x09, 0x10], [0x0e, 0x11, 0x55], [0x09, 0x12], []] [] (ground_machine\<lparr>
      m_uplink := [(System_named ''cdte1'' 0x09, []), (System_named ''cmos1'' 0x0e, [])]\<rparr>) = Some (Inl Undefined, m') \<and>
    uplink_at (System_named ''cdte1'' 0x09) (m_uplink m') =
      Some [uplinked ground_deck (0x09, 0x10), uplinked ground_deck (0x09, 0x12)]"
  using async_uplink_queues [of "ground_machine\<lparr>
      m_uplink := [(System_named ''cdte1'' 0x09, []), (System_named ''cmos1'' 0x0e, [])]\<rparr>"
      "[(0x09, 0x10), (0x0e, 0x11), (0x09, 0x12)]" "[[0x09, 0x10], [0x0e, 0x11, 0x55], [0x09, 0x12]]" "[]" "[]"]
  by (auto simp: ground_machine_def machine_example_def plain_command_def get_sys_name_for_code_def
      has_queue_def ground_deck_def get_sys_for_code_def System_named_def system_eq_def)

section \<open>The first connection test\<close>

text \<open>\<open>print_udp_basic\<close> prints what one datagram leaves in a buffer of 1000 unset bytes (\<open>memory\<close>), as a C string.\<close>

definition print_udp_basic :: "bytes \<Rightarrow> bytes \<Rightarrow> bytes result" where
  "print_udp_basic memory datagram =
     (let local_buffer = land datagram memory
      in if 0 \<in> set local_buffer then Inr (takeWhile (\<lambda>b. b \<noteq> 0) local_buffer) else Inl Undefined)"

text \<open>A text of 1000 characters or more is undefined; a shorter one is followed by what the memory held before.\<close>

lemma basic_print_tail:
  assumes "length memory = 1000" and "0 \<notin> set datagram"
  shows "print_udp_basic memory datagram =
    (if 0 \<in> set (drop (length datagram) memory)
     then Inr (datagram @ takeWhile (\<lambda>b. b \<noteq> 0) (drop (length datagram) memory)) else Inl Undefined)"
proof (cases "length datagram < 1000")
  case True
  then have "land datagram memory = datagram @ drop (length datagram) memory" using assms(1) by (simp add: land_def)
  then show ?thesis using assms(2) by (auto simp: print_udp_basic_def intro: takeWhile_append2)
next
  case False
  then have land: "land datagram memory = take 1000 datagram" using assms(1) by (simp add: land_def)
  have "0 \<notin> set (take 1000 datagram)" using assms(2) in_set_takeD by metis
  then show ?thesis using False assms(1) by (simp add: print_udp_basic_def land)
qed

end
