(* ===== verification/Transport_Setup.thy ===== *)
theory Transport_Setup
  imports Formatter Fragments Ring_Buffer Async_Uplink
begin

text \<open>
  How a \<open>TransportLayerMachine\<close> is set up and how its reads wait (\<open>src/TransportLayer.cpp\<close>): the three
  constructors with their sockets and buffers, the setters, the pair of callbacks that forwards UDP to TCP, and the
  functions that run the \<open>io_context\<close> for a timeout.

  Boost is not part of the repository: which calls on a socket fail, and what an \<open>io_context\<close> does, are arguments. What
  the properties need of them is stated as laws (\<open>closed_refuses\<close>, \<open>context_laws\<close>), after Boost's documentation.
\<close>

section \<open>Sockets\<close>

text \<open>A socket remembers whether it is open, whether \<open>reuse_address\<close> is set, the endpoint it is bound to with the value of
  that option at the time, and the peer.\<close>

record 'addr sock =
  so_open :: bool
  so_reuse :: bool
  so_local :: "(('addr \<times> u16) \<times> bool) option"
  so_remote :: "('addr \<times> u16) option"

datatype 'addr socket_call = Open_Socket | Reuse_Address | Bind_To "'addr \<times> u16" | Connect_To "'addr \<times> u16"

type_synonym 'addr refusal = "'addr socket_call \<Rightarrow> 'addr sock \<Rightarrow> bool"

definition closed_socket :: "'addr sock" where
  "closed_socket = \<lparr>so_open = False, so_reuse = False, so_local = None, so_remote = None\<rparr>"

fun socket_effect :: "'addr socket_call \<Rightarrow> 'addr sock \<Rightarrow> 'addr sock" where
  "socket_effect Open_Socket s = s\<lparr>so_open := True\<rparr>"
| "socket_effect Reuse_Address s = s\<lparr>so_reuse := True\<rparr>"
| "socket_effect (Bind_To a) s = s\<lparr>so_local := Some (a, so_reuse s)\<rparr>"
| "socket_effect (Connect_To a) s = s\<lparr>so_remote := Some a\<rparr>"

text \<open>A call that fails throws a \<open>system_error\<close>.\<close>

definition socket_call :: "'addr refusal \<Rightarrow> 'addr socket_call \<Rightarrow> 'addr sock \<Rightarrow> 'addr sock result" where
  "socket_call fails call s = (if fails call s then Inl System_Error else Inr (socket_effect call s))"

text \<open>The law: options, \<open>bind\<close> and \<open>connect\<close> need an open socket (\<open>connect\<close> opens it by itself).\<close>

definition closed_refuses :: "'addr refusal \<Rightarrow> bool" where
  "closed_refuses fails \<longleftrightarrow> (\<forall>s a. \<not> so_open s \<longrightarrow> fails Reuse_Address s \<and> fails (Bind_To a) s)"

section \<open>The object\<close>

record 'addr sockets =
  ss_udp :: "'addr sock"
  ss_tcp :: "'addr sock"
  ss_housekeeping :: "'addr sock"

definition no_sockets :: "'addr sockets" where
  "no_sockets = \<lparr>ss_udp = closed_socket, ss_tcp = closed_socket, ss_housekeeping = closed_socket\<rparr>"

record 'addr transport_object =
  to_sockets :: "'addr sockets"
  to_remote_udp :: "('addr \<times> u16) option"
  to_remote_tcp :: "('addr \<times> u16) option"
  to_remote_housekeeping :: "('addr \<times> u16) option"
  to_local_port :: "serial_option list option"
  to_uplink_port :: "serial_option list option"
  to_downlink_buff :: bytes
  to_uplink_buff :: bytes
  to_command_pipe :: bytes
  to_ground_pipe :: bytes
  to_uplink_buffer :: "(system \<times> uplink_element list) list"
  to_downlink_buffer :: "dbe list"
  to_commands :: "command_deck option"
  to_ring_buffers :: "u8 \<rightharpoonup> ring_buffer"
  to_fragmenter :: fragmenter
  to_active_state :: state_order
  to_active_subsys :: subsystem_order

text \<open>What the member initialisers and the first statements of every constructor set. The default \<open>Fragmenter\<close> is made
  without a throw; \<open>shl\<close> gives the overlong shifts its constructor computes.\<close>

definition fresh_transport :: "(nat \<Rightarrow> u32) \<Rightarrow> (system \<times> uplink_element list) list \<Rightarrow> dbe list \<Rightarrow> 'addr transport_object result" where
  "fresh_transport shl uplink_buffer downlink_buffer =
     bindR (Fragmenter_default shl) (\<lambda>fragmenter. Inr \<lparr>
       to_sockets = no_sockets,
       to_remote_udp = None, to_remote_tcp = None, to_remote_housekeeping = None,
       to_local_port = None, to_uplink_port = None,
       to_downlink_buff = replicate RECV_BUFF_LEN 0x00,
       to_uplink_buff = replicate RECV_BUFF_LEN 0x00,
       to_command_pipe = [],
       to_ground_pipe = [],
       to_uplink_buffer = uplink_buffer,
       to_downlink_buffer = downlink_buffer,
       to_commands = None,
       to_ring_buffers = Map.empty,
       to_fragmenter = fragmenter,
       to_active_state = IDLE,
       to_active_subsys = HOUSEKEEPING\<rparr>)"

definition set_socket_options :: "'addr refusal \<Rightarrow> 'addr sockets \<Rightarrow> 'addr sockets result" where
  "set_socket_options fails ss =
     bindR (socket_call fails Reuse_Address (ss_udp ss)) (\<lambda>udp.
     bindR (socket_call fails Reuse_Address (ss_tcp ss)) (\<lambda>tcp.
     bindR (socket_call fails Reuse_Address (ss_housekeeping ss)) (\<lambda>hk.
       Inr \<lparr>ss_udp = udp, ss_tcp = tcp, ss_housekeeping = hk\<rparr>)))"

definition on_udp :: "'addr refusal \<Rightarrow> 'addr socket_call \<Rightarrow> 'addr sockets \<Rightarrow> 'addr sockets result" where
  "on_udp fails call ss = bindR (socket_call fails call (ss_udp ss)) (\<lambda>s. Inr (ss\<lparr>ss_udp := s\<rparr>))"

definition on_tcp :: "'addr refusal \<Rightarrow> 'addr socket_call \<Rightarrow> 'addr sockets \<Rightarrow> 'addr sockets result" where
  "on_tcp fails call ss = bindR (socket_call fails call (ss_tcp ss)) (\<lambda>s. Inr (ss\<lparr>ss_tcp := s\<rparr>))"

definition on_housekeeping :: "'addr refusal \<Rightarrow> 'addr socket_call \<Rightarrow> 'addr sockets \<Rightarrow> 'addr sockets result" where
  "on_housekeeping fails call ss = bindR (socket_call fails call (ss_housekeeping ss)) (\<lambda>s. Inr (ss\<lparr>ss_housekeeping := s\<rparr>))"

section \<open>The constructors\<close>

text \<open>The first takes the addresses of \<open>Parameters.h\<close>. It opens two of the three sockets.\<close>

definition LOCAL_IP :: string where "LOCAL_IP = ''192.168.1.8''"
definition LOCAL_PORT :: u16 where "LOCAL_PORT = 9999"
definition GSE_IP :: string where "GSE_IP = ''192.168.1.100''"
definition GSE_PORT :: u16 where "GSE_PORT = 9999"
definition SPMU_IP :: string where "SPMU_IP = ''127.0.0.1''"
definition SPMU_PORT :: u16 where "SPMU_PORT = 0"

definition made_address :: "(string \<Rightarrow> 'addr option) \<Rightarrow> string \<Rightarrow> 'addr result" where
  "made_address make_address text = (case make_address text of None \<Rightarrow> Inl System_Error | Some a \<Rightarrow> Inr a)"

definition open_first_sockets :: "'addr refusal \<Rightarrow> 'addr \<times> u16 \<Rightarrow> 'addr \<times> u16 \<Rightarrow> 'addr sockets result" where
  "open_first_sockets fails own remote_tcp =
     bindR (on_udp fails Open_Socket no_sockets) (\<lambda>ss.
     bindR (on_tcp fails Open_Socket ss) (\<lambda>ss.
     bindR (set_socket_options fails ss) (\<lambda>ss.
     bindR (on_udp fails (Bind_To own) ss) (\<lambda>ss.
     bindR (on_tcp fails (Bind_To own) ss) (\<lambda>ss.
       on_tcp fails (Connect_To remote_tcp) ss)))))"

definition TransportLayerMachine_static :: "(nat \<Rightarrow> u32) \<Rightarrow> (string \<Rightarrow> 'addr option) \<Rightarrow> 'addr refusal
    \<Rightarrow> (system \<times> uplink_element list) list \<Rightarrow> dbe list \<Rightarrow> 'addr transport_object result" where
  "TransportLayerMachine_static shl make_address fails uplink_buffer downlink_buffer =
     bindR (fresh_transport shl uplink_buffer downlink_buffer) (\<lambda>t.
     bindR (made_address make_address LOCAL_IP) (\<lambda>local_addr.
     bindR (made_address make_address GSE_IP) (\<lambda>remote_udp_addr.
     bindR (made_address make_address SPMU_IP) (\<lambda>remote_tcp_addr.
     bindR (open_first_sockets fails (local_addr, LOCAL_PORT) (remote_tcp_addr, SPMU_PORT)) (\<lambda>ss.
       Inr (t\<lparr>to_ground_pipe := [0x30], to_sockets := ss, to_remote_udp := Some (remote_udp_addr, GSE_PORT),
              to_remote_tcp := Some (remote_tcp_addr, SPMU_PORT)\<rparr>))))))"

text \<open>The second, from endpoints.\<close>

definition open_sockets :: "'addr refusal \<Rightarrow> 'addr endpoints \<Rightarrow> 'addr sockets result" where
  "open_sockets fails ends =
     bindR (on_udp fails Open_Socket no_sockets) (\<lambda>ss.
     bindR (on_tcp fails Open_Socket ss) (\<lambda>ss.
     bindR (on_housekeeping fails Open_Socket ss) (\<lambda>ss.
     bindR (set_socket_options fails ss) (\<lambda>ss.
     bindR (on_udp fails (Bind_To (ends_local_udp ends)) ss) (\<lambda>ss.
     bindR (on_tcp fails (Bind_To (ends_local_tcp ends)) ss) (\<lambda>ss.
     bindR (on_tcp fails (Connect_To (ends_remote_tcp ends)) ss) (\<lambda>ss.
       on_housekeeping fails (Bind_To (ends_local_housekeeping ends)) ss)))))))"

definition remember_ends :: "'addr endpoints \<Rightarrow> 'addr transport_object \<Rightarrow> 'addr transport_object" where
  "remember_ends ends t = t\<lparr>to_remote_udp := Some (ends_remote_udp ends), to_remote_tcp := Some (ends_remote_tcp ends),
     to_remote_housekeeping := Some (ends_remote_housekeeping ends)\<rparr>"

definition TransportLayerMachine_ends :: "(nat \<Rightarrow> u32) \<Rightarrow> 'addr refusal \<Rightarrow> 'addr endpoints
    \<Rightarrow> (system \<times> uplink_element list) list \<Rightarrow> dbe list \<Rightarrow> 'addr transport_object result" where
  "TransportLayerMachine_ends shl fails ends uplink_buffer downlink_buffer =
     bindR (fresh_transport shl uplink_buffer downlink_buffer) (\<lambda>t.
     bindR (open_sockets fails ends) (\<lambda>ss. Inr ((remember_ends ends t)\<lparr>to_sockets := ss\<rparr>)))"

text \<open>The third, of the flight program, binds the socket to the ground before it sets the options, and then opens the two
  serial ports; a port that does not open or refuses an option is reported and left as it is.\<close>

definition open_sockets_early :: "'addr refusal \<Rightarrow> 'addr endpoints \<Rightarrow> 'addr sockets result" where
  "open_sockets_early fails ends =
     bindR (on_udp fails Open_Socket no_sockets) (\<lambda>ss.
     bindR (on_udp fails (Bind_To (ends_local_udp ends)) ss) (\<lambda>ss.
     bindR (on_tcp fails Open_Socket ss) (\<lambda>ss.
     bindR (on_housekeeping fails Open_Socket ss) (\<lambda>ss.
     bindR (set_socket_options fails ss) (\<lambda>ss.
     bindR (on_tcp fails (Bind_To (ends_local_tcp ends)) ss) (\<lambda>ss.
     bindR (on_tcp fails (Connect_To (ends_remote_tcp ends)) ss) (\<lambda>ss.
       on_housekeeping fails (Bind_To (ends_local_housekeeping ends)) ss)))))))"

definition TransportLayerMachine_uart :: "(nat \<Rightarrow> u32) \<Rightarrow> 'addr refusal \<Rightarrow> 'addr network \<Rightarrow> 'addr endpoints
    \<Rightarrow> (system \<times> uplink_element list) list \<Rightarrow> dbe list \<Rightarrow> uart \<Rightarrow> uart \<Rightarrow> 'addr transport_object result" where
  "TransportLayerMachine_uart shl fails nw ends uplink_buffer downlink_buffer local_uart uplink_uart =
     bindR (fresh_transport shl uplink_buffer downlink_buffer) (\<lambda>t.
     bindR (open_sockets_early fails ends) (\<lambda>ss.
       Inr ((remember_ends ends t)\<lparr>to_sockets := ss, to_local_port := open_port nw local_uart,
              to_uplink_port := open_port nw uplink_uart\<rparr>)))"

section \<open>The setters\<close>

definition transport_set_commands :: "command_deck \<Rightarrow> 'addr transport_object \<Rightarrow> 'addr transport_object" where
  "transport_set_commands new_commands t = t\<lparr>to_commands := Some new_commands\<rparr>"

definition add_ring_buffer_interface :: "(u8 \<rightharpoonup> ring_buffer) \<Rightarrow> 'addr transport_object \<Rightarrow> 'addr transport_object" where
  "add_ring_buffer_interface new_ring_buffers t = t\<lparr>to_ring_buffers := new_ring_buffers\<rparr>"

definition add_fragmenter :: "(nat \<Rightarrow> u32) \<Rightarrow> fragmenter \<Rightarrow> 'addr transport_object \<Rightarrow> 'addr transport_object result" where
  "add_fragmenter shl new_fragmenter t =
     bindR (fr_copy shl new_fragmenter) (\<lambda>copy.
     bindR (fr_assign shl (to_fragmenter t) copy) (\<lambda>fr. Inr (t\<lparr>to_fragmenter := fr\<rparr>)))"

definition add_fragmenter_sizes :: "(nat \<Rightarrow> u32) \<Rightarrow> nat \<Rightarrow> nat \<Rightarrow> 'addr transport_object \<Rightarrow> 'addr transport_object result" where
  "add_fragmenter_sizes shl fragment_size header_size t =
     bindR (Fragmenter shl fragment_size header_size) (\<lambda>made.
     bindR (fr_assign shl (to_fragmenter t) made) (\<lambda>fr. Inr (t\<lparr>to_fragmenter := fr\<rparr>)))"

section \<open>Forwarding UDP to TCP\<close>

text \<open>\<open>recv_udp_fwd_tcp\<close> starts a receive into \<open>uplink_buff\<close> whose callback is \<open>send_tcp\<close>; that starts a send of the
  buffer whose callback starts the next receive, and clears the buffer at once. The send reads the buffer when the
  operation is performed: in the call that starts it, or later, when the \<open>io_context\<close> runs it.\<close>

datatype awaited = Awaiting_Datagram | Awaiting_Send bool   \<comment> \<open>whether the bytes are already taken\<close>

record forwarder =
  fw_buff :: bytes
  fw_awaited :: awaited
  fw_taken :: "bytes list"

definition recv_udp_fwd_tcp :: "forwarder \<Rightarrow> forwarder" where
  "recv_udp_fwd_tcp f = f\<lparr>fw_awaited := Awaiting_Datagram\<rparr>"

definition take_buffer :: "forwarder \<Rightarrow> forwarder" where
  "take_buffer f = f\<lparr>fw_taken := fw_taken f @ [fw_buff f]\<rparr>"

definition send_tcp :: "bool \<Rightarrow> forwarder \<Rightarrow> forwarder" where
  "send_tcp at_once f =
     (let f = (if at_once then take_buffer f else f)\<lparr>fw_awaited := Awaiting_Send at_once\<rparr>
      in f\<lparr>fw_buff := replicate (length (fw_buff f)) 0x00\<rparr>)"

inductive forwards :: "forwarder \<Rightarrow> forwarder \<Rightarrow> bool" where
  datagram: "fw_awaited f = Awaiting_Datagram \<Longrightarrow> forwards f (send_tcp at_once (f\<lparr>fw_buff := land datagram (fw_buff f)\<rparr>))"
| sent: "fw_awaited f = Awaiting_Send True \<Longrightarrow> forwards f (recv_udp_fwd_tcp f)"
| sent_late: "fw_awaited f = Awaiting_Send False \<Longrightarrow> forwards f (recv_udp_fwd_tcp (take_buffer f))"

inductive_cases forwardsE: "forwards f f'"

definition start_forwarding :: forwarder where
  "start_forwarding = recv_udp_fwd_tcp \<lparr>fw_buff = replicate RECV_BUFF_LEN 0x00, fw_awaited = Awaiting_Datagram, fw_taken = []\<rparr>"

section \<open>Running the context\<close>

datatype handle = Tcp_Socket | Udp_Socket | Housekeeping_Socket | Local_Port | Uplink_Port

record 'ctx asio =
  io_restart :: "'ctx \<Rightarrow> 'ctx"
  io_run_for :: "nat \<Rightarrow> 'ctx \<Rightarrow> 'ctx"
  io_stopped :: "'ctx \<Rightarrow> bool"
  io_cancel :: "handle \<Rightarrow> 'ctx \<Rightarrow> 'ctx"
  io_run :: "'ctx \<Rightarrow> 'ctx option"        \<comment> \<open>\<open>None\<close> when it does not return\<close>

text \<open>The result says whether the operation timed out.\<close>

definition run_until :: "'ctx asio \<Rightarrow> ('ctx \<Rightarrow> 'ctx) \<Rightarrow> nat \<Rightarrow> 'ctx \<Rightarrow> (bool \<times> 'ctx) option" where
  "run_until io cancel timeout_ms c =
     (let c = io_run_for io timeout_ms (io_restart io c)
      in if \<not> io_stopped io c then (case io_run io (cancel c) of None \<Rightarrow> None | Some c \<Rightarrow> Some (True, c))
         else Some (False, c))"

definition run_udp_context :: "'ctx asio \<Rightarrow> handle \<Rightarrow> nat \<Rightarrow> 'ctx \<Rightarrow> (bool \<times> 'ctx) option" where
  "run_udp_context io socket = run_until io (io_cancel io socket)"

definition run_tcp_context :: "'ctx asio \<Rightarrow> handle \<Rightarrow> nat \<Rightarrow> 'ctx \<Rightarrow> (bool \<times> 'ctx) option" where
  "run_tcp_context io socket = run_until io (io_cancel io socket)"

definition run_uart_context :: "'ctx asio \<Rightarrow> nat \<Rightarrow> 'ctx \<Rightarrow> (bool \<times> 'ctx) option" where
  "run_uart_context io = run_until io (io_cancel io Uplink_Port \<circ> io_cancel io Local_Port)"

text \<open>The overload that runs the context once per try, whatever the outcome.\<close>

fun run_tries :: "'ctx asio \<Rightarrow> nat \<Rightarrow> nat \<Rightarrow> 'ctx \<Rightarrow> 'ctx" where
  "run_tries io 0 timeout_ms c = c"
| "run_tries io (Suc k) timeout_ms c = run_tries io k timeout_ms (io_run_for io timeout_ms c)"

definition run_tcp_context_tries :: "'ctx asio \<Rightarrow> timing \<Rightarrow> 'ctx \<Rightarrow> 'ctx" where
  "run_tcp_context_tries io timing c =
     run_tries io (unat (tm_retry_max_count timing)) (unat (tm_timeout_millis timing)) (io_restart io c)"

text \<open>What Boost says of a context, in terms of its pending operations: on which handle each waits and after how many
  milliseconds it completes, if ever. A run for a time completes those that are due and leaves the others with the time
  that remains; the context is stopped when none is left; a cancelled operation completes at once; an unlimited run
  returns when every operation has completed. (The handlers of the reads only store the outcome; they start nothing.)\<close>

type_synonym pending = "(handle \<times> nat option) list"

definition due :: "nat \<Rightarrow> handle \<times> nat option \<Rightarrow> bool" where
  "due t p = (case snd p of None \<Rightarrow> False | Some d \<Rightarrow> d \<le> t)"

definition later :: "nat \<Rightarrow> pending \<Rightarrow> pending" where
  "later t ps = map (map_prod id (map_option (\<lambda>d. d - t))) (filter (\<lambda>p. \<not> due t p) ps)"

definition cancelled :: "handle \<Rightarrow> pending \<Rightarrow> pending" where
  "cancelled h ps = map (\<lambda>(k, d). (k, if k = h then Some 0 else d)) ps"

definition context_laws :: "'ctx asio \<Rightarrow> ('ctx \<Rightarrow> pending) \<Rightarrow> bool" where
  "context_laws io pending \<longleftrightarrow>
     (\<forall>c. pending (io_restart io c) = pending c) \<and>
     (\<forall>t c. pending (io_run_for io t c) = later t (pending c)) \<and>
     (\<forall>t c. io_stopped io (io_run_for io t c) \<longleftrightarrow> pending (io_run_for io t c) = []) \<and>
     (\<forall>h c. pending (io_cancel io h c) = cancelled h (pending c)) \<and>
     (\<forall>c. case io_run io c of None \<Rightarrow> None \<in> snd ` set (pending c)
        | Some c' \<Rightarrow> None \<notin> snd ` set (pending c) \<and> pending c' = [])"

text \<open>A context that is nothing but its pending operations.\<close>

definition plain_context :: "pending asio" where
  "plain_context = \<lparr>io_restart = id, io_run_for = later, io_stopped = (\<lambda>ps. ps = []), io_cancel = cancelled,
     io_run = (\<lambda>ps. if None \<in> snd ` set ps then None else Some [])\<rparr>"

lemma plain_context_laws: "context_laws plain_context (\<lambda>ps. ps)"
  by (simp add: context_laws_def plain_context_def)

lemma run_until_pending:
  assumes "context_laws io pending" and "\<And>c. pending (cancel c) = map (\<lambda>(k, d). (k, if k \<in> H then Some 0 else d)) (pending c)"
  shows "case run_until io cancel t c of
      None \<Rightarrow> \<exists>k. k \<notin> H \<and> (k, None) \<in> set (pending c)
    | Some (timed_out, c') \<Rightarrow> pending c' = [] \<and> (timed_out \<longleftrightarrow> (\<exists>p \<in> set (pending c). \<not> due t p))"
proof -
  let ?c = "io_run_for io t (io_restart io c)"
  have p: "pending ?c = later t (pending c)" and stop: "io_stopped io ?c \<longleftrightarrow> later t (pending c) = []"
    using assms(1) by (auto simp: context_laws_def)
  have empty: "later t (pending c) = [] \<longleftrightarrow> (\<forall>p \<in> set (pending c). due t p)"
    by (auto simp: later_def filter_empty_conv)
  have never: "None \<in> snd ` set (pending (cancel ?c)) \<longleftrightarrow> (\<exists>k. k \<notin> H \<and> (k, None) \<in> set (pending c))"
    by (force simp: assms(2) p later_def due_def split: if_splits)
  show ?thesis
  proof (cases "later t (pending c) = []")
    case True
    then show ?thesis using p stop empty by (simp add: run_until_def Let_def)
  next
    case False
    have run: "case io_run io (cancel ?c) of None \<Rightarrow> None \<in> snd ` set (pending (cancel ?c))
        | Some c' \<Rightarrow> None \<notin> snd ` set (pending (cancel ?c)) \<and> pending c' = []"
      using assms(1) by (simp add: context_laws_def)
    show ?thesis
      using run False stop empty never
      by (cases "io_run io (cancel ?c)") (auto simp: run_until_def Let_def)
  qed
qed

section \<open>Properties\<close>

lemma fresh_transport_made: "\<exists>t. fresh_transport shl up down = Inr t \<and> to_uplink_buffer t = up \<and> to_downlink_buffer t = down"
  by (simp add: fresh_transport_def Fragmenter_default_def make_max_message_size_def)

lemma fresh_transport_total:
  obtains t where "fresh_transport shl up down = Inr t" "to_uplink_buffer t = up" "to_downlink_buffer t = down"
  using fresh_transport_made by blast

lemmas socket_steps = on_udp_def on_tcp_def on_housekeeping_def set_socket_options_def socket_call_def

text \<open>The first constructor always throws: it sets an option on the housekeeping socket, which it never opens.\<close>

theorem static_constructor_throws:
  assumes "closed_refuses fails"
  shows "TransportLayerMachine_static shl make_address fails uplink_buffer downlink_buffer = Inl System_Error"
proof -
  obtain t :: "'a transport_object" where t: "fresh_transport shl uplink_buffer downlink_buffer = Inr t" by (rule fresh_transport_total)
  have "fails Reuse_Address closed_socket" using assms by (simp add: closed_refuses_def closed_socket_def)
  then have "open_first_sockets fails own remote = Inl System_Error" for own remote
    by (simp add: open_first_sockets_def socket_steps no_sockets_def)
  then show ?thesis
    by (auto simp: TransportLayerMachine_static_def t made_address_def split: option.split)
qed

lemma static_constructor_throws_witness:
  "TransportLayerMachine_static (\<lambda>_. 0) Some (\<lambda>call s. call \<noteq> Open_Socket \<and> \<not> so_open s) [] [] = Inl System_Error"
  by (rule static_constructor_throws) (simp add: closed_refuses_def)

text \<open>The constructor of the flight program, down to its sockets: it succeeds exactly when every call on a socket does, with
  the queues and ports that \<open>TransportLayerMachine\<close> of \<open>Formatter\<close> gives.\<close>

theorem flight_constructor_refines:
  assumes "nw_connects nw ends \<longleftrightarrow> (\<exists>ss. open_sockets_early fails ends = Inr ss)"
  shows "case TransportLayerMachine_uart shl fails nw ends up [] local_uart uplink_uart of
      Inl e \<Rightarrow> e = System_Error \<and> TransportLayerMachine mem nw ends up local_uart uplink_uart = Inl System_Error
    | Inr t \<Rightarrow> \<exists>tr. TransportLayerMachine mem nw ends up local_uart uplink_uart = Inr tr \<and>
        m_uplink (tr_machine tr) = to_uplink_buffer t \<and> m_downlink (tr_machine tr) = to_downlink_buffer t \<and> tr_local_port tr = to_local_port t \<and>
        tr_uplink_port tr = to_uplink_port t \<and> to_remote_udp t = Some (ends_remote_udp ends)"
proof -
  obtain t :: "'a transport_object" where t: "fresh_transport shl up [] = Inr t" "to_uplink_buffer t = up"
    "to_downlink_buffer t = []"
    by (rule fresh_transport_total)
  have "open_sockets_early fails ends = Inl e \<Longrightarrow> e = System_Error" for e
    by (auto simp: open_sockets_early_def socket_steps bindR_eq_Inl split: if_splits)
  then show ?thesis
    using assms t
    by (cases "open_sockets_early fails ends")
       (auto simp: TransportLayerMachine_uart_def TransportLayerMachine_def remember_ends_def)
qed

lemma flight_constructor_refines_witness:
  "\<exists>ends t. make_endpoints quiet_network flight_interface = Inr ends \<and>
    TransportLayerMachine_uart (\<lambda>_. 0) (\<lambda>_ _. False) quiet_network ends [] [] flight_uart flight_uart = Inr t \<and>
    to_local_port t \<noteq> None"
proof -
  obtain ends where ends: "make_endpoints quiet_network flight_interface = Inr ends"
    using flight_parts by (auto simp: formatter_parts_def bindR_eq_Inr Let_def)
  have "nw_connects quiet_network ends \<longleftrightarrow> (\<exists>ss. open_sockets_early (\<lambda>_ _. False) ends = Inr ss)"
    by (simp add: quiet_network_def open_sockets_early_def socket_steps)
  from flight_constructor_refines [OF this, where shl = "\<lambda>_. 0" and up = "[]" and local_uart = flight_uart and uplink_uart = flight_uart and mem = zero_memory] obtain t where
    "TransportLayerMachine_uart (\<lambda>_. 0) (\<lambda>_ _. False) quiet_network ends [] [] flight_uart flight_uart = Inr t"
    "\<exists>tr. TransportLayerMachine zero_memory quiet_network ends [] flight_uart flight_uart = Inr tr \<and>
      tr_local_port tr = to_local_port t"
    by (cases "TransportLayerMachine_uart (\<lambda>_. 0) (\<lambda>_ _. False) quiet_network ends [] [] flight_uart flight_uart")
       (auto simp: TransportLayerMachine_def quiet_network_def)
  moreover from this(2) have "to_local_port t \<noteq> None"
    by (auto simp: TransportLayerMachine_def quiet_network_def open_port_def dest: sym)
  ultimately show ?thesis using ends by blast
qed

text \<open>When the options are set: the socket to the ground is bound with \<open>reuse_address\<close> by the second constructor, but without
  it by the flight program's.\<close>

theorem reuse_address_set_late:
  "open_sockets fails ends = Inr ss \<Longrightarrow> so_local (ss_udp ss) = Some (ends_local_udp ends, True)"
  "open_sockets_early fails ends = Inr ss \<Longrightarrow> so_local (ss_udp ss) = Some (ends_local_udp ends, False)"
  by (auto simp: open_sockets_def open_sockets_early_def socket_steps bindR_eq_Inr no_sockets_def closed_socket_def
      split: if_splits)

text \<open>Every packet that is forwarded is one datagram, cut at the buffer and padded with zeros: nothing of an earlier
  datagram is left in it. When the operation takes the buffer only after the call that starts it, the packet is all zeros.\<close>

lemma land_zeros: "land d (replicate n 0x00) = take n d @ replicate (n - length d) 0x00"
  by (simp add: land_def drop_replicate)

definition forwarding_ok :: "forwarder \<Rightarrow> bool" where
  "forwarding_ok f \<longleftrightarrow> fw_buff f = replicate RECV_BUFF_LEN 0x00 \<and>
     (\<forall>packet \<in> set (fw_taken f). \<exists>d. packet = land d (replicate RECV_BUFF_LEN 0x00))"

lemma forwards_ok: "forwards f f' \<Longrightarrow> forwarding_ok f \<Longrightarrow> forwarding_ok f'"
proof (induction rule: forwards.induct)
  case (datagram f at_once d)
  then show ?case by (auto simp: forwarding_ok_def send_tcp_def take_buffer_def Let_def land_def)
next
  case (sent_late f)
  have "replicate RECV_BUFF_LEN 0x00 = land [] (replicate RECV_BUFF_LEN (0x00 :: u8))" by (simp add: land_def)
  with sent_late show ?case by (auto simp: forwarding_ok_def recv_udp_fwd_tcp_def take_buffer_def simp del: land_zeros)
qed (simp add: forwarding_ok_def recv_udp_fwd_tcp_def)

theorem forwarded_datagrams:
  assumes "forwards\<^sup>*\<^sup>* start_forwarding f" and "packet \<in> set (fw_taken f)"
  shows "\<exists>d. packet = take RECV_BUFF_LEN d @ replicate (RECV_BUFF_LEN - length d) 0x00"
proof -
  have "forwarding_ok f"
    using assms(1)
  proof (induction rule: rtranclp_induct)
    case base
    then show ?case by (simp add: forwarding_ok_def start_forwarding_def recv_udp_fwd_tcp_def)
  qed (rule forwards_ok)
  with assms(2) show ?thesis by (auto simp: forwarding_ok_def land_zeros)
qed

lemma forwarded_datagrams_witness:
  "\<exists>f. forwards\<^sup>*\<^sup>* start_forwarding f \<and> (\<exists>packet \<in> set (fw_taken f). \<exists>d. packet = take RECV_BUFF_LEN d @ replicate (RECV_BUFF_LEN - length d) 0x00)"
proof -
  let ?f = "send_tcp True (start_forwarding\<lparr>fw_buff := land [1, 2] (fw_buff start_forwarding)\<rparr>)"
  have "forwards start_forwarding ?f"
    by (rule forwards.datagram) (simp add: start_forwarding_def recv_udp_fwd_tcp_def)
  then have run: "forwards\<^sup>*\<^sup>* start_forwarding ?f" by (rule r_into_rtranclp)
  have "land [1, 2] (fw_buff start_forwarding) \<in> set (fw_taken ?f)"
    by (simp add: send_tcp_def take_buffer_def Let_def)
  from forwarded_datagrams [OF run this] this run show ?thesis by blast
qed

theorem late_send_forwards_zeros:
  "fw_taken (take_buffer (send_tcp False f)) = fw_taken f @ [replicate (length (fw_buff f)) 0x00]"
  by (simp add: take_buffer_def send_tcp_def Let_def)

text \<open>C28. How a read waits. \<open>run_tcp_context\<close>, \<open>run_udp_context\<close> and \<open>run_uart_context\<close> report a timeout exactly when some
  operation is not complete in time, and when they return nothing is pending, so that the next read has the context to
  itself. They fail to return only because of an operation that never completes on a handle they do not cancel; with the
  read alone in the context they always return.\<close>

theorem context_run_clears:
  assumes "context_laws io pending"
  shows "(case run_tcp_context io h t c of
      None \<Rightarrow> \<exists>k. k \<noteq> h \<and> (k, None) \<in> set (pending c)
    | Some (timed_out, c') \<Rightarrow> pending c' = [] \<and> (timed_out \<longleftrightarrow> (\<exists>p \<in> set (pending c). \<not> due t p))) \<and>
    run_udp_context io h t c = run_tcp_context io h t c \<and>
    (case run_uart_context io t c of
      None \<Rightarrow> \<exists>k. k \<notin> {Local_Port, Uplink_Port} \<and> (k, None) \<in> set (pending c)
    | Some (timed_out, c') \<Rightarrow> pending c' = [] \<and> (timed_out \<longleftrightarrow> (\<exists>p \<in> set (pending c). \<not> due t p)))"
proof -
  have one: "pending (io_cancel io h c) = map (\<lambda>(k, d). (k, if k \<in> {h} then Some 0 else d)) (pending c)" for c
    using assms by (simp add: context_laws_def cancelled_def)
  have two: "pending ((io_cancel io Uplink_Port \<circ> io_cancel io Local_Port) c) =
      map (\<lambda>(k, d). (k, if k \<in> {Local_Port, Uplink_Port} then Some 0 else d)) (pending c)" for c
    using assms by (auto simp: context_laws_def cancelled_def)
  show ?thesis
    using run_until_pending [where cancel = "io_cancel io h" and H = "{h}" and t = t and c = c, OF assms one]
      run_until_pending [where cancel = "io_cancel io Uplink_Port \<circ> io_cancel io Local_Port" and
        H = "{Local_Port, Uplink_Port}" and t = t and c = c, OF assms two]
    unfolding run_tcp_context_def run_udp_context_def run_uart_context_def singleton_iff by blast
qed

lemma context_run_clears_witness:
  "run_tcp_context plain_context Tcp_Socket 500 [(Tcp_Socket, None)] = Some (True, []) \<and>
   run_tcp_context plain_context Tcp_Socket 500 [(Tcp_Socket, Some 20)] = Some (False, []) \<and>
   run_tcp_context plain_context Tcp_Socket 500 [(Tcp_Socket, Some 20), (Udp_Socket, None)] = None \<and>
   (case run_uart_context plain_context 500 [(Uplink_Port, None)] of None \<Rightarrow> False | Some (timed_out, c') \<Rightarrow> c' = [])"
proof (intro conjI)
  from context_run_clears [OF plain_context_laws, where h = Tcp_Socket and t = 500 and c = "[(Uplink_Port, None)]"]
  show "case run_uart_context plain_context 500 [(Uplink_Port, None)] of None \<Rightarrow> False | Some (timed_out, c') \<Rightarrow> c' = []"
    by (auto split: option.splits)
qed (simp_all add: run_tcp_context_def run_until_def plain_context_def later_def cancelled_def due_def)

end
