(* ===== verification/Timed_Reads.thy ===== *)
theory Timed_Reads
  imports Transport_Setup
begin

text \<open>
  The timed reads down to the \<open>io_context\<close> (\<open>src/TransportLayer.cpp\<close>): starting the operation, running the context for the
  timeout, the handler that stores the count, and the resize of the buffer. \<open>Machine\<close> has the reads as steps through a
  script of outcomes; here that script is derived from when the bytes arrive, which justifies it, and the two cases are
  named in which a read never returns.
\<close>

section \<open>One read\<close>

text \<open>When the bytes of an operation arrive, in milliseconds after its start, if ever.\<close>

type_synonym arrival = "nat option \<times> bytes"

text \<open>\<open>async_read\<close> and its variants add a pending operation.\<close>

definition start_law :: "(handle \<Rightarrow> nat option \<Rightarrow> 'ctx \<Rightarrow> 'ctx) \<Rightarrow> ('ctx \<Rightarrow> pending) \<Rightarrow> bool" where
  "start_law begin_op pending \<longleftrightarrow> (\<forall>h d c. pending (begin_op h d c) = pending c @ [(h, d)])"

text \<open>The handlers store the error code and the count of the operation.\<close>

definition sync_tcp_read_handler :: "'ec \<Rightarrow> nat \<Rightarrow> 'ec \<times> nat \<Rightarrow> 'ec \<times> nat" where
  "sync_tcp_read_handler ec length_read outs = (ec, length_read)"

definition sync_uart_read_handler :: "'ec \<Rightarrow> nat \<Rightarrow> 'ec \<times> nat \<Rightarrow> 'ec \<times> nat" where
  "sync_uart_read_handler ec length_read outs = (ec, length_read)"

text \<open>What is left of the buffer when the operation has completed. The serial read uses a member as its buffer; the
  count is that of the bytes that landed, so what the member held before does not show.\<close>

definition read_data :: "(bool \<Rightarrow> nat \<Rightarrow> bool \<times> nat \<Rightarrow> bool \<times> nat) \<Rightarrow> nat \<Rightarrow> bytes \<Rightarrow> bytes result" where
  "read_data handler n bs =
     (let receive_data = land bs (replicate n 0);
          (err, receive_size) = handler (length bs < n) (min n (length bs)) (False, n)
      in vec_resize receive_size receive_data)"

definition timed_attempt :: "(nat \<Rightarrow> 'ctx \<Rightarrow> (bool \<times> 'ctx) option) \<Rightarrow> (bool \<Rightarrow> nat \<Rightarrow> bool \<times> nat \<Rightarrow> bool \<times> nat)
    \<Rightarrow> ('ctx \<Rightarrow> 'ctx) \<Rightarrow> nat \<Rightarrow> nat \<Rightarrow> bytes \<Rightarrow> 'ctx \<Rightarrow> (bytes result \<times> 'ctx) option" where
  "timed_attempt run handler begin_read n timeout_ms bs c =
     (case run timeout_ms (begin_read c) of
        None \<Rightarrow> None
      | Some (timed_out, c) \<Rightarrow> Some (if timed_out then Inr [] else read_data handler n bs, c))"

definition tcp_read_timed :: "'ctx asio \<Rightarrow> (handle \<Rightarrow> nat option \<Rightarrow> 'ctx \<Rightarrow> 'ctx) \<Rightarrow> nat \<Rightarrow> nat \<Rightarrow> arrival \<Rightarrow> 'ctx
    \<Rightarrow> (bytes result \<times> 'ctx) option" where
  "tcp_read_timed io begin_op n timeout_ms a =
     timed_attempt (run_tcp_context io Tcp_Socket) sync_tcp_read_handler (begin_op Tcp_Socket (fst a)) n timeout_ms (snd a)"

definition uart_read_timed :: "'ctx asio \<Rightarrow> (handle \<Rightarrow> nat option \<Rightarrow> 'ctx \<Rightarrow> 'ctx) \<Rightarrow> handle \<Rightarrow> nat \<Rightarrow> nat \<Rightarrow> arrival \<Rightarrow> 'ctx
    \<Rightarrow> (bytes result \<times> 'ctx) option" where
  "uart_read_timed io begin_op port n timeout_ms a =
     timed_attempt (run_uart_context io) sync_uart_read_handler (begin_op port (fst a)) n timeout_ms (snd a)"

text \<open>Whatever the socket, the one of housekeeping is cancelled.\<close>

definition udp_read_timed :: "'ctx asio \<Rightarrow> (handle \<Rightarrow> nat option \<Rightarrow> 'ctx \<Rightarrow> 'ctx) \<Rightarrow> handle \<Rightarrow> nat \<Rightarrow> nat \<Rightarrow> arrival \<Rightarrow> 'ctx
    \<Rightarrow> (bytes result \<times> 'ctx) option" where
  "udp_read_timed io begin_op socket n timeout_ms a =
     timed_attempt (run_udp_context io Housekeeping_Socket) sync_tcp_read_handler (begin_op socket (fst a)) n timeout_ms (snd a)"

section \<open>The tries\<close>

text \<open>The loop of the \<open>read\<close> functions over one arrival per try.\<close>

fun timed_tries :: "(arrival \<Rightarrow> 'ctx \<Rightarrow> (bytes result \<times> 'ctx) option) \<Rightarrow> nat \<Rightarrow> arrival stream \<Rightarrow> 'ctx
    \<Rightarrow> (bytes result \<times> arrival stream \<times> 'ctx) option" where
  "timed_tries attempt 0 arrivals c = Some (Inr [], arrivals, c)"
| "timed_tries attempt (Suc k) arrivals c =
     (case attempt (shd arrivals) c of
        None \<Rightarrow> None
      | Some (Inl e, c) \<Rightarrow> Some (Inl e, stl arrivals, c)
      | Some (Inr reply, c) \<Rightarrow>
          if length reply = 0 then timed_tries attempt k (stl arrivals) c else Some (Inr reply, stl arrivals, c))"

definition outcome :: "nat \<Rightarrow> arrival \<Rightarrow> bytes option" where
  "outcome timeout_ms a = (case fst a of None \<Rightarrow> None | Some d \<Rightarrow> if d \<le> timeout_ms then Some (snd a) else None)"

section \<open>Properties\<close>

lemma read_data_received:
  assumes "n \<le> vec_max"
  shows "read_data sync_tcp_read_handler n bs = Inr (take n bs)" "read_data sync_uart_read_handler n bs = Inr (take n bs)"
proof -
  have "vec_resize (min n (length bs)) (land bs (replicate n 0)) = Inr (take n bs)"
    using assms by (cases "length bs \<le> n") (simp_all add: land_def pad_to_def min_def)
  then show "read_data sync_tcp_read_handler n bs = Inr (take n bs)" "read_data sync_uart_read_handler n bs = Inr (take n bs)"
    by (simp_all add: read_data_def sync_tcp_read_handler_def sync_uart_read_handler_def)
qed

lemma due_outcome: "due t (h, d) \<longleftrightarrow> outcome t (d, bs) \<noteq> None"
  by (simp add: due_def outcome_def split: option.split)

text \<open>A read alone in the context, on a handle that a timeout cancels: it returns what the script of outcomes says, and leaves
  the context empty.\<close>

lemma lone_run:
  assumes "context_laws io pending" and "start_law begin_op pending" and "pending c = []"
    and "\<And>c. pending (cancel c) = map (\<lambda>(k, d). (k, if k \<in> H then Some 0 else d)) (pending c)" and "h \<in> H"
    and "\<And>bs. read_data handler n bs = Inr (take n bs)"
  shows "\<exists>c'. timed_attempt (run_until io cancel) handler (begin_op h (fst a)) n t (snd a) c = Some (Inr (received n (outcome t a)), c') \<and>
    pending c' = []"
proof -
  have p: "pending (begin_op h (fst a) c) = [(h, fst a)]" using assms(2,3) by (simp add: start_law_def)
  have "case run_until io cancel t (begin_op h (fst a) c) of None \<Rightarrow> False
      | Some (timed_out, c') \<Rightarrow> pending c' = [] \<and> (timed_out \<longleftrightarrow> outcome t a = None)"
    using run_until_pending [where cancel = cancel and H = H and t = t and c = "begin_op h (fst a) c", OF assms(1,4)] assms(5)
      due_outcome [of t h "fst a" "snd a"]
    by (auto simp: p split: option.splits)
  then obtain timed_out c' where run: "run_until io cancel t (begin_op h (fst a) c) = Some (timed_out, c')" "pending c' = []"
    "timed_out \<longleftrightarrow> outcome t a = None" by (auto split: option.splits)
  have "outcome t a \<noteq> None \<Longrightarrow> outcome t a = Some (snd a)" by (simp add: outcome_def split: option.splits if_splits)
  with run show ?thesis by (cases "outcome t a") (auto simp: timed_attempt_def assms(6))
qed

lemma timed_tries_script:
  assumes "\<And>a c. pending c = [] \<Longrightarrow> \<exists>c'. attempt a c = Some (Inr (received n (outcome t a)), c') \<and> pending c' = ([] :: pending)"
    and "pending c = []"
  shows "\<exists>rest c'. timed_tries attempt k arrivals c = Some (Inr (fst (first_reply n k (smap (outcome t) arrivals))), rest, c') \<and>
    smap (outcome t) rest = snd (first_reply n k (smap (outcome t) arrivals)) \<and> pending c' = []"
  using assms(2)
proof (induction k arbitrary: arrivals c)
  case (Suc k)
  obtain c' where c': "attempt (shd arrivals) c = Some (Inr (received n (outcome t (shd arrivals))), c')" "pending c' = []"
    using assms(1) [OF Suc.prems, of "shd arrivals"] by blast
  with Suc.IH [OF c'(2), of "stl arrivals"] show ?case by (auto simp: length_0_conv)
qed simp

lemma tries_match:
  assumes "\<And>a c. pending c = [] \<Longrightarrow> \<exists>c'. attempt a c = Some (Inr (received n (outcome t a)), c') \<and> pending c' = ([] :: pending)"
    and "pending c = []"
    and "retried = (case first_reply n k (m_replies m) of (reply, script) \<Rightarrow> Some (Inr reply, m\<lparr>m_replies := script\<rparr>))"
    and "m_replies m = smap (outcome t) arrivals"
  shows "\<exists>reply rest c'. timed_tries attempt k arrivals c = Some (Inr reply, rest, c') \<and> pending c' = [] \<and>
    retried = Some (Inr reply, m\<lparr>m_replies := smap (outcome t) rest\<rparr>)"
proof -
  obtain reply script where f: "first_reply n k (smap (outcome t) arrivals) = (reply, script)" by (meson surj_pair)
  obtain rest c' where "timed_tries attempt k arrivals c = Some (Inr reply, rest, c')" "smap (outcome t) rest = script" "pending c' = []"
    using timed_tries_script [where attempt = attempt and pending = pending and k = k and arrivals = arrivals, OF assms(1,2)] by (auto simp: f)
  then show ?thesis by (intro exI [of _ reply] exI [of _ rest] exI [of _ c']) (simp add: assms(3,4) f)
qed

lemma context_lawsD:
  assumes "context_laws io pending"
  shows "pending (io_run_for io t (io_restart io c)) = later t (pending c)"
    and "io_stopped io (io_run_for io t (io_restart io c)) \<longleftrightarrow> later t (pending c) = []"
    and "None \<in> snd ` set (pending c) \<Longrightarrow> io_run io c = None"
proof -
  show "pending (io_run_for io t (io_restart io c)) = later t (pending c)"
    and "io_stopped io (io_run_for io t (io_restart io c)) \<longleftrightarrow> later t (pending c) = []"
    using assms by (simp_all add: context_laws_def)
  have "case io_run io c of None \<Rightarrow> None \<in> snd ` set (pending c)
      | Some c' \<Rightarrow> None \<notin> snd ` set (pending c) \<and> pending c' = []"
    using assms by (simp add: context_laws_def)
  then show "None \<in> snd ` set (pending c) \<Longrightarrow> io_run io c = None" by (auto split: option.splits)
qed

text \<open>An operation that never completes, on a handle that is not cancelled.\<close>

lemma run_until_hangs:
  assumes "context_laws io pending" and "\<And>c. pending (cancel c) = map (\<lambda>(k, d). (k, if k \<in> H then Some 0 else d)) (pending c)"
    and "k \<notin> H" and "(k, None) \<in> set (pending c)"
  shows "run_until io cancel t c = None"
proof -
  let ?c = "io_run_for io t (io_restart io c)"
  have left: "(k, None) \<in> set (later t (pending c))" using assms(4) by (force simp: later_def due_def)
  then have "\<not> io_stopped io ?c" by (auto simp: context_lawsD(2) [OF assms(1)])
  moreover have "(k, None) \<in> set (pending (cancel ?c))"
    using left assms(3) by (force simp: assms(2) context_lawsD(1) [OF assms(1)])
  then have "None \<in> snd ` set (pending (cancel ?c))" by force
  then have "io_run io (cancel ?c) = None" by (rule context_lawsD(3) [OF assms(1)])
  ultimately show ?thesis by (simp add: run_until_def Let_def)
qed

lemma timed_attempt_hangs: "run t (begin_read c) = None \<Longrightarrow> timed_attempt run handler begin_read n t bs c = None"
  by (simp add: timed_attempt_def)

text \<open>C29. The scripts are what the socket does: with nothing else pending in the context, the retried reads of the TCP socket, of
  the two serial ports and of the housekeeping socket return, for every stream of arrivals, what the reads of the abstract
  machine return on the script of outcomes (the bytes when they arrive within the timeout, a timeout otherwise), use up
  the same part of it, and leave nothing pending.\<close>

theorem timed_reads_refine_script:
  assumes "context_laws io pending" and "start_law begin_op pending" and "pending c = []" and "n \<le> vec_max"
    and "m_replies m = smap (outcome t) arrivals" and "port \<in> {Local_Port, Uplink_Port}"
  shows "(\<exists>reply rest c'. timed_tries (tcp_read_timed io begin_op n t) k arrivals c = Some (Inr reply, rest, c') \<and> pending c' = [] \<and>
      read_retries (sync_tcp_read n) k m = Some (Inr reply, m\<lparr>m_replies := smap (outcome t) rest\<rparr>)) \<and>
    (\<exists>reply rest c'. timed_tries (uart_read_timed io begin_op port n t) k arrivals c = Some (Inr reply, rest, c') \<and> pending c' = [] \<and>
      read_retries (sync_uart_read n) k m = Some (Inr reply, m\<lparr>m_replies := smap (outcome t) rest\<rparr>)) \<and>
    (\<exists>reply rest c'. timed_tries (udp_read_timed io begin_op Housekeeping_Socket n t) k arrivals c = Some (Inr reply, rest, c') \<and>
      pending c' = [] \<and>
      read_retries (sync_udp_read Housekeeping_Sock n) k m = Some (Inr reply, m\<lparr>m_replies := smap (outcome t) rest\<rparr>))"
proof (intro conjI)
  have one: "pending (io_cancel io h c) = map (\<lambda>(k, d). (k, if k \<in> {h} then Some 0 else d)) (pending c)" for h c
    using assms(1) by (simp add: context_laws_def cancelled_def)
  have two: "pending ((io_cancel io Uplink_Port \<circ> io_cancel io Local_Port) c) =
      map (\<lambda>(k, d). (k, if k \<in> {Local_Port, Uplink_Port} then Some 0 else d)) (pending c)" for c
    using assms(1) by (auto simp: context_laws_def cancelled_def)
  have tcp: "\<exists>c'. tcp_read_timed io begin_op n t a c = Some (Inr (received n (outcome t a)), c') \<and> pending c' = []"
    if "pending c = []" for a c
    unfolding tcp_read_timed_def run_tcp_context_def
    by (rule lone_run [where cancel = "io_cancel io Tcp_Socket" and H = "{Tcp_Socket}",
          OF assms(1,2) that one singletonI read_data_received(1) [OF assms(4)]])
  have uart: "\<exists>c'. uart_read_timed io begin_op port n t a c = Some (Inr (received n (outcome t a)), c') \<and> pending c' = []"
    if "pending c = []" for a c
    unfolding uart_read_timed_def run_uart_context_def
    by (rule lone_run [where cancel = "io_cancel io Uplink_Port \<circ> io_cancel io Local_Port" and H = "{Local_Port, Uplink_Port}",
          OF assms(1,2) that two assms(6) read_data_received(2) [OF assms(4)]])
  have udp: "\<exists>c'. udp_read_timed io begin_op Housekeeping_Socket n t a c = Some (Inr (received n (outcome t a)), c') \<and> pending c' = []"
    if "pending c = []" for a c
    unfolding udp_read_timed_def run_udp_context_def
    by (rule lone_run [where cancel = "io_cancel io Housekeeping_Socket" and H = "{Housekeeping_Socket}",
          OF assms(1,2) that one singletonI read_data_received(1) [OF assms(4)]])
  show "\<exists>reply rest c'. timed_tries (tcp_read_timed io begin_op n t) k arrivals c = Some (Inr reply, rest, c') \<and> pending c' = [] \<and>
      read_retries (sync_tcp_read n) k m = Some (Inr reply, m\<lparr>m_replies := smap (outcome t) rest\<rparr>)"
    by (rule tries_match [where attempt = "tcp_read_timed io begin_op n t" and pending = pending and k = k and m = m,
          OF tcp assms(3) tcp_link.retries [OF assms(4)] assms(5)])
  show "\<exists>reply rest c'. timed_tries (uart_read_timed io begin_op port n t) k arrivals c = Some (Inr reply, rest, c') \<and>
      pending c' = [] \<and> read_retries (sync_uart_read n) k m = Some (Inr reply, m\<lparr>m_replies := smap (outcome t) rest\<rparr>)"
    by (rule tries_match [where attempt = "uart_read_timed io begin_op port n t" and pending = pending and k = k and m = m,
          OF uart assms(3) uart_link.retries [OF assms(4)] assms(5)])
  show "\<exists>reply rest c'. timed_tries (udp_read_timed io begin_op Housekeeping_Socket n t) k arrivals c = Some (Inr reply, rest, c') \<and>
      pending c' = [] \<and>
      read_retries (sync_udp_read Housekeeping_Sock n) k m = Some (Inr reply, m\<lparr>m_replies := smap (outcome t) rest\<rparr>)"
    by (rule tries_match [where attempt = "udp_read_timed io begin_op Housekeeping_Socket n t" and pending = pending and k = k and m = m,
          OF udp assms(3) housekeeping_link.retries [OF assms(4)] assms(5)])
qed

text \<open>A context that is nothing but its pending operations takes a new one at its end.\<close>

definition plain_start :: "handle \<Rightarrow> nat option \<Rightarrow> pending \<Rightarrow> pending" where
  "plain_start h d ps = ps @ [(h, d)]"

lemma plain_start_law: "start_law plain_start (\<lambda>ps. ps)"
  by (simp add: start_law_def plain_start_def)

lemma timed_reads_refine_script_witness:
  "\<exists>rest. timed_tries (tcp_read_timed plain_context plain_start 2 500) 3
      ((None, []) ## (Some 900, [1]) ## (Some 20, [7, 8, 9]) ## sconst (None, [])) [] =
    Some (Inr [7, 8], rest, [])"
proof -
  let ?a = "(None, []) ## (Some 900, [1]) ## (Some 20, [7, 8, 9]) ## sconst (None, []) :: arrival stream"
  from timed_reads_refine_script [OF plain_context_laws plain_start_law, where c = "[]" and n = 2 and t = 500 and arrivals = ?a and k = 3
      and m = "ground_machine\<lparr>m_replies := smap (outcome 500) ?a\<rparr>" and port = Local_Port]
  obtain reply rest where r: "timed_tries (tcp_read_timed plain_context plain_start 2 500) 3 ?a [] = Some (Inr reply, rest, [])"
    "read_retries (sync_tcp_read 2) 3 (ground_machine\<lparr>m_replies := smap (outcome 500) ?a\<rparr>) =
      Some (Inr reply, ground_machine\<lparr>m_replies := smap (outcome 500) rest\<rparr>)"
    by (auto simp: vec_max_def)
  have "first_reply 2 3 (smap (outcome 500) ?a) = ([7, 8], smap (outcome 500) (sconst (None, [])))"
    by (simp add: outcome_def eval_nat_numeral)
  with r(2) have "reply = [7, 8]"
    using tcp_link.retries [of 2 3 "ground_machine\<lparr>m_replies := smap (outcome 500) ?a\<rparr>"] by (simp add: vec_max_def)
  with r(1) show ?thesis by blast
qed

text \<open>C30. When a read never returns. As long as an operation that never completes is pending in the same context on another
  handle, as the asynchronous receive of uplink commands is while the ground is silent, every TCP read hangs, also one
  whose bytes arrive in time. And a read of the ground's UDP socket that gets no datagram hangs, although nothing else is
  pending: the timeout cancels the housekeeping socket; a datagram that comes too late ends the read and is thrown away.\<close>

theorem reads_that_hang:
  assumes "context_laws io pending" and "start_law begin_op pending"
  shows "((h, None) \<in> set (pending c) \<and> h \<noteq> Tcp_Socket \<longrightarrow> tcp_read_timed io begin_op n t a c = None) \<and>
    udp_read_timed io begin_op Udp_Socket n t (None, bs) c = None \<and>
    (pending c = [] \<and> t < d \<longrightarrow>
      (\<exists>c'. udp_read_timed io begin_op Udp_Socket n t (Some d, bs) c = Some (Inr [], c') \<and> pending c' = []))"
proof (intro conjI impI)
  have one: "pending (io_cancel io h c) = map (\<lambda>(k, d). (k, if k \<in> {h} then Some 0 else d)) (pending c)" for h c
    using assms(1) by (simp add: context_laws_def cancelled_def)
  have op: "pending (begin_op h d c) = pending c @ [(h, d)]" for h d c using assms(2) by (simp add: start_law_def)
  show "tcp_read_timed io begin_op n t a c = None" if "(h, None) \<in> set (pending c) \<and> h \<noteq> Tcp_Socket"
    unfolding tcp_read_timed_def run_tcp_context_def
    by (rule timed_attempt_hangs, rule run_until_hangs [OF assms(1) one, of h]) (use that in \<open>simp_all add: op\<close>)
  show "udp_read_timed io begin_op Udp_Socket n t (None, bs) c = None"
    unfolding udp_read_timed_def run_udp_context_def
    by (rule timed_attempt_hangs, rule run_until_hangs [OF assms(1) one, of Udp_Socket]) (simp_all add: op)
  assume late: "pending c = [] \<and> t < d"
  have "\<exists>c'. run_until io (io_cancel io Housekeeping_Socket) t (begin_op Udp_Socket (Some d) c) = Some (True, c') \<and> pending c' = []"
    using run_until_pending [where cancel = "io_cancel io Housekeeping_Socket" and H = "{Housekeeping_Socket}" and t = t
        and c = "begin_op Udp_Socket (Some d) c", OF assms(1) one] late
    by (auto simp: op due_def split: option.splits)
  then show "\<exists>c'. udp_read_timed io begin_op Udp_Socket n t (Some d, bs) c = Some (Inr [], c') \<and> pending c' = []"
    by (auto simp: udp_read_timed_def run_udp_context_def timed_attempt_def)
qed

lemma reads_that_hang_witness:
  "tcp_read_timed plain_context plain_start 2 500 (Some 20, [1, 2]) [(Udp_Socket, None)] = None \<and>
   (\<exists>c'. udp_read_timed plain_context plain_start Udp_Socket 2 500 (Some 900, [1, 2]) [] = Some (Inr [], c') \<and> c' = [])"
  using reads_that_hang [OF plain_context_laws plain_start_law, where h = Udp_Socket and c = "[(Udp_Socket, None)]"
      and n = 2 and t = 500 and a = "(Some 20, [1, 2])"]
    reads_that_hang [OF plain_context_laws plain_start_law, where c = "[]" and n = 2 and t = 500 and d = 900 and bs = "[1, 2]"]
  by simp

end
