(* ===== verification/Uplink_Path.thy ===== *)
theory Uplink_Path
  imports Responder_Steps
begin

text \<open>
  The path of an uplinked command: from the two bytes that arrive over the UART through the queue of its
  system and the dispatch over SpaceWire into the memory image of the detector simulator. It is the
  counterpart of \<open>Closed_Loop\<close>, which follows the data the other way.
\<close>

section \<open>What receiving and forwarding leave alone\<close>

definition wiring_of :: "machine \<Rightarrow> command_deck \<times> bool list" where
  "wiring_of m = (m_deck m, m_send_fails m)"

lemma keeps_wiring [keeps_intros]: "keeps wiring_of (on_man g)" "keeps wiring_of next_reply"
  by (simp_all add: keeps_def wiring_of_def next_reply_def split: list.split)

lemma keeps_store_uplink [keeps_intros]: "keeps wiring_of (store_uplink reply sys_code)"
proof -
  have "keeps wiring_of (modifyM (set_queue sys q))" for sys q
    by (simp add: keeps_def wiring_of_def set_queue_def)
  then show ?thesis unfolding store_uplink_def by (intro keeps_intros)
qed

lemma keeps_uart_receive: "keeps wiring_of (uart_receive_loop k reply)"
proof (induction k arbitrary: reply)
  case (Suc k)
  show ?case unfolding uart_receive_loop.simps read_uart_def by (intro keeps_intros Suc.IH)
qed (simp add: keeps_intros)

lemma keeps_queue_reply_sent: "keeps m_sent (queue_reply reply)"
proof -
  have "keeps m_sent (enqueue_downlink d)" for d
    unfolding enqueue_downlink_def by (intro keeps_intros keeps_modify) simp
  then show ?thesis unfolding queue_reply_def by (intro keeps_intros)
qed

section \<open>A write that is forwarded\<close>

text \<open>A write goes out at least once and at most eight times; without a reply to wait for, once.\<close>

lemma write_goes_out:
  assumes "\<not> cmd_read cmd" and "cmd_spw_reply_length cmd + 12 \<le> vec_max" and "sends_work m"
    and "sm_timing (m_man m) = Some timing"
  obtains reply m' j where "spw_tries 8 True cmd packet [] m = Some (Inr reply, m')" and "1 \<le> j" and "j \<le> 8"
    and "m_sent m' = m_sent m @ replicate j (Tcp, packet)"
proof (cases "check_spw_replies cmd")
  case True
  with assms have "confirmed_write cmd" by (simp add: confirmed_write_def)
  from spw_tries_outcome [OF this assms(4,3), of 8 True packet "[]"] that show thesis by (auto simp: Suc_le_eq)
next
  case False
  have "spw_tries (Suc k) True cmd packet [] m = Some (Inr [], maybe_send True packet m)" for k
    using assms(1) False by (simp add: bindM_send [OF assms(3)] maybe_send_def)
  from this [of 7] show thesis using that [of "[]" "maybe_send True packet m" 1] by simp
qed

lemma forwarded_write:
  assumes "\<not> cmd_read cmd" and "cmd_spw_reply_length cmd + 12 \<le> vec_max" and "sends_work m"
    and "sm_timing (m_man m) = Some timing" and "cmd_type cmd = CMD_SPW"
    and "\<not> check_formatter_intercept_cmd (sys_hex (sm_system (m_man m))) (cmd_hex cmd)"
    and "get_command_bytes_for_sys_for_code (m_deck m) (sys_hex (sm_system (m_man m))) (cmd_hex cmd) = Inr packet"
  obtains r m' j where "forward_command cmd m = Some (r, m')" and "1 \<le> j" and "j \<le> 8"
    and "m_sent m' = m_sent m @ replicate j (Tcp, packet)" and "m_uplink m' = m_uplink m"
proof -
  obtain reply m1 j where sent: "sync_send_command_to_system cmd m = Some (Inr reply, m1)" "1 \<le> j" "j \<le> 8"
      "m_sent m1 = m_sent m @ replicate j (Tcp, packet)"
    using write_goes_out [OF assms(1-4), of packet] dispatch_spw [OF assms(6,5,7)] by metis
  have "keeps m_sent (if length reply > 0 then queue_reply reply else ret ())"
    by (intro keeps_intros keeps_queue_reply_sent)
  from keepsD [OF this, of m1] obtain r1 m2 where
      "(if length reply > 0 then queue_reply reply else ret ()) m1 = Some (r1, m2)" "m_sent m2 = m_sent m1" by blast
  with sent(1) have f: "\<exists>r. forward_command cmd m = Some (r, m2)"
    by (cases r1) (auto simp: forward_command_def catchM_def bindM_def)
  moreover have "m_uplink m2 = m_uplink m"
    using keepsD [OF keeps_forward_command, of cmd m] f by (auto simp: buffers_of_def)
  ultimately show thesis using that sent \<open>m_sent m2 = m_sent m1\<close> by metis
qed

section \<open>A write that is stored\<close>

lemma write_stored_again:
  assumes "a + length data \<le> length mem" and "mem' = take a mem @ data @ drop (a + length data) mem"
  shows "take a mem' @ data @ drop (a + length data) mem' = mem'" and "length mem' = length mem"
  using assms by simp_all

text \<open>Serving the packets in turn; what the simulator answers is not looked at.\<close>

definition serve_all :: "u8 result \<Rightarrow> bytes list \<Rightarrow> (responder, unit) op" where
  "serve_all behind = for_each (\<lambda>packet. bindM (make_reply behind packet) (\<lambda>_. ret ()))"

text \<open>The write in the deck: its addresses and sizes are those of an RMAP write with a four-byte reply path.\<close>

definition storable :: "command \<Rightarrow> spacewire \<Rightarrow> bytes \<Rightarrow> bool" where
  "storable cmd spw mem \<longleftrightarrow>
     cmd_type cmd = CMD_SPW \<and> \<not> cmd_read cmd \<and> bit (cmd_spw_instruction cmd) 5 \<and>
     length (spw_reply_path_address spw) = 4 \<and> instruction_reply_size (cmd_spw_instruction cmd) = 4 \<and>
     length (cmd_spw_address cmd) = 4 \<and> length (cmd_spw_write_data cmd) < 2 ^ 24 \<and>
     spw_target_path_address spw \<noteq> [] \<and> length (spw_target_path_address spw) < 2 ^ 60 \<and>
     be_value (cmd_spw_address cmd) + length (cmd_spw_write_data cmd) \<le> length mem"

definition stored :: "command \<Rightarrow> bytes \<Rightarrow> bytes" where
  "stored cmd mem = (let a = be_value (cmd_spw_address cmd); data = cmd_spw_write_data cmd in
     take a mem @ data @ drop (a + length data) mem)"

lemma write_stored:
  assumes "simulates s code spw mem" and "sys_spacewire (get_sys_for_code code deck) = Some spw"
    and "cmd = get_command_for_sys_for_code code c deck" and "storable cmd spw mem"
    and "get_command_bytes_for_sys_for_code deck code c = Inr p" and "routable s code spw p"
  shows "serve_all behind [p] s = Some (Inr (), s\<lparr>rs_mmaps := (rs_mmaps s)(code \<mapsto> stored cmd mem)\<rparr>)"
  using write_request_served [OF assms(1-3) _ _ _ _ _ _ _ assms(5,6), of behind] assms(4)
  by (simp add: serve_all_def storable_def stored_def Let_def bindM_steps(1))

lemma serve_all_Cons: "serve_all behind (p # ps) = bindM (serve_all behind [p]) (\<lambda>_. serve_all behind ps)"
  by (simp add: serve_all_def bindM_def fun_eq_iff split: option.split sum.split)

lemma writes_stored:
  assumes "simulates s code spw mem" and "sys_spacewire (get_sys_for_code code deck) = Some spw"
    and "cmd = get_command_for_sys_for_code code c deck" and "storable cmd spw mem"
    and "get_command_bytes_for_sys_for_code deck code c = Inr p" and "routable s code spw p"
  shows "serve_all behind (replicate (Suc n) p) s =
    Some (Inr (), s\<lparr>rs_mmaps := (rs_mmaps s)(code \<mapsto> stored cmd mem)\<rparr>)"
  using assms(1,4,6)
proof (induction n arbitrary: s mem)
  case 0
  from write_stored [OF "0"(1) assms(2,3) "0"(2) assms(5) "0"(3)] show ?case by (simp only: replicate_Suc replicate_0)
next
  case (Suc n)
  let ?s = "s\<lparr>rs_mmaps := (rs_mmaps s)(code \<mapsto> stored cmd mem)\<rparr>"
  have len: "be_value (cmd_spw_address cmd) + length (cmd_spw_write_data cmd) \<le> length mem"
    using Suc.prems(2) by (simp add: storable_def)
  have "stored cmd (stored cmd mem) = stored cmd mem" "length (stored cmd mem) = length mem"
    using write_stored_again [OF len refl] unfolding stored_def Let_def by blast+
  moreover from this have "simulates ?s code spw (stored cmd mem)" "storable cmd spw (stored cmd mem)" "routable ?s code spw p"
    using Suc.prems by (simp_all add: simulates_def storable_def routable_def addressable_def)
  ultimately have "serve_all behind (replicate (Suc n) p) ?s = Some (Inr (), ?s)"
    using Suc.IH [of ?s "stored cmd mem"] by (simp add: fun_upd_def cong: if_cong)
  then show ?case
    using write_stored [OF Suc.prems(1) assms(2,3) Suc.prems(2) assms(5) Suc.prems(3), of behind]
    by (subst replicate_Suc, subst serve_all_Cons) (simp add: bindM_steps(1))
qed

section \<open>Properties\<close>

text \<open>C4. A command uplinked as two bytes reaches the memory of its detector: received over the UART it is queued
  for its system, and when that system's manager forwards its queue, its packet goes out over SpaceWire at least
  once and at most eight times, whatever the detector answers or withholds. Served by the simulator, however
  often it was sent, it leaves the data of the deck's command at its address and everything else unchanged.\<close>

theorem uplinked_command_reaches_memory:
  assumes "m_replies m = Some [code, c] ## silence" and "sm_timing (m_man m) = Some timing" and "0 < tm_retry_max_count timing"
    and "sm_counter (m_man m) + 1 < 2 ^ 64" and "sends_work m"
    and "uplink_at (get_sys_for_code code (m_deck m)) (m_uplink m) = Some []"
    and "sm_system man = get_sys_for_code code (m_deck m)" and "sm_timing man = Some timing'"
    and "sys_spacewire (get_sys_for_code code (m_deck m)) = Some spw"
    and "cmd = get_command_for_sys_for_code code c (m_deck m)" and "cmd_hex cmd = c"
    and "cmd_spw_reply_length cmd + 12 \<le> vec_max"
    and "\<not> check_formatter_intercept_cmd code c" and "\<not> check_frame_read_cmd code c"
    and "get_command_bytes_for_sys_for_code (m_deck m) code c = Inr packet"
    and "simulates s code spw mem" and "storable cmd spw mem" and "routable s code spw packet"
  shows "\<exists>m1 r m2 j.
    sync_uart_receive_to_uplink_buffer m = Some (Inr (), m1) \<and>
    sync_send_buffer_commands_to_system (m1\<lparr>m_man := man, m_replies := script\<rparr>) = Some (r, m2) \<and>
    uplink_at (get_sys_for_code code (m_deck m)) (m_uplink m2) = Some [] \<and>
    m_sent m2 = m_sent m @ replicate j (Tcp, packet) \<and> 1 \<le> j \<and> j \<le> 8 \<and>
    serve_all behind (replicate j packet) s =
      Some (Inr (), s\<lparr>rs_mmaps := (rs_mmaps s)(code \<mapsto> stored cmd mem)\<rparr>)"
proof -
  let ?sys = "get_sys_for_code code (m_deck m)" and ?el = "uplinked (m_deck m) (code, c)"
  have q: "list_all (has_queue (m_deck m) (m_uplink m)) [(code, c)]" using assms(6) by (simp add: has_queue_def)
  obtain m1 where m1: "uart_receive_loop 8 [0, 0] m = Some (Inr (), m1)"
      "m_uplink m1 = queue_all (m_deck m) [(code, c)] (m_uplink m)" "m_sent m1 = m_sent m"
    using uart_receive_script [OF _ _ assms(2,3) _ q, of 8 "[0, 0]"] assms(1,4) by auto
  have queued: "uplink_at ?sys (m_uplink m1) = Some [?el]"
    using uplink_at_queue_all [OF q, of ?sys] assms(6) m1(2) by (simp add: system_eq_def)
  have wiring: "m_deck m1 = m_deck m" "sends_work m1"
    using keepsD [OF keeps_uart_receive, of 8 "[0, 0]" m] m1(1) assms(5) by (auto simp: wiring_of_def sends_work_def)
  have hex: "sys_hex ?sys = code" by (rule found_by_code [OF assms(9)])
  let ?m = "set_queue ?sys [] (m1\<lparr>m_man := man, m_replies := script\<rparr>)"
  have run: "sync_send_buffer_commands_to_system (m1\<lparr>m_man := man, m_replies := script\<rparr>) = forward_command cmd ?m"
    using queued assms(7,10,11,14) hex by (simp add: sync_send_buffer_commands_to_system_def uplinked_def)
  have "m_man ?m = man" "m_deck ?m = m_deck m" "m_sent ?m = m_sent m" "sends_work ?m"
    "m_uplink ?m = uplink_put ?sys [] (m_uplink m1)"
    using wiring m1(3) by (simp_all add: set_queue_def sends_work_def)
  then obtain r m2 j where sent: "forward_command cmd ?m = Some (r, m2)" "1 \<le> j" "j \<le> 8"
      "m_sent m2 = m_sent m @ replicate j (Tcp, packet)" "m_uplink m2 = uplink_put ?sys [] (m_uplink m1)"
    using forwarded_write [of cmd ?m timing' packet] assms(7,8,11-13,15,17) hex by (auto simp: storable_def)
  from sent(2) obtain n where n: "j = Suc n" by (cases j) simp_all
  show ?thesis
    using m1(1) run sent uplink_at_put [OF queued] writes_stored [OF assms(16,9,10,17,15,18), of behind n] n
    by (intro exI [of _ m1] exI [of _ r] exI [of _ m2] exI [of _ j]) (simp add: sync_uart_receive_to_uplink_buffer_def)
qed

lemma uplinked_command_reaches_memory_witness:
  "\<exists>m1 r m2 j s'.
    sync_uart_receive_to_uplink_buffer ((machine_example sim_system)\<lparr>m_deck := sim_deck,
      m_replies := Some [0x09, 0x80] ## silence, m_uplink := [(sim_system, [])]\<rparr>) = Some (Inr (), m1) \<and>
    sync_send_buffer_commands_to_system (m1\<lparr>m_man := m_man (machine_example sim_system), m_replies := silence\<rparr>) = Some (r, m2) \<and>
    m_sent m2 = replicate j (Tcp, sim_write) \<and>
    serve_all (Inr 0) (replicate j sim_write) (simulator (replicate 32 0)) = Some (Inr (), s') \<and>
    rs_mmaps s' 0x09 = Some (replicate 16 0 @ [1, 2, 3] @ replicate 13 0)"
proof -
  let ?m = "(machine_example sim_system)\<lparr>m_deck := sim_deck, m_replies := Some [0x09, 0x80] ## silence, m_uplink := [(sim_system, [])]\<rparr>"
  have c: "cmd_hex write_example = 0x80" "cmd_spw_reply_length write_example = 0"
    by (simp_all add: write_example_def set_spw_options_def Command_def cmd_set_type_def null_command_def)
  have store: "storable write_example sim_spw (replicate 32 0)"
    by (simp add: storable_def write_example_type command_example_simps instruction_reply_size_def sim_spw_simps)
  have image: "stored write_example (replicate 32 0) = replicate 16 0 @ [1, 2, 3] @ replicate 13 0"
    by (simp add: stored_def command_example_simps Let_def)
  have "\<exists>m1 r m2 j.
      sync_uart_receive_to_uplink_buffer ?m = Some (Inr (), m1) \<and>
      sync_send_buffer_commands_to_system (m1\<lparr>m_man := m_man (machine_example sim_system), m_replies := silence\<rparr>) = Some (r, m2) \<and>
      uplink_at (get_sys_for_code 0x09 (m_deck ?m)) (m_uplink m2) = Some [] \<and>
      m_sent m2 = m_sent ?m @ replicate j (Tcp, sim_write) \<and> 1 \<le> j \<and> j \<le> 8 \<and>
      serve_all (Inr 0) (replicate j sim_write) (simulator (replicate 32 0)) = Some (Inr (), simulator (replicate 32 0)
        \<lparr>rs_mmaps := (rs_mmaps (simulator (replicate 32 0)))(0x09 \<mapsto> stored write_example (replicate 32 0))\<rparr>)"
    by (rule uplinked_command_reaches_memory [where c = "0x80" and spw = sim_spw and timing = dispatch_timing
          and timing' = dispatch_timing])
      (use sim_simulates store sim_packets(1,3) c not_intercepted in \<open>simp_all add: machine_example_simps sim_deck_simps
        sim_system_simps system_eq_def vec_max_def check_frame_read_cmd_def CDTE_FRAME_READ_def dispatch_timing_def
        machine_example_def SystemManager_def add_timing_def sends_work_def\<close>)
  then show ?thesis unfolding image by (auto simp: machine_example_simps)
qed

end
