(* ===== verification/Uart_Port.thy ===== *)
theory Uart_Port
  imports Utilities
begin

text \<open>
  \<open>UARTPort\<close> (\<open>src/UartInterface.cpp\<close>): a serial port over \<open>termios\<close>. The settings of the port live in the driver; the
  object keeps a copy \<open>tty\<close> that is read (\<open>tcgetattr\<close>), changed and written back (\<open>tcsetattr\<close>).

  The C library is not part of the repository: the values of its flags and the two functions that set the speed are
  arguments (\<open>termios_library\<close>), and which of the calls fail, and what arrives, are scripts of the port. What the properties
  need of the flags is stated as \<open>flags_apart\<close>: the flags of one word that are switched in different directions do not
  overlap, as in POSIX, and setting a speed leaves them alone.
\<close>

section \<open>State\<close>

record termios =
  c_iflag :: u32
  c_oflag :: u32
  c_cflag :: u32
  c_lflag :: u32
  c_cc :: "nat \<Rightarrow> u8"
  c_ispeed :: u32
  c_ospeed :: u32

record termios_library =
  PARENB :: u32
  CSTOPB :: u32
  CSIZE :: u32
  CRTSCTS :: u32
  CREAD :: u32
  CLOCAL :: u32
  ICANON :: u32
  ECHO :: u32
  ECHOE :: u32
  ECHONL :: u32
  ISIG :: u32
  IXON :: u32
  IXOFF :: u32
  IXANY :: u32
  IGNBRK :: u32
  BRKINT :: u32
  PARMRK :: u32
  ISTRIP :: u32
  INLCR :: u32
  IGNCR :: u32
  ICRNL :: u32
  OPOST :: u32
  ONLCR :: u32
  VTIME :: nat
  VMIN :: nat
  cfsetispeed :: "u32 \<Rightarrow> termios \<Rightarrow> termios"
  cfsetospeed :: "u32 \<Rightarrow> termios \<Rightarrow> termios"

text \<open>\<open>up_device\<close> is the driver's side; \<open>up_get_fails\<close> and \<open>up_set_fails\<close> say which of the calls fail (past their end they
  succeed); \<open>up_reads\<close> is what \<open>read\<close> finds, \<open>None\<close> for an error; \<open>up_written\<close> is what was written.\<close>

record uart_port =
  up_tty :: termios
  up_device :: termios
  up_get_fails :: "bool list"
  up_set_fails :: "bool list"
  up_reads :: "bytes option list"
  up_written :: "bytes list"
  up_open :: bool
  up_msg :: bytes
  up_msg_len :: u8
  up_recv_msg :: bytes
  up_recv_bytes :: u8

definition BUFFER_MAX_SIZE :: nat where "BUFFER_MAX_SIZE = 1000000"

definition fails :: "bool list \<Rightarrow> bool" where
  "fails script \<longleftrightarrow> script \<noteq> [] \<and> hd script"

section \<open>The settings\<close>

text \<open>The operations return the \<open>int\<close> of the code with the new state.\<close>

definition serial2tty :: "uart_port \<Rightarrow> nat \<times> uart_port" where
  "serial2tty p =
     (let p' = p\<lparr>up_get_fails := tl (up_get_fails p)\<rparr>
      in if fails (up_get_fails p) then (1, p') else (0, p'\<lparr>up_tty := up_device p\<rparr>))"

definition attrs2tty :: "uart_port \<Rightarrow> nat \<times> uart_port" where
  "attrs2tty p =
     (let p' = p\<lparr>up_set_fails := tl (up_set_fails p)\<rparr>
      in if fails (up_set_fails p) then (1, p') else (0, p'\<lparr>up_device := up_tty p\<rparr>))"

definition on_tty :: "(termios \<Rightarrow> termios) \<Rightarrow> uart_port \<Rightarrow> uart_port" where
  "on_tty f p = p\<lparr>up_tty := f (up_tty p)\<rparr>"

definition cflag :: "(u32 \<Rightarrow> u32) \<Rightarrow> termios \<Rightarrow> termios" where
  "cflag f t = t\<lparr>c_cflag := f (c_cflag t)\<rparr>"

definition set_parity :: "termios_library \<Rightarrow> string \<Rightarrow> uart_port \<Rightarrow> nat \<times> uart_port" where
  "set_parity lib parity p =
     (if parity = ''clear'' then (0, on_tty (cflag (\<lambda>w. w AND NOT (PARENB lib))) p)
      else if parity = ''set'' then (0, on_tty (cflag (\<lambda>w. w OR PARENB lib)) p)
      else (1, p))"

definition set_stop :: "termios_library \<Rightarrow> int \<Rightarrow> uart_port \<Rightarrow> nat \<times> uart_port" where
  "set_stop lib stop_bits p =
     (if stop_bits = 1 then (0, on_tty (cflag (\<lambda>w. w AND NOT (CSTOPB lib))) p)
      else if stop_bits = 2 then (0, on_tty (cflag (\<lambda>w. w OR CSTOPB lib)) p)
      else (1, p))"

definition raw_mode :: "termios_library \<Rightarrow> int \<Rightarrow> termios \<Rightarrow> termios" where
  "raw_mode lib bits_in_byte t =
     t\<lparr>c_cflag := ((((c_cflag t AND NOT (CSIZE lib)) OR word_of_int bits_in_byte) AND NOT (CRTSCTS lib)) OR (CREAD lib OR CLOCAL lib)),
       c_lflag := ((((c_lflag t AND NOT (ICANON lib)) AND NOT (ECHO lib)) AND NOT (ECHOE lib)) AND NOT (ECHONL lib)) AND NOT (ISIG lib),
       c_iflag := (c_iflag t AND NOT (IXON lib OR IXOFF lib OR IXANY lib))
         AND NOT (IGNBRK lib OR BRKINT lib OR PARMRK lib OR ISTRIP lib OR INLCR lib OR IGNCR lib OR ICRNL lib),
       c_oflag := (c_oflag t AND NOT (OPOST lib)) AND NOT (ONLCR lib)\<rparr>"

definition baudsettings :: "termios_library \<Rightarrow> u32 \<Rightarrow> uart_port \<Rightarrow> nat \<times> uart_port" where
  "baudsettings lib baud_rate p =
     (let (_, p) = serial2tty p;
          p = on_tty (cfsetospeed lib baud_rate \<circ> cfsetispeed lib baud_rate) p;
          (_, p) = attrs2tty p
      in (0, p))"

definition vsettings :: "termios_library \<Rightarrow> int \<Rightarrow> int \<Rightarrow> uart_port \<Rightarrow> nat \<times> uart_port" where
  "vsettings lib vtime vmin p =
     (let (_, p) = serial2tty p;
          p = on_tty (\<lambda>t. t\<lparr>c_cc := ((c_cc t)(VTIME lib := word_of_int vtime))(VMIN lib := word_of_int vmin)\<rparr>) p;
          (_, p) = attrs2tty p
      in (0, p))"

definition setup_port :: "termios_library \<Rightarrow> u32 \<Rightarrow> int \<Rightarrow> int \<Rightarrow> string \<Rightarrow> int \<Rightarrow> int \<Rightarrow> uart_port \<Rightarrow> nat \<times> uart_port" where
  "setup_port lib baud_rate vtime vmin parity stop_bits bits_in_byte p =
     (let (_, p) = serial2tty p;
          (_, p) = set_parity lib parity p;
          (_, p) = set_stop lib stop_bits p;
          p = on_tty (raw_mode lib bits_in_byte) p;
          (_, p) = attrs2tty p;
          (_, p) = baudsettings lib baud_rate p;
          (_, p) = vsettings lib vtime vmin p
      in (0, p))"

text \<open>The constructor; \<open>opened\<close> is the object with the file that \<open>open\<close> gave and the memory of the fields it does not set.\<close>

definition UARTPort :: "termios_library \<Rightarrow> u32 \<Rightarrow> int \<Rightarrow> int \<Rightarrow> string \<Rightarrow> int \<Rightarrow> int \<Rightarrow> uart_port \<Rightarrow> uart_port" where
  "UARTPort lib baud_rate vtime vmin parity stop_bits bits_in_byte opened =
     snd (setup_port lib baud_rate vtime vmin parity stop_bits bits_in_byte opened)"

section \<open>Traffic\<close>

text \<open>\<open>print_bl\<close> prints \<open>num_bytes\<close> elements of a vector without looking at its size.\<close>

definition print_bl :: "nat \<Rightarrow> bytes \<Rightarrow> string result" where
  "print_bl num_bytes read_buf =
     (if num_bytes \<le> length read_buf
      then Inr (''{'' @ concat (map (\<lambda>b. byte_hex b @ '' '') (take num_bytes read_buf)) @ ''}'' @ newline)
      else Inl Undefined)"

text \<open>\<open>msg_len\<close> is a \<open>uint8_t\<close>. The address of the first element is taken, also of an empty vector.\<close>

definition uart_send :: "bytes \<Rightarrow> uart_port \<Rightarrow> (nat \<times> uart_port) result" where
  "uart_send msg p =
     (let p = p\<lparr>up_msg_len := word_of_nat (length msg), up_msg := msg\<rparr>
      in bindR (print_bl (unat (up_msg_len p)) (up_msg p)) (\<lambda>_.
         if msg = [] then Inl Undefined
         else Inr (0, p\<lparr>up_written := up_written p @ [take (unat (up_msg_len p)) msg]\<rparr>)))"

text \<open>\<open>read\<close> may store up to a million bytes, whatever the size of the vector, which is the caller's copy.\<close>

definition uart_recv :: "bytes \<Rightarrow> uart_port \<Rightarrow> (nat \<times> uart_port) result" where
  "uart_recv buff p =
     (if buff = [] then Inl Undefined
      else
        let p' = p\<lparr>up_reads := tl (up_reads p)\<rparr>
        in case (if up_reads p = [] then Some [] else hd (up_reads p)) of
             None \<Rightarrow> Inr (1, p')
           | Some arrived \<Rightarrow>
               let data = take BUFFER_MAX_SIZE arrived; num_bytes = length data
               in if num_bytes > length buff then Inl Undefined
                  else
                    let filled = data @ drop num_bytes buff;
                        p' = p'\<lparr>up_recv_msg := filled, up_recv_bytes := word_of_nat num_bytes\<rparr>
                    in bindR (print_bl (unat (up_recv_bytes p')) (up_recv_msg p')) (\<lambda>_. Inr (num_bytes, p')))"

definition close_fd :: "uart_port \<Rightarrow> nat \<times> uart_port" where
  "close_fd p = (0, p\<lparr>up_open := False\<rparr>)"

section \<open>Properties\<close>

text \<open>The laws of the library: speeds leave the flags and the control characters alone; the three groups of the
  control word, and what is switched on, are apart from each other.\<close>

definition flags_apart :: "termios_library \<Rightarrow> bool" where
  "flags_apart lib \<longleftrightarrow>
     (\<forall>b t. c_cc (cfsetispeed lib b t) = c_cc t \<and> c_cc (cfsetospeed lib b t) = c_cc t \<and>
       c_lflag (cfsetispeed lib b t) = c_lflag t \<and> c_lflag (cfsetospeed lib b t) = c_lflag t \<and>
       c_ispeed (cfsetispeed lib b t) = b \<and> c_ispeed (cfsetospeed lib b t) = c_ispeed t \<and> c_ospeed (cfsetospeed lib b t) = b \<and>
       (\<forall>mask \<in> {PARENB lib, CSTOPB lib, CSIZE lib, CREAD lib, CLOCAL lib}.
          c_cflag (cfsetispeed lib b t) AND mask = c_cflag t AND mask \<and>
          c_cflag (cfsetospeed lib b t) AND mask = c_cflag t AND mask)) \<and>
     VTIME lib \<noteq> VMIN lib \<and>
     (\<forall>mask \<in> {CSTOPB lib, CSIZE lib, CRTSCTS lib, CREAD lib, CLOCAL lib}. PARENB lib AND mask = 0) \<and>
     (\<forall>mask \<in> {CSIZE lib, CRTSCTS lib, CREAD lib, CLOCAL lib}. CSTOPB lib AND mask = 0) \<and>
     (\<forall>mask \<in> {CRTSCTS lib, CREAD lib, CLOCAL lib}. CSIZE lib AND mask = 0)"

text \<open>Words bit by bit.\<close>

lemma apartD:
  assumes "a AND b = 0" and "bit (a :: u32) n"
  shows "\<not> bit b n"
proof -
  have "\<not> bit (a AND b) n" by (simp only: assms(1)) simp
  with assms(2) show ?thesis by (simp add: bit_and_iff)
qed

lemma and_not_within:
  assumes "a AND NOT b = 0" and "bit (a :: u32) n" and "n < 32"
  shows "bit b n"
  using apartD [OF assms(1,2)] assms(3) by (simp add: bit_not_iff)

lemma raw_keeps:
  fixes w size bits flow on mask :: u32
  assumes "mask AND size = 0" "bits AND NOT size = 0" "mask AND flow = 0" "mask AND on = 0"
  shows "((((w AND NOT size) OR bits) AND NOT flow) OR on) AND mask = w AND mask"
proof (rule bit_word_eqI)
  fix n assume n: "n < LENGTH(32)"
  show "bit (((((w AND NOT size) OR bits) AND NOT flow) OR on) AND mask) n = bit (w AND mask) n"
    using n apartD [OF assms(1), of n] and_not_within [OF assms(2), of n] apartD [OF assms(3), of n] apartD [OF assms(4), of n]
    by (auto simp: bit_and_iff bit_or_iff bit_not_iff)
qed

lemma raw_size:
  fixes w size bits flow on :: u32
  assumes "bits AND NOT size = 0" "size AND flow = 0" "size AND on = 0"
  shows "((((w AND NOT size) OR bits) AND NOT flow) OR on) AND size = bits"
proof (rule bit_word_eqI)
  fix n assume n: "n < LENGTH(32)"
  show "bit (((((w AND NOT size) OR bits) AND NOT flow) OR on) AND size) n = bit bits n"
    using n and_not_within [OF assms(1), of n] apartD [OF assms(2), of n] apartD [OF assms(3), of n]
    by (auto simp: bit_and_iff bit_or_iff bit_not_iff)
qed

lemma or_and_part: "(w OR (a OR b)) AND a = (a :: u32)" "(w OR (a OR b)) AND b = b"
  by (rule bit_word_eqI; auto simp: bit_and_iff bit_or_iff)+

lemma switch_off: "(w AND NOT a) AND a = (0 :: u32)"
  by (rule bit_word_eqI) (simp add: bit_and_iff bit_not_iff)

lemma stays_off: "w AND a = 0 \<Longrightarrow> (w AND b) AND a = (0 :: u32)"
  by (metis and.assoc and.commute and_zero_eq)

text \<open>What the constructor leaves in the driver when no call fails.\<close>

definition masked :: "bool \<Rightarrow> u32 \<Rightarrow> u32" where
  "masked b flag = (if b then flag else 0)"

definition line_settings :: "termios_library \<Rightarrow> u32 \<Rightarrow> int \<Rightarrow> int \<Rightarrow> string \<Rightarrow> int \<Rightarrow> int \<Rightarrow> termios \<Rightarrow> bool" where
  "line_settings lib baud_rate vtime vmin parity stop_bits bits_in_byte t \<longleftrightarrow>
     c_cflag t AND PARENB lib = masked (parity = ''set'') (PARENB lib) \<and>
     c_cflag t AND CSTOPB lib = masked (stop_bits = 2) (CSTOPB lib) \<and>
     c_cflag t AND CSIZE lib = word_of_int bits_in_byte \<and>
     c_cflag t AND CREAD lib = CREAD lib \<and> c_cflag t AND CLOCAL lib = CLOCAL lib \<and>
     c_lflag t AND ICANON lib = 0 \<and> c_lflag t AND ECHO lib = 0 \<and> c_lflag t AND ISIG lib = 0 \<and>
     c_ispeed t = baud_rate \<and> c_ospeed t = baud_rate \<and>
     c_cc t (VTIME lib) = word_of_int vtime \<and> c_cc t (VMIN lib) = word_of_int vmin"

definition parity_set :: "termios_library \<Rightarrow> string \<Rightarrow> u32 \<Rightarrow> u32" where
  "parity_set lib parity w = (if parity = ''set'' then w OR PARENB lib else w AND NOT (PARENB lib))"

definition stop_set :: "termios_library \<Rightarrow> int \<Rightarrow> u32 \<Rightarrow> u32" where
  "stop_set lib stop_bits w = (if stop_bits = 2 then w OR CSTOPB lib else w AND NOT (CSTOPB lib))"

lemma settings_cflag:
  assumes "flags_apart lib" and "word_of_int bits AND NOT (CSIZE lib) = (0 :: u32)"
  shows "c_cflag (raw_mode lib bits (cflag (stop_set lib stop_bits) (cflag (parity_set lib parity) t))) AND PARENB lib =
      masked (parity = ''set'') (PARENB lib)"
    "c_cflag (raw_mode lib bits (cflag (stop_set lib stop_bits) (cflag (parity_set lib parity) t))) AND CSTOPB lib =
      masked (stop_bits = 2) (CSTOPB lib)"
    "c_cflag (raw_mode lib bits t') AND CSIZE lib = word_of_int bits"
    "c_cflag (raw_mode lib bits t') AND CREAD lib = CREAD lib" "c_cflag (raw_mode lib bits t') AND CLOCAL lib = CLOCAL lib"
proof -
  note apart = assms(1) [unfolded flags_apart_def]
  have on: "PARENB lib AND (CREAD lib OR CLOCAL lib) = 0" "CSTOPB lib AND (CREAD lib OR CLOCAL lib) = 0"
    "CSIZE lib AND (CREAD lib OR CLOCAL lib) = 0"
    using apart by (simp_all add: bit.conj_disj_distrib)
  have parity: "stop_set lib stop_bits w AND PARENB lib = w AND PARENB lib" for w
  proof (rule bit_word_eqI)
    fix n assume "n < LENGTH(32)"
    have "PARENB lib AND CSTOPB lib = 0" using apart by simp
    from apartD [OF this, of n] \<open>n < LENGTH(32)\<close> show "bit (stop_set lib stop_bits w AND PARENB lib) n = bit (w AND PARENB lib) n"
      by (auto simp: stop_set_def bit_and_iff bit_or_iff bit_not_iff)
  qed
  have own: "parity_set lib parity w AND PARENB lib = masked (parity = ''set'') (PARENB lib)"
    "stop_set lib stop_bits w AND CSTOPB lib = masked (stop_bits = 2) (CSTOPB lib)" for w
    by (simp_all add: parity_set_def stop_set_def masked_def switch_off)
  show "c_cflag (raw_mode lib bits (cflag (stop_set lib stop_bits) (cflag (parity_set lib parity) t))) AND PARENB lib =
      masked (parity = ''set'') (PARENB lib)"
    using apart on(1) by (simp add: raw_mode_def cflag_def raw_keeps assms(2) parity own)
  show "c_cflag (raw_mode lib bits (cflag (stop_set lib stop_bits) (cflag (parity_set lib parity) t))) AND CSTOPB lib =
      masked (stop_bits = 2) (CSTOPB lib)"
    using apart on(2) by (simp add: raw_mode_def cflag_def raw_keeps assms(2) own)
  show "c_cflag (raw_mode lib bits t') AND CSIZE lib = word_of_int bits"
    using apart on(3) by (simp add: raw_mode_def raw_size assms(2))
  show "c_cflag (raw_mode lib bits t') AND CREAD lib = CREAD lib" "c_cflag (raw_mode lib bits t') AND CLOCAL lib = CLOCAL lib"
    by (simp_all add: raw_mode_def or_and_part)
qed

theorem port_configured:
  assumes "flags_apart lib" and "word_of_int bits_in_byte AND NOT (CSIZE lib) = (0 :: u32)"
    and "parity \<in> {''clear'', ''set''}" and "stop_bits \<in> {1, 2}"
    and "up_get_fails opened = []" and "up_set_fails opened = []"
  shows "line_settings lib baud_rate vtime vmin parity stop_bits bits_in_byte
      (up_device (UARTPort lib baud_rate vtime vmin parity stop_bits bits_in_byte opened)) \<and>
    up_tty (UARTPort lib baud_rate vtime vmin parity stop_bits bits_in_byte opened) =
      up_device (UARTPort lib baud_rate vtime vmin parity stop_bits bits_in_byte opened)"
proof -
  let ?t = "raw_mode lib bits_in_byte (cflag (stop_set lib stop_bits) (cflag (parity_set lib parity) (up_device opened)))"
  let ?s = "cfsetospeed lib baud_rate (cfsetispeed lib baud_rate ?t)"
  have p: "set_parity lib parity q = (0, on_tty (cflag (parity_set lib parity)) q)" for q
    using assms(3) by (auto simp: set_parity_def parity_set_def on_tty_def cflag_def)
  have s: "set_stop lib stop_bits q = (0, on_tty (cflag (stop_set lib stop_bits)) q)" for q
    using assms(4) by (auto simp: set_stop_def stop_set_def on_tty_def cflag_def)
  have device: "up_device (UARTPort lib baud_rate vtime vmin parity stop_bits bits_in_byte opened) =
      ?s\<lparr>c_cc := ((c_cc ?s)(VTIME lib := word_of_int vtime))(VMIN lib := word_of_int vmin)\<rparr> \<and>
    up_tty (UARTPort lib baud_rate vtime vmin parity stop_bits bits_in_byte opened) =
      ?s\<lparr>c_cc := ((c_cc ?s)(VTIME lib := word_of_int vtime))(VMIN lib := word_of_int vmin)\<rparr>"
    by (simp add: UARTPort_def setup_port_def baudsettings_def vsettings_def serial2tty_def attrs2tty_def on_tty_def fails_def
        p s assms(5,6) Let_def)
  have lflag: "c_lflag ?t AND ICANON lib = 0" "c_lflag ?t AND ECHO lib = 0" "c_lflag ?t AND ISIG lib = 0"
    by (simp_all add: raw_mode_def cflag_def switch_off stays_off)
  show ?thesis
    using device assms(1) settings_cflag [OF assms(1,2)] lflag by (simp add: line_settings_def flags_apart_def)
qed

text \<open>The flags of Linux, with the speeds in fields of their own.\<close>

definition linux_termios :: termios_library where
  "linux_termios = \<lparr>PARENB = 0x100, CSTOPB = 0x40, CSIZE = 0x30, CRTSCTS = 0x80000000, CREAD = 0x80, CLOCAL = 0x800,
     ICANON = 0x2, ECHO = 0x8, ECHOE = 0x10, ECHONL = 0x40, ISIG = 0x1, IXON = 0x400, IXOFF = 0x1000, IXANY = 0x800,
     IGNBRK = 0x1, BRKINT = 0x2, PARMRK = 0x8, ISTRIP = 0x20, INLCR = 0x40, IGNCR = 0x80, ICRNL = 0x100,
     OPOST = 0x1, ONLCR = 0x4, VTIME = 5, VMIN = 6,
     cfsetispeed = (\<lambda>b t. t\<lparr>c_ispeed := b\<rparr>), cfsetospeed = (\<lambda>b t. t\<lparr>c_ospeed := b\<rparr>)\<rparr>"

definition termios_example :: termios where
  "termios_example = \<lparr>c_iflag = 0x500, c_oflag = 0x5, c_cflag = 0xbf, c_lflag = 0x8a3b, c_cc = (\<lambda>_. 0), c_ispeed = 13, c_ospeed = 13\<rparr>"

definition port_example :: uart_port where
  "port_example = \<lparr>up_tty = termios_example, up_device = termios_example, up_get_fails = [], up_set_fails = [],
     up_reads = [Some [1, 2, 3]], up_written = [], up_open = True, up_msg = [], up_msg_len = 0, up_recv_msg = [], up_recv_bytes = 0\<rparr>"

lemma port_example_simps [simp]:
  "up_get_fails port_example = []" "up_set_fails port_example = []" "up_reads port_example = [Some [1, 2, 3]]"
  "up_written port_example = []"
  by (simp_all add: port_example_def)

lemma port_configured_witness:
  "line_settings linux_termios 15 10 0 ''clear'' 1 0x30 (up_device (UARTPort linux_termios 15 10 0 ''clear'' 1 0x30 port_example))"
proof -
  have "flags_apart linux_termios" by (simp add: flags_apart_def linux_termios_def)
  then show ?thesis
    using port_configured [where lib = linux_termios and bits_in_byte = "0x30" and parity = "''clear''" and stop_bits = 1
      and opened = port_example and baud_rate = 15 and vtime = 10 and vmin = 0] by (simp add: linux_termios_def)
qed

text \<open>Only the length of the message modulo 256 is sent, from its front.\<close>

theorem long_messages_cut:
  assumes "msg \<noteq> []"
  shows "\<exists>p'. uart_send msg p = Inr (0, p') \<and> up_written p' = up_written p @ [take (length msg mod 256) msg]"
proof -
  have n: "unat (word_of_nat (length msg) :: u8) = length msg mod 256"
    by (simp add: unsigned_of_nat take_bit_eq_mod)
  have "length msg mod 256 \<le> length msg" by simp
  with assms n show ?thesis by (simp add: uart_send_def print_bl_def Let_def)
qed

lemma long_messages_cut_witness:
  "\<exists>p'. uart_send (replicate 256 0x41) port_example = Inr (0, p') \<and> up_written p' = [[]]"
  using long_messages_cut [of "replicate 256 0x41" port_example] by simp

text \<open>A read that finds more than the buffer holds writes beyond it; otherwise the bytes stand at the front of the copy.\<close>

theorem long_reads_overflow:
  assumes "up_reads p = Some arrived # rest" and "buff \<noteq> []" and "length arrived \<le> BUFFER_MAX_SIZE"
  shows "if length buff < length arrived then uart_recv buff p = Inl Undefined
    else \<exists>p'. uart_recv buff p = Inr (length arrived, p') \<and> up_recv_msg p' = arrived @ drop (length arrived) buff \<and>
      up_recv_bytes p' = word_of_nat (length arrived)"
proof -
  have "unat (word_of_nat (length arrived) :: u8) \<le> length arrived" by (simp add: unsigned_of_nat take_bit_eq_mod)
  then show ?thesis using assms by (cases "length buff < length arrived") (simp_all add: uart_recv_def print_bl_def Let_def)
qed

lemma long_reads_overflow_witness: "uart_recv [0, 0] port_example = Inl Undefined"
  using long_reads_overflow [of port_example "[1, 2, 3]" "[]" "[0, 0]"] by (simp add: BUFFER_MAX_SIZE_def)

end
