(* ===== verification/Ticker.thy ===== *)
theory Ticker
  imports Utilities
begin

text \<open>
  The deprecated \<open>Ticker\<close> (\<open>src/Ticker.cpp\<close>), the loop that \<open>Circle\<close> replaced: one state of one subsystem per tick.
  It calls \<open>send\<close> and \<open>recv\<close> of \<open>TransportLayerMachine\<close>, which the class no longer has; they are arguments. The
  references the object holds (commands, downlink queue, durations) are fields here.
\<close>

record 's ticker =
  tk_subsystems :: "'s list"
  tk_durations :: nat                 \<comment> \<open>the number of states with a duration\<close>
  tk_commands :: "bytes list"
  tk_downlink :: "bytes list"
  tk_commands_msg_size :: nat
  tk_downlink_msg_size :: nat
  tk_state :: u32
  tk_subsystem :: u32

text \<open>Both sizes are taken of the first command; an empty list of commands has none.\<close>

definition Ticker :: "'s list \<Rightarrow> nat \<Rightarrow> bytes list \<Rightarrow> bytes list \<Rightarrow> 's ticker result" where
  "Ticker systems durations commands downlink =
     (case commands of
        [] \<Rightarrow> Inl Undefined
      | front # rest \<Rightarrow> Inr \<lparr>
          tk_subsystems = systems, tk_durations = durations, tk_commands = commands, tk_downlink = downlink,
          tk_commands_msg_size = length front, tk_downlink_msg_size = length front,
          tk_state = 0, tk_subsystem = 0\<rparr>)"

type_synonym 's sender = "bytes list \<Rightarrow> 's \<Rightarrow> 's"
type_synonym 's receiver = "bytes list \<Rightarrow> 's \<Rightarrow> 's \<times> bytes list"

definition current_subsystem :: "'s ticker \<Rightarrow> 's result" where
  "current_subsystem tk =
     (if unat (tk_subsystem tk) < length (tk_subsystems tk) then Inr (tk_subsystems tk ! unat (tk_subsystem tk)) else Inl Undefined)"

definition set_subsystem :: "'s \<Rightarrow> 's ticker \<Rightarrow> 's ticker" where
  "set_subsystem s tk = tk\<lparr>tk_subsystems := (tk_subsystems tk)[unat (tk_subsystem tk) := s]\<rparr>"

text \<open>The work of a state; the other states only look the subsystem up.\<close>

definition act :: "'s sender \<Rightarrow> 's receiver \<Rightarrow> 's ticker \<Rightarrow> 's ticker result" where
  "act send recv tk =
     (if tk_state tk = 0 then
        bindR (current_subsystem tk) (\<lambda>s. Inr (set_subsystem (send (tk_commands tk) s) tk))
      else if tk_state tk = 2 then
        bindR (current_subsystem tk) (\<lambda>s.
          case recv (tk_downlink tk) s of (s, downlink) \<Rightarrow> Inr (set_subsystem s (tk\<lparr>tk_downlink := downlink\<rparr>)))
      else Inr tk)"

text \<open>The state is stored, the new subsystem is not.\<close>

definition tick :: "'s sender \<Rightarrow> 's receiver \<Rightarrow> 's ticker \<Rightarrow> 's ticker result" where
  "tick send recv tk =
     bindR (act send recv tk) (\<lambda>tk.
     bindR (current_subsystem tk) (\<lambda>_.
     bindR (inc_mod (sint (tk_state tk)) (signed_take_bit 31 (int (tk_durations tk)))) (\<lambda>i.
       let tk = tk\<lparr>tk_state := word_of_int i\<rparr>
       in if tk_state tk = 0
          then bindR (inc_mod (sint (tk_subsystem tk)) (signed_take_bit 31 (int (length (tk_subsystems tk))))) (\<lambda>_. Inr tk)
          else Inr tk)))"

fun ticks :: "'s sender \<Rightarrow> 's receiver \<Rightarrow> nat \<Rightarrow> 's ticker \<Rightarrow> 's ticker result" where
  "ticks send recv 0 tk = Inr tk"
| "ticks send recv (Suc k) tk = bindR (tick send recv tk) (ticks send recv k)"

lemma act_keeps:
  "act send recv tk = Inr tk' \<Longrightarrow> tk_subsystem tk' = tk_subsystem tk \<and> tk_state tk' = tk_state tk \<and>
     tk_durations tk' = tk_durations tk \<and> length (tk_subsystems tk') = length (tk_subsystems tk) \<and>
     (\<forall>j. j \<noteq> unat (tk_subsystem tk) \<longrightarrow> tk_subsystems tk' ! j = tk_subsystems tk ! j)"
  by (auto simp: act_def bindR_eq_Inr set_subsystem_def case_prod_unfold split: if_splits)

lemma tick_keeps:
  "tick send recv tk = Inr tk' \<Longrightarrow> tk_subsystem tk' = tk_subsystem tk \<and> tk_durations tk' = tk_durations tk \<and>
     length (tk_subsystems tk') = length (tk_subsystems tk) \<and>
     (\<forall>j. j \<noteq> unat (tk_subsystem tk) \<longrightarrow> tk_subsystems tk' ! j = tk_subsystems tk ! j)"
  by (auto simp: tick_def bindR_eq_Inr Let_def split: if_splits dest!: act_keeps)

text \<open>The ticker never leaves its first subsystem: whatever number of ticks it makes, no other subsystem is served.\<close>

theorem ticker_stays_on_first:
  assumes "Ticker systems durations commands downlink = Inr tk" and "ticks send recv k tk = Inr tk'"
  shows "tk_subsystem tk' = 0 \<and> (\<forall>j. 0 < j \<longrightarrow> tk_subsystems tk' ! j = systems ! j)"
proof -
  have "tk_subsystem tk' = tk_subsystem tk \<and> (\<forall>j. j \<noteq> unat (tk_subsystem tk) \<longrightarrow> tk_subsystems tk' ! j = tk_subsystems tk ! j)"
    using assms(2)
  proof (induction k arbitrary: tk)
    case (Suc k)
    then obtain tk1 where "tick send recv tk = Inr tk1" "ticks send recv k tk1 = Inr tk'" by (auto simp: bindR_eq_Inr)
    with Suc.IH [of tk1] tick_keeps [of send recv tk tk1] show ?case by simp
  qed simp
  moreover have "tk_subsystem tk = 0" "tk_subsystems tk = systems"
    using assms(1) by (auto simp: Ticker_def split: list.splits)
  ultimately show ?thesis by simp
qed

definition ticker_example :: "nat ticker" where
  "ticker_example = \<lparr>tk_subsystems = [0, 0], tk_durations = 4, tk_commands = [[1, 2]], tk_downlink = [],
     tk_commands_msg_size = 2, tk_downlink_msg_size = 2, tk_state = 0, tk_subsystem = 0\<rparr>"

lemma ticker_stays_on_first_witness:
  "\<exists>tk'. ticks (\<lambda>_ s. Suc s) (\<lambda>queue s. (s, queue)) 5 ticker_example = Inr tk' \<and> tk_subsystems tk' ! 0 = 2 \<and> tk_subsystems tk' ! 1 = 0"
proof -
  have new: "Ticker [0, 0] 4 [[1, 2]] [] = Inr ticker_example" by (simp add: Ticker_def ticker_example_def)
  have "case ticks (\<lambda>_ s. Suc s) (\<lambda>queue s. (s, queue)) 5 ticker_example of Inl e \<Rightarrow> False | Inr tk' \<Rightarrow> tk_subsystems tk' ! 0 = 2"
    by code_simp
  then obtain tk' where tk': "ticks (\<lambda>_ s. Suc s) (\<lambda>queue s. (s, queue)) 5 ticker_example = Inr tk'" "tk_subsystems tk' ! 0 = 2"
    by (auto split: sum.splits)
  with ticker_stays_on_first [OF new tk'(1)] show ?thesis by simp
qed

end
