(* ===== verification/Log_Files.thy ===== *)
theory Log_Files
  imports Commands
begin

text \<open>
  The log of the program and what it prints about its configuration: the name of a log file from the time, the logger and
  its levels (\<open>src/Utilities.cpp\<close>), \<open>CommandDeck::print\<close> and \<open>LineInterface::verbose_print\<close>. The logger itself is
  \<open>spdlog\<close>'s: here it is its name with the lines it was given, or a null pointer before the set-up.
\<close>

section \<open>Names of log files\<close>

text \<open>What \<open>gmtime\<close> makes of the clock.\<close>

record calendar =
  cal_year :: nat
  cal_month :: nat
  cal_day :: nat
  cal_hour :: nat
  cal_minute :: nat
  cal_second :: nat

definition two_digits :: "nat \<Rightarrow> string" where
  "two_digits n = [char_of (48 + n div 10), char_of (48 + n mod 10)]"

text \<open>The format \<open>auto_%F_%H-%M-%S\<close>; \<open>%F\<close> is \<open>%Y-%m-%d\<close>.\<close>

definition now_text :: "calendar \<Rightarrow> string" where
  "now_text c = ''auto_'' @ dec_string (cal_year c) @ ''-'' @ two_digits (cal_month c) @ ''-'' @ two_digits (cal_day c)
     @ ''_'' @ two_digits (cal_hour c) @ ''-'' @ two_digits (cal_minute c) @ ''-'' @ two_digits (cal_second c)"

text \<open>\<open>strftime\<close> writes to an array of the size of \<open>"auto_yyyy-mm-dd_hh-mm-ss"\<close>; a text that does not fit with its end
  leaves the array unspecified.\<close>

definition get_now_string :: "calendar \<Rightarrow> string result" where
  "get_now_string c =
     (if length (now_text c) < length ''auto_yyyy-mm-dd_hh-mm-ss'' + 1 then Inr (now_text c) else Inl Undefined)"

section \<open>The logger\<close>

datatype log_level = Log_Trace | Log_Debug | Log_Info | Log_Error

record logger =
  lg_name :: string
  lg_lines :: "(log_level \<times> string) list"

text \<open>\<open>basic_logger_mt\<close> throws when the file does not open (\<open>opens\<close>); the level \<open>trace\<close> lets every line through.\<close>

definition setup_logs_nowtime :: "(string \<Rightarrow> bool) \<Rightarrow> string \<Rightarrow> calendar \<Rightarrow> logger result" where
  "setup_logs_nowtime opens prefix c =
     bindR (get_now_string c) (\<lambda>time_fmt.
     let file_name = prefix @ time_fmt; extension = ''.log''
     in if opens (file_name @ extension) then Inr \<lparr>lg_name = file_name, lg_lines = []\<rparr> else Inl System_Error)"

definition log_line :: "log_level \<Rightarrow> string \<Rightarrow> logger option \<Rightarrow> logger option result" where
  "log_line level msg lg = bindR (option_deref lg) (\<lambda>l. Inr (Some (l\<lparr>lg_lines := lg_lines l @ [(level, msg)]\<rparr>)))"

definition debug_log :: "string \<Rightarrow> logger option \<Rightarrow> logger option result" where "debug_log = log_line Log_Debug"
definition info_log :: "string \<Rightarrow> logger option \<Rightarrow> logger option result" where "info_log = log_line Log_Info"
definition trace_log :: "string \<Rightarrow> logger option \<Rightarrow> logger option result" where "trace_log = log_line Log_Trace"
definition error_log :: "string \<Rightarrow> logger option \<Rightarrow> logger option result" where "error_log = log_line Log_Error"

text \<open>The overloads for bytes print them as hexadecimal digits without separators, positions and line ends.\<close>

definition debug_log_bytes :: "bytes \<Rightarrow> logger option \<Rightarrow> logger option result" where
  "debug_log_bytes data = log_line Log_Debug (concat (map byte_hex data))"
definition info_log_bytes :: "bytes \<Rightarrow> logger option \<Rightarrow> logger option result" where
  "info_log_bytes data = log_line Log_Info (concat (map byte_hex data))"
definition trace_log_bytes :: "bytes \<Rightarrow> logger option \<Rightarrow> logger option result" where
  "trace_log_bytes data = log_line Log_Trace (concat (map byte_hex data))"
definition error_log_bytes :: "bytes \<Rightarrow> logger option \<Rightarrow> logger option result" where
  "error_log_bytes data = log_line Log_Error (concat (map byte_hex data))"

section \<open>Console output\<close>

definition hex_print_chars :: "string \<Rightarrow> string" where
  "hex_print_chars data = ''0x'' @ concat (map (\<lambda>c. byte_hex (of_char c AND 0xff) @ '' '') data) @ newline"

definition verbose_print :: "bool \<Rightarrow> string \<Rightarrow> string" where
  "verbose_print do_verbose msg = (if do_verbose then msg @ newline else [])"

fun hex_digits :: "nat \<Rightarrow> string" where
  "hex_digits n = (if n < 16 then [hex_char n] else hex_digits (n div 16) @ [hex_char (n mod 16)])"

text \<open>The order in which the two hash maps are walked is an argument: the systems, each with its codes.\<close>

definition deck_print :: "(u8 \<times> u8 list) list \<Rightarrow> command_deck \<Rightarrow> string" where
  "deck_print order deck = ''printing commands:'' @ newline @
     concat (map (\<lambda>(sys, codes).
       tab @ ''system '' @ get_sys_name_for_code sys deck @ '' has commands:'' @ newline @
       concat (map (\<lambda>code. tab @ tab @ ''0x'' @ hex_digits (unat code) @ '': '' @
         cmd_name (get_command_for_sys_for_code sys code deck) @ newline) codes)) order)"

section \<open>Properties\<close>

lemma length_two_digits [simp]: "length (two_digits n) = 2"
  by (simp add: two_digits_def)

lemma dec_string_step: "10 \<le> y \<Longrightarrow> dec_string y = dec_string (y div 10) @ [char_of (48 + y mod 10)]"
  by (subst dec_string.simps) (simp del: dec_string.simps)

lemma dec_string_digit: "y < 10 \<Longrightarrow> dec_string y = [char_of (48 + y)]"
  by (subst dec_string.simps) (simp del: dec_string.simps)

lemma dec_string_four:
  assumes "1000 \<le> y" and "y < 10000"
  shows "dec_string y = two_digits (y div 100) @ two_digits (y mod 100)"
proof -
  have big: "10 \<le> y" "10 \<le> y div 10" "10 \<le> y div 10 div 10" "y div 10 div 10 div 10 < 10" using assms by auto
  have same: "y div 10 div 10 = y div 100" "y div 10 mod 10 = y mod 100 div 10" "y mod 10 = y mod 100 mod 10"
    using div_mult2_eq [of y 10 10] mod_mult2_eq [of y 10 10] by (simp_all add: mod_mod_cancel)
  have "dec_string y = [char_of (48 + y div 10 div 10 div 10), char_of (48 + y div 10 div 10 mod 10),
      char_of (48 + y div 10 mod 10), char_of (48 + y mod 10)]"
    by (simp only: dec_string_step [OF big(1)] dec_string_step [OF big(2)] dec_string_step [OF big(3)] dec_string_digit [OF big(4)]
        append.simps)
  then show ?thesis by (simp only: two_digits_def same append.simps)
qed

lemma of_digit: "n < 10 \<Longrightarrow> of_char (char_of (48 + n :: nat)) = 48 + n"
  by (simp only: of_char_of) simp

lemma two_digits_inj:
  assumes "two_digits a = two_digits b" and "a < 100" and "b < 100"
  shows "a = b"
proof -
  have small: "a div 10 < 10" "b div 10 < 10" "a mod 10 < 10" "b mod 10 < 10" using assms by auto
  have "char_of (48 + a div 10) = (char_of (48 + b div 10) :: char)" "char_of (48 + a mod 10) = (char_of (48 + b mod 10) :: char)"
    using assms(1) by (simp_all only: two_digits_def list.inject)
  from this [THEN arg_cong [where f = "of_char :: char \<Rightarrow> nat"]] have "a div 10 = b div 10" "a mod 10 = b mod 10"
    by (simp_all only: of_digit [OF small(1)] of_digit [OF small(2)] of_digit [OF small(3)] of_digit [OF small(4)] add_left_cancel)
  then show ?thesis by (metis div_mult_mod_eq)
qed

lemma two_digits_no_slash: "n < 100 \<Longrightarrow> CHR ''/'' \<notin> set (two_digits n)"
proof -
  have "CHR ''/'' \<noteq> char_of (48 + m)" if "m < 10" for m :: nat
  proof
    assume "CHR ''/'' = char_of (48 + m)"
    then have "(of_char (CHR ''/'') :: nat) = of_char (char_of (48 + m))" by simp
    also have "\<dots> = 48 + m" by (rule of_digit [OF that])
    finally show False by simp
  qed
  moreover assume "n < 100"
  then have "n div 10 < 10" by simp
  ultimately show ?thesis by (simp add: two_digits_def)
qed

definition plausible :: "calendar \<Rightarrow> bool" where
  "plausible c \<longleftrightarrow> 1000 \<le> cal_year c \<and> cal_year c < 10000 \<and> cal_month c < 100 \<and> cal_day c < 100 \<and>
     cal_hour c < 100 \<and> cal_minute c < 100 \<and> cal_second c < 100"

lemma now_text_fits: "plausible c \<Longrightarrow> get_now_string c = Inr (now_text c)"
  by (simp add: get_now_string_def now_text_def plausible_def dec_string_four del: dec_string.simps)

lemma now_text_inj:
  assumes "now_text c = now_text c'" and "plausible c" and "plausible c'"
  shows "c = c'"
proof -
  have parts: "cal_year c div 100 < 100" "cal_year c' div 100 < 100" "cal_year c mod 100 < 100" "cal_year c' mod 100 < 100"
    using assms(2,3) by (auto simp: plausible_def)
  have "two_digits (cal_year c div 100) = two_digits (cal_year c' div 100) \<and>
    two_digits (cal_year c mod 100) = two_digits (cal_year c' mod 100) \<and>
    two_digits (cal_month c) = two_digits (cal_month c') \<and> two_digits (cal_day c) = two_digits (cal_day c') \<and>
    two_digits (cal_hour c) = two_digits (cal_hour c') \<and> two_digits (cal_minute c) = two_digits (cal_minute c') \<and>
    two_digits (cal_second c) = two_digits (cal_second c')"
    using assms by (simp add: now_text_def plausible_def dec_string_four del: dec_string.simps)
  then have "cal_year c div 100 = cal_year c' div 100" "cal_year c mod 100 = cal_year c' mod 100"
    "cal_month c = cal_month c'" "cal_day c = cal_day c'" "cal_hour c = cal_hour c'" "cal_minute c = cal_minute c'"
    "cal_second c = cal_second c'"
    using two_digits_inj parts assms(2,3) by (auto simp: plausible_def)
  then show ?thesis by (intro calendar.equality) (metis div_mult_mod_eq, simp_all)
qed

lemma now_text_no_slash:
  assumes "plausible c"
  shows "CHR ''/'' \<notin> set (now_text c)"
proof -
  have "cal_year c div 100 < 100" "cal_year c mod 100 < 100" using assms by (auto simp: plausible_def)
  then show ?thesis
    using assms by (simp add: now_text_def plausible_def dec_string_four two_digits_no_slash del: dec_string.simps)
qed

text \<open>The base name of a path: what stands behind its last slash.\<close>

lemma path_filename_behind:
  assumes "CHR ''/'' \<notin> set name" and "prefix = [] \<or> last prefix = CHR ''/''"
  shows "path_filename (prefix @ name) = name"
proof -
  have "\<forall>c \<in> set (rev name). c \<noteq> CHR ''/''" using assms(1) by auto
  then have "takeWhile (\<lambda>c. c \<noteq> CHR ''/'') (rev name @ rev prefix) = rev name @ takeWhile (\<lambda>c. c \<noteq> CHR ''/'') (rev prefix)"
    by (intro takeWhile_append2) auto
  moreover have "takeWhile (\<lambda>c. c \<noteq> CHR ''/'') (rev prefix) = []"
    using assms(2) by (cases prefix rule: rev_cases) auto
  ultimately show ?thesis by (simp add: path_filename_def)
qed

text \<open>The clean-up and the current log: the file that is being written has the name of the time of the set-up in its
  directory; the clean-up never removes it, and when it completes it has removed exactly the other files, which include
  every log of another second.\<close>

theorem current_log_survives:
  assumes "setup_logs_nowtime opens prefix c = Inr lg" and "plausible c" and "prefix = [] \<or> last prefix = CHR ''/''"
  shows "now_text c @ ''.log'' \<notin> set (fst (clear_formatter_log (lg_name lg) (Some files))) \<and>
    (snd (clear_formatter_log (lg_name lg) (Some files)) = 0 \<longrightarrow>
      (\<forall>c'. plausible c' \<and> c' \<noteq> c \<and> now_text c' @ ''.log'' \<in> fst ` set files \<longrightarrow>
        now_text c' @ ''.log'' \<in> set (fst (clear_formatter_log (lg_name lg) (Some files)))))"
proof -
  have "lg_name lg = prefix @ now_text c"
    using assms(1) by (auto simp: setup_logs_nowtime_def get_now_string_def Let_def bindR_eq_Inr split: if_splits)
  moreover have "path_filename (prefix @ now_text c @ ''.log'') = now_text c @ ''.log''"
    by (rule path_filename_behind [OF _ assms(3)]) (simp add: now_text_no_slash [OF assms(2)])
  ultimately have current: "clear_formatter_log (lg_name lg) (Some files) = remove_logs (now_text c @ ''.log'') files"
    by (simp add: clear_formatter_log_def)
  have other: "now_text c' @ ''.log'' \<noteq> now_text c @ ''.log''" if "plausible c'" "c' \<noteq> c" for c'
    using now_text_inj [of c' c] that assms(2) by blast
  show ?thesis
    unfolding current
  proof (intro conjI impI allI)
    show "now_text c @ ''.log'' \<notin> set (fst (remove_logs (now_text c @ ''.log'') files))" by (rule remove_logs_keeps_current)
    fix c' assume completed: "snd (remove_logs (now_text c @ ''.log'') files) = 0"
      and c': "plausible c' \<and> c' \<noteq> c \<and> now_text c' @ ''.log'' \<in> fst ` set files"
    then show "now_text c' @ ''.log'' \<in> set (fst (remove_logs (now_text c @ ''.log'') files))"
      unfolding remove_logs_ok [OF completed] using other [of c'] by (simp only: set_filter set_map mem_Collect_eq simp_thms)
  qed
qed

definition launch_time :: calendar where
  "launch_time = \<lparr>cal_year = 2024, cal_month = 4, cal_day = 17, cal_hour = 22, cal_minute = 13, cal_second = 0\<rparr>"

lemma current_log_survives_witness:
  "\<exists>lg. setup_logs_nowtime (\<lambda>_. True) ''log/'' launch_time = Inr lg \<and>
    ''auto_2024-04-17_22-13-00.log'' \<notin> set (fst (clear_formatter_log (lg_name lg) (Some [(''auto_2024-04-17_22-13-00.log'', Some True)])))"
proof -
  have time: "plausible launch_time" by (simp add: plausible_def launch_time_def)
  have stamp: "now_text launch_time = ''auto_2024-04-17_22-13-00''" by code_simp
  obtain lg where lg: "setup_logs_nowtime (\<lambda>_. True) ''log/'' launch_time = Inr lg"
    by (simp add: setup_logs_nowtime_def now_text_fits [OF time] Let_def)
  with current_log_survives [OF lg time, of "[(''auto_2024-04-17_22-13-00.log'', Some True)]"] show ?thesis
    by (simp add: stamp)
qed

text \<open>Before the set-up every line is written through a null pointer; after it every line is kept, whatever its level.\<close>

lemma log_line_cases:
  "log_line level msg None = Inl Undefined"
  "log_line level msg (Some lg) = Inr (Some (lg\<lparr>lg_lines := lg_lines lg @ [(level, msg)]\<rparr>))"
  by (simp_all add: log_line_def)

end
