(* ===== verification/Spec2Isabelle.thy ===== *)
theory Spec2Isabelle
  imports Frame_Packetizer Rmap_Packets System_Manager Ring_Buffer Fragments Closed_Loop Simulator_Program Formatter_Safety
    Write_Pointers Async_Uplink Timed_Reads Uplink_Path Uart_Port Ticker Log_Files
begin

text \<open>
  A verification library for the FOXSI-4 Formatter, the flight computer that reads the detectors of the FOXSI-4 sounding
  rocket and relays them to the ground.

  \<^bold>\<open>The program.\<close> \<open>apps/main.cpp\<close> reads a configuration (\<open>LineInterface\<close>), which gives the systems, their links and a
  table of commands (\<open>CommandDeck\<close>); it builds a \<open>SystemManager\<close> per system, a \<open>TransportLayerMachine\<close> with the
  sockets and serial ports, and a \<open>Circle\<close>. The circle gives each system a turn: it forwards the commands that the
  ground has sent, reads a frame from the remote ring buffer of the system by RMAP over SpaceWire over TCP, reassembles
  the frame from the packets (\<open>PacketFramer\<close>), cuts it into downlink elements (\<open>FramePacketizer\<close>), puts these into the
  downlink queue, sends the queue as UDP datagrams, and receives uplink over a serial port. \<open>apps/foxsimile.cpp\<close> plays
  the detectors (\<open>foxsimile::Responder\<close>). All paths below are under \<open>src/\<close>.

  \<^bold>\<open>Conventions.\<close> A throw of the code is a value: an operation returns \<open>fault + 'a\<close> (\<open>'a result\<close>), where \<open>Undefined\<close> is
  undefined behaviour of C++ (a null pointer dereferenced, an access outside a vector by \<open>[]\<close> or an iterator, a division
  by zero). An operation on a state maps it to a result and a new state, or to \<open>None\<close> when it never returns (type
  \<open>('s, 'a) op\<close>); \<open>bindM\<close> sequences, \<open>catchM\<close> is \<open>try\<close>. The integers of the code are words of their width; a \<open>size_t\<close> is
  a natural number below \<open>2 ^ 64\<close> whose arithmetic wraps by \<open>sz_add\<close>, \<open>sz_sub\<close>, \<open>sz_mul\<close>. An enumeration is a
  \<open>datatype\<close> with a function to its codes. A pointer to an object that nobody else changes is the object, a pointer that
  may be null an option.

  \<^bold>\<open>Loops.\<close> No fuel is used. A loop that is bounded by its data or a counter is a \<open>fun\<close>. A loop that may run forever is a
  \<open>partial_function (option)\<close>, and its termination is a theorem: the packet loop of a frame (\<open>read_frame\<close>, which ends
  because every packet of an answering peer brings the frame nearer to its end, theory \<open>Framer_Progress\<close>, and a silent
  peer ends it at once), the queueing of a packetizer (\<open>drain_loop\<close>), the wait for a late datagram (\<open>late_datagram\<close>, which
  may never end) and the loop of the program (\<open>start\<close>, which returns only with a fault, since nothing resets its flag).

  \<^bold>\<open>The world outside.\<close> What the repository does not contain is an argument. Sockets and ports: an infinite
  stream of what the peers deliver to one read after the other, bytes or nothing (\<open>m_replies\<close>), so that a peer may fall
  silent or answer without end, and a script of the sends that throw (\<open>m_send_fails\<close>); the properties quantify over all
  of them unless they say otherwise. The queues of \<open>moodycamel\<close> are lists, since a single thread uses them. The JSON library, the file
  system, Boost's address parser, \<open>termios\<close> and the \<open>io_context\<close> are records of functions or relations whose laws, where
  a property needs one, are named (\<open>closed_refuses\<close>, \<open>context_laws\<close>, \<open>flags_apart\<close>). A variable that is
  read before it is set is an argument: \<open>None\<close>, or \<open>Inl Undefined\<close>, stands for the C++ standard, which makes the read
  undefined, anything else for a memory that holds a value there (\<open>did_queue_hk\<close> of \<open>manage_cdte1\<close>, the sum of the
  periods in \<open>normalize_time\<close>, the byte behind the transaction identifier in \<open>memory_reply\<close>).
\<close>

text \<open>
  \<^bold>\<open>The theories\<close>, bottom up.

  \<^item> \<open>Prelude\<close>: words, faults, \<open>std::vector\<close> and their lemmas. \<open>Rmap_Crc\<close>: the checksum table and its two loops, equal
    to a bitwise CRC (locale \<open>checksum\<close>), the residue theorem and the detection of one-byte faults.
  \<^item> \<open>Parameters\<close> (\<open>include/Parameters.h\<close>): enumerations, error flags, constants. \<open>Utilities\<close> (\<open>src/Utilities.cpp\<close>):
    byte splitting, hexadecimal text, printing and the clean-up of logs. \<open>Log_Files\<close>: the set-up of the log, its
    levels, and the printing of the configuration. \<open>Single_Float\<close>: the single-precision
    division of the packetizer's constructor.
  \<^item> \<open>Data_Link\<close> (\<open>src/DataLinkLayer.cpp\<close>), \<open>Systems\<close> (\<open>src/Systems.cpp\<close>, \<open>src/DirectMemoryAccess.cpp\<close>,
    \<open>src/Timing.cpp\<close>): the configuration data.
  \<^item> \<open>Downlink_Element\<close>, \<open>Packet_Framer\<close>, \<open>Frame_Packetizer\<close>, \<open>System_Manager\<close> (\<open>src/Buffers.cpp\<close>): a packet of the
    downlink queue and its header; the reassembly of a frame from packets; its cutting into elements, with the queueing
    loop of \<open>Drain\<close> (locale \<open>chunk_source\<close>, which the packetizer interprets); uplink elements and the per-system state.
  \<^item> \<open>Commands\<close>, \<open>Rmap_Packets\<close> (\<open>src/Commanding.cpp\<close>): the command table, loaded from JSON (locale \<open>first_wins_store\<close>,
    interpreted for the deck and for the frame counters of the manager), and the packets made from it, against a decoder
    written from the RMAP standard.
  \<^item> \<open>Ring_Buffer\<close>, \<open>Fragments\<close>, \<open>Ticker\<close>, \<open>Uart_Port\<close> (\<open>src/RingBufferInterface.cpp\<close>, \<open>src/Fragmenter.cpp\<close>,
    \<open>src/Ticker.cpp\<close>, \<open>src/UartInterface.cpp\<close>): the deprecated classes and the serial port over \<open>termios\<close>.
  \<^item> \<open>Machine\<close>, \<open>Command_Dispatch\<close>, \<open>Remote_Buffer\<close>, \<open>Traffic\<close>, \<open>Async_Uplink\<close>, \<open>Transport_Setup\<close>
    (\<open>src/TransportLayer.cpp\<close>): the state of the transport with its timed reads and retries; sending commands and
    confirming writes; the transaction that reads a frame from a remote ring; the downlink loop and the receipt of uplink
    commands; the chain of asynchronous receives; the three constructors, the setters, and the functions that wait in
    the \<open>io_context\<close>. The reads of \<open>Machine\<close> share the contract of the locale \<open>timed_read\<close>, which the TCP, UART and
    housekeeping reads interpret. \<open>Timed_Reads\<close> has the same reads down to the \<open>io_context\<close>.
  \<^item> \<open>Circle\<close> (\<open>src/Circle.cpp\<close>): the turns, the initialisation and the health packet. \<open>Line_Interface\<close>
    (\<open>src/LineInterface.cpp\<close>): options and configuration file. \<open>Formatter\<close> (\<open>apps/main.cpp\<close>): the objects \<open>main\<close> builds
    and the loop it runs.
  \<^item> \<open>Responder\<close> (\<open>src/Foxsimile.cpp\<close>), \<open>Simulator_Program\<close> (\<open>apps/foxsimile.cpp\<close>): the simulator, its handlers as an
    \<open>inductive\<close> step relation, and the program that starts it.
\<close>

text \<open>
  \<^bold>\<open>What is proved\<close>, beside the behaviour of the operations in their own theories.

  \<^item> From end to end (\<open>Ground_Path\<close>, \<open>Closed_Loop\<close>, \<open>Uplink_Path\<close>): the packets of a frame in a remote ring come out as datagrams that
    read back as the frame; this implements the copy of a block of remote memory; and the simulator, asked by the flight
    software, feeds the ground with its image. The other way, a command uplinked as two bytes ends up in the memory image
    of its detector, however often the dispatch repeats it.
  \<^item> Of the reads (\<open>Timed_Reads\<close>): the scripts of outcomes on which the abstract reads run are what the sockets do when
    bytes arrive at given times. Two kinds of read never return: any TCP read while an operation on another handle stays
    pending, and a read of the ground's UDP socket while the ground is silent (lemma \<open>silent_ground_waits\<close> of \<open>Traffic\<close>),
    since its timeout cancels another socket.
  \<^item> Of the loop: \<open>Runs\<close> is a calculus of invariants (\<open>runs\<close>) for operations; with it \<open>Main_Loop\<close> shows that every turn
    returns and keeps the roster, the deck and the queue keys, and that every queued element can be sent, from which
    \<open>Loop_Properties\<close> has the order of the turns, the absence of hangs, the cost of an abandoned system and the round
    trip of the health packet. \<open>Formatter\<close> carries this to \<open>main\<close>.
  \<^item> Of memory safety: \<open>Machine_Safety\<close> has types for the state (which pointers are set, which sizes chosen) and a
    calculus \<open>safe\<close> for operations that keep them and never reach \<open>Undefined\<close>; \<open>Loop_Safety\<close> applies it to every turn
    and to the initialisation, \<open>Formatter_Safety\<close> to \<open>main\<close>, for every configuration that is well-typed. What remains is
    one variable, \<open>did_queue_hk\<close>, which the turn of a silent \<open>cdte1\<close> reads without having set it. Queued elements point to
    the systems of the deck, which outlive them.
  \<^item> Of the simulator: \<open>Responder_Properties\<close> and \<open>Responder_Steps\<close> show that written bytes are read back, that a
    request is reassembled from the pieces in which TCP delivers it; \<open>Write_Pointers\<close> shows what the ticks of its timer do
    to the write pointers of all rings. Whatever logs an error there (a failed lookup, a checksum of another version than
    \<open>f\<close>, an integer of fewer than four bytes) is undefined, since the simulator has no logger.

  Where a theorem needs a hypothesis, the lemma named after it with the suffix \<open>_witness\<close> applies it to a concrete input.

  \<^bold>\<open>Not modelled.\<close> The vendored libraries (\<open>include/spdlog\<close>, \<open>include/moodycamel\<close>). \<open>src/Logger.cpp\<close>, whose class is
  declared but not implemented: its constructor computes nothing. \<open>apps/shutdown_systems.cpp\<close> and \<open>apps/stop_systems.cpp\<close>,
  which use a constructor and a socket that \<open>TransportLayerMachine\<close> does not have, and never set up the logger; and \<open>apps/log.cpp\<close>, which only builds a
  \<open>LineInterface\<close>. Of the modelled files: the operations that are declared without a body, the lines of the log (that building
  them can throw is modelled, and in the simulator, which never sets the logger up, that writing them is undefined),
  the waits of the initialisation, wall-clock time (an argument), and the
  normalised periods of \<open>Circle\<close>, which are computed in floating point from a variable that is never set (arguments).
  Tests, tools and documentation are not code of the program.
\<close>

end
